(* ===== verification/Relay_Prelude.thy ===== *)
theory Relay_Prelude
  imports Main "HOL-Library.Multiset" "HOL-Library.Char_ord" "HOL-Library.List_Lexorder"
begin

text \<open>
  Shared vocabulary of the development: the types every component uses (identifiers, time, the
  outcome of SQL statements), the Go string functions the sources call, the relational operations
  that SQL statements denote, and the generic lemmas on them.

  Strings are byte lists, as Go strings are. \<open>strings.ToLower\<close> and \<open>strings.TrimSpace\<close>
  are given on ASCII; bytes above 127 are left alone. Time is an integer number of nanoseconds, as
  \<open>time.Duration\<close> is; a comparison of two times is the comparison of the integers.
\<close>

named_theorems relay_defs "definitions the component proofs unfold"
named_theorems table_simps "facts on the relational operations"
named_theorems reply_simps "facts on HTTP replies"

type_synonym time = int

text \<open>
  A driver fault (disk, lock timeout) can strike any SQL statement. An operation takes the faults
  of its run: \<open>io k\<close> says that its \<open>k\<close>-th statement reaches the database.
\<close>

type_synonym faults = "nat \<Rightarrow> bool"

abbreviation no_faults :: faults where
  "no_faults \<equiv> (\<lambda>_. True)"

definition second :: time where
  "second = 1000000000"

definition minute :: time where
  "minute = 60 * second"

definition hour :: time where
  "hour = 60 * minute"

definition day :: time where
  "day = 24 * hour"

lemmas duration_defs = second_def minute_def hour_def day_def

section \<open>Go string functions\<close>

definition has_prefix :: "string \<Rightarrow> string \<Rightarrow> bool" where
  "has_prefix s p = (take (length p) s = p)"

definition trim_prefix :: "string \<Rightarrow> string \<Rightarrow> string" where
  "trim_prefix s p = (if has_prefix s p then drop (length p) s else s)"

text \<open>\<open>strings.Index\<close>: the position of the first occurrence; \<open>None\<close> is its \<open>-1\<close>.\<close>

fun str_index :: "string \<Rightarrow> string \<Rightarrow> nat option" where
  "str_index [] sub = (if sub = [] then Some 0 else None)"
| "str_index (c # cs) sub =
     (if has_prefix (c # cs) sub then Some 0 else map_option Suc (str_index cs sub))"

definition str_contains :: "string \<Rightarrow> string \<Rightarrow> bool" where
  "str_contains s sub = (str_index s sub \<noteq> None)"

definition lower_char :: "char \<Rightarrow> char" where
  "lower_char c = (let n = of_char c :: nat in if 65 \<le> n \<and> n \<le> 90 then char_of (n + 32) else c)"

definition upper_char :: "char \<Rightarrow> char" where
  "upper_char c = (let n = of_char c :: nat in if 97 \<le> n \<and> n \<le> 122 then char_of (n - 32) else c)"

definition to_lower :: "string \<Rightarrow> string" where
  "to_lower = map lower_char"

definition to_upper :: "string \<Rightarrow> string" where
  "to_upper = map upper_char"

definition is_space :: "char \<Rightarrow> bool" where
  "is_space c = (let n = of_char c :: nat in n = 32 \<or> (9 \<le> n \<and> n \<le> 13))"

definition trim_space :: "string \<Rightarrow> string" where
  "trim_space s = rev (dropWhile is_space (rev (dropWhile is_space s)))"

text \<open>\<open>strings.Split\<close> at a one-byte separator: never the empty list.\<close>

fun str_split :: "char \<Rightarrow> string \<Rightarrow> string list" where
  "str_split sep [] = [[]]"
| "str_split sep (c # cs) =
     (if c = sep then [] # str_split sep cs
      else (case str_split sep cs of [] \<Rightarrow> [[c]] | w # ws \<Rightarrow> (c # w) # ws))"

text \<open>\<open>strings.SplitN\<close> with \<open>n = 2\<close>: one cut at the first separator.\<close>

definition str_split2 :: "char \<Rightarrow> string \<Rightarrow> string list" where
  "str_split2 sep s =
     (case dropWhile (\<lambda>c. c \<noteq> sep) s of [] \<Rightarrow> [s] | _ # rest \<Rightarrow> [takeWhile (\<lambda>c. c \<noteq> sep) s, rest])"

lemma has_prefix_append [simp]: "has_prefix (p @ s) p"
  by (simp add: has_prefix_def)

lemma has_prefix_iff: "has_prefix s p \<longleftrightarrow> (\<exists>t. s = p @ t)"
  by (metis has_prefix_def append_take_drop_id append_eq_conv_conj)

lemma trim_prefix_append [simp]: "trim_prefix (p @ s) p = s"
  by (simp add: trim_prefix_def)

lemma str_index_Some_iff:
  "str_index s sub = Some i \<longleftrightarrow>
     i \<le> length s \<and> has_prefix (drop i s) sub \<and> (\<forall>j < i. \<not> has_prefix (drop j s) sub)"
proof (induction s arbitrary: i)
  case Nil
  then show ?case by (auto simp: has_prefix_def)
next
  case (Cons c cs)
  show ?case
  proof (cases i)
    case 0
    then show ?thesis by auto
  next
    case (Suc k)
    have "(\<forall>j < Suc k. \<not> has_prefix (drop j (c # cs)) sub) \<longleftrightarrow>
        \<not> has_prefix (c # cs) sub \<and> (\<forall>j < k. \<not> has_prefix (drop j cs) sub)"
      by (auto simp: less_Suc_eq_0_disj)
    with Suc show ?thesis by (auto simp: Cons.IH)
  qed
qed

lemma str_index_None_iff: "str_index s sub = None \<longleftrightarrow> (\<forall>i < Suc (length s). \<not> has_prefix (drop i s) sub)"
  by (induction s) (auto simp: has_prefix_def All_less_Suc2)

lemma trim_space_Nil [simp]: "trim_space [] = []"
  by (simp add: trim_space_def)

lemma dropWhile_rev_idem: "dropWhile P (rev (dropWhile P (rev (dropWhile P xs)))) = rev (dropWhile P (rev (dropWhile P xs)))"
proof (cases "dropWhile P xs")
  case Nil
  show ?thesis by (simp only: Nil) simp
next
  case (Cons y ys)
  then have "\<not> P y" by (simp add: dropWhile_eq_Cons_conv)
  then have "dropWhile P (rev (y # ys)) = dropWhile P (rev ys) @ [y]"
    by (simp add: dropWhile_append3 dropWhile_append)
  with Cons \<open>\<not> P y\<close> show ?thesis by simp
qed

lemma trim_space_idem [simp]: "trim_space (trim_space s) = trim_space s"
  unfolding trim_space_def by (simp add: dropWhile_rev_idem)

lemma str_split_nonempty [simp]: "str_split sep s \<noteq> []"
  by (cases s) (auto split: list.splits)

section \<open>Relational operations\<close>

text \<open>
  A table is the list of its rows in rowid order. \<open>sql_row\<close> is \<open>QueryRow\<close> with a
  \<open>WHERE\<close> clause (the first match, \<open>None\<close> is \<open>sql.ErrNoRows\<close>); \<open>sql_update\<close> and
  \<open>sql_delete\<close> are the statements of the same names.
\<close>

definition sql_row :: "('r \<Rightarrow> bool) \<Rightarrow> 'r list \<Rightarrow> 'r option" where
  "sql_row p t = List.find p t"

definition sql_select :: "('r \<Rightarrow> bool) \<Rightarrow> 'r list \<Rightarrow> 'r list" where
  "sql_select p t = filter p t"

definition sql_has :: "('r \<Rightarrow> bool) \<Rightarrow> 'r list \<Rightarrow> bool" where
  "sql_has p t = list_ex p t"

definition sql_update :: "('r \<Rightarrow> bool) \<Rightarrow> ('r \<Rightarrow> 'r) \<Rightarrow> 'r list \<Rightarrow> 'r list" where
  "sql_update p f t = map (\<lambda>r. if p r then f r else r) t"

definition sql_delete :: "('r \<Rightarrow> bool) \<Rightarrow> 'r list \<Rightarrow> 'r list" where
  "sql_delete p t = filter (\<lambda>r. \<not> p r) t"

definition sql_count :: "('r \<Rightarrow> bool) \<Rightarrow> 'r list \<Rightarrow> nat" where
  "sql_count p t = length (filter p t)"

text \<open>\<open>ORDER BY\<close> one key, ties in rowid order; \<open>sql_order_desc\<close> is \<open>ORDER BY ... DESC\<close>.\<close>

definition sql_order :: "('r \<Rightarrow> 'k::linorder) \<Rightarrow> 'r list \<Rightarrow> 'r list" where
  "sql_order k t = sort_key k t"

definition sql_order_desc :: "('r \<Rightarrow> int) \<Rightarrow> 'r list \<Rightarrow> 'r list" where
  "sql_order_desc k t = sort_key (\<lambda>r. - k r) t"

lemma sql_row_None_iff [table_simps]: "sql_row p t = None \<longleftrightarrow> (\<forall>r \<in> set t. \<not> p r)"
  by (auto simp: sql_row_def find_None_iff)

lemma sql_row_SomeD: "sql_row p t = Some r \<Longrightarrow> r \<in> set t \<and> p r"
  by (auto simp: sql_row_def find_Some_iff)

lemma sql_row_Nil [simp]: "sql_row p [] = None"
  by (simp add: sql_row_def)

lemma sql_row_Cons [simp]: "sql_row p (r # t) = (if p r then Some r else sql_row p t)"
  by (simp add: sql_row_def)

lemma sql_row_append [table_simps]:
  "sql_row p (t @ u) = (case sql_row p t of None \<Rightarrow> sql_row p u | Some r \<Rightarrow> Some r)"
  by (induction t) auto

lemma sql_has_iff [table_simps]: "sql_has p t \<longleftrightarrow> (\<exists>r \<in> set t. p r)"
  by (simp add: sql_has_def list_ex_iff)

lemma sql_row_snoc: "\<not> sql_has p t \<Longrightarrow> p r \<Longrightarrow> sql_row p (t @ [r]) = Some r"
  by (induction t) (auto simp: sql_has_def)

lemma set_sql_select [simp]: "set (sql_select p t) = {r \<in> set t. p r}"
  by (simp add: sql_select_def)

lemma set_sql_delete [simp]: "set (sql_delete p t) = {r \<in> set t. \<not> p r}"
  by (auto simp: sql_delete_def)

lemma set_sql_update [simp]: "set (sql_update p f t) = (\<lambda>r. if p r then f r else r) ` set t"
  by (simp add: sql_update_def)

lemma set_sql_order [simp]: "set (sql_order k t) = set t"
  by (simp add: sql_order_def)

lemma set_sql_order_desc [simp]: "set (sql_order_desc k t) = set t"
  by (simp add: sql_order_desc_def)

lemma length_sql_update [simp]: "length (sql_update p f t) = length t"
  by (simp add: sql_update_def)

lemma sql_row_delete_other:
  "(\<And>r. r \<in> set t \<Longrightarrow> q r \<Longrightarrow> \<not> p r) \<Longrightarrow> sql_row q (sql_delete p t) = sql_row q t"
  by (induction t) (auto simp: sql_delete_def)

lemma sql_row_deleted: "(\<And>r. q r \<Longrightarrow> p r) \<Longrightarrow> sql_row q (sql_delete p t) = None"
  by (auto simp: sql_row_None_iff)

lemma sql_row_update:
  "(\<And>r. q (f r) = q r) \<Longrightarrow>
     sql_row q (sql_update p f t) = map_option (\<lambda>r. if p r then f r else r) (sql_row q t)"
  by (induction t) (auto simp: sql_update_def)

lemma sql_has_update: "(\<And>r. q (f r) = q r) \<Longrightarrow> sql_has q (sql_update p f t) = sql_has q t"
  by (induction t) (auto simp: sql_has_def sql_update_def)

lemma distinct_map_sql_delete: "distinct (map k t) \<Longrightarrow> distinct (map k (sql_delete p t))"
  by (simp add: sql_delete_def distinct_map_filter)

lemma map_sql_update: "(\<And>r. k (f r) = k r) \<Longrightarrow> map k (sql_update p f t) = map k t"
  by (simp add: sql_update_def)

lemma sql_row_unique:
  "distinct (map k t) \<Longrightarrow> r \<in> set t \<Longrightarrow> sql_row (\<lambda>x. k x = k r) t = Some r"
  by (induction t) (auto simp: image_iff)

lemma distinct_key_eq: "distinct (map k t) \<Longrightarrow> r \<in> set t \<Longrightarrow> s \<in> set t \<Longrightarrow> k r = k s \<Longrightarrow> r = s"
  by (induction t) (auto simp: image_iff)

lemma sql_has_disj [simp]: "sql_has (\<lambda>r. p r \<or> q r) t \<longleftrightarrow> sql_has p t \<or> sql_has q t"
  by (auto simp: sql_has_iff)

text \<open>A table is in order when a key column is unique in it and each row passes a check.\<close>

definition tbl_ok :: "('r \<Rightarrow> 'k) \<Rightarrow> ('r \<Rightarrow> bool) \<Rightarrow> 'r list \<Rightarrow> bool" where
  "tbl_ok key ok t \<longleftrightarrow> distinct (map key t) \<and> (\<forall>r \<in> set t. ok r)"

lemma tbl_ok_Nil [simp]: "tbl_ok key ok []"
  by (simp add: tbl_ok_def)

lemma tbl_ok_snoc [simp]:
  "tbl_ok key ok (t @ [r]) \<longleftrightarrow> tbl_ok key ok t \<and> \<not> sql_has (\<lambda>x. key x = key r) t \<and> ok r"
  by (auto simp: tbl_ok_def sql_has_iff image_iff dest: sym)

lemma tbl_ok_mono: "tbl_ok key ok t \<Longrightarrow> (\<And>r. ok r \<Longrightarrow> ok' r) \<Longrightarrow> tbl_ok key ok' t"
  by (simp add: tbl_ok_def)

lemma tbl_ok_delete:
  "tbl_ok key ok t \<Longrightarrow> (\<And>r. ok r \<Longrightarrow> \<not> p r \<Longrightarrow> ok' r) \<Longrightarrow> tbl_ok key ok' (sql_delete p t)"
  by (auto simp: tbl_ok_def distinct_map_sql_delete)

lemma tbl_ok_update:
  "tbl_ok key ok t \<Longrightarrow> (\<And>r. key (f r) = key r) \<Longrightarrow> (\<And>r. ok r \<Longrightarrow> \<not> p r \<Longrightarrow> ok' r) \<Longrightarrow>
     (\<And>r. ok r \<Longrightarrow> p r \<Longrightarrow> ok' (f r)) \<Longrightarrow> tbl_ok key ok' (sql_update p f t)"
  by (auto simp: tbl_ok_def map_sql_update)

lemma tbl_ok_strengthen:
  "tbl_ok key ok t \<Longrightarrow> (\<And>r. r \<in> set t \<Longrightarrow> ok r \<Longrightarrow> ok' r) \<Longrightarrow> tbl_ok key ok' t"
  by (simp add: tbl_ok_def)

lemma tbl_okD: "tbl_ok key ok t \<Longrightarrow> r \<in> set t \<Longrightarrow> ok r"
  by (simp add: tbl_ok_def)

lemma tbl_ok_row: "tbl_ok key ok t \<Longrightarrow> r \<in> set t \<Longrightarrow> sql_row (\<lambda>x. key x = key r) t = Some r"
  by (simp add: tbl_ok_def sql_row_unique)

lemma tbl_ok_key_eq: "tbl_ok key ok t \<Longrightarrow> r \<in> set t \<Longrightarrow> s \<in> set t \<Longrightarrow> key r = key s \<Longrightarrow> r = s"
  by (auto simp: tbl_ok_def intro: distinct_key_eq)

text \<open>
  The contract of an \<open>UPDATE\<close> that does not touch a key column: the keys stay, and a lookup by
  key sees the new row.
\<close>

locale keyed_update =
  fixes key :: "'r \<Rightarrow> 'k" and upd :: "'r \<Rightarrow> 'r"
  assumes key_upd: "key (upd r) = key r"
begin

lemma keys_kept: "map key (sql_update p upd t) = map key t"
  by (simp add: map_sql_update key_upd)

lemma distinct_kept: "distinct (map key t) \<Longrightarrow> distinct (map key (sql_update p upd t))"
  by (simp add: keys_kept)

lemma tbl_ok_kept:
  "tbl_ok key ok t \<Longrightarrow> (\<And>r. ok r \<Longrightarrow> ok (upd r)) \<Longrightarrow> tbl_ok key ok (sql_update p upd t)"
  by (auto simp: tbl_ok_def keys_kept)

lemma row_after: "sql_row (\<lambda>r. key r = x) (sql_update p upd t) =
    map_option (\<lambda>r. if p r then upd r else r) (sql_row (\<lambda>r. key r = x) t)"
  by (rule sql_row_update) (simp add: key_upd)

end

section \<open>Results of store operations\<close>

text \<open>
  What a statement can fail with. The stores wrap these errors with \<open>%w\<close>, which keeps the text
  the handlers look for (\<open>UNIQUE constraint\<close>), so the cause is what the model keeps.
\<close>

datatype store_error =
    DriverError
  | UniqueViolation
  | CheckViolation
  | ForeignKeyViolation
  | HashError
  | NoRows
  | InvalidTier string
  | InvalidSlug
  | CryptoError

type_synonym 'a res = "store_error + 'a"

text \<open>One SQL statement: a driver fault leaves the database as it was.\<close>

definition stmt :: "bool \<Rightarrow> 'a res \<Rightarrow> 'a res" where
  "stmt ok r = (if ok then r else Inl DriverError)"

definition res_bind :: "'a res \<Rightarrow> ('a \<Rightarrow> 'b res) \<Rightarrow> 'b res" where
  "res_bind r f = (case r of Inl e \<Rightarrow> Inl e | Inr a \<Rightarrow> f a)"

text \<open>A statement whose error is discarded (\<open>_, _ = s.db.Exec(...)\<close>).\<close>

definition res_or :: "'a \<Rightarrow> 'a res \<Rightarrow> 'a" where
  "res_or d r = (case r of Inl _ \<Rightarrow> d | Inr a \<Rightarrow> a)"

lemma stmt_simps [simp]: "stmt True r = r" "stmt False r = Inl DriverError"
  by (simp_all add: stmt_def)

lemma stmt_Inr_iff: "stmt ok r = Inr a \<longleftrightarrow> ok \<and> r = Inr a"
  by (simp add: stmt_def)

lemma res_bind_simps [simp]: "res_bind (Inl e) f = Inl e" "res_bind (Inr a) f = f a"
  by (simp_all add: res_bind_def)

lemma res_bind_Inr_iff: "res_bind r f = Inr b \<longleftrightarrow> (\<exists>a. r = Inr a \<and> f a = Inr b)"
  by (cases r) auto

lemma res_or_simps [simp]: "res_or d (Inl e) = d" "res_or d (Inr a) = a"
  by (simp_all add: res_or_def)

lemma res_or_cases: "res_or d r = d \<or> r = Inr (res_or d r)"
  by (cases r) auto

lemma res_or_pres: "P d \<Longrightarrow> (\<And>a. r = Inr a \<Longrightarrow> P a) \<Longrightarrow> P (res_or d r)"
  by (cases r) auto

text \<open>
  \<open>Exec\<close>: a failing statement leaves the state alone and hands its error on. \<open>exec_ignore\<close> is
  the same with the error dropped.
\<close>

definition exec :: "bool \<Rightarrow> ('s \<Rightarrow> 's res) \<Rightarrow> 's \<Rightarrow> 's \<times> unit res" where
  "exec ok f s = (case stmt ok (f s) of Inl e \<Rightarrow> (s, Inl e) | Inr s' \<Rightarrow> (s', Inr ()))"

definition exec_ignore :: "bool \<Rightarrow> ('s \<Rightarrow> 's res) \<Rightarrow> 's \<Rightarrow> 's" where
  "exec_ignore ok f s = res_or s (stmt ok (f s))"

text \<open>The faults left after the first \<open>n\<close> statements.\<close>

definition after_stmts :: "nat \<Rightarrow> faults \<Rightarrow> faults" where
  "after_stmts n io = (\<lambda>k. io (n + k))"

lemma after_stmts_apply [simp]: "after_stmts n io k = io (n + k)"
  by (simp add: after_stmts_def)

lemma exec_cases:
  "exec ok f s = (s', r) \<Longrightarrow> (s' = s \<and> (\<exists>e. r = Inl e)) \<or> (ok \<and> f s = Inr s' \<and> r = Inr ())"
  by (auto simp: exec_def stmt_def split: if_splits sum.splits)

lemma exec_pres: "P s \<Longrightarrow> (\<And>s'. f s = Inr s' \<Longrightarrow> P s') \<Longrightarrow> P (fst (exec ok f s))"
  by (auto simp: exec_def stmt_def split: sum.splits)

lemma exec_ignore_pres: "P s \<Longrightarrow> (\<And>s'. f s = Inr s' \<Longrightarrow> P s') \<Longrightarrow> P (exec_ignore ok f s)"
  by (auto simp: exec_ignore_def stmt_def res_or_def split: sum.splits)

text \<open>\<open>LIMIT\<close>: a negative limit is no limit.\<close>

definition sql_limit :: "int \<Rightarrow> 'r list \<Rightarrow> 'r list" where
  "sql_limit n t = (if n < 0 then t else take (nat n) t)"

section \<open>Single-use credentials\<close>

text \<open>
  The contract of a credential that is spent by its use (an invite, an authorization code, a refresh
  token, a device code). Other operations of the store may run in between, as long as none of them
  brings the credential back.
\<close>

datatype ('e, 's) use = Try 'e | Other "'s \<Rightarrow> 's"

text \<open>What a sequence of attempts, with other operations in between, hands out.\<close>

fun handed_out :: "('e \<Rightarrow> 's \<Rightarrow> 's \<times> 'r option) \<Rightarrow> ('e, 's) use list \<Rightarrow> 's \<Rightarrow> 'r list" where
  "handed_out consume [] s = []"
| "handed_out consume (Try e # us) s =
     (case consume e s of (s', None) \<Rightarrow> handed_out consume us s' | (s', Some r) \<Rightarrow> r # handed_out consume us s')"
| "handed_out consume (Other f # us) s = handed_out consume us (f s)"

locale one_shot =
  fixes consume :: "'e \<Rightarrow> 's \<Rightarrow> 's \<times> 'r option"
    and others :: "('s \<Rightarrow> 's) set"
    and inv :: "'s \<Rightarrow> bool"
    and live :: "'s \<Rightarrow> bool"
  assumes consume_inv: "inv s \<Longrightarrow> inv (fst (consume e s))"
    and other_inv: "f \<in> others \<Longrightarrow> inv s \<Longrightarrow> inv (f s)"
    and consume_live: "consume e s = (s', Some r) \<Longrightarrow> live s"
    and consume_spends: "inv s \<Longrightarrow> consume e s = (s', Some r) \<Longrightarrow> \<not> live s'"
    and consume_dead: "\<not> live s \<Longrightarrow> \<not> live (fst (consume e s))"
    and other_dead: "f \<in> others \<Longrightarrow> \<not> live s \<Longrightarrow> \<not> live (f s)"
begin

lemma dead_not_consumed: "\<not> live s \<Longrightarrow> snd (consume e s) = None"
  using consume_live [of e s "fst (consume e s)"] by (cases "consume e s"; cases "snd (consume e s)") auto

lemma dead_never_used:
  "\<not> live s \<Longrightarrow> (\<And>f. Other f \<in> set us \<Longrightarrow> f \<in> others) \<Longrightarrow> handed_out consume us s = []"
proof (induction us arbitrary: s)
  case (Cons u us)
  show ?case
  proof (cases u)
    case (Try e)
    obtain s' where "consume e s = (s', None)"
      using dead_not_consumed [OF Cons.prems(1), of e] by (cases "consume e s") auto
    with Try Cons.IH [of s'] consume_dead [OF Cons.prems(1), of e] Cons.prems(2) show ?thesis by simp
  next
    case (Other f)
    with Cons.prems(2) [of f] other_dead Cons.prems(1) have "\<not> live (f s)" by simp
    with Cons.IH [of "f s"] Cons.prems(2) Other show ?thesis by simp
  qed
qed simp

lemma used_at_most_once:
  "inv s \<Longrightarrow> (\<And>f. Other f \<in> set us \<Longrightarrow> f \<in> others) \<Longrightarrow> length (handed_out consume us s) \<le> 1"
proof (induction us arbitrary: s)
  case (Cons u us)
  show ?case
  proof (cases u)
    case (Try e)
    obtain s' r where step: "consume e s = (s', r)" by fastforce
    show ?thesis
    proof (cases r)
      case None
      with step consume_inv [OF Cons.prems(1), of e] Cons.IH [of s'] Cons.prems(2) Try show ?thesis by simp
    next
      case (Some x)
      with step Cons.prems(1) have "\<not> live s'" by (auto dest: consume_spends)
      with dead_never_used [of s' us] Cons.prems(2) Try step Some show ?thesis by simp
    qed
  next
    case (Other f)
    with Cons.prems(2) [of f] other_inv Cons.prems(1) have "inv (f s)" by simp
    with Cons.IH [of "f s"] Cons.prems(2) Other show ?thesis by simp
  qed
qed simp

end

section \<open>Refinement\<close>

text \<open>The answers of a step function along a sequence of operations, and the state it ends in.\<close>

fun run_steps :: "('e \<Rightarrow> 's \<Rightarrow> 's \<times> 'o) \<Rightarrow> 'e list \<Rightarrow> 's \<Rightarrow> 's \<times> 'o list" where
  "run_steps step [] s = (s, [])"
| "run_steps step (e # es) s = (case step e s of (s', v) \<Rightarrow> (case run_steps step es s' of (s'', vs) \<Rightarrow> (s'', v # vs)))"

fun all_legal :: "('e \<Rightarrow> 's \<Rightarrow> bool) \<Rightarrow> ('e \<Rightarrow> 's \<Rightarrow> 's \<times> 'o) \<Rightarrow> 'e list \<Rightarrow> 's \<Rightarrow> bool" where
  "all_legal legal step [] s = True"
| "all_legal legal step (e # es) s = (legal e s \<and> all_legal legal step es (fst (step e s)))"

text \<open>
  The contract of an implementation against its specification: related states give the same answer
  to every operation the environment may issue, and stay related.
\<close>

locale simulation =
  fixes cstep :: "'e \<Rightarrow> 'c \<Rightarrow> 'c \<times> 'o" and astep :: "'e \<Rightarrow> 'a \<Rightarrow> 'a \<times> 'o"
    and sim :: "'c \<Rightarrow> 'a \<Rightarrow> bool" and legal :: "'e \<Rightarrow> 'a \<Rightarrow> bool"
  assumes answers: "sim c a \<Longrightarrow> legal e a \<Longrightarrow> snd (cstep e c) = snd (astep e a)"
    and related: "sim c a \<Longrightarrow> legal e a \<Longrightarrow> sim (fst (cstep e c)) (fst (astep e a))"
begin

lemma run_refines:
  "sim c a \<Longrightarrow> all_legal legal astep es a \<Longrightarrow>
     snd (run_steps cstep es c) = snd (run_steps astep es a) \<and> sim (fst (run_steps cstep es c)) (fst (run_steps astep es a))"
proof (induction es arbitrary: c a)
  case (Cons e es)
  from Cons.prems have "snd (cstep e c) = snd (astep e a)" "sim (fst (cstep e c)) (fst (astep e a))"
    by (simp_all add: answers related)
  with Cons.IH [of "fst (cstep e c)" "fst (astep e a)"] Cons.prems(2) show ?case by (simp add: case_prod_beta)
qed simp

end

section \<open>External cryptography\<close>

text \<open>
  \<open>bcrypt\<close>, SHA-256 and HMAC are arguments of the operations that use them. \<open>bcrypt_gen\<close>
  takes the salt it drew; \<open>None\<close> is its error (a password of more than 72 bytes).
\<close>

record crypto =
  bcrypt_gen :: "string \<Rightarrow> string \<Rightarrow> string option"
  bcrypt_cmp :: "string \<Rightarrow> string \<Rightarrow> bool"
  sha256_hex :: "string \<Rightarrow> string"
  hmac_hex :: "string \<Rightarrow> string \<Rightarrow> string"
  s256_challenge :: "string \<Rightarrow> string"

text \<open>The documented promise of bcrypt: a hash it made accepts the password it was made from.\<close>

definition bcrypt_accepts_own :: "crypto \<Rightarrow> bool" where
  "bcrypt_accepts_own cr \<longleftrightarrow> (\<forall>salt pw h. bcrypt_gen cr salt pw = Some h \<longrightarrow> bcrypt_cmp cr h pw)"

text \<open>A concrete instance, for the evaluation of examples.\<close>

definition demo_crypto :: crypto where
  "demo_crypto =
     \<lparr>bcrypt_gen = (\<lambda>salt pw. if 72 < length pw then None else Some (''h'' @ pw)),
      bcrypt_cmp = (\<lambda>h pw. h = ''h'' @ pw),
      sha256_hex = (\<lambda>s. ''s'' @ s),
      hmac_hex = (\<lambda>key m. ''m'' @ key @ m),
      s256_challenge = (\<lambda>v. ''c'' @ v)\<rparr>"

lemma demo_crypto_simps [simp]:
  "bcrypt_gen demo_crypto salt pw = (if 72 < length pw then None else Some (''h'' @ pw))"
  "bcrypt_cmp demo_crypto h pw = (h = ''h'' @ pw)"
  "sha256_hex demo_crypto s = ''s'' @ s"
  "hmac_hex demo_crypto key m = ''m'' @ key @ m"
  "s256_challenge demo_crypto v = ''c'' @ v"
  by (simp_all add: demo_crypto_def)

lemma demo_crypto_accepts_own: "bcrypt_accepts_own demo_crypto"
  by (simp add: bcrypt_accepts_own_def)

end
