(* ===== verification/Relay_DB.thy ===== *)
theory Relay_DB
  imports Relay_Prelude
begin

text \<open>
  The relay's SQLite database: one record of rows per table, the schema's constraints
  (\<open>migrations/*.sql\<close>) as the failure branches of the insertions, and the referential actions
  as part of the deletions. \<open>db_wf\<close> is what the schema promises of every state: keys are
  unique, \<open>CHECK\<close> columns hold listed values, references point to rows. Every operation of the
  stores is built from the primitives of this theory, and each primitive keeps \<open>db_wf\<close>.

  The tables of requests, skills, recipes and tool optimisations are not part of the record; the
  actions the schema attaches to them are not needed by any operation modelled here.
\<close>

section \<open>Rows\<close>

record user_row =
  ur_id :: string
  ur_username :: string
  ur_password_hash :: string
  ur_role :: string
  ur_access_level :: string
  ur_default_profile_id :: "string option"
  ur_must_change_password :: bool
  ur_created_at :: time

text \<open>
  The \<open>capabilities\<close> column is JSON text; the model keeps what it decodes to, \<open>None\<close> for
  text that is not a JSON array of strings.
\<close>

record api_key_row =
  kr_id :: string
  kr_user_id :: string
  kr_key_hash :: string
  kr_name :: string
  kr_profile_id :: "string option"
  kr_created_at :: time
  kr_last_used :: "time option"
  kr_revoked :: bool
  kr_capabilities :: "string list option"

record session_row =
  sr_id :: string
  sr_user_id :: string
  sr_expires_at :: time

record InviteToken =
  it_ID :: string
  it_TokenHash :: string
  it_Role :: string
  it_AccessLevel :: string
  it_ProfileID :: "string option"
  it_CreatedBy :: string
  it_ExpiresAt :: time
  it_UsedAt :: "time option"
  it_RedeemedUserID :: "string option"
  it_Status :: string

record AgentProfile =
  ap_ID :: string
  ap_Name :: string
  ap_Description :: string
  ap_CreatedAt :: time
  ap_UpdatedAt :: time

record ProfilePermission =
  pp_ProfileID :: string
  pp_ServerID :: string
  pp_EndpointType :: string
  pp_EndpointName :: string

record EndpointTier =
  et_ServerID :: string
  et_EndpointType :: string
  et_EndpointName :: string
  et_AccessTier :: string
  et_AutoClassified :: bool

text \<open>A row of \<open>oauth_tokens\<close> and a row of \<open>oauth_refresh_tokens\<close> have the same columns.\<close>

record oauth_token_row =
  ot_TokenHash :: string
  ot_UserID :: string
  ot_ClientID :: string
  ot_Scope :: string
  ot_Resource :: string
  ot_ExpiresAt :: time

record OAuthClient =
  oc_ClientID :: string
  oc_ClientSecretHash :: string
  oc_ClientName :: string
  oc_RedirectURIs :: "string list"
  oc_TokenEndpointAuthMethod :: string

record Server =
  sv_ID :: string
  sv_Name :: string
  sv_DisplayName :: string
  sv_ServerType :: string
  sv_Config :: string
  sv_Status :: string
  sv_ErrorMsg :: string
  sv_Health :: string
  sv_HealthCheckAt :: "time option"
  sv_HealthError :: string
  sv_OptimizeEnabled :: bool
  sv_CreatedAt :: time
  sv_UpdatedAt :: time

record MiddlewareConfig =
  mc_ID :: string
  mc_ServerID :: "string option"
  mc_Middleware :: string
  mc_Enabled :: bool
  mc_Config :: string
  mc_Priority :: int
  mc_CreatedAt :: time
  mc_UpdatedAt :: time

record MiddlewareEvent =
  me_ID :: string
  me_Timestamp :: time
  me_ServerID :: string
  me_Middleware :: string
  me_EventType :: string
  me_Summary :: string
  me_RequestMethod :: string
  me_EndpointName :: string
  me_UserID :: string

record relay_db =
  db_users :: "user_row list"
  db_api_keys :: "api_key_row list"
  db_sessions :: "session_row list"
  db_invites :: "InviteToken list"
  db_profiles :: "AgentProfile list"
  db_permissions :: "ProfilePermission list"
  db_tiers :: "EndpointTier list"
  db_oauth_tokens :: "oauth_token_row list"
  db_refresh_tokens :: "oauth_token_row list"
  db_oauth_clients :: "OAuthClient list"
  db_servers :: "Server list"
  db_mw_configs :: "MiddlewareConfig list"
  db_mw_events :: "MiddlewareEvent list"

definition empty_db :: relay_db where
  "empty_db = \<lparr>db_users = [], db_api_keys = [], db_sessions = [], db_invites = [],
     db_profiles = [], db_permissions = [], db_tiers = [], db_oauth_tokens = [],
     db_refresh_tokens = [], db_oauth_clients = [], db_servers = [], db_mw_configs = [],
     db_mw_events = []\<rparr>"

section \<open>Constraints\<close>

definition valid_role :: "string \<Rightarrow> bool" where
  "valid_role r = (r \<in> {''admin'', ''user''})"

definition valid_tier :: "string \<Rightarrow> bool" where
  "valid_tier t = (t \<in> {''read'', ''write'', ''admin''})"

definition valid_endpoint_type :: "string \<Rightarrow> bool" where
  "valid_endpoint_type t = (t \<in> {''tool'', ''resource'', ''prompt''})"

definition valid_invite_status :: "string \<Rightarrow> bool" where
  "valid_invite_status s = (s \<in> {''pending'', ''used'', ''expired''})"

definition valid_server_type :: "string \<Rightarrow> bool" where
  "valid_server_type s = (s \<in> {''stdio'', ''http'', ''remote''})"

definition valid_server_status :: "string \<Rightarrow> bool" where
  "valid_server_status s = (s \<in> {''stopped'', ''starting'', ''running'', ''error''})"

definition valid_health :: "string \<Rightarrow> bool" where
  "valid_health s = (s \<in> {''healthy'', ''unhealthy'', ''unknown''})"

definition user_exists :: "relay_db \<Rightarrow> string \<Rightarrow> bool" where
  "user_exists db i = sql_has (\<lambda>u. ur_id u = i) (db_users db)"

definition profile_exists :: "relay_db \<Rightarrow> string \<Rightarrow> bool" where
  "profile_exists db i = sql_has (\<lambda>p. ap_ID p = i) (db_profiles db)"

definition server_exists :: "relay_db \<Rightarrow> string \<Rightarrow> bool" where
  "server_exists db i = sql_has (\<lambda>s. sv_ID s = i) (db_servers db)"

text \<open>A nullable foreign key is satisfied by NULL.\<close>

definition opt_ref :: "(string \<Rightarrow> bool) \<Rightarrow> string option \<Rightarrow> bool" where
  "opt_ref P r = (case r of None \<Rightarrow> True | Some i \<Rightarrow> P i)"

lemma opt_ref_simps [simp]: "opt_ref P None" "opt_ref P (Some i) = P i"
  by (simp_all add: opt_ref_def)

lemma opt_ref_mono: "opt_ref P r \<Longrightarrow> (\<And>i. P i \<Longrightarrow> Q i) \<Longrightarrow> opt_ref Q r"
  by (cases r) auto

lemmas valid_defs = valid_role_def valid_tier_def valid_endpoint_type_def valid_invite_status_def
  valid_server_type_def valid_server_status_def valid_health_def
lemmas exists_defs = user_exists_def profile_exists_def server_exists_def

section \<open>Insertions\<close>

definition insert_user :: "user_row \<Rightarrow> relay_db \<Rightarrow> relay_db res" where
  "insert_user r db =
     (if \<not> valid_role (ur_role r) \<or> \<not> valid_tier (ur_access_level r) then Inl CheckViolation
      else if sql_has (\<lambda>u. ur_id u = ur_id r \<or> ur_username u = ur_username r) (db_users db)
        then Inl UniqueViolation
      else if \<not> opt_ref (profile_exists db) (ur_default_profile_id r) then Inl ForeignKeyViolation
      else Inr (db\<lparr>db_users := db_users db @ [r]\<rparr>))"

definition insert_api_key :: "api_key_row \<Rightarrow> relay_db \<Rightarrow> relay_db res" where
  "insert_api_key r db =
     (if sql_has (\<lambda>k. kr_id k = kr_id r) (db_api_keys db) then Inl UniqueViolation
      else if \<not> user_exists db (kr_user_id r) \<or> \<not> opt_ref (profile_exists db) (kr_profile_id r)
        then Inl ForeignKeyViolation
      else Inr (db\<lparr>db_api_keys := db_api_keys db @ [r]\<rparr>))"

definition insert_session :: "session_row \<Rightarrow> relay_db \<Rightarrow> relay_db res" where
  "insert_session r db =
     (if sql_has (\<lambda>s. sr_id s = sr_id r) (db_sessions db) then Inl UniqueViolation
      else if \<not> user_exists db (sr_user_id r) then Inl ForeignKeyViolation
      else Inr (db\<lparr>db_sessions := db_sessions db @ [r]\<rparr>))"

definition insert_invite :: "InviteToken \<Rightarrow> relay_db \<Rightarrow> relay_db res" where
  "insert_invite r db =
     (if \<not> valid_role (it_Role r) \<or> \<not> valid_tier (it_AccessLevel r) \<or>
         \<not> valid_invite_status (it_Status r) then Inl CheckViolation
      else if sql_has (\<lambda>t. it_ID t = it_ID r \<or> it_TokenHash t = it_TokenHash r) (db_invites db)
        then Inl UniqueViolation
      else if \<not> opt_ref (profile_exists db) (it_ProfileID r) \<or> \<not> user_exists db (it_CreatedBy r) \<or>
         \<not> opt_ref (user_exists db) (it_RedeemedUserID r) then Inl ForeignKeyViolation
      else Inr (db\<lparr>db_invites := db_invites db @ [r]\<rparr>))"

definition insert_profile :: "AgentProfile \<Rightarrow> relay_db \<Rightarrow> relay_db res" where
  "insert_profile r db =
     (if sql_has (\<lambda>p. ap_ID p = ap_ID r \<or> ap_Name p = ap_Name r) (db_profiles db)
        then Inl UniqueViolation
      else Inr (db\<lparr>db_profiles := db_profiles db @ [r]\<rparr>))"

definition same_perm :: "ProfilePermission \<Rightarrow> ProfilePermission \<Rightarrow> bool" where
  "same_perm a b = (a = b)"

definition insert_permission :: "ProfilePermission \<Rightarrow> relay_db \<Rightarrow> relay_db res" where
  "insert_permission r db =
     (if \<not> valid_endpoint_type (pp_EndpointType r) then Inl CheckViolation
      else if sql_has (same_perm r) (db_permissions db) then Inl UniqueViolation
      else if \<not> profile_exists db (pp_ProfileID r) \<or> \<not> server_exists db (pp_ServerID r)
        then Inl ForeignKeyViolation
      else Inr (db\<lparr>db_permissions := db_permissions db @ [r]\<rparr>))"

text \<open>
  \<open>INSERT OR IGNORE\<close> skips a row that breaks a \<open>UNIQUE\<close> or \<open>CHECK\<close> constraint; a
  foreign key violation is still an error.
\<close>

definition insert_permission_ignore :: "ProfilePermission \<Rightarrow> relay_db \<Rightarrow> relay_db res" where
  "insert_permission_ignore r db =
     (case insert_permission r db of
        Inl UniqueViolation \<Rightarrow> Inr db
      | Inl CheckViolation \<Rightarrow> Inr db
      | x \<Rightarrow> x)"

definition insert_oauth_token :: "oauth_token_row \<Rightarrow> relay_db \<Rightarrow> relay_db res" where
  "insert_oauth_token r db =
     (if sql_has (\<lambda>t. ot_TokenHash t = ot_TokenHash r) (db_oauth_tokens db) then Inl UniqueViolation
      else if \<not> user_exists db (ot_UserID r) then Inl ForeignKeyViolation
      else Inr (db\<lparr>db_oauth_tokens := db_oauth_tokens db @ [r]\<rparr>))"

definition insert_refresh_token :: "oauth_token_row \<Rightarrow> relay_db \<Rightarrow> relay_db res" where
  "insert_refresh_token r db =
     (if sql_has (\<lambda>t. ot_TokenHash t = ot_TokenHash r) (db_refresh_tokens db) then Inl UniqueViolation
      else if \<not> user_exists db (ot_UserID r) then Inl ForeignKeyViolation
      else Inr (db\<lparr>db_refresh_tokens := db_refresh_tokens db @ [r]\<rparr>))"

definition insert_oauth_client :: "OAuthClient \<Rightarrow> relay_db \<Rightarrow> relay_db res" where
  "insert_oauth_client r db =
     (if sql_has (\<lambda>c. oc_ClientID c = oc_ClientID r) (db_oauth_clients db) then Inl UniqueViolation
      else Inr (db\<lparr>db_oauth_clients := db_oauth_clients db @ [r]\<rparr>))"

definition insert_server :: "Server \<Rightarrow> relay_db \<Rightarrow> relay_db res" where
  "insert_server r db =
     (if \<not> valid_server_type (sv_ServerType r) \<or> \<not> valid_server_status (sv_Status r) \<or>
         \<not> valid_health (sv_Health r) then Inl CheckViolation
      else if sql_has (\<lambda>s. sv_ID s = sv_ID r \<or> sv_Name s = sv_Name r) (db_servers db)
        then Inl UniqueViolation
      else Inr (db\<lparr>db_servers := db_servers db @ [r]\<rparr>))"

definition same_mw :: "MiddlewareConfig \<Rightarrow> MiddlewareConfig \<Rightarrow> bool" where
  "same_mw r c = (mc_ServerID r \<noteq> None \<and> mc_ServerID c = mc_ServerID r \<and> mc_Middleware c = mc_Middleware r)"

text \<open>Rows with a NULL \<open>server_id\<close> never conflict: SQLite holds NULLs to be distinct.\<close>

definition insert_mw_config :: "MiddlewareConfig \<Rightarrow> relay_db \<Rightarrow> relay_db res" where
  "insert_mw_config r db =
     (if sql_has (\<lambda>c. mc_ID c = mc_ID r) (db_mw_configs db) \<or> sql_has (same_mw r) (db_mw_configs db)
        then Inl UniqueViolation
      else if \<not> opt_ref (server_exists db) (mc_ServerID r) then Inl ForeignKeyViolation
      else Inr (db\<lparr>db_mw_configs := db_mw_configs db @ [r]\<rparr>))"

definition insert_mw_event :: "MiddlewareEvent \<Rightarrow> relay_db \<Rightarrow> relay_db res" where
  "insert_mw_event r db =
     (if sql_has (\<lambda>e. me_ID e = me_ID r) (db_mw_events db) then Inl UniqueViolation
      else if \<not> server_exists db (me_ServerID r) then Inl ForeignKeyViolation
      else Inr (db\<lparr>db_mw_events := db_mw_events db @ [r]\<rparr>))"

section \<open>Deletions with their referential actions\<close>

text \<open>
  \<open>api_keys\<close>, \<open>sessions\<close>, \<open>oauth_tokens\<close> and \<open>oauth_refresh_tokens\<close> cascade;
  \<open>invite_tokens.redeemed_user_id\<close> is set to NULL; \<open>invite_tokens.created_by\<close> has no action,
  so a user who created an invite cannot be deleted.
\<close>

definition delete_user :: "string \<Rightarrow> relay_db \<Rightarrow> relay_db res" where
  "delete_user i db =
     (if user_exists db i \<and> sql_has (\<lambda>t. it_CreatedBy t = i) (db_invites db)
        then Inl ForeignKeyViolation
      else Inr (db\<lparr>db_users := sql_delete (\<lambda>u. ur_id u = i) (db_users db),
        db_api_keys := sql_delete (\<lambda>k. kr_user_id k = i) (db_api_keys db),
        db_sessions := sql_delete (\<lambda>s. sr_user_id s = i) (db_sessions db),
        db_oauth_tokens := sql_delete (\<lambda>t. ot_UserID t = i) (db_oauth_tokens db),
        db_refresh_tokens := sql_delete (\<lambda>t. ot_UserID t = i) (db_refresh_tokens db),
        db_invites := sql_update (\<lambda>t. it_RedeemedUserID t = Some i)
          (\<lambda>t. t\<lparr>it_RedeemedUserID := None\<rparr>) (db_invites db)\<rparr>))"

definition delete_profile :: "string \<Rightarrow> relay_db \<Rightarrow> relay_db" where
  "delete_profile i db =
     db\<lparr>db_profiles := sql_delete (\<lambda>p. ap_ID p = i) (db_profiles db),
        db_permissions := sql_delete (\<lambda>p. pp_ProfileID p = i) (db_permissions db),
        db_users := sql_update (\<lambda>u. ur_default_profile_id u = Some i)
          (\<lambda>u. u\<lparr>ur_default_profile_id := None\<rparr>) (db_users db),
        db_api_keys := sql_update (\<lambda>k. kr_profile_id k = Some i)
          (\<lambda>k. k\<lparr>kr_profile_id := None\<rparr>) (db_api_keys db),
        db_invites := sql_update (\<lambda>t. it_ProfileID t = Some i)
          (\<lambda>t. t\<lparr>it_ProfileID := None\<rparr>) (db_invites db)\<rparr>"

definition delete_server :: "string \<Rightarrow> relay_db \<Rightarrow> relay_db" where
  "delete_server i db =
     db\<lparr>db_servers := sql_delete (\<lambda>s. sv_ID s = i) (db_servers db),
        db_permissions := sql_delete (\<lambda>p. pp_ServerID p = i) (db_permissions db),
        db_tiers := sql_delete (\<lambda>t. et_ServerID t = i) (db_tiers db),
        db_mw_configs := sql_delete (\<lambda>c. mc_ServerID c = Some i) (db_mw_configs db),
        db_mw_events := sql_delete (\<lambda>e. me_ServerID e = i) (db_mw_events db)\<rparr>"

text \<open>
  \<open>UPDATE users\<close> of columns other than \<open>id\<close> and \<open>username\<close>: the statement fails as a
  whole when a row it writes breaks a constraint.
\<close>

definition update_users :: "(user_row \<Rightarrow> bool) \<Rightarrow> (user_row \<Rightarrow> user_row) \<Rightarrow> relay_db \<Rightarrow> relay_db res" where
  "update_users p f db =
     (if sql_has (\<lambda>u. p u \<and> \<not> (valid_role (ur_role (f u)) \<and> valid_tier (ur_access_level (f u)))) (db_users db)
        then Inl CheckViolation
      else if sql_has (\<lambda>u. p u \<and> \<not> opt_ref (profile_exists db) (ur_default_profile_id (f u))) (db_users db)
        then Inl ForeignKeyViolation
      else Inr (db\<lparr>db_users := sql_update p f (db_users db)\<rparr>))"

definition update_api_keys :: "(api_key_row \<Rightarrow> bool) \<Rightarrow> (api_key_row \<Rightarrow> api_key_row) \<Rightarrow> relay_db \<Rightarrow> relay_db" where
  "update_api_keys p f db = db\<lparr>db_api_keys := sql_update p f (db_api_keys db)\<rparr>"

lemmas insert_defs = insert_user_def insert_api_key_def insert_session_def insert_invite_def
  insert_profile_def insert_permission_def insert_oauth_token_def insert_refresh_token_def
  insert_oauth_client_def insert_server_def insert_mw_config_def insert_mw_event_def

section \<open>Well-formed databases\<close>

definition user_row_ok :: "(string \<Rightarrow> bool) \<Rightarrow> user_row \<Rightarrow> bool" where
  "user_row_ok P u \<longleftrightarrow> valid_role (ur_role u) \<and> valid_tier (ur_access_level u) \<and>
     opt_ref P (ur_default_profile_id u)"

definition key_row_ok :: "(string \<Rightarrow> bool) \<Rightarrow> (string \<Rightarrow> bool) \<Rightarrow> api_key_row \<Rightarrow> bool" where
  "key_row_ok U P k \<longleftrightarrow> U (kr_user_id k) \<and> opt_ref P (kr_profile_id k)"

definition invite_row_ok :: "(string \<Rightarrow> bool) \<Rightarrow> (string \<Rightarrow> bool) \<Rightarrow> InviteToken \<Rightarrow> bool" where
  "invite_row_ok U P t \<longleftrightarrow> valid_role (it_Role t) \<and> valid_tier (it_AccessLevel t) \<and>
     valid_invite_status (it_Status t) \<and> opt_ref P (it_ProfileID t) \<and> U (it_CreatedBy t) \<and>
     opt_ref U (it_RedeemedUserID t)"

definition perm_row_ok :: "(string \<Rightarrow> bool) \<Rightarrow> (string \<Rightarrow> bool) \<Rightarrow> ProfilePermission \<Rightarrow> bool" where
  "perm_row_ok P S p \<longleftrightarrow> valid_endpoint_type (pp_EndpointType p) \<and> P (pp_ProfileID p) \<and> S (pp_ServerID p)"

definition tier_key :: "EndpointTier \<Rightarrow> string \<times> string \<times> string" where
  "tier_key t = (et_ServerID t, et_EndpointType t, et_EndpointName t)"

definition tier_row_ok :: "(string \<Rightarrow> bool) \<Rightarrow> EndpointTier \<Rightarrow> bool" where
  "tier_row_ok S t \<longleftrightarrow> valid_endpoint_type (et_EndpointType t) \<and> valid_tier (et_AccessTier t) \<and>
     S (et_ServerID t)"

definition server_row_ok :: "Server \<Rightarrow> bool" where
  "server_row_ok s \<longleftrightarrow> valid_server_type (sv_ServerType s) \<and> valid_server_status (sv_Status s) \<and>
     valid_health (sv_Health s)"

text \<open>The key of \<open>UNIQUE(server_id, middleware)\<close>; a NULL is replaced by the row's own id.\<close>

definition mw_key :: "MiddlewareConfig \<Rightarrow> (string + string) \<times> string" where
  "mw_key c = (case mc_ServerID c of None \<Rightarrow> (Inl (mc_ID c), mc_Middleware c) | Some s \<Rightarrow> (Inr s, mc_Middleware c))"

definition db_wf :: "relay_db \<Rightarrow> bool" where
  "db_wf db \<longleftrightarrow>
     tbl_ok ur_id (user_row_ok (profile_exists db)) (db_users db) \<and>
     tbl_ok ur_username (\<lambda>_. True) (db_users db) \<and>
     tbl_ok kr_id (key_row_ok (user_exists db) (profile_exists db)) (db_api_keys db) \<and>
     tbl_ok sr_id (\<lambda>s. user_exists db (sr_user_id s)) (db_sessions db) \<and>
     tbl_ok it_ID (invite_row_ok (user_exists db) (profile_exists db)) (db_invites db) \<and>
     tbl_ok it_TokenHash (\<lambda>_. True) (db_invites db) \<and>
     tbl_ok ap_ID (\<lambda>_. True) (db_profiles db) \<and>
     tbl_ok ap_Name (\<lambda>_. True) (db_profiles db) \<and>
     tbl_ok id (perm_row_ok (profile_exists db) (server_exists db)) (db_permissions db) \<and>
     tbl_ok tier_key (tier_row_ok (server_exists db)) (db_tiers db) \<and>
     tbl_ok ot_TokenHash (\<lambda>t. user_exists db (ot_UserID t)) (db_oauth_tokens db) \<and>
     tbl_ok ot_TokenHash (\<lambda>t. user_exists db (ot_UserID t)) (db_refresh_tokens db) \<and>
     tbl_ok oc_ClientID (\<lambda>_. True) (db_oauth_clients db) \<and>
     tbl_ok sv_ID server_row_ok (db_servers db) \<and>
     tbl_ok sv_Name (\<lambda>_. True) (db_servers db) \<and>
     tbl_ok mc_ID (\<lambda>c. opt_ref (server_exists db) (mc_ServerID c)) (db_mw_configs db) \<and>
     tbl_ok mw_key (\<lambda>_. True) (db_mw_configs db) \<and>
     tbl_ok me_ID (\<lambda>e. server_exists db (me_ServerID e)) (db_mw_events db)"

lemmas row_ok_defs = user_row_ok_def key_row_ok_def invite_row_ok_def perm_row_ok_def
  tier_row_ok_def server_row_ok_def

lemma row_ok_monos:
  "user_row_ok P u \<Longrightarrow> (\<And>i. P i \<Longrightarrow> P' i) \<Longrightarrow> user_row_ok P' u"
  "key_row_ok U P k \<Longrightarrow> (\<And>i. U i \<Longrightarrow> U' i) \<Longrightarrow> (\<And>i. P i \<Longrightarrow> P' i) \<Longrightarrow> key_row_ok U' P' k"
  "invite_row_ok U P t \<Longrightarrow> (\<And>i. U i \<Longrightarrow> U' i) \<Longrightarrow> (\<And>i. P i \<Longrightarrow> P' i) \<Longrightarrow> invite_row_ok U' P' t"
  "perm_row_ok P S p \<Longrightarrow> (\<And>i. P i \<Longrightarrow> P' i) \<Longrightarrow> (\<And>i. S i \<Longrightarrow> S' i) \<Longrightarrow> perm_row_ok P' S' p"
  "tier_row_ok S e \<Longrightarrow> (\<And>i. S i \<Longrightarrow> S' i) \<Longrightarrow> tier_row_ok S' e"
  by (auto simp: row_ok_defs elim: opt_ref_mono)

text \<open>Replacing one table leaves the references into the others as they were.\<close>

lemma exists_update_simps [simp]:
  "user_exists (db\<lparr>db_api_keys := ks\<rparr>) = user_exists db"
  "user_exists (db\<lparr>db_sessions := ss\<rparr>) = user_exists db"
  "user_exists (db\<lparr>db_invites := ts\<rparr>) = user_exists db"
  "user_exists (db\<lparr>db_profiles := ps\<rparr>) = user_exists db"
  "user_exists (db\<lparr>db_permissions := qs\<rparr>) = user_exists db"
  "user_exists (db\<lparr>db_tiers := es\<rparr>) = user_exists db"
  "user_exists (db\<lparr>db_oauth_tokens := os\<rparr>) = user_exists db"
  "user_exists (db\<lparr>db_refresh_tokens := os\<rparr>) = user_exists db"
  "user_exists (db\<lparr>db_mw_configs := ms\<rparr>) = user_exists db"
  "user_exists (db\<lparr>db_mw_events := ev\<rparr>) = user_exists db"
  "user_exists (db\<lparr>db_oauth_clients := cs\<rparr>) = user_exists db"
  "user_exists (db\<lparr>db_servers := vs\<rparr>) = user_exists db"
  "profile_exists (db\<lparr>db_users := us\<rparr>) = profile_exists db"
  "profile_exists (db\<lparr>db_api_keys := ks\<rparr>) = profile_exists db"
  "profile_exists (db\<lparr>db_sessions := ss\<rparr>) = profile_exists db"
  "profile_exists (db\<lparr>db_invites := ts\<rparr>) = profile_exists db"
  "profile_exists (db\<lparr>db_permissions := qs\<rparr>) = profile_exists db"
  "profile_exists (db\<lparr>db_tiers := es\<rparr>) = profile_exists db"
  "profile_exists (db\<lparr>db_oauth_tokens := os\<rparr>) = profile_exists db"
  "profile_exists (db\<lparr>db_refresh_tokens := os\<rparr>) = profile_exists db"
  "profile_exists (db\<lparr>db_mw_configs := ms\<rparr>) = profile_exists db"
  "profile_exists (db\<lparr>db_mw_events := ev\<rparr>) = profile_exists db"
  "profile_exists (db\<lparr>db_oauth_clients := cs\<rparr>) = profile_exists db"
  "profile_exists (db\<lparr>db_servers := vs\<rparr>) = profile_exists db"
  "server_exists (db\<lparr>db_users := us\<rparr>) = server_exists db"
  "server_exists (db\<lparr>db_api_keys := ks\<rparr>) = server_exists db"
  "server_exists (db\<lparr>db_sessions := ss\<rparr>) = server_exists db"
  "server_exists (db\<lparr>db_invites := ts\<rparr>) = server_exists db"
  "server_exists (db\<lparr>db_profiles := ps\<rparr>) = server_exists db"
  "server_exists (db\<lparr>db_permissions := qs\<rparr>) = server_exists db"
  "server_exists (db\<lparr>db_tiers := es\<rparr>) = server_exists db"
  "server_exists (db\<lparr>db_oauth_tokens := os\<rparr>) = server_exists db"
  "server_exists (db\<lparr>db_refresh_tokens := os\<rparr>) = server_exists db"
  "server_exists (db\<lparr>db_mw_configs := ms\<rparr>) = server_exists db"
  "server_exists (db\<lparr>db_mw_events := ev\<rparr>) = server_exists db"
  "server_exists (db\<lparr>db_oauth_clients := cs\<rparr>) = server_exists db"
  by (simp_all add: exists_defs fun_eq_iff)

lemma exists_append_simps [simp]:
  "user_exists (db\<lparr>db_users := db_users db @ [r]\<rparr>) i \<longleftrightarrow> user_exists db i \<or> ur_id r = i"
  "profile_exists (db\<lparr>db_profiles := db_profiles db @ [p]\<rparr>) i \<longleftrightarrow> profile_exists db i \<or> ap_ID p = i"
  "server_exists (db\<lparr>db_servers := db_servers db @ [v]\<rparr>) i \<longleftrightarrow> server_exists db i \<or> sv_ID v = i"
  by (auto simp: exists_defs sql_has_iff)

lemma db_wf_empty: "db_wf empty_db"
  by (simp add: db_wf_def empty_db_def)

subsection \<open>Every primitive keeps the database well-formed\<close>

lemma insert_user_wf:
  assumes ins: "insert_user r db = Inr db'" and wf: "db_wf db"
  shows "db_wf db'"
proof -
  from ins have ok: "user_row_ok (profile_exists db) r" and new: "\<not> sql_has (\<lambda>u. ur_id u = ur_id r) (db_users db)"
      "\<not> sql_has (\<lambda>u. ur_username u = ur_username r) (db_users db)"
    and db': "db' = db\<lparr>db_users := db_users db @ [r]\<rparr>"
    by (auto simp: insert_user_def user_row_ok_def split: if_splits)
  from wf ok new show ?thesis
    unfolding db' db_wf_def
    by (auto elim!: tbl_ok_mono row_ok_monos)
qed

lemma insert_api_key_wf: "insert_api_key r db = Inr db' \<Longrightarrow> db_wf db \<Longrightarrow> db_wf db'"
  by (auto simp: insert_api_key_def db_wf_def key_row_ok_def split: if_splits)

lemma insert_session_wf: "insert_session r db = Inr db' \<Longrightarrow> db_wf db \<Longrightarrow> db_wf db'"
  by (auto simp: insert_session_def db_wf_def split: if_splits)

lemma insert_invite_wf: "insert_invite r db = Inr db' \<Longrightarrow> db_wf db \<Longrightarrow> db_wf db'"
  by (auto simp: insert_invite_def db_wf_def invite_row_ok_def split: if_splits)

lemma insert_profile_wf: "insert_profile r db = Inr db' \<Longrightarrow> db_wf db \<Longrightarrow> db_wf db'"
  by (auto simp: insert_profile_def db_wf_def elim!: tbl_ok_mono row_ok_monos split: if_splits)

lemma insert_permission_wf: "insert_permission r db = Inr db' \<Longrightarrow> db_wf db \<Longrightarrow> db_wf db'"
  by (auto simp: insert_permission_def same_perm_def db_wf_def perm_row_ok_def sql_has_iff
      split: if_splits)

lemma insert_permission_ignore_wf:
  "insert_permission_ignore r db = Inr db' \<Longrightarrow> db_wf db \<Longrightarrow> db_wf db'"
  by (auto simp: insert_permission_ignore_def intro: insert_permission_wf
      split: sum.splits store_error.splits)

lemma insert_oauth_token_wf: "insert_oauth_token r db = Inr db' \<Longrightarrow> db_wf db \<Longrightarrow> db_wf db'"
  by (auto simp: insert_oauth_token_def db_wf_def split: if_splits)

lemma insert_refresh_token_wf: "insert_refresh_token r db = Inr db' \<Longrightarrow> db_wf db \<Longrightarrow> db_wf db'"
  by (auto simp: insert_refresh_token_def db_wf_def split: if_splits)

lemma insert_oauth_client_wf: "insert_oauth_client r db = Inr db' \<Longrightarrow> db_wf db \<Longrightarrow> db_wf db'"
  by (auto simp: insert_oauth_client_def db_wf_def split: if_splits)

lemma insert_server_wf: "insert_server r db = Inr db' \<Longrightarrow> db_wf db \<Longrightarrow> db_wf db'"
  by (auto simp: insert_server_def db_wf_def server_row_ok_def elim!: tbl_ok_mono row_ok_monos opt_ref_mono
      split: if_splits)

lemma mw_key_eq_iff:
  "mw_key c = mw_key r \<longleftrightarrow> (mc_ServerID r = None \<and> mc_ServerID c = None \<and> mc_ID c = mc_ID r \<and>
     mc_Middleware c = mc_Middleware r) \<or> same_mw r c"
  by (auto simp: mw_key_def same_mw_def split: option.splits)

lemma insert_mw_config_wf: "insert_mw_config r db = Inr db' \<Longrightarrow> db_wf db \<Longrightarrow> db_wf db'"
  by (auto simp: insert_mw_config_def db_wf_def mw_key_eq_iff sql_has_iff split: if_splits)

lemma insert_mw_event_wf: "insert_mw_event r db = Inr db' \<Longrightarrow> db_wf db \<Longrightarrow> db_wf db'"
  by (auto simp: insert_mw_event_def db_wf_def split: if_splits)

lemma user_exists_delete:
  "user_exists (db\<lparr>db_users := sql_delete (\<lambda>u. ur_id u = i) (db_users db)\<rparr>) j \<longleftrightarrow>
     user_exists db j \<and> j \<noteq> i"
  by (auto simp: user_exists_def sql_has_iff)

lemma profile_exists_delete:
  "profile_exists (db\<lparr>db_profiles := sql_delete (\<lambda>p. ap_ID p = i) (db_profiles db)\<rparr>) j \<longleftrightarrow>
     profile_exists db j \<and> j \<noteq> i"
  by (auto simp: profile_exists_def sql_has_iff)

lemma server_exists_delete:
  "server_exists (db\<lparr>db_servers := sql_delete (\<lambda>s. sv_ID s = i) (db_servers db)\<rparr>) j \<longleftrightarrow>
     server_exists db j \<and> j \<noteq> i"
  by (auto simp: server_exists_def sql_has_iff)

lemma user_exists_update_rows:
  "(\<And>u. ur_id (f u) = ur_id u) \<Longrightarrow>
     user_exists (db\<lparr>db_users := sql_update p f (db_users db)\<rparr>) = user_exists db"
  by (auto simp: user_exists_def sql_has_iff fun_eq_iff)

lemma exists_after_delete_user:
  assumes "delete_user i db = Inr db'"
  shows "user_exists db' j \<longleftrightarrow> user_exists db j \<and> j \<noteq> i"
    and "profile_exists db' = profile_exists db" and "server_exists db' = server_exists db"
  using assms by (auto simp: delete_user_def exists_defs sql_has_iff fun_eq_iff split: if_splits)

lemma tables_after_delete_user:
  assumes "delete_user i db = Inr db'"
  shows "db_users db' = sql_delete (\<lambda>u. ur_id u = i) (db_users db)"
    and "db_api_keys db' = sql_delete (\<lambda>k. kr_user_id k = i) (db_api_keys db)"
    and "db_sessions db' = sql_delete (\<lambda>s. sr_user_id s = i) (db_sessions db)"
    and "db_oauth_tokens db' = sql_delete (\<lambda>t. ot_UserID t = i) (db_oauth_tokens db)"
    and "db_refresh_tokens db' = sql_delete (\<lambda>t. ot_UserID t = i) (db_refresh_tokens db)"
    and "db_invites db' = sql_update (\<lambda>t. it_RedeemedUserID t = Some i)
          (\<lambda>t. t\<lparr>it_RedeemedUserID := None\<rparr>) (db_invites db)"
    and "db_profiles db' = db_profiles db" and "db_permissions db' = db_permissions db"
    and "db_tiers db' = db_tiers db" and "db_oauth_clients db' = db_oauth_clients db"
    and "db_servers db' = db_servers db" and "db_mw_configs db' = db_mw_configs db"
    and "db_mw_events db' = db_mw_events db"
    and "user_exists db i \<Longrightarrow> \<not> sql_has (\<lambda>t. it_CreatedBy t = i) (db_invites db)"
  using assms by (auto simp: delete_user_def split: if_splits)

lemma delete_user_wf:
  assumes del: "delete_user i db = Inr db'" and wf: "db_wf db"
  shows "db_wf db'"
proof -
  note ex = exists_after_delete_user [OF del]
  note tabs = tables_after_delete_user [OF del]
  have inv: "tbl_ok it_ID (\<lambda>t. invite_row_ok (user_exists db) (profile_exists db) t \<and> it_CreatedBy t \<noteq> i)
      (db_invites db)"
    using wf tabs(14)
    by (auto simp: db_wf_def invite_row_ok_def sql_has_iff elim!: tbl_ok_strengthen)
  have "tbl_ok it_ID (invite_row_ok (user_exists db') (profile_exists db')) (db_invites db')"
    unfolding tabs by (rule tbl_ok_update [OF inv])
      (auto simp: invite_row_ok_def ex opt_ref_def split: option.splits)
  moreover have "tbl_ok it_TokenHash (\<lambda>_. True) (db_invites db')"
    unfolding tabs using wf by (auto simp: db_wf_def intro: tbl_ok_update)
  moreover have "tbl_ok ur_id (user_row_ok (profile_exists db')) (db_users db')"
      "tbl_ok ur_username (\<lambda>_. True) (db_users db')"
      "tbl_ok kr_id (key_row_ok (user_exists db') (profile_exists db')) (db_api_keys db')"
      "tbl_ok sr_id (\<lambda>s. user_exists db' (sr_user_id s)) (db_sessions db')"
      "tbl_ok ot_TokenHash (\<lambda>t. user_exists db' (ot_UserID t)) (db_oauth_tokens db')"
      "tbl_ok ot_TokenHash (\<lambda>t. user_exists db' (ot_UserID t)) (db_refresh_tokens db')"
    unfolding tabs using wf
    by (auto simp: db_wf_def ex key_row_ok_def elim!: tbl_ok_delete)
  ultimately show ?thesis using wf by (simp add: db_wf_def ex tabs(7-13))
qed

lemma exists_after_delete_profile:
  "user_exists (delete_profile i db) = user_exists db"
  "profile_exists (delete_profile i db) j \<longleftrightarrow> profile_exists db j \<and> j \<noteq> i"
  "server_exists (delete_profile i db) = server_exists db"
    apply (simp add: delete_profile_def exists_defs sql_has_update fun_eq_iff)
   apply (auto simp: delete_profile_def exists_defs sql_has_iff)[1]
  apply (simp add: delete_profile_def exists_defs fun_eq_iff)
  done

lemma opt_ref_cleared: "opt_ref P r \<Longrightarrow> r \<noteq> Some i \<Longrightarrow> opt_ref (\<lambda>j. P j \<and> j \<noteq> i) r"
  by (cases r) auto

lemma delete_profile_wf:
  assumes wf: "db_wf db"
  shows "db_wf (delete_profile i db)"
proof -
  define db' where "db' = delete_profile i db"
  have ex: "user_exists db' = user_exists db" "profile_exists db' = (\<lambda>j. profile_exists db j \<and> j \<noteq> i)"
      "server_exists db' = server_exists db"
    by (auto simp: db'_def exists_after_delete_profile fun_eq_iff)
  have tabs:
    "db_profiles db' = sql_delete (\<lambda>p. ap_ID p = i) (db_profiles db)"
    "db_permissions db' = sql_delete (\<lambda>p. pp_ProfileID p = i) (db_permissions db)"
    "db_users db' = sql_update (\<lambda>u. ur_default_profile_id u = Some i)
          (\<lambda>u. u\<lparr>ur_default_profile_id := None\<rparr>) (db_users db)"
    "db_api_keys db' = sql_update (\<lambda>k. kr_profile_id k = Some i)
          (\<lambda>k. k\<lparr>kr_profile_id := None\<rparr>) (db_api_keys db)"
    "db_invites db' = sql_update (\<lambda>t. it_ProfileID t = Some i)
          (\<lambda>t. t\<lparr>it_ProfileID := None\<rparr>) (db_invites db)"
    "db_sessions db' = db_sessions db" "db_tiers db' = db_tiers db"
    "db_oauth_tokens db' = db_oauth_tokens db" "db_refresh_tokens db' = db_refresh_tokens db"
    "db_oauth_clients db' = db_oauth_clients db" "db_servers db' = db_servers db"
    "db_mw_configs db' = db_mw_configs db" "db_mw_events db' = db_mw_events db"
    by (simp_all add: db'_def delete_profile_def)
  have "tbl_ok ur_id (user_row_ok (profile_exists db')) (db_users db')"
      "tbl_ok ur_username (\<lambda>_. True) (db_users db')"
      "tbl_ok kr_id (key_row_ok (user_exists db') (profile_exists db')) (db_api_keys db')"
      "tbl_ok it_ID (invite_row_ok (user_exists db') (profile_exists db')) (db_invites db')"
      "tbl_ok it_TokenHash (\<lambda>_. True) (db_invites db')"
    unfolding tabs ex using wf
    by (auto simp: db_wf_def row_ok_defs elim!: tbl_ok_update intro: opt_ref_cleared)
  moreover have "tbl_ok ap_ID (\<lambda>_. True) (db_profiles db')" "tbl_ok ap_Name (\<lambda>_. True) (db_profiles db')"
      "tbl_ok id (perm_row_ok (profile_exists db') (server_exists db')) (db_permissions db')"
    unfolding tabs ex using wf by (auto simp: db_wf_def row_ok_defs elim!: tbl_ok_delete)
  ultimately show ?thesis using wf by (simp add: db_wf_def ex tabs(6-13) flip: db'_def)
qed

lemma exists_after_delete_server:
  "user_exists (delete_server i db) = user_exists db"
  "profile_exists (delete_server i db) = profile_exists db"
  "server_exists (delete_server i db) j \<longleftrightarrow> server_exists db j \<and> j \<noteq> i"
  by (auto simp: delete_server_def exists_defs sql_has_iff fun_eq_iff)

lemma delete_server_wf:
  assumes wf: "db_wf db"
  shows "db_wf (delete_server i db)"
proof -
  have "tbl_ok id (perm_row_ok (profile_exists db) (server_exists (delete_server i db)))
        (sql_delete (\<lambda>p. pp_ServerID p = i) (db_permissions db))"
      "tbl_ok tier_key (tier_row_ok (server_exists (delete_server i db)))
        (sql_delete (\<lambda>t. et_ServerID t = i) (db_tiers db))"
      "tbl_ok sv_ID server_row_ok (sql_delete (\<lambda>s. sv_ID s = i) (db_servers db))"
      "tbl_ok sv_Name (\<lambda>_. True) (sql_delete (\<lambda>s. sv_ID s = i) (db_servers db))"
      "tbl_ok mc_ID (\<lambda>c. opt_ref (server_exists (delete_server i db)) (mc_ServerID c))
        (sql_delete (\<lambda>c. mc_ServerID c = Some i) (db_mw_configs db))"
      "tbl_ok mw_key (\<lambda>_. True) (sql_delete (\<lambda>c. mc_ServerID c = Some i) (db_mw_configs db))"
      "tbl_ok me_ID (\<lambda>e. server_exists (delete_server i db) (me_ServerID e))
        (sql_delete (\<lambda>e. me_ServerID e = i) (db_mw_events db))"
    using wf
    by (auto simp: db_wf_def opt_ref_def perm_row_ok_def tier_row_ok_def exists_after_delete_server
        split: option.splits elim!: tbl_ok_delete)
  with wf show ?thesis
    by (simp add: db_wf_def exists_after_delete_server(1,2)) (simp add: delete_server_def)
qed

subsection \<open>Updates\<close>

lemma update_users_wf:
  assumes upd: "update_users p f db = Inr db'" and wf: "db_wf db"
    and ids: "\<And>u. ur_id (f u) = ur_id u" "\<And>u. ur_username (f u) = ur_username u"
  shows "db_wf db'"
proof -
  from upd have db': "db' = db\<lparr>db_users := sql_update p f (db_users db)\<rparr>"
    and chk: "\<And>u. u \<in> set (db_users db) \<Longrightarrow> p u \<Longrightarrow> user_row_ok (profile_exists db) (f u)"
    by (auto simp: update_users_def user_row_ok_def sql_has_iff split: if_splits)
  have ok: "tbl_ok ur_id (\<lambda>u. user_row_ok (profile_exists db) u \<and>
      (p u \<longrightarrow> user_row_ok (profile_exists db) (f u))) (db_users db)"
    using wf chk by (auto simp: db_wf_def elim!: tbl_ok_strengthen)
  have "tbl_ok ur_id (user_row_ok (profile_exists db)) (sql_update p f (db_users db))"
      "tbl_ok ur_username (\<lambda>_. True) (sql_update p f (db_users db))"
    using wf ids by (auto simp: db_wf_def intro: tbl_ok_update tbl_ok_update [OF ok])
  with wf ids show ?thesis
    by (simp add: db' db_wf_def user_exists_update_rows)
qed

lemma update_api_keys_wf:
  assumes "db_wf db" "\<And>k. kr_id (f k) = kr_id k" "\<And>k. kr_user_id (f k) = kr_user_id k"
    "\<And>k. kr_profile_id (f k) = kr_profile_id k"
  shows "db_wf (update_api_keys p f db)"
  using assms
  by (auto simp: update_api_keys_def db_wf_def key_row_ok_def intro: tbl_ok_update)

lemmas db_wf_intros = insert_user_wf insert_api_key_wf insert_session_wf insert_invite_wf
  insert_profile_wf insert_permission_wf insert_permission_ignore_wf insert_oauth_token_wf
  insert_refresh_token_wf insert_oauth_client_wf insert_server_wf insert_mw_config_wf
  insert_mw_event_wf delete_user_wf delete_profile_wf delete_server_wf update_users_wf
  update_api_keys_wf

end
