(* ===== verification/User_Store.thy ===== *)
theory User_Store
  imports Relay_DB
begin

text \<open>
  \<open>internal/store/users.go\<close>: accounts, passwords, API keys and their capabilities. The database
  rows are those of \<open>Relay_DB\<close>; \<open>User\<close> and \<open>APIKey\<close> are the structs the operations hand out.
  An operation returns the database it leaves and its result, since several of them write before
  they fail. Random identifiers and the bcrypt salt are arguments.

  The text of the \<open>capabilities\<close> column is identified with the string list it encodes, which is
  exact for UTF-8 strings (\<open>encoding/json\<close> replaces other bytes).
\<close>

record User =
  u_ID :: string
  u_Username :: string
  u_PasswordHash :: string
  u_Role :: string
  u_AccessLevel :: string
  u_DefaultProfileID :: "string option"
  u_MustChangePassword :: bool
  u_CreatedAt :: time
  u_ProfileID :: "string option"
  u_ProfileName :: string

record APIKey =
  k_ID :: string
  k_UserID :: string
  k_KeyHash :: string
  k_Name :: string
  k_ProfileID :: "string option"
  k_ProfileName :: string
  k_CreatedAt :: time
  k_LastUsed :: "time option"
  k_Revoked :: bool
  k_Capabilities :: "string list"

section \<open>Capabilities\<close>

definition legacyCapabilityGrants :: "string \<Rightarrow> string list" where
  "legacyCapabilityGrants c =
     (if c = ''skills:write'' then [''skills:publish'']
      else if c = ''recipes:write'' then [''recipes:publish'']
      else [])"

fun has_capability_in :: "string list \<Rightarrow> string \<Rightarrow> bool" where
  "has_capability_in [] cap = False"
| "has_capability_in (c # cs) cap =
     (if c = cap then True
      else if cap \<in> set (legacyCapabilityGrants c) then True
      else has_capability_in cs cap)"

definition HasCapability :: "APIKey option \<Rightarrow> string \<Rightarrow> bool" where
  "HasCapability k cap =
     (case k of None \<Rightarrow> False | Some key \<Rightarrow> has_capability_in (k_Capabilities key) cap)"

definition SupportedCapabilities :: "string list" where
  "SupportedCapabilities =
     [''skills:publish'', ''skills:admin'', ''skills:yank'',
      ''recipes:publish'', ''recipes:admin'', ''recipes:yank'',
      ''skills:write'', ''recipes:write'']"

text \<open>The loop of \<open>normalizeCapabilities\<close> over its \<open>seen\<close> set and its output slice.\<close>

fun normalize_loop :: "string set \<Rightarrow> string list \<Rightarrow> string list \<Rightarrow> string list" where
  "normalize_loop seen out [] = out"
| "normalize_loop seen out (c # cs) =
     (let c' = trim_space c in
      if c' = [] then normalize_loop seen out cs
      else if c' \<in> seen then normalize_loop seen out cs
      else normalize_loop (insert c' seen) (out @ [c']) cs)"

definition normalizeCapabilities :: "string list \<Rightarrow> string list" where
  "normalizeCapabilities caps = sort (normalize_loop {} [] caps)"

definition marshalCapabilities :: "string list \<Rightarrow> string list option" where
  "marshalCapabilities caps = Some caps"

text \<open>A column that does not parse counts as no capabilities.\<close>

definition unmarshalCapabilities :: "string list option \<Rightarrow> string list" where
  "unmarshalCapabilities col = (case col of None \<Rightarrow> [] | Some caps \<Rightarrow> caps)"

section \<open>Accounts\<close>

definition user_of_row :: "user_row \<Rightarrow> User" where
  "user_of_row r =
     \<lparr>u_ID = ur_id r, u_Username = ur_username r, u_PasswordHash = ur_password_hash r,
      u_Role = ur_role r, u_AccessLevel = ur_access_level r,
      u_DefaultProfileID = ur_default_profile_id r,
      u_MustChangePassword = ur_must_change_password r, u_CreatedAt = ur_created_at r,
      u_ProfileID = None, u_ProfileName = []\<rparr>"

text \<open>\<open>must_change_password\<close> is not among the inserted columns: its default is FALSE.\<close>

definition row_of_user :: "User \<Rightarrow> user_row" where
  "row_of_user u =
     \<lparr>ur_id = u_ID u, ur_username = u_Username u, ur_password_hash = u_PasswordHash u,
      ur_role = u_Role u, ur_access_level = u_AccessLevel u,
      ur_default_profile_id = u_DefaultProfileID u,
      ur_must_change_password = False, ur_created_at = u_CreatedAt u\<rparr>"

definition effective_access_level :: "string \<Rightarrow> string \<Rightarrow> string" where
  "effective_access_level role accessLevel =
     (let al = (if role = ''admin'' then ''admin'' else accessLevel) in
      if al = [] then ''write'' else al)"

definition new_user :: "string \<Rightarrow> string \<Rightarrow> string \<Rightarrow> string \<Rightarrow> string \<Rightarrow> string option \<Rightarrow> time \<Rightarrow> User" where
  "new_user uid username hash role accessLevel profile now =
     \<lparr>u_ID = uid, u_Username = username, u_PasswordHash = hash, u_Role = role,
      u_AccessLevel = effective_access_level role accessLevel, u_DefaultProfileID = profile,
      u_MustChangePassword = False, u_CreatedAt = now, u_ProfileID = None, u_ProfileName = []\<rparr>"

definition UserStore_CreateWithAccessLevel ::
    "crypto \<Rightarrow> faults \<Rightarrow> time \<Rightarrow> string \<Rightarrow> string \<Rightarrow> string \<Rightarrow> string \<Rightarrow> string \<Rightarrow> string \<Rightarrow> string option \<Rightarrow>
     relay_db \<Rightarrow> relay_db \<times> User res" where
  "UserStore_CreateWithAccessLevel cr io now salt uid username password role accessLevel profile db =
     (case bcrypt_gen cr salt password of
        None \<Rightarrow> (db, Inl HashError)
      | Some hash \<Rightarrow>
          let user = new_user uid username hash role accessLevel profile now in
          (case stmt (io 0) (insert_user (row_of_user user) db) of
            Inl e \<Rightarrow> (db, Inl e)
          | Inr db' \<Rightarrow> (db', Inr user)))"

definition UserStore_Create ::
    "crypto \<Rightarrow> faults \<Rightarrow> time \<Rightarrow> string \<Rightarrow> string \<Rightarrow> string \<Rightarrow> string \<Rightarrow> string \<Rightarrow> relay_db \<Rightarrow> relay_db \<times> User res" where
  "UserStore_Create cr io now salt uid username password role db =
     UserStore_CreateWithAccessLevel cr io now salt uid username password role [] None db"

text \<open>The transactional variant has the same body; the transaction is its caller's.\<close>

definition UserStore_CreateWithAccessLevelTx ::
    "crypto \<Rightarrow> faults \<Rightarrow> time \<Rightarrow> string \<Rightarrow> string \<Rightarrow> string \<Rightarrow> string \<Rightarrow> string \<Rightarrow> string \<Rightarrow> string option \<Rightarrow>
     relay_db \<Rightarrow> relay_db \<times> User res" where
  "UserStore_CreateWithAccessLevelTx cr io now salt uid username password role accessLevel profile db =
     (case bcrypt_gen cr salt password of
        None \<Rightarrow> (db, Inl HashError)
      | Some hash \<Rightarrow>
          let user = new_user uid username hash role accessLevel profile now in
          (case stmt (io 0) (insert_user (row_of_user user) db) of
            Inl e \<Rightarrow> (db, Inl e)
          | Inr db' \<Rightarrow> (db', Inr user)))"

text \<open>The comparison with the dummy hash has no effect but its duration.\<close>

definition UserStore_Authenticate :: "crypto \<Rightarrow> faults \<Rightarrow> string \<Rightarrow> string \<Rightarrow> relay_db \<Rightarrow> User option res" where
  "UserStore_Authenticate cr io username password db =
     stmt (io 0)
       (case sql_row (\<lambda>u. ur_username u = username) (db_users db) of
          None \<Rightarrow> Inr None
        | Some r \<Rightarrow>
            if \<not> bcrypt_cmp cr (ur_password_hash r) password then Inr None
            else Inr (Some (user_of_row r)))"

definition UserStore_Get :: "faults \<Rightarrow> string \<Rightarrow> relay_db \<Rightarrow> User option res" where
  "UserStore_Get io i db =
     stmt (io 0) (Inr (map_option user_of_row (sql_row (\<lambda>u. ur_id u = i) (db_users db))))"

definition UserStore_GetByUsername :: "faults \<Rightarrow> string \<Rightarrow> relay_db \<Rightarrow> User option res" where
  "UserStore_GetByUsername io name db =
     stmt (io 0) (Inr (map_option user_of_row (sql_row (\<lambda>u. ur_username u = name) (db_users db))))"

text \<open>The \<open>LEFT JOIN agent_profiles\<close> with \<open>COALESCE(ap.name, '')\<close>.\<close>

definition profile_name :: "relay_db \<Rightarrow> string option \<Rightarrow> string" where
  "profile_name db i =
     (case i of None \<Rightarrow> []
      | Some p \<Rightarrow> (case sql_row (\<lambda>a. ap_ID a = p) (db_profiles db) of None \<Rightarrow> [] | Some a \<Rightarrow> ap_Name a))"

definition UserStore_List :: "faults \<Rightarrow> relay_db \<Rightarrow> User list res" where
  "UserStore_List io db =
     stmt (io 0) (Inr (map (\<lambda>r. (user_of_row r)\<lparr>u_ProfileName := profile_name db (ur_default_profile_id r)\<rparr>)
       (sql_order ur_created_at (db_users db))))"

definition UserStore_UpdateProfile :: "faults \<Rightarrow> string \<Rightarrow> string option \<Rightarrow> relay_db \<Rightarrow> relay_db \<times> unit res" where
  "UserStore_UpdateProfile io i profile db =
     exec (io 0) (update_users (\<lambda>u. ur_id u = i) (\<lambda>u. u\<lparr>ur_default_profile_id := profile\<rparr>)) db"

text \<open>The second statement runs whether or not the first one failed; the first error is returned.\<close>

definition UserStore_UpdateRole :: "faults \<Rightarrow> string \<Rightarrow> string \<Rightarrow> relay_db \<Rightarrow> relay_db \<times> unit res" where
  "UserStore_UpdateRole io i role db =
     (let (db1, r) = exec (io 0) (update_users (\<lambda>u. ur_id u = i) (\<lambda>u. u\<lparr>ur_role := role\<rparr>)) db in
      if role = ''admin'' then
        (exec_ignore (io 1)
           (update_users (\<lambda>u. ur_id u = i) (\<lambda>u. u\<lparr>ur_access_level := ''admin''\<rparr>)) db1, r)
      else (db1, r))"

definition UserStore_SetPassword ::
    "crypto \<Rightarrow> faults \<Rightarrow> string \<Rightarrow> string \<Rightarrow> string \<Rightarrow> relay_db \<Rightarrow> relay_db \<times> unit res" where
  "UserStore_SetPassword cr io salt i newPassword db =
     (case bcrypt_gen cr salt newPassword of
        None \<Rightarrow> (db, Inl HashError)
      | Some hash \<Rightarrow>
          exec (io 0) (update_users (\<lambda>u. ur_id u = i)
            (\<lambda>u. u\<lparr>ur_password_hash := hash, ur_must_change_password := False\<rparr>)) db)"

definition UserStore_SetMustChangePassword :: "faults \<Rightarrow> string \<Rightarrow> bool \<Rightarrow> relay_db \<Rightarrow> relay_db \<times> unit res" where
  "UserStore_SetMustChangePassword io i must db =
     exec (io 0) (update_users (\<lambda>u. ur_id u = i) (\<lambda>u. u\<lparr>ur_must_change_password := must\<rparr>)) db"

definition UserStore_Delete :: "faults \<Rightarrow> string \<Rightarrow> relay_db \<Rightarrow> relay_db \<times> unit res" where
  "UserStore_Delete io i db = exec (io 0) (delete_user i) db"

definition UserStore_EnsureAdmin ::
    "crypto \<Rightarrow> faults \<Rightarrow> time \<Rightarrow> string \<Rightarrow> string \<Rightarrow> string \<Rightarrow> relay_db \<Rightarrow> relay_db \<times> unit res" where
  "UserStore_EnsureAdmin cr io now salt uid password db =
     (if \<not> io 0 then (db, Inl DriverError)
      else if 0 < sql_count (\<lambda>_. True) (db_users db) then
        (exec_ignore (io 1)
           (update_users (\<lambda>u. ur_role u = ''admin'' \<and> ur_access_level u \<noteq> ''admin'')
              (\<lambda>u. u\<lparr>ur_access_level := ''admin''\<rparr>)) db, Inr ())
      else (case UserStore_Create cr (after_stmts 1 io) now salt uid ''admin'' password ''admin'' db of
              (db', r) \<Rightarrow> (db', map_sum id (\<lambda>_. ()) r)))"

section \<open>API keys\<close>

definition hashAPIKey :: "crypto \<Rightarrow> string \<Rightarrow> string" where
  "hashAPIKey cr key = sha256_hex cr key"

definition new_api_key ::
    "crypto \<Rightarrow> time \<Rightarrow> string \<Rightarrow> string \<Rightarrow> string \<Rightarrow> string \<Rightarrow> string option \<Rightarrow> string list \<Rightarrow> APIKey" where
  "new_api_key cr now rawKey kid userID name profile capabilities =
     \<lparr>k_ID = kid, k_UserID = userID, k_KeyHash = hashAPIKey cr rawKey, k_Name = name,
      k_ProfileID = profile, k_ProfileName = [], k_CreatedAt = now, k_LastUsed = None,
      k_Revoked = False, k_Capabilities = normalizeCapabilities capabilities\<rparr>"

text \<open>\<open>last_used\<close> and \<open>revoked\<close> take their defaults, NULL and FALSE.\<close>

definition row_of_key :: "APIKey \<Rightarrow> api_key_row" where
  "row_of_key k =
     \<lparr>kr_id = k_ID k, kr_user_id = k_UserID k, kr_key_hash = k_KeyHash k, kr_name = k_Name k,
      kr_profile_id = k_ProfileID k, kr_created_at = k_CreatedAt k, kr_last_used = None,
      kr_revoked = False, kr_capabilities = marshalCapabilities (k_Capabilities k)\<rparr>"

definition UserStore_CreateAPIKey ::
    "crypto \<Rightarrow> faults \<Rightarrow> time \<Rightarrow> string \<Rightarrow> string \<Rightarrow> string \<Rightarrow> string \<Rightarrow> string option \<Rightarrow> string list \<Rightarrow>
     relay_db \<Rightarrow> relay_db \<times> (string \<times> APIKey) res" where
  "UserStore_CreateAPIKey cr io now rawKey kid userID name profile capabilities db =
     (let ak = new_api_key cr now rawKey kid userID name profile capabilities in
      case stmt (io 0) (insert_api_key (row_of_key ak) db) of
        Inl e \<Rightarrow> (db, Inl e)
      | Inr db' \<Rightarrow> (db', Inr (rawKey, ak)))"

definition UserStore_CreateAPIKeyTx ::
    "crypto \<Rightarrow> faults \<Rightarrow> time \<Rightarrow> string \<Rightarrow> string \<Rightarrow> string \<Rightarrow> string \<Rightarrow> string option \<Rightarrow> string list \<Rightarrow>
     relay_db \<Rightarrow> relay_db \<times> (string \<times> APIKey) res" where
  "UserStore_CreateAPIKeyTx cr io now rawKey kid userID name profile capabilities db =
     (let ak = new_api_key cr now rawKey kid userID name profile capabilities in
      case stmt (io 0) (insert_api_key (row_of_key ak) db) of
        Inl e \<Rightarrow> (db, Inl e)
      | Inr db' \<Rightarrow> (db', Inr (rawKey, ak)))"

definition key_of_row :: "api_key_row \<Rightarrow> APIKey" where
  "key_of_row r =
     \<lparr>k_ID = kr_id r, k_UserID = kr_user_id r, k_KeyHash = kr_key_hash r, k_Name = kr_name r,
      k_ProfileID = kr_profile_id r, k_ProfileName = [], k_CreatedAt = kr_created_at r,
      k_LastUsed = kr_last_used r, k_Revoked = kr_revoked r,
      k_Capabilities = unmarshalCapabilities (kr_capabilities r)\<rparr>"

definition with_effective_profile :: "string option \<Rightarrow> User \<Rightarrow> User" where
  "with_effective_profile keyProfileID user =
     (case keyProfileID of
        Some p \<Rightarrow> user\<lparr>u_ProfileID := Some p\<rparr>
      | None \<Rightarrow>
          (case u_DefaultProfileID user of
             Some p \<Rightarrow> user\<lparr>u_ProfileID := Some p\<rparr>
           | None \<Rightarrow> user))"

text \<open>
  \<open>Inr None\<close> is \<open>(nil, nil, nil)\<close>. The statements are the lookup, the update of
  \<open>last_used\<close> whose error is dropped, and the lookup of the owner.
\<close>

definition UserStore_ValidateAPIKey ::
    "crypto \<Rightarrow> faults \<Rightarrow> time \<Rightarrow> string \<Rightarrow> relay_db \<Rightarrow> relay_db \<times> (User \<times> APIKey) option res" where
  "UserStore_ValidateAPIKey cr io now rawKey db =
     (let keyHash = hashAPIKey cr rawKey in
      if \<not> io 0 then (db, Inl DriverError)
      else case sql_row (\<lambda>k. kr_key_hash k = keyHash) (db_api_keys db) of
        None \<Rightarrow> (db, Inr None)
      | Some r \<Rightarrow>
          if kr_key_hash r \<noteq> keyHash then (db, Inr None)
          else if kr_revoked r then (db, Inr None)
          else
            let db' = exec_ignore (io 1)
              (\<lambda>d. Inr (update_api_keys (\<lambda>k. kr_key_hash k = keyHash) (\<lambda>k. k\<lparr>kr_last_used := Some now\<rparr>) d)) db in
            (case UserStore_Get (after_stmts 2 io) (kr_user_id r) db' of
              Inl e \<Rightarrow> (db', Inl e)
            | Inr None \<Rightarrow> (db', Inr None)
            | Inr (Some user) \<Rightarrow>
                (db', Inr (Some (with_effective_profile (kr_profile_id r) user, key_of_row r)))))"

definition UserStore_ListAPIKeys :: "faults \<Rightarrow> string \<Rightarrow> relay_db \<Rightarrow> APIKey list res" where
  "UserStore_ListAPIKeys io userID db =
     stmt (io 0) (Inr (map (\<lambda>r. (key_of_row r)\<lparr>k_KeyHash := [], k_ProfileName := profile_name db (kr_profile_id r)\<rparr>)
       (sql_order kr_created_at (sql_select (\<lambda>r. kr_user_id r = userID) (db_api_keys db)))))"

definition UserStore_RevokeAPIKey :: "faults \<Rightarrow> string \<Rightarrow> relay_db \<Rightarrow> relay_db \<times> unit res" where
  "UserStore_RevokeAPIKey io i db =
     exec (io 0) (\<lambda>d. Inr (update_api_keys (\<lambda>k. kr_id k = i) (\<lambda>k. k\<lparr>kr_revoked := True\<rparr>) d)) db"

definition UserStore_RecentUsers :: "faults \<Rightarrow> int \<Rightarrow> time \<Rightarrow> relay_db \<Rightarrow> (string \<times> string \<times> time) list res" where
  "UserStore_RecentUsers io limit since db =
     stmt (io 0) (Inr (map (\<lambda>r. (ur_id r, ur_username r, ur_created_at r))
       (sql_limit limit (sql_order_desc ur_created_at (sql_select (\<lambda>r. since \<le> ur_created_at r) (db_users db))))))"

text \<open>The \<open>LEFT JOIN users\<close> with \<open>COALESCE(u.username, '')\<close>.\<close>

definition owner_name :: "relay_db \<Rightarrow> string \<Rightarrow> string" where
  "owner_name db i =
     (case sql_row (\<lambda>u. ur_id u = i) (db_users db) of None \<Rightarrow> [] | Some u \<Rightarrow> ur_username u)"

record RecentAPIKeyRow =
  rk_KeyID :: string
  rk_UserID :: string
  rk_KeyName :: string
  rk_Username :: string
  rk_Capabilities :: "string list"
  rk_CreatedAt :: time

definition UserStore_RecentAPIKeys :: "faults \<Rightarrow> int \<Rightarrow> time \<Rightarrow> relay_db \<Rightarrow> RecentAPIKeyRow list res" where
  "UserStore_RecentAPIKeys io limit since db =
     stmt (io 0) (Inr (map (\<lambda>r. \<lparr>rk_KeyID = kr_id r, rk_UserID = kr_user_id r, rk_KeyName = kr_name r,
           rk_Username = owner_name db (kr_user_id r),
           rk_Capabilities = unmarshalCapabilities (kr_capabilities r), rk_CreatedAt = kr_created_at r\<rparr>)
       (sql_limit limit (sql_order_desc kr_created_at (sql_select (\<lambda>r. since \<le> kr_created_at r) (db_api_keys db))))))"

definition UserStore_CountActiveAPIKeys :: "faults \<Rightarrow> time \<Rightarrow> time \<Rightarrow> relay_db \<Rightarrow> (nat \<times> nat) res" where
  "UserStore_CountActiveAPIKeys io now window db =
     res_bind (stmt (io 0) (Inr (sql_count (\<lambda>r. kr_last_used r \<noteq> None \<and> \<not> kr_revoked r) (db_api_keys db))))
       (\<lambda>total. res_bind (stmt (io 1) (Inr (sql_count
            (\<lambda>r. (case kr_last_used r of None \<Rightarrow> False | Some t \<Rightarrow> now - window \<le> t) \<and> \<not> kr_revoked r)
            (db_api_keys db))))
          (\<lambda>active. Inr (total, active)))"

text \<open>
  \<open>ORDER BY\<close> on three keys is the stable sort by the last key, then the middle one, then the
  first one.
\<close>

definition UserStore_ListAllAPIKeys :: "faults \<Rightarrow> relay_db \<Rightarrow> (APIKey \<times> string) list res" where
  "UserStore_ListAllAPIKeys io db =
     stmt (io 0) (Inr (map (\<lambda>r. ((key_of_row r)\<lparr>k_KeyHash := [], k_ProfileName := profile_name db (kr_profile_id r)\<rparr>,
           owner_name db (kr_user_id r)))
       (sql_order (\<lambda>r. if kr_last_used r = None then 1 else 0 :: nat)
         (sql_order_desc (\<lambda>r. case kr_last_used r of None \<Rightarrow> 0 | Some t \<Rightarrow> t)
           (sql_order_desc kr_created_at (db_api_keys db))))))"

lemmas user_store_defs [relay_defs] = UserStore_CreateWithAccessLevel_def UserStore_Create_def
  UserStore_CreateWithAccessLevelTx_def UserStore_UpdateProfile_def UserStore_UpdateRole_def
  UserStore_SetPassword_def UserStore_SetMustChangePassword_def UserStore_Delete_def
  UserStore_EnsureAdmin_def UserStore_CreateAPIKey_def UserStore_CreateAPIKeyTx_def
  UserStore_RevokeAPIKey_def

section \<open>Capabilities: lemmas\<close>

lemma has_capability_in_iff:
  "has_capability_in cs cap \<longleftrightarrow> (\<exists>c \<in> set cs. c = cap \<or> cap \<in> set (legacyCapabilityGrants c))"
  by (induction cs) auto

lemma legacy_grant_iff:
  "cap \<in> set (legacyCapabilityGrants c) \<longleftrightarrow>
     (c = ''skills:write'' \<and> cap = ''skills:publish'') \<or> (c = ''recipes:write'' \<and> cap = ''recipes:publish'')"
  by (cases "c = ''skills:write''"; cases "c = ''recipes:write''") (simp_all add: legacyCapabilityGrants_def)

lemma normalize_loop_props:
  assumes "seen = set out" "distinct out" "[] \<notin> set out"
  shows "distinct (normalize_loop seen out caps)"
    and "set (normalize_loop seen out caps) = set out \<union> (trim_space ` set caps - {[]})"
  using assms by (induction seen out caps rule: normalize_loop.induct) (auto simp: Let_def)

lemma normalizeCapabilities_eq:
  "normalizeCapabilities caps = sorted_list_of_set (trim_space ` set caps - {[]})"
  using normalize_loop_props [of "{}" "[]" caps]
  by (simp add: normalizeCapabilities_def flip: sorted_list_of_set_sort_remdups)
    (metis distinct_remdups_id sorted_list_of_set_sort_remdups)

lemma normalizeCapabilities_props:
  "sorted (normalizeCapabilities caps)" "distinct (normalizeCapabilities caps)"
  "set (normalizeCapabilities caps) = trim_space ` set caps - {[]}"
  by (simp_all add: normalizeCapabilities_eq)

section \<open>The operations keep the database well-formed\<close>

lemma UserStore_CreateWithAccessLevel_wf:
  "db_wf db \<Longrightarrow> db_wf (fst (UserStore_CreateWithAccessLevel cr io now salt uid un pw role al prof db))"
  by (auto simp: UserStore_CreateWithAccessLevel_def Let_def stmt_def dest: insert_user_wf
      split: option.splits sum.splits)

lemma UserStore_CreateTx_eq:
  "UserStore_CreateWithAccessLevelTx = UserStore_CreateWithAccessLevel"
  "UserStore_CreateAPIKeyTx = UserStore_CreateAPIKey"
  by (simp_all add: fun_eq_iff UserStore_CreateWithAccessLevelTx_def UserStore_CreateWithAccessLevel_def
      UserStore_CreateAPIKeyTx_def UserStore_CreateAPIKey_def)

lemma UserStore_CreateAPIKey_wf:
  "db_wf db \<Longrightarrow> db_wf (fst (UserStore_CreateAPIKey cr io now raw kid uid name prof caps db))"
  by (auto simp: UserStore_CreateAPIKey_def Let_def stmt_def dest: insert_api_key_wf split: sum.splits)

lemma UserStore_simple_wf:
  assumes "db_wf db"
  shows "db_wf (fst (UserStore_UpdateProfile io i prof db))"
    and "db_wf (fst (UserStore_SetPassword cr io salt i pw db))"
    and "db_wf (fst (UserStore_SetMustChangePassword io i must db))"
    and "db_wf (fst (UserStore_Delete io i db))"
    and "db_wf (fst (UserStore_RevokeAPIKey io i db))"
  using assms
  by (auto simp: UserStore_UpdateProfile_def UserStore_SetPassword_def UserStore_SetMustChangePassword_def
      UserStore_Delete_def UserStore_RevokeAPIKey_def split: option.splits
      intro!: exec_pres [where P = db_wf] intro: delete_user_wf update_api_keys_wf elim!: update_users_wf)

lemma UserStore_UpdateRole_wf: "db_wf db \<Longrightarrow> db_wf (fst (UserStore_UpdateRole io i role db))"
proof -
  assume wf: "db_wf db"
  obtain db1 r where step: "exec (io 0) (update_users (\<lambda>u. ur_id u = i) (\<lambda>u. u\<lparr>ur_role := role\<rparr>)) db = (db1, r)"
    by fastforce
  have "db_wf (fst (exec (io 0) (update_users (\<lambda>u. ur_id u = i) (\<lambda>u. u\<lparr>ur_role := role\<rparr>)) db))"
    by (rule exec_pres) (auto simp: wf elim!: update_users_wf)
  with step have "db_wf db1" by simp
  then show ?thesis
    by (auto simp: UserStore_UpdateRole_def step intro!: exec_ignore_pres [where P = db_wf] elim!: update_users_wf)
qed

lemma UserStore_EnsureAdmin_wf: "db_wf db \<Longrightarrow> db_wf (fst (UserStore_EnsureAdmin cr io now salt uid pw db))"
  using UserStore_CreateWithAccessLevel_wf [of db cr "after_stmts 1 io" now salt uid "''admin''" pw "''admin''" "[]" None]
  by (auto simp: UserStore_EnsureAdmin_def UserStore_Create_def intro!: exec_ignore_pres [where P = db_wf]
      elim!: update_users_wf split: prod.splits)

lemma UserStore_ValidateAPIKey_wf: "db_wf db \<Longrightarrow> db_wf (fst (UserStore_ValidateAPIKey cr io now raw db))"
  by (auto simp: UserStore_ValidateAPIKey_def Let_def exec_ignore_def stmt_def
      split: option.splits sum.splits if_splits intro!: update_api_keys_wf)

lemmas user_store_wf = UserStore_CreateWithAccessLevel_wf UserStore_CreateAPIKey_wf UserStore_simple_wf
  UserStore_UpdateRole_wf UserStore_EnsureAdmin_wf UserStore_ValidateAPIKey_wf

section \<open>Properties\<close>

lemma sql_row_after_insert_user:
  assumes "insert_user r db = Inr db'"
  shows "sql_row (\<lambda>u. ur_username u = ur_username r) (db_users db') = Some r"
    and "sql_row (\<lambda>u. ur_id u = ur_id r) (db_users db') = Some r"
  using assms
  by (auto simp: insert_user_def sql_row_snoc split: if_splits)

lemma user_of_row_new: "user_of_row (row_of_user (new_user uid un h role al prof now)) = new_user uid un h role al prof now"
  by (simp add: user_of_row_def row_of_user_def new_user_def)

text \<open>
  An account that was created can be logged into with its password, and the session gets the
  very user the creation returned: the role asked for, access level \<open>admin\<close> for an administrator,
  \<open>write\<close> where none was named, no forced password change.
\<close>

theorem create_then_authenticate:
  assumes "bcrypt_accepts_own cr"
    and "UserStore_CreateWithAccessLevel cr io now salt uid username password role accessLevel profile db = (db', Inr u)"
  shows "UserStore_Authenticate cr no_faults username password db' = Inr (Some u) \<and>
    UserStore_Get no_faults uid db' = Inr (Some u) \<and>
    u_Username u = username \<and> u_Role u = role \<and> \<not> u_MustChangePassword u \<and>
    u_AccessLevel u = (if role = ''admin'' then ''admin'' else if accessLevel = [] then ''write'' else accessLevel)"
proof -
  from assms(2) obtain h where h: "bcrypt_gen cr salt password = Some h"
    and u: "u = new_user uid username h role accessLevel profile now"
    and ins: "insert_user (row_of_user u) db = Inr db'"
    by (auto simp: UserStore_CreateWithAccessLevel_def Let_def stmt_def split: option.splits sum.splits if_splits)
  have keys: "ur_username (row_of_user u) = username" "ur_id (row_of_user u) = uid"
      "ur_password_hash (row_of_user u) = h"
    by (simp_all add: u row_of_user_def new_user_def)
  note rows = sql_row_after_insert_user [OF ins, unfolded keys]
  from assms(1) h have "bcrypt_cmp cr h password" by (auto simp: bcrypt_accepts_own_def)
  then show ?thesis
    by (auto simp: UserStore_Authenticate_def UserStore_Get_def rows keys(3) u user_of_row_new)
      (simp_all add: new_user_def row_of_user_def effective_access_level_def Let_def)
qed

theorem create_then_authenticate_witness:
  "\<exists>db' u. UserStore_CreateWithAccessLevel demo_crypto no_faults 5 ''salt'' ''u1'' ''alice'' ''secret12'' ''user'' [] None empty_db
      = (db', Inr u) \<and> UserStore_Authenticate demo_crypto no_faults ''alice'' ''secret12'' db' = Inr (Some u)"
proof -
  obtain db' u where c: "UserStore_CreateWithAccessLevel demo_crypto no_faults 5 ''salt'' ''u1'' ''alice'' ''secret12'' ''user'' [] None empty_db
      = (db', Inr u)"
    by (simp add: UserStore_CreateWithAccessLevel_def insert_user_def row_of_user_def new_user_def
        effective_access_level_def valid_role_def valid_tier_def empty_db_def sql_has_def)
  with create_then_authenticate [OF demo_crypto_accepts_own c] show ?thesis by blast
qed

text \<open>
  C8. A raw key authenticates exactly when a stored key has its hash, is not revoked and has an
  owner; the caller gets that owner, with the key's own profile taking precedence over the owner's
  default profile, and the key's capabilities.
\<close>

theorem validate_api_key_iff:
  assumes "db_wf db"
  shows "(\<exists>db'. UserStore_ValidateAPIKey cr no_faults now raw db = (db', Inr (Some (u, k)))) \<longleftrightarrow>
    (\<exists>r owner. sql_row (\<lambda>x. kr_key_hash x = sha256_hex cr raw) (db_api_keys db) = Some r \<and> \<not> kr_revoked r \<and>
       owner \<in> set (db_users db) \<and> ur_id owner = kr_user_id r \<and> k = key_of_row r \<and>
       u = (user_of_row owner)\<lparr>u_ProfileID :=
         (if kr_profile_id r \<noteq> None then kr_profile_id r else ur_default_profile_id owner)\<rparr>)"
proof -
  have ow: "(sql_row (\<lambda>u. ur_id u = i) (db_users db) = Some w) \<longleftrightarrow> w \<in> set (db_users db) \<and> ur_id w = i" for i w
    using assms tbl_ok_row [of ur_id _ "db_users db" w] by (auto simp: db_wf_def dest: sql_row_SomeD)
  have get: "UserStore_Get (after_stmts 2 no_faults) i (update_api_keys p f db) =
      Inr (map_option user_of_row (sql_row (\<lambda>u. ur_id u = i) (db_users db)))" for i p f
    by (simp add: UserStore_Get_def update_api_keys_def)
  have prof: "with_effective_profile kp (user_of_row w) =
      (user_of_row w)\<lparr>u_ProfileID := (if kp \<noteq> None then kp else ur_default_profile_id w)\<rparr>" for kp w
    by (auto simp: with_effective_profile_def user_of_row_def split: option.splits)
  show ?thesis
  proof (cases "sql_row (\<lambda>x. kr_key_hash x = sha256_hex cr raw) (db_api_keys db)")
    case None
    then show ?thesis by (simp add: UserStore_ValidateAPIKey_def hashAPIKey_def)
  next
    case (Some r)
    then have "kr_key_hash r = sha256_hex cr raw" by (auto dest: sql_row_SomeD)
    note key = Some this
    show ?thesis
    proof (cases "sql_row (\<lambda>u. ur_id u = kr_user_id r) (db_users db)")
      case None
      then have "\<And>v. v \<in> set (db_users db) \<Longrightarrow> ur_id v \<noteq> kr_user_id r" by (simp add: sql_row_None_iff)
      with key None show ?thesis
        by (auto simp: UserStore_ValidateAPIKey_def hashAPIKey_def Let_def exec_ignore_def get)
    next
      case (Some w)
      with key have run: "(\<exists>db'. UserStore_ValidateAPIKey cr no_faults now raw db = (db', Inr (Some (u, k)))) \<longleftrightarrow>
          \<not> kr_revoked r \<and> u = (user_of_row w)\<lparr>u_ProfileID :=
            (if kr_profile_id r \<noteq> None then kr_profile_id r else ur_default_profile_id w)\<rparr> \<and> k = key_of_row r"
        by (simp add: UserStore_ValidateAPIKey_def hashAPIKey_def Let_def exec_ignore_def get prof) blast
      have w: "w \<in> set (db_users db)" "ur_id w = kr_user_id r" using Some ow by auto
      moreover have "v = w" if "v \<in> set (db_users db)" "ur_id v = kr_user_id r" for v
        using that ow [where i = "kr_user_id r" and w = v] Some by simp
      ultimately have "(\<exists>v. v \<in> set (db_users db) \<and> ur_id v = kr_user_id r \<and> Q v) = Q w" for Q
        by blast
      note owner = this [of "\<lambda>v. k = key_of_row r \<and> u = (user_of_row v)\<lparr>u_ProfileID :=
            (if kr_profile_id r \<noteq> None then kr_profile_id r else ur_default_profile_id v)\<rparr>"]
      have pick: "(\<exists>r' v. Some r = Some r' \<and> \<not> kr_revoked r' \<and> R r' v) \<longleftrightarrow> \<not> kr_revoked r \<and> (\<exists>v. R r v)" for R
        by blast
      show ?thesis unfolding run key(1) pick owner by (simp only: conj_commute)
    qed
  qed
qed

definition demo_user_row :: user_row where
  "demo_user_row = \<lparr>ur_id = ''u1'', ur_username = ''alice'', ur_password_hash = ''hsecret12'', ur_role = ''user'',
     ur_access_level = ''write'', ur_default_profile_id = None, ur_must_change_password = False, ur_created_at = 0\<rparr>"

definition demo_key_row :: api_key_row where
  "demo_key_row = \<lparr>kr_id = ''k1'', kr_user_id = ''u1'', kr_key_hash = ''sraw'', kr_name = ''ci'', kr_profile_id = None,
     kr_created_at = 0, kr_last_used = None, kr_revoked = False, kr_capabilities = Some [''skills:write'']\<rparr>"

definition demo_db :: relay_db where
  "demo_db = empty_db\<lparr>db_users := [demo_user_row], db_api_keys := [demo_key_row]\<rparr>"

lemmas demo_db_defs = demo_db_def demo_user_row_def demo_key_row_def empty_db_def

lemma demo_db_wf: "db_wf demo_db"
  by (simp add: db_wf_def demo_db_defs tbl_ok_def row_ok_defs valid_defs exists_defs sql_has_def)

theorem validate_api_key_iff_witness:
  "\<exists>db'. UserStore_ValidateAPIKey demo_crypto no_faults 7 ''raw'' demo_db =
     (db', Inr (Some (user_of_row demo_user_row, key_of_row demo_key_row)))"
  unfolding validate_api_key_iff [OF demo_db_wf]
  by (simp add: demo_db_defs user_of_row_def)

text \<open>
  The stored capability list is the set of the trimmed, non-empty names given, in ascending order
  without repetition; it is a fixed point of the normalisation.
\<close>

theorem normalize_capabilities_spec:
  "normalizeCapabilities caps = sorted_list_of_set (trim_space ` set caps - {[]}) \<and>
   normalizeCapabilities (normalizeCapabilities caps) = normalizeCapabilities caps"
proof -
  have "trim_space ` (trim_space ` set caps - {[]}) - {[]} = trim_space ` set caps - {[]}"
    by (auto simp: image_image intro: rev_image_eqI)
  then show ?thesis by (simp add: normalizeCapabilities_eq)
qed

text \<open>
  What a key may do: a capability is held exactly when it is listed or is the \<open>:publish\<close>
  successor of a listed legacy name. A key of before the split publishes, and gets neither
  \<open>admin\<close> nor \<open>yank\<close> from its legacy names.
\<close>

theorem has_capability_spec:
  "HasCapability (Some k) cap \<longleftrightarrow>
     cap \<in> set (k_Capabilities k) \<or>
     (cap = ''skills:publish'' \<and> ''skills:write'' \<in> set (k_Capabilities k)) \<or>
     (cap = ''recipes:publish'' \<and> ''recipes:write'' \<in> set (k_Capabilities k))"
  by (simp add: HasCapability_def has_capability_in_iff legacy_grant_iff) blast

end
