(* ===== verification/Token_Store.thy ===== *)
theory Token_Store
  imports User_Store
begin

text \<open>
  \<open>internal/store/sessions.go\<close>, \<open>invites.go\<close>, \<open>oauth_tokens.go\<close> and
  \<open>oauth_clients.go\<close>: browser sessions, account invites, OAuth access tokens, OAuth clients and
  refresh tokens. Raw tokens never reach the database, only their SHA-256 digests.
\<close>

section \<open>Sessions\<close>

definition SessionStore_Create :: "faults \<Rightarrow> string \<Rightarrow> string \<Rightarrow> time \<Rightarrow> relay_db \<Rightarrow> relay_db \<times> unit res" where
  "SessionStore_Create io i userID expiresAt db =
     exec (io 0) (insert_session \<lparr>sr_id = i, sr_user_id = userID, sr_expires_at = expiresAt\<rparr>) db"

text \<open>The columns read are a part of the user: no password hash, no creation time.\<close>

definition session_user :: "user_row \<Rightarrow> User" where
  "session_user u =
     \<lparr>u_ID = ur_id u, u_Username = ur_username u, u_PasswordHash = [], u_Role = ur_role u,
      u_AccessLevel = ur_access_level u, u_DefaultProfileID = ur_default_profile_id u,
      u_MustChangePassword = ur_must_change_password u, u_CreatedAt = 0,
      u_ProfileID = ur_default_profile_id u, u_ProfileName = []\<rparr>"

definition SessionStore_Get :: "faults \<Rightarrow> time \<Rightarrow> string \<Rightarrow> relay_db \<Rightarrow> (User \<times> time) option" where
  "SessionStore_Get io now i db =
     (if \<not> io 0 then None
      else case sql_row (\<lambda>s. sr_id s = i \<and> now < sr_expires_at s) (db_sessions db) of
        None \<Rightarrow> None
      | Some s \<Rightarrow>
          (case sql_row (\<lambda>u. ur_id u = sr_user_id s) (db_users db) of
             None \<Rightarrow> None
           | Some u \<Rightarrow> Some (session_user u, sr_expires_at s)))"

definition delete_sessions :: "(session_row \<Rightarrow> bool) \<Rightarrow> relay_db \<Rightarrow> relay_db res" where
  "delete_sessions p db = Inr (db\<lparr>db_sessions := sql_delete p (db_sessions db)\<rparr>)"

definition SessionStore_Delete :: "faults \<Rightarrow> string \<Rightarrow> relay_db \<Rightarrow> relay_db" where
  "SessionStore_Delete io i db = exec_ignore (io 0) (delete_sessions (\<lambda>s. sr_id s = i)) db"

definition SessionStore_DeleteByUser :: "faults \<Rightarrow> string \<Rightarrow> relay_db \<Rightarrow> relay_db" where
  "SessionStore_DeleteByUser io userID db = exec_ignore (io 0) (delete_sessions (\<lambda>s. sr_user_id s = userID)) db"

definition SessionStore_Cleanup :: "faults \<Rightarrow> time \<Rightarrow> relay_db \<Rightarrow> relay_db" where
  "SessionStore_Cleanup io now db = exec_ignore (io 0) (delete_sessions (\<lambda>s. sr_expires_at s < now)) db"

section \<open>Invites\<close>

definition hashInviteToken :: "crypto \<Rightarrow> string \<Rightarrow> string" where
  "hashInviteToken cr token = sha256_hex cr token"

definition InviteStore_CreateAccountInvite ::
    "crypto \<Rightarrow> faults \<Rightarrow> string \<Rightarrow> string \<Rightarrow> string \<Rightarrow> string \<Rightarrow> string option \<Rightarrow> string \<Rightarrow> time \<Rightarrow>
     relay_db \<Rightarrow> relay_db \<times> (string \<times> InviteToken) res" where
  "InviteStore_CreateAccountInvite cr io rawToken iid role accessLevel profile createdBy expiresAt db =
     (let t = \<lparr>it_ID = iid, it_TokenHash = hashInviteToken cr rawToken, it_Role = role,
               it_AccessLevel = effective_access_level role accessLevel, it_ProfileID = profile,
               it_CreatedBy = createdBy, it_ExpiresAt = expiresAt, it_UsedAt = None,
               it_RedeemedUserID = None, it_Status = ''pending''\<rparr> in
      case stmt (io 0) (insert_invite t db) of
        Inl e \<Rightarrow> (db, Inl e)
      | Inr db' \<Rightarrow> (db', Inr (rawToken, t)))"

definition redeemable :: "string \<Rightarrow> time \<Rightarrow> InviteToken \<Rightarrow> bool" where
  "redeemable h now t \<longleftrightarrow> it_TokenHash t = h \<and> it_Status t = ''pending'' \<and> now < it_ExpiresAt t"

definition InviteStore_Peek :: "crypto \<Rightarrow> faults \<Rightarrow> time \<Rightarrow> string \<Rightarrow> relay_db \<Rightarrow> InviteToken option res" where
  "InviteStore_Peek cr io now rawToken db =
     stmt (io 0) (case sql_row (redeemable (hashInviteToken cr rawToken) now) (db_invites db) of
        None \<Rightarrow> Inr None
      | Some t \<Rightarrow>
          if it_TokenHash t \<noteq> hashInviteToken cr rawToken then Inr None
          else Inr (Some (t\<lparr>it_TokenHash := [], it_UsedAt := None, it_RedeemedUserID := None\<rparr>)))"

text \<open>Statements: the \<open>UPDATE\<close>, its row count, the re-read. The transaction is the caller's.\<close>

definition InviteStore_ValidateAndConsumeTx ::
    "crypto \<Rightarrow> faults \<Rightarrow> time \<Rightarrow> string \<Rightarrow> relay_db \<Rightarrow> relay_db \<times> InviteToken option res" where
  "InviteStore_ValidateAndConsumeTx cr io now rawToken tx =
     (let h = hashInviteToken cr rawToken in
      if \<not> io 0 then (tx, Inl DriverError)
      else
        let affected = sql_count (redeemable h now) (db_invites tx);
            tx' = tx\<lparr>db_invites := sql_update (redeemable h now)
                      (\<lambda>t. t\<lparr>it_Status := ''used'', it_UsedAt := Some now\<rparr>) (db_invites tx)\<rparr> in
        if \<not> io 1 then (tx', Inl DriverError)
        else if affected = 0 then (tx', Inr None)
        else if \<not> io 2 then (tx', Inl DriverError)
        else case sql_row (\<lambda>t. it_TokenHash t = h) (db_invites tx') of
          None \<Rightarrow> (tx', Inl NoRows)
        | Some t \<Rightarrow>
            if it_TokenHash t \<noteq> h then (tx', Inr None)
            else (tx', Inr (Some (t\<lparr>it_TokenHash := [], it_RedeemedUserID := None\<rparr>))))"

definition set_redeemed_user :: "string \<Rightarrow> string \<Rightarrow> relay_db \<Rightarrow> relay_db res" where
  "set_redeemed_user tokenID userID db =
     (if sql_has (\<lambda>t. it_ID t = tokenID) (db_invites db) \<and> \<not> user_exists db userID then Inl ForeignKeyViolation
      else Inr (db\<lparr>db_invites := sql_update (\<lambda>t. it_ID t = tokenID)
        (\<lambda>t. t\<lparr>it_RedeemedUserID := Some userID\<rparr>) (db_invites db)\<rparr>))"

definition InviteStore_SetRedeemedUserTx :: "faults \<Rightarrow> string \<Rightarrow> string \<Rightarrow> relay_db \<Rightarrow> relay_db \<times> unit res" where
  "InviteStore_SetRedeemedUserTx io tokenID userID tx = exec (io 0) (set_redeemed_user tokenID userID) tx"

definition scanInviteTokens :: "relay_db \<Rightarrow> InviteToken list \<Rightarrow> (InviteToken \<times> string \<times> string) list" where
  "scanInviteTokens db ts =
     map (\<lambda>t. (t\<lparr>it_TokenHash := []\<rparr>, owner_name db (it_CreatedBy t),
        (case it_RedeemedUserID t of None \<Rightarrow> [] | Some u \<Rightarrow> owner_name db u))) ts"

definition InviteStore_ListAll :: "faults \<Rightarrow> relay_db \<Rightarrow> (InviteToken \<times> string \<times> string) list res" where
  "InviteStore_ListAll io db =
     stmt (io 0) (Inr (scanInviteTokens db (sql_order_desc it_ExpiresAt (db_invites db))))"

definition InviteStore_ListPending :: "faults \<Rightarrow> time \<Rightarrow> relay_db \<Rightarrow> (InviteToken \<times> string \<times> string) list res" where
  "InviteStore_ListPending io now db =
     stmt (io 0) (Inr (scanInviteTokens db (sql_order_desc it_ExpiresAt
       (sql_select (\<lambda>t. it_Status t = ''pending'' \<and> now < it_ExpiresAt t) (db_invites db)))))"

definition InviteStore_Delete :: "faults \<Rightarrow> string \<Rightarrow> relay_db \<Rightarrow> relay_db \<times> unit res" where
  "InviteStore_Delete io i db =
     exec (io 0) (\<lambda>d. Inr (d\<lparr>db_invites := sql_delete (\<lambda>t. it_ID t = i) (db_invites d)\<rparr>)) db"

definition InviteStore_CleanupExpired :: "faults \<Rightarrow> time \<Rightarrow> relay_db \<Rightarrow> relay_db \<times> unit res" where
  "InviteStore_CleanupExpired io now db =
     exec (io 0) (\<lambda>d. Inr (d\<lparr>db_invites := sql_update (\<lambda>t. it_Status t = ''pending'' \<and> it_ExpiresAt t < now)
       (\<lambda>t. t\<lparr>it_Status := ''expired''\<rparr>) (db_invites d)\<rparr>)) db"

section \<open>OAuth access tokens\<close>

definition OAuthTokenStore_Create ::
    "faults \<Rightarrow> string \<Rightarrow> string \<Rightarrow> string \<Rightarrow> string \<Rightarrow> string \<Rightarrow> time \<Rightarrow> relay_db \<Rightarrow> relay_db \<times> unit res" where
  "OAuthTokenStore_Create io tokenHash userID clientID scope resource expiresAt db =
     exec (io 0) (insert_oauth_token \<lparr>ot_TokenHash = tokenHash, ot_UserID = userID, ot_ClientID = clientID,
       ot_Scope = scope, ot_Resource = resource, ot_ExpiresAt = expiresAt\<rparr>) db"

text \<open>A failed lookup of the user is \<open>(nil, nil)\<close>, whatever its cause.\<close>

definition oauth_user :: "user_row \<Rightarrow> User" where
  "oauth_user u =
     \<lparr>u_ID = ur_id u, u_Username = ur_username u, u_PasswordHash = [], u_Role = ur_role u,
      u_AccessLevel = ur_access_level u, u_DefaultProfileID = ur_default_profile_id u,
      u_MustChangePassword = False, u_CreatedAt = 0,
      u_ProfileID = ur_default_profile_id u, u_ProfileName = []\<rparr>"

definition OAuthTokenStore_Validate :: "crypto \<Rightarrow> faults \<Rightarrow> time \<Rightarrow> string \<Rightarrow> relay_db \<Rightarrow> User option res" where
  "OAuthTokenStore_Validate cr io now rawToken db =
     (let h = hashAPIKey cr rawToken in
      if \<not> io 0 then Inl DriverError
      else case sql_row (\<lambda>t. ot_TokenHash t = h) (db_oauth_tokens db) of
        None \<Rightarrow> Inr None
      | Some t \<Rightarrow>
          if ot_TokenHash t \<noteq> h then Inr None
          else if ot_ExpiresAt t < now then Inr None
          else if \<not> io 1 then Inr None
          else Inr (map_option oauth_user (sql_row (\<lambda>u. ur_id u = ot_UserID t) (db_users db))))"

definition OAuthTokenStore_Cleanup :: "faults \<Rightarrow> time \<Rightarrow> relay_db \<Rightarrow> relay_db" where
  "OAuthTokenStore_Cleanup io now db =
     exec_ignore (io 0) (\<lambda>d. Inr (d\<lparr>db_oauth_tokens := sql_delete (\<lambda>t. ot_ExpiresAt t < now) (db_oauth_tokens d)\<rparr>)) db"

section \<open>OAuth clients and refresh tokens\<close>

definition HasRedirectURI :: "OAuthClient \<Rightarrow> string \<Rightarrow> bool" where
  "HasRedirectURI c uri = list_ex (\<lambda>registered. registered = uri) (oc_RedirectURIs c)"

definition OAuthClientStore_Create ::
    "faults \<Rightarrow> string \<Rightarrow> string \<Rightarrow> string \<Rightarrow> string \<Rightarrow> string list \<Rightarrow> relay_db \<Rightarrow> relay_db \<times> unit res" where
  "OAuthClientStore_Create io clientID secretHash clientName authMethod redirectURIs db =
     exec (io 0) (insert_oauth_client \<lparr>oc_ClientID = clientID, oc_ClientSecretHash = secretHash,
       oc_ClientName = clientName, oc_RedirectURIs = redirectURIs, oc_TokenEndpointAuthMethod = authMethod\<rparr>) db"

definition OAuthClientStore_Get :: "faults \<Rightarrow> string \<Rightarrow> relay_db \<Rightarrow> OAuthClient option" where
  "OAuthClientStore_Get io clientID db =
     (if \<not> io 0 then None else sql_row (\<lambda>c. oc_ClientID c = clientID) (db_oauth_clients db))"

definition OAuthClientStore_ValidateSecret :: "crypto \<Rightarrow> faults \<Rightarrow> string \<Rightarrow> string \<Rightarrow> relay_db \<Rightarrow> bool" where
  "OAuthClientStore_ValidateSecret cr io clientID secret db =
     (case OAuthClientStore_Get io clientID db of
        None \<Rightarrow> False
      | Some client \<Rightarrow>
          if oc_ClientSecretHash client = [] then True
          else sha256_hex cr secret = oc_ClientSecretHash client)"

definition OAuthRefreshTokenStore_Create ::
    "faults \<Rightarrow> string \<Rightarrow> string \<Rightarrow> string \<Rightarrow> string \<Rightarrow> string \<Rightarrow> time \<Rightarrow> relay_db \<Rightarrow> relay_db \<times> unit res" where
  "OAuthRefreshTokenStore_Create io tokenHash userID clientID scope resource expiresAt db =
     exec (io 0) (insert_refresh_token \<lparr>ot_TokenHash = tokenHash, ot_UserID = userID, ot_ClientID = clientID,
       ot_Scope = scope, ot_Resource = resource, ot_ExpiresAt = expiresAt\<rparr>) db"

definition delete_refresh_token :: "string \<Rightarrow> relay_db \<Rightarrow> relay_db res" where
  "delete_refresh_token h db =
     Inr (db\<lparr>db_refresh_tokens := sql_delete (\<lambda>t. ot_TokenHash t = h) (db_refresh_tokens db)\<rparr>)"

definition OAuthRefreshTokenStore_Consume ::
    "crypto \<Rightarrow> faults \<Rightarrow> time \<Rightarrow> string \<Rightarrow> relay_db \<Rightarrow> relay_db \<times> oauth_token_row option" where
  "OAuthRefreshTokenStore_Consume cr io now rawToken db =
     (let h = sha256_hex cr rawToken in
      if \<not> io 0 then (db, None)
      else case sql_row (\<lambda>t. ot_TokenHash t = h) (db_refresh_tokens db) of
        None \<Rightarrow> (db, None)
      | Some data \<Rightarrow>
          if ot_ExpiresAt data < now then (exec_ignore (io 1) (delete_refresh_token h) db, None)
          else (exec_ignore (io 1) (delete_refresh_token h) db, Some data))"

definition OAuthRefreshTokenStore_Cleanup :: "faults \<Rightarrow> time \<Rightarrow> relay_db \<Rightarrow> relay_db" where
  "OAuthRefreshTokenStore_Cleanup io now db =
     exec_ignore (io 0) (\<lambda>d. Inr (d\<lparr>db_refresh_tokens := sql_delete (\<lambda>t. ot_ExpiresAt t < now) (db_refresh_tokens d)\<rparr>)) db"

section \<open>The operations keep the database well-formed\<close>

lemma delete_sessions_wf: "delete_sessions p db = Inr db' \<Longrightarrow> db_wf db \<Longrightarrow> db_wf db'"
  by (auto simp: delete_sessions_def db_wf_def elim: tbl_ok_delete)

lemma session_store_wf:
  assumes wf: "db_wf db"
  shows "db_wf (fst (SessionStore_Create io i u x db))" "db_wf (SessionStore_Delete io i db)"
    "db_wf (SessionStore_DeleteByUser io u db)" "db_wf (SessionStore_Cleanup io now db)"
  using wf
  by (auto simp: SessionStore_Create_def SessionStore_Delete_def SessionStore_DeleteByUser_def SessionStore_Cleanup_def
      intro!: exec_pres [where P = db_wf] exec_ignore_pres [where P = db_wf] intro: insert_session_wf delete_sessions_wf)

text \<open>An update of invites that keeps the identifying columns and the references.\<close>

lemma update_invites_wf:
  assumes wf: "db_wf db"
    and "\<And>t. it_ID (f t) = it_ID t" "\<And>t. it_TokenHash (f t) = it_TokenHash t"
    and "\<And>t. invite_row_ok (user_exists db) (profile_exists db) t \<Longrightarrow> p t \<Longrightarrow>
      invite_row_ok (user_exists db) (profile_exists db) (f t)"
  shows "db_wf (db\<lparr>db_invites := sql_update p f (db_invites db)\<rparr>)"
proof -
  have "tbl_ok it_ID (invite_row_ok (user_exists db) (profile_exists db)) (sql_update p f (db_invites db))"
      "tbl_ok it_TokenHash (\<lambda>_. True) (sql_update p f (db_invites db))"
    using assms by (auto simp: db_wf_def intro: tbl_ok_update)
  with wf show ?thesis by (simp add: db_wf_def)
qed

lemma InviteStore_ValidateAndConsumeTx_wf:
  assumes "db_wf db"
  shows "db_wf (fst (InviteStore_ValidateAndConsumeTx cr io now raw db))"
proof -
  have "db_wf (db\<lparr>db_invites := sql_update (redeemable h now)
      (\<lambda>t. t\<lparr>it_Status := ''used'', it_UsedAt := Some now\<rparr>) (db_invites db)\<rparr>)" for h
    using assms by (rule update_invites_wf) (auto simp: invite_row_ok_def valid_invite_status_def)
  with assms show ?thesis
    by (auto simp: InviteStore_ValidateAndConsumeTx_def Let_def split: option.split)
qed

lemma set_redeemed_user_wf: "set_redeemed_user t u db = Inr db' \<Longrightarrow> db_wf db \<Longrightarrow> db_wf db'"
proof -
  assume run: "set_redeemed_user t u db = Inr db'" and wf: "db_wf db"
  show ?thesis
  proof (cases "sql_has (\<lambda>x. it_ID x = t) (db_invites db)")
    case True
    with run have "user_exists db u" and db': "db' = db\<lparr>db_invites := sql_update (\<lambda>x. it_ID x = t)
        (\<lambda>x. x\<lparr>it_RedeemedUserID := Some u\<rparr>) (db_invites db)\<rparr>"
      by (auto simp: set_redeemed_user_def split: if_splits)
    with wf show ?thesis by (auto simp: invite_row_ok_def intro!: update_invites_wf)
  next
    case False
    then have "sql_update (\<lambda>x. it_ID x = t) f (db_invites db) = db_invites db" for f
      by (auto simp: sql_update_def sql_has_iff map_idI)
    with run False wf show ?thesis by (auto simp: set_redeemed_user_def)
  qed
qed

lemma invite_store_wf:
  assumes wf: "db_wf db"
  shows "db_wf (fst (InviteStore_CreateAccountInvite cr io raw iid role al prof cb x db))"
    "db_wf (fst (InviteStore_SetRedeemedUserTx io t u db))"
    "db_wf (fst (InviteStore_Delete io i db))" "db_wf (fst (InviteStore_CleanupExpired io now db))"
proof -
  show "db_wf (fst (InviteStore_CreateAccountInvite cr io raw iid role al prof cb x db))"
    using wf by (auto simp: InviteStore_CreateAccountInvite_def Let_def stmt_def dest: insert_invite_wf split: sum.splits)
  show "db_wf (fst (InviteStore_SetRedeemedUserTx io t u db))"
    unfolding InviteStore_SetRedeemedUserTx_def by (rule exec_pres) (auto simp: wf intro: set_redeemed_user_wf)
  show "db_wf (fst (InviteStore_Delete io i db))"
    unfolding InviteStore_Delete_def
    by (rule exec_pres) (use wf in \<open>auto simp: db_wf_def elim: tbl_ok_delete\<close>)
  have "db_wf (db\<lparr>db_invites := sql_update (\<lambda>t. it_Status t = ''pending'' \<and> it_ExpiresAt t < now)
       (\<lambda>t. t\<lparr>it_Status := ''expired''\<rparr>) (db_invites db)\<rparr>)"
    using wf by (rule update_invites_wf) (auto simp: invite_row_ok_def valid_invite_status_def)
  with wf show "db_wf (fst (InviteStore_CleanupExpired io now db))"
    unfolding InviteStore_CleanupExpired_def by (auto intro: exec_pres [where P = db_wf])
qed

lemma delete_refresh_token_wf: "delete_refresh_token h db = Inr db' \<Longrightarrow> db_wf db \<Longrightarrow> db_wf db'"
  by (auto simp: delete_refresh_token_def db_wf_def elim: tbl_ok_delete)

lemma cleanup_tokens_wf:
  assumes "db_wf db"
  shows "db_wf (db\<lparr>db_oauth_tokens := sql_delete p (db_oauth_tokens db)\<rparr>)"
    "db_wf (db\<lparr>db_refresh_tokens := sql_delete p (db_refresh_tokens db)\<rparr>)"
  using assms by (auto simp: db_wf_def elim: tbl_ok_delete)

lemma oauth_store_wf:
  assumes wf: "db_wf db"
  shows "db_wf (fst (OAuthTokenStore_Create io h u c s r x db))" "db_wf (OAuthTokenStore_Cleanup io now db)"
    "db_wf (fst (OAuthClientStore_Create io cid sh cn am uris db))"
    "db_wf (fst (OAuthRefreshTokenStore_Create io h u c s r x db))"
    "db_wf (fst (OAuthRefreshTokenStore_Consume cr io now raw db))" "db_wf (OAuthRefreshTokenStore_Cleanup io now db)"
  using wf
  by (auto simp: OAuthTokenStore_Create_def OAuthTokenStore_Cleanup_def OAuthClientStore_Create_def
      OAuthRefreshTokenStore_Create_def OAuthRefreshTokenStore_Consume_def OAuthRefreshTokenStore_Cleanup_def Let_def
      split: option.split intro!: exec_pres [where P = db_wf] exec_ignore_pres [where P = db_wf]
      intro: insert_oauth_token_wf insert_oauth_client_wf insert_refresh_token_wf delete_refresh_token_wf cleanup_tokens_wf)

lemmas token_store_wf = session_store_wf InviteStore_ValidateAndConsumeTx_wf invite_store_wf oauth_store_wf

section \<open>Invites are redeemed once\<close>

text \<open>One redemption attempt, at a time and with the faults of its run.\<close>

definition consume_invite :: "crypto \<Rightarrow> string \<Rightarrow> faults \<times> time \<Rightarrow> relay_db \<Rightarrow> relay_db \<times> InviteToken option" where
  "consume_invite cr raw e db =
     (case InviteStore_ValidateAndConsumeTx cr (fst e) (snd e) raw db of
        (db', Inr (Some t)) \<Rightarrow> (db', Some t)
      | (db', _) \<Rightarrow> (db', None))"

text \<open>The other operations on invites; raw tokens are fresh UUIDs, so no other invite has this one's digest.\<close>

inductive_set invite_ops :: "crypto \<Rightarrow> string \<Rightarrow> (relay_db \<Rightarrow> relay_db) set" for cr raw where
  create: "sha256_hex cr raw' \<noteq> sha256_hex cr raw \<Longrightarrow>
    (\<lambda>db. fst (InviteStore_CreateAccountInvite cr io raw' iid role al prof cb x db)) \<in> invite_ops cr raw"
| redeemed: "(\<lambda>db. fst (InviteStore_SetRedeemedUserTx io t u db)) \<in> invite_ops cr raw"
| delete: "(\<lambda>db. fst (InviteStore_Delete io i db)) \<in> invite_ops cr raw"
| cleanup: "(\<lambda>db. fst (InviteStore_CleanupExpired io now db)) \<in> invite_ops cr raw"

definition invite_live :: "crypto \<Rightarrow> string \<Rightarrow> relay_db \<Rightarrow> bool" where
  "invite_live cr raw db \<longleftrightarrow>
     (\<exists>t \<in> set (db_invites db). it_TokenHash t = hashInviteToken cr raw \<and> it_Status t = ''pending'')"

lemma consume_invite_result:
  assumes "consume_invite cr raw e db = (db', Some t)"
  shows "sql_count (redeemable (hashInviteToken cr raw) (snd e)) (db_invites db) \<noteq> 0"
    and "db' = db\<lparr>db_invites := sql_update (redeemable (hashInviteToken cr raw) (snd e))
      (\<lambda>t. t\<lparr>it_Status := ''used'', it_UsedAt := Some (snd e)\<rparr>) (db_invites db)\<rparr>"
  using assms
  by (auto simp: consume_invite_def InviteStore_ValidateAndConsumeTx_def Let_def
      split: if_splits option.splits sum.splits prod.splits dest: sql_row_SomeD)

lemma invite_spent:
  assumes wf: "db_wf db" and run: "consume_invite cr raw e db = (db', Some t)"
  shows "invite_live cr raw db" "\<not> invite_live cr raw db'"
proof -
  let ?h = "hashInviteToken cr raw"
  from consume_invite_result(1) [OF run] obtain r where r: "r \<in> set (db_invites db)" "redeemable ?h (snd e) r"
    by (auto simp: sql_count_def filter_empty_conv)
  then show "invite_live cr raw db" by (auto simp: invite_live_def redeemable_def)
  have uniq: "redeemable ?h (snd e) s" if "s \<in> set (db_invites db)" "it_TokenHash s = ?h" for s
    using that r wf tbl_ok_key_eq [of it_TokenHash "\<lambda>_. True" "db_invites db" s r]
    by (auto simp: db_wf_def redeemable_def)
  then show "\<not> invite_live cr raw db'"
    by (auto simp: consume_invite_result(2) [OF run] invite_live_def redeemable_def)
qed

lemma invite_dead_consume: "\<not> invite_live cr raw db \<Longrightarrow> \<not> invite_live cr raw (fst (consume_invite cr raw e db))"
  by (auto simp: consume_invite_def InviteStore_ValidateAndConsumeTx_def Let_def invite_live_def
      split: if_splits option.splits sum.splits prod.splits)

lemma invite_live_when_consumed:
  assumes "consume_invite cr raw e db = (db', Some t)"
  shows "invite_live cr raw db"
  using consume_invite_result(1) [OF assms]
  by (auto simp: sql_count_def filter_empty_conv invite_live_def redeemable_def)

lemma invite_ops_wf: "f \<in> invite_ops cr raw \<Longrightarrow> db_wf db \<Longrightarrow> db_wf (f db)"
  by (induction rule: invite_ops.induct) (auto intro: invite_store_wf)

lemma invite_ops_dead: "f \<in> invite_ops cr raw \<Longrightarrow> \<not> invite_live cr raw db \<Longrightarrow> \<not> invite_live cr raw (f db)"
proof (induction rule: invite_ops.induct)
  case (create raw' io iid role al prof cb x)
  then show ?case
    by (auto simp: InviteStore_CreateAccountInvite_def insert_invite_def stmt_def invite_live_def hashInviteToken_def
        Let_def split: if_splits sum.splits)
next
  case (redeemed io t u)
  then show ?case
    by (auto simp: InviteStore_SetRedeemedUserTx_def exec_def stmt_def set_redeemed_user_def invite_live_def
        split: if_splits)
next
  case (delete io i)
  then show ?case
    by (auto simp: InviteStore_Delete_def exec_def stmt_def invite_live_def)
next
  case (cleanup io now)
  then show ?case
    by (auto simp: InviteStore_CleanupExpired_def exec_def stmt_def invite_live_def)
qed

interpretation invite: one_shot "consume_invite cr raw" "invite_ops cr raw" db_wf "invite_live cr raw" for cr raw
proof unfold_locales
  fix db e assume "db_wf db"
  then show "db_wf (fst (consume_invite cr raw e db))"
    using InviteStore_ValidateAndConsumeTx_wf [of db cr "fst e" "snd e" raw]
    by (auto simp: consume_invite_def split: prod.splits sum.splits option.splits)
qed (auto simp: invite_dead_consume intro: invite_ops_wf dest: invite_live_when_consumed invite_spent invite_ops_dead)

text \<open>
  C7. An invite is redeemed at most once, whatever attempts are made, at whatever times and with
  whatever faults, and whatever other invite operations run in between.
\<close>

theorem invite_redeemed_at_most_once:
  assumes "db_wf db" and "\<And>f. Other f \<in> set us \<Longrightarrow> f \<in> invite_ops cr raw"
  shows "length (handed_out (consume_invite cr raw) us db) \<le> 1"
  using assms by (rule invite.used_at_most_once)

definition demo_invite :: InviteToken where
  "demo_invite = \<lparr>it_ID = ''i1'', it_TokenHash = ''stok'', it_Role = ''user'', it_AccessLevel = ''write'', it_ProfileID = None,
     it_CreatedBy = ''u1'', it_ExpiresAt = 100, it_UsedAt = None, it_RedeemedUserID = None, it_Status = ''pending''\<rparr>"

definition demo_invite_db :: relay_db where
  "demo_invite_db = demo_db\<lparr>db_invites := [demo_invite]\<rparr>"

lemma demo_invite_db_wf: "db_wf demo_invite_db"
  using demo_db_wf
  by (simp add: demo_invite_db_def db_wf_def)
    (simp add: demo_invite_def tbl_ok_def row_ok_defs valid_defs exists_defs sql_has_def demo_db_defs)

theorem invite_redeemed_at_most_once_witness:
  "length (handed_out (consume_invite demo_crypto ''tok'')
     [Try (no_faults, 1), Other (\<lambda>db. fst (InviteStore_CleanupExpired no_faults 1 db)), Try (no_faults, 2)] demo_invite_db) = 1"
proof -
  let ?us = "[Try (no_faults, 1), Other (\<lambda>db. fst (InviteStore_CleanupExpired no_faults 1 db)), Try (no_faults, 2)]"
  have "length (handed_out (consume_invite demo_crypto ''tok'') ?us demo_invite_db) \<le> 1"
    by (rule invite_redeemed_at_most_once [OF demo_invite_db_wf]) (auto intro: invite_ops.cleanup)
  moreover have "\<exists>t db'. consume_invite demo_crypto ''tok'' (no_faults, 1) demo_invite_db = (db', Some t)"
    by (simp add: consume_invite_def InviteStore_ValidateAndConsumeTx_def Let_def hashInviteToken_def redeemable_def
        demo_invite_db_def demo_invite_def sql_count_def sql_update_def)
  ultimately show ?thesis by (auto simp del: One_nat_def)
qed

section \<open>Refresh tokens are used once\<close>

definition consume_refresh :: "crypto \<Rightarrow> string \<Rightarrow> time \<Rightarrow> relay_db \<Rightarrow> relay_db \<times> oauth_token_row option" where
  "consume_refresh cr raw now db = OAuthRefreshTokenStore_Consume cr no_faults now raw db"

inductive_set refresh_ops :: "crypto \<Rightarrow> string \<Rightarrow> (relay_db \<Rightarrow> relay_db) set" for cr raw where
  create: "h \<noteq> sha256_hex cr raw \<Longrightarrow>
    (\<lambda>db. fst (OAuthRefreshTokenStore_Create io h u c s r x db)) \<in> refresh_ops cr raw"
| cleanup: "(\<lambda>db. OAuthRefreshTokenStore_Cleanup io now db) \<in> refresh_ops cr raw"
| delete_user: "(\<lambda>db. fst (UserStore_Delete io u db)) \<in> refresh_ops cr raw"

definition refresh_live :: "crypto \<Rightarrow> string \<Rightarrow> relay_db \<Rightarrow> bool" where
  "refresh_live cr raw db \<longleftrightarrow> (\<exists>t \<in> set (db_refresh_tokens db). ot_TokenHash t = sha256_hex cr raw)"

lemma refresh_ops_dead: "f \<in> refresh_ops cr raw \<Longrightarrow> \<not> refresh_live cr raw db \<Longrightarrow> \<not> refresh_live cr raw (f db)"
proof (induction rule: refresh_ops.induct)
  case (create h io u c s r x)
  then show ?case
    by (auto simp: OAuthRefreshTokenStore_Create_def exec_def stmt_def insert_refresh_token_def refresh_live_def
        split: if_splits)
next
  case (cleanup io now)
  then show ?case
    by (auto simp: OAuthRefreshTokenStore_Cleanup_def exec_ignore_def stmt_def refresh_live_def)
next
  case (delete_user io u)
  then show ?case
    by (auto simp: UserStore_Delete_def exec_def stmt_def delete_user_def refresh_live_def split: if_splits)
qed

lemma consume_refresh_cases:
  obtains (none) "consume_refresh cr raw now db = (db, None)" "\<not> refresh_live cr raw db"
  | (some) db' r where "consume_refresh cr raw now db = (db', r)" "refresh_live cr raw db" "\<not> refresh_live cr raw db'"
proof (cases "sql_row (\<lambda>t. ot_TokenHash t = sha256_hex cr raw) (db_refresh_tokens db)")
  case None
  then have "\<not> refresh_live cr raw db" by (auto simp: refresh_live_def sql_row_None_iff)
  with None show ?thesis
    by (intro none) (simp_all add: consume_refresh_def OAuthRefreshTokenStore_Consume_def)
next
  case (Some t)
  then have "refresh_live cr raw db" by (auto simp: refresh_live_def dest: sql_row_SomeD)
  moreover have "\<not> refresh_live cr raw (exec_ignore True (delete_refresh_token (sha256_hex cr raw)) db)"
    by (simp add: refresh_live_def exec_ignore_def delete_refresh_token_def)
  ultimately show ?thesis
    using Some by (cases "ot_ExpiresAt t < now")
      (auto intro!: some simp: consume_refresh_def OAuthRefreshTokenStore_Consume_def Let_def)
qed

interpretation refresh: one_shot "consume_refresh cr raw" "refresh_ops cr raw" "\<lambda>_. True" "refresh_live cr raw" for cr raw
proof unfold_locales
  fix db e db' r
  assume "consume_refresh cr raw e db = (db', Some r)"
  then show "refresh_live cr raw db" "\<not> refresh_live cr raw db'"
    by (cases rule: consume_refresh_cases [of cr raw e db]; simp)+
next
  fix db e
  assume "\<not> refresh_live cr raw db"
  then show "\<not> refresh_live cr raw (fst (consume_refresh cr raw e db))"
    by (cases rule: consume_refresh_cases [of cr raw e db]) simp_all
qed (auto dest: refresh_ops_dead)



text \<open>
  The deletion of a used refresh token is fire-and-forget: when that statement fails, the token is
  handed out and stays usable, so a second exchange succeeds too.
\<close>

theorem refresh_token_reusable_after_failed_delete:
  assumes "sql_row (\<lambda>t. ot_TokenHash t = sha256_hex cr raw) (db_refresh_tokens db) = Some t"
    and "now \<le> ot_ExpiresAt t"
  shows "OAuthRefreshTokenStore_Consume cr (\<lambda>k. k \<noteq> 1) now raw db = (db, Some t) \<and>
    snd (OAuthRefreshTokenStore_Consume cr no_faults now raw
      (fst (OAuthRefreshTokenStore_Consume cr (\<lambda>k. k \<noteq> 1) now raw db))) = Some t"
  using assms by (simp add: OAuthRefreshTokenStore_Consume_def exec_ignore_def)

theorem refresh_token_reusable_after_failed_delete_witness:
  "snd (OAuthRefreshTokenStore_Consume demo_crypto (\<lambda>k. k \<noteq> 1) 1 ''rt''
     (demo_db\<lparr>db_refresh_tokens := [\<lparr>ot_TokenHash = ''srt'', ot_UserID = ''u1'', ot_ClientID = ''c'', ot_Scope = [],
        ot_Resource = [], ot_ExpiresAt = 50\<rparr>]\<rparr>)) \<noteq> None"
  using refresh_token_reusable_after_failed_delete [of demo_crypto "''rt''"
     "demo_db\<lparr>db_refresh_tokens := [\<lparr>ot_TokenHash = ''srt'', ot_UserID = ''u1'', ot_ClientID = ''c'', ot_Scope = [],
        ot_Resource = [], ot_ExpiresAt = 50\<rparr>]\<rparr>" _ 1]
  by simp

end
