(* ===== verification/Auth_Middleware.thy ===== *)
theory Auth_Middleware
  imports Token_Store
begin

text \<open>
  \<open>internal/server/middleware.go\<close> and \<open>internal/web/auth_capabilities.go\<close>: who is calling and
  what they may do. A middleware either rejects the request with a reply or hands the caller it
  authenticated to the next handler.
\<close>

section \<open>Requests and replies\<close>

text \<open>
  The parts of \<open>http.Request\<close> the handlers read. \<open>hr_Header\<close> and \<open>hr_Form\<close> are
  \<open>Header.Get\<close> and \<open>FormValue\<close>: the empty string where there is no value. \<open>None\<close> as the
  body: reading it failed.
\<close>

record http_request =
  hr_Method :: string
  hr_Path :: string
  hr_Header :: "string \<Rightarrow> string"
  hr_Query :: "string \<Rightarrow> string"
  hr_Form :: "string \<Rightarrow> string"
  hr_Cookie :: "string \<Rightarrow> string option"
  hr_Body :: "string option"
  hr_RemoteAddr :: string

text \<open>Status and text of a reply that ends a request early.\<close>

type_synonym denial = "nat \<times> string"

record auth_ctx =
  cx_User :: "User option"
  cx_APIKey :: "APIKey option"

datatype auth_result =
    Rejected denial
  | RejectedWithChallenge denial
  | Authenticated auth_ctx

section \<open>Bearer tokens\<close>

definition bearer_token :: "http_request \<Rightarrow> auth_result + string" where
  "bearer_token r =
     (let auth = hr_Header r ''Authorization'' in
      if auth = [] then Inl (RejectedWithChallenge (401, ''missing Authorization header''))
      else if \<not> has_prefix auth ''Bearer '' then
        Inl (RejectedWithChallenge (401, ''invalid Authorization header, expected Bearer token''))
      else Inr (trim_prefix auth ''Bearer ''))"

definition APIKeyAuth :: "crypto \<Rightarrow> faults \<Rightarrow> time \<Rightarrow> http_request \<Rightarrow> relay_db \<Rightarrow> relay_db \<times> auth_result" where
  "APIKeyAuth cr io now r db =
     (case bearer_token r of
        Inl rej \<Rightarrow> (db, rej)
      | Inr token \<Rightarrow>
          (case UserStore_ValidateAPIKey cr io now token db of
             (db', Inl _) \<Rightarrow> (db', Rejected (500, ''internal error''))
           | (db', Inr None) \<Rightarrow> (db', RejectedWithChallenge (401, ''invalid or revoked API key''))
           | (db', Inr (Some (user, key))) \<Rightarrow> (db', Authenticated \<lparr>cx_User = Some user, cx_APIKey = Some key\<rparr>)))"

definition MCPAuth :: "crypto \<Rightarrow> faults \<Rightarrow> time \<Rightarrow> http_request \<Rightarrow> relay_db \<Rightarrow> relay_db \<times> auth_result" where
  "MCPAuth cr io now r db =
     (case bearer_token r of
        Inl rej \<Rightarrow> (db, rej)
      | Inr token \<Rightarrow>
          (case UserStore_ValidateAPIKey cr io now token db of
             (db', Inl _) \<Rightarrow> (db', Rejected (500, ''internal error''))
           | (db', Inr (Some (user, key))) \<Rightarrow> (db', Authenticated \<lparr>cx_User = Some user, cx_APIKey = Some key\<rparr>)
           | (db', Inr None) \<Rightarrow>
               (case OAuthTokenStore_Validate cr (after_stmts 3 io) now token db' of
                  Inl _ \<Rightarrow> (db', Rejected (500, ''internal error''))
                | Inr None \<Rightarrow> (db', RejectedWithChallenge (401, ''invalid or revoked token''))
                | Inr (Some user) \<Rightarrow> (db', Authenticated \<lparr>cx_User = Some user, cx_APIKey = None\<rparr>))))"

section \<open>Roles, access levels, capabilities\<close>

text \<open>The gates return the denial they send, \<open>None\<close> when the request may proceed.\<close>

definition AdminOnly :: "auth_ctx \<Rightarrow> denial option" where
  "AdminOnly ctx =
     (case cx_User ctx of
        None \<Rightarrow> Some (403, ''admin access required'')
      | Some u \<Rightarrow> if u_Role u \<noteq> ''admin'' then Some (403, ''admin access required'') else None)"

definition requireWriteAccess :: "auth_ctx \<Rightarrow> denial option" where
  "requireWriteAccess ctx =
     (case cx_User ctx of
        None \<Rightarrow> Some (401, ''authentication required'')
      | Some u \<Rightarrow>
          if u_AccessLevel u \<noteq> ''write'' \<and> u_AccessLevel u \<noteq> ''admin'' then Some (403, ''write access required'')
          else None)"

definition requireAdminAccess :: "auth_ctx \<Rightarrow> denial option" where
  "requireAdminAccess ctx =
     (case cx_User ctx of
        None \<Rightarrow> Some (401, ''authentication required'')
      | Some u \<Rightarrow> if u_AccessLevel u \<noteq> ''admin'' then Some (403, ''admin access required'') else None)"

definition hasCapability :: "User option \<Rightarrow> APIKey option \<Rightarrow> string \<Rightarrow> bool" where
  "hasCapability user key cap =
     (if (case user of None \<Rightarrow> False | Some u \<Rightarrow> u_Role u = ''admin'') then True
      else key \<noteq> None \<and> HasCapability key cap)"

definition requireCapability :: "User option \<Rightarrow> APIKey option \<Rightarrow> string \<Rightarrow> denial option" where
  "requireCapability user key cap =
     (if hasCapability user key cap then None else Some (403, ''missing capability: '' @ cap))"

section \<open>Credentials and accounts\<close>

text \<open>
  The contract of a credential check: whoever it lets in is an account of the database, with the role
  and access level stored there. Its consequence: a deleted account has no way in.
\<close>

locale credential_check =
  fixes check :: "'e \<Rightarrow> relay_db \<Rightarrow> User option"
  assumes owner_exists: "check e db = Some u \<Longrightarrow>
    \<exists>r \<in> set (db_users db). ur_id r = u_ID u \<and> ur_role r = u_Role u \<and> ur_access_level r = u_AccessLevel u"
begin

lemma no_account_no_entry: "\<not> user_exists db i \<Longrightarrow> check e db = Some u \<Longrightarrow> u_ID u \<noteq> i"
  using owner_exists by (fastforce simp: user_exists_def sql_has_iff)

lemma deleted_account_shut_out:
  "delete_user i db = Inr db' \<Longrightarrow> check e db' = Some u \<Longrightarrow> u_ID u \<noteq> i"
  by (rule no_account_no_entry) (auto simp: exists_after_delete_user)

end

definition check_api_key :: "crypto \<Rightarrow> faults \<times> time \<times> string \<Rightarrow> relay_db \<Rightarrow> User option" where
  "check_api_key cr e db =
     (case UserStore_ValidateAPIKey cr (fst e) (fst (snd e)) (snd (snd e)) db of
        (_, Inr (Some (u, _))) \<Rightarrow> Some u | _ \<Rightarrow> None)"

definition check_oauth :: "crypto \<Rightarrow> faults \<times> time \<times> string \<Rightarrow> relay_db \<Rightarrow> User option" where
  "check_oauth cr e db =
     (case OAuthTokenStore_Validate cr (fst e) (fst (snd e)) (snd (snd e)) db of Inr (Some u) \<Rightarrow> Some u | _ \<Rightarrow> None)"

definition check_session :: "faults \<times> time \<times> string \<Rightarrow> relay_db \<Rightarrow> User option" where
  "check_session e db = map_option fst (SessionStore_Get (fst e) (fst (snd e)) (snd (snd e)) db)"

definition check_password :: "crypto \<Rightarrow> faults \<times> string \<times> string \<Rightarrow> relay_db \<Rightarrow> User option" where
  "check_password cr e db =
     (case UserStore_Authenticate cr (fst e) (fst (snd e)) (snd (snd e)) db of Inr (Some u) \<Rightarrow> Some u | _ \<Rightarrow> None)"

lemma user_of_row_id [simp]: "u_ID (user_of_row r) = ur_id r" "u_Role (user_of_row r) = ur_role r"
  "u_AccessLevel (user_of_row r) = ur_access_level r"
  by (simp_all add: user_of_row_def)

lemma with_effective_profile_id [simp]: "u_ID (with_effective_profile p u) = u_ID u"
  "u_Role (with_effective_profile p u) = u_Role u" "u_AccessLevel (with_effective_profile p u) = u_AccessLevel u"
  by (simp_all add: with_effective_profile_def split: option.split)

lemma db_users_update_api_keys [simp]: "db_users (update_api_keys p f db) = db_users db"
  by (simp add: update_api_keys_def)

lemma db_users_touched [simp]: "db_users (exec_ignore ok (\<lambda>d. Inr (update_api_keys p f d)) db) = db_users db"
  by (simp add: exec_ignore_def stmt_def)

interpretation api_key: credential_check "check_api_key cr" for cr
  by unfold_locales
    (auto simp: check_api_key_def UserStore_ValidateAPIKey_def UserStore_Get_def stmt_def Let_def
      split: if_splits option.splits sum.splits prod.splits dest!: sql_row_SomeD intro!: bexI)

interpretation oauth_token: credential_check "check_oauth cr" for cr
  by unfold_locales
    (auto simp: check_oauth_def OAuthTokenStore_Validate_def Let_def oauth_user_def
      split: if_splits option.splits sum.splits dest!: sql_row_SomeD intro!: bexI)

interpretation session: credential_check check_session
  by unfold_locales
    (auto simp: check_session_def SessionStore_Get_def session_user_def
      split: if_splits option.splits dest!: sql_row_SomeD intro!: bexI)

interpretation password: credential_check "check_password cr" for cr
  by unfold_locales
    (auto simp: check_password_def UserStore_Authenticate_def stmt_def
      split: if_splits option.splits sum.splits dest!: sql_row_SomeD intro!: bexI)

section \<open>Properties\<close>

text \<open>
  C3. Once an account is deleted, no API key, no OAuth token, no session and no password gets anyone in
  as that account, at any later time and under any faults.
\<close>

theorem deleted_account_shut_out_everywhere:
  assumes "UserStore_Delete io i db = (db', Inr ())"
  shows "(\<forall>e u. check_api_key cr e db' = Some u \<longrightarrow> u_ID u \<noteq> i) \<and>
    (\<forall>e u. check_oauth cr e db' = Some u \<longrightarrow> u_ID u \<noteq> i) \<and>
    (\<forall>e u. check_session e db' = Some u \<longrightarrow> u_ID u \<noteq> i) \<and>
    (\<forall>e u. check_password cr e db' = Some u \<longrightarrow> u_ID u \<noteq> i)"
proof -
  from assms have "delete_user i db = Inr db'" by (auto simp: UserStore_Delete_def dest: exec_cases)
  note shut = api_key.deleted_account_shut_out [OF this] oauth_token.deleted_account_shut_out [OF this]
    session.deleted_account_shut_out [OF this] password.deleted_account_shut_out [OF this]
  show ?thesis by (intro conjI allI impI) (erule shut)+
qed

theorem deleted_account_shut_out_everywhere_witness:
  "\<exists>db'. UserStore_Delete no_faults ''u1'' demo_db = (db', Inr ()) \<and> check_password demo_crypto (no_faults, ''alice'', ''secret12'') db' = None \<and>
     check_password demo_crypto (no_faults, ''alice'', ''secret12'') demo_db \<noteq> None"
proof -
  obtain db' where del: "UserStore_Delete no_faults ''u1'' demo_db = (db', Inr ())"
    by (simp add: UserStore_Delete_def exec_def delete_user_def demo_db_defs sql_has_def)
  note shut = deleted_account_shut_out_everywhere [OF del, of demo_crypto]
  have "db_users db' = []"
    using del by (auto simp: UserStore_Delete_def exec_def delete_user_def demo_db_defs sql_has_def sql_delete_def)
  moreover have "check_password demo_crypto (no_faults, ''alice'', ''secret12'') demo_db \<noteq> None"
    by (simp add: check_password_def UserStore_Authenticate_def demo_db_defs)
  ultimately show ?thesis
    using del shut password.owner_exists [of demo_crypto "(no_faults, ''alice'', ''secret12'')" db']
    by (cases "check_password demo_crypto (no_faults, ''alice'', ''secret12'') db'") auto
qed

lemma validate_unknown_key:
  assumes "\<forall>k \<in> set (db_api_keys db). kr_key_hash k \<noteq> sha256_hex cr tok"
  shows "UserStore_ValidateAPIKey cr io now tok db = (db, if io 0 then Inr None else Inl DriverError)"
proof -
  have "sql_row (\<lambda>k. kr_key_hash k = sha256_hex cr tok) (db_api_keys db) = None"
    using assms by (simp add: sql_row_None_iff)
  then show ?thesis by (simp add: UserStore_ValidateAPIKey_def hashAPIKey_def)
qed

text \<open>
  An OAuth access token opens the MCP routes and nothing else: the management API rejects it,
  whatever the faults, while the MCP routes admit exactly the user the token store validates, without an
  API key and so without capabilities.
\<close>

theorem oauth_token_only_for_mcp:
  assumes "bearer_token r = Inr tok" "\<forall>k \<in> set (db_api_keys db). kr_key_hash k \<noteq> sha256_hex cr tok"
  shows "\<not> (\<exists>ctx. snd (APIKeyAuth cr io now r db) = Authenticated ctx) \<and>
    MCPAuth cr no_faults now r db =
      (db, case OAuthTokenStore_Validate cr no_faults now tok db of
             Inl e \<Rightarrow> Rejected (500, ''internal error'')
           | Inr None \<Rightarrow> RejectedWithChallenge (401, ''invalid or revoked token'')
           | Inr (Some user) \<Rightarrow> Authenticated \<lparr>cx_User = Some user, cx_APIKey = None\<rparr>)"
proof -
  have "after_stmts 3 no_faults = no_faults" by (simp add: after_stmts_def)
  with assms(1) show ?thesis
    by (simp add: APIKeyAuth_def MCPAuth_def validate_unknown_key [OF assms(2)] split: sum.split option.split)
qed

definition demo_bearer :: "string \<Rightarrow> http_request" where
  "demo_bearer tok = \<lparr>hr_Method = ''POST'', hr_Path = ''/mcp/files'', hr_Header = (\<lambda>h. if h = ''Authorization'' then ''Bearer '' @ tok else []),
     hr_Query = (\<lambda>_. []), hr_Form = (\<lambda>_. []), hr_Cookie = (\<lambda>_. None), hr_Body = None, hr_RemoteAddr = []\<rparr>"

lemma demo_bearer_token: "bearer_token (demo_bearer tok) = Inr tok"
  by (simp add: bearer_token_def demo_bearer_def has_prefix_def trim_prefix_def)

theorem oauth_token_only_for_mcp_witness:
  "\<exists>db u. MCPAuth demo_crypto no_faults 1 (demo_bearer ''tok'') db = (db, Authenticated \<lparr>cx_User = Some u, cx_APIKey = None\<rparr>) \<and>
     \<not> (\<exists>ctx. snd (APIKeyAuth demo_crypto no_faults 1 (demo_bearer ''tok'') db) = Authenticated ctx)"
proof -
  let ?db = "demo_db\<lparr>db_oauth_tokens := [\<lparr>ot_TokenHash = ''stok'', ot_UserID = ''u1'', ot_ClientID = ''c'', ot_Scope = [],
     ot_Resource = [], ot_ExpiresAt = 50\<rparr>]\<rparr>"
  have keys: "\<forall>k \<in> set (db_api_keys ?db). kr_key_hash k \<noteq> sha256_hex demo_crypto ''tok''"
    by (simp add: demo_db_defs)
  have "OAuthTokenStore_Validate demo_crypto no_faults 1 ''tok'' ?db = Inr (Some (oauth_user demo_user_row))"
    by (simp add: OAuthTokenStore_Validate_def hashAPIKey_def demo_db_defs)
  with oauth_token_only_for_mcp [OF demo_bearer_token keys, of no_faults 1] show ?thesis by auto
qed

text \<open>
  \<open>UpdateRole\<close> raises the access level with a promotion and leaves it alone at a demotion: an
  administrator made an ordinary user keeps access level \<open>admin\<close>, is stopped by \<open>AdminOnly\<close>, and
  still passes \<open>requireAdminAccess\<close>, which guards the creation, change and deletion of servers.
\<close>

theorem demoted_admin_keeps_admin_access:
  assumes "db_wf db" "UserStore_Get no_faults i db = Inr (Some u)" "u_AccessLevel u = ''admin''"
  shows "\<exists>db' v. UserStore_UpdateRole no_faults i ''user'' db = (db', Inr ()) \<and>
    UserStore_Get no_faults i db' = Inr (Some v) \<and> u_Role v = ''user'' \<and>
    AdminOnly \<lparr>cx_User = Some v, cx_APIKey = k\<rparr> \<noteq> None \<and>
    requireAdminAccess \<lparr>cx_User = Some v, cx_APIKey = k\<rparr> = None"
proof -
  from assms(2) obtain r where r: "sql_row (\<lambda>x. ur_id x = i) (db_users db) = Some r" and u: "u = user_of_row r"
    by (auto simp: UserStore_Get_def)
  let ?db' = "db\<lparr>db_users := sql_update (\<lambda>u. ur_id u = i) (\<lambda>u. u\<lparr>ur_role := ''user''\<rparr>) (db_users db)\<rparr>"
  from assms(1) have rows: "\<forall>x \<in> set (db_users db). user_row_ok (profile_exists db) x"
    by (auto simp: db_wf_def tbl_ok_def)
  have "UserStore_UpdateRole no_faults i ''user'' db = (?db', Inr ())"
    using rows by (auto simp: UserStore_UpdateRole_def exec_def update_users_def sql_has_iff user_row_ok_def valid_role_def)
  moreover have "sql_row (\<lambda>x. ur_id x = i) (db_users ?db') = Some (r\<lparr>ur_role := ''user''\<rparr>)"
    using r by (auto simp: sql_row_update dest: sql_row_SomeD)
  ultimately show ?thesis
    using assms(3) by (auto simp: UserStore_Get_def u AdminOnly_def requireAdminAccess_def)
qed

theorem demoted_admin_keeps_admin_access_witness:
  "\<exists>db' v. UserStore_UpdateRole no_faults ''u1'' ''user''
      (demo_db\<lparr>db_users := [demo_user_row\<lparr>ur_role := ''admin'', ur_access_level := ''admin''\<rparr>]\<rparr>) = (db', Inr ()) \<and>
     UserStore_Get no_faults ''u1'' db' = Inr (Some v) \<and> u_Role v = ''user'' \<and>
     requireAdminAccess \<lparr>cx_User = Some v, cx_APIKey = None\<rparr> = None"
proof -
  let ?db = "demo_db\<lparr>db_users := [demo_user_row\<lparr>ur_role := ''admin'', ur_access_level := ''admin''\<rparr>]\<rparr>"
  have "db_wf ?db"
    by (simp add: db_wf_def demo_db_defs tbl_ok_def row_ok_defs valid_defs exists_defs sql_has_def)
  moreover have "UserStore_Get no_faults ''u1'' ?db = Inr (Some (user_of_row (demo_user_row\<lparr>ur_role := ''admin'', ur_access_level := ''admin''\<rparr>)))"
    by (simp add: UserStore_Get_def demo_user_row_def)
  ultimately show ?thesis
    using demoted_admin_keeps_admin_access [of ?db "''u1''" _ None] by fastforce
qed

end
