(* ===== verification/Mcp_Classify.thy ===== *)
theory Mcp_Classify
  imports Relay_Prelude
begin

text \<open>
  \<open>internal/mcp/classify.go\<close>: the heuristic that gives an endpoint its access tier from its name
  and description.
\<close>

definition readKeywords :: "string list" where
  "readKeywords =
     [''get'', ''list'', ''search'', ''find'', ''read'', ''fetch'', ''query'',
      ''show'', ''describe'', ''status'', ''check'', ''count'', ''view'', ''lookup'']"

definition adminKeywords :: "string list" where
  "adminKeywords =
     [''delete'', ''remove'', ''destroy'', ''drop'', ''purge'', ''reset'',
      ''execute'', ''run_command'', ''deploy'', ''install'', ''uninstall'',
      ''reboot'', ''shutdown'', ''restart'', ''kill'']"

definition is_boundary :: "char \<Rightarrow> bool" where
  "is_boundary c = (c = CHR ''_'' \<or> c = CHR ''-'')"

definition containsWord :: "string \<Rightarrow> string \<Rightarrow> bool" where
  "containsWord name keyword =
     (case str_index name keyword of
        None \<Rightarrow> False
      | Some idx \<Rightarrow>
          if 0 < idx \<and> \<not> is_boundary (name ! (idx - 1)) then False
          else
            let e = idx + length keyword in
            if e < length name \<and> \<not> is_boundary (name ! e) then False
            else True)"

definition ClassifyEndpoint :: "string \<Rightarrow> string \<Rightarrow> string \<Rightarrow> string" where
  "ClassifyEndpoint endpointType name description =
     (if endpointType = ''resource'' \<or> endpointType = ''prompt'' then ''read''
      else
        let nameLower = to_lower name in
        if list_ex (containsWord nameLower) adminKeywords then ''admin''
        else if list_ex (containsWord nameLower) readKeywords then ''read''
        else
          let descLower = to_lower description in
          if str_contains descLower ''retrieves'' \<or> str_contains descLower ''returns'' then ''read''
          else if str_contains descLower ''deletes'' \<or> str_contains descLower ''destroys'' \<or>
            str_contains descLower ''executes'' then ''admin''
          else ''write'')"

lemma ClassifyEndpoint_range: "ClassifyEndpoint t n d \<in> {''read'', ''write'', ''admin''}"
  by (simp add: ClassifyEndpoint_def Let_def)

text \<open>An occurrence of \<open>kw\<close> at position \<open>i\<close> that is a whole segment of the name.\<close>

definition word_at :: "string \<Rightarrow> string \<Rightarrow> nat \<Rightarrow> bool" where
  "word_at name kw i \<longleftrightarrow>
     i \<le> length name \<and> has_prefix (drop i name) kw \<and>
     (0 < i \<longrightarrow> is_boundary (name ! (i - 1))) \<and>
     (i + length kw < length name \<longrightarrow> is_boundary (name ! (i + length kw)))"

text \<open>
  A keyword is recognised exactly when it is a whole segment of the name (between the ends,
  underscores or hyphens) and does not occur, as a segment or inside one, further left.
\<close>

theorem containsWord_iff:
  "containsWord name kw \<longleftrightarrow>
     (\<exists>i. word_at name kw i \<and> (\<forall>j < i. \<not> has_prefix (drop j name) kw))"
proof (cases "str_index name kw")
  case None
  then have "\<not> has_prefix (drop i name) kw" if "i \<le> length name" for i
    using that by (auto simp: str_index_None_iff)
  with None show ?thesis by (auto simp: containsWord_def word_at_def)
next
  case (Some i)
  then have first: "i \<le> length name" "has_prefix (drop i name) kw" "\<And>j. j < i \<Longrightarrow> \<not> has_prefix (drop j name) kw"
    by (auto simp: str_index_Some_iff)
  have "k = i" if "word_at name kw k" "\<forall>j < k. \<not> has_prefix (drop j name) kw" for k
    using that first by (metis word_at_def linorder_neqE_nat)
  then have "(\<exists>k. word_at name kw k \<and> (\<forall>j < k. \<not> has_prefix (drop j name) kw)) \<longleftrightarrow> word_at name kw i"
    using first by blast
  moreover have "containsWord name kw \<longleftrightarrow> word_at name kw i"
    using first(1,2) by (auto simp: containsWord_def Some word_at_def Let_def)
  ultimately show ?thesis by simp
qed

text \<open>
  The doc comment of \<open>containsWord\<close> promises a match for a suffix or inner segment; the code
  looks at the first occurrence only. The tool \<open>dropbox_drop\<close> ends in the segment \<open>drop\<close> and
  is classified \<open>write\<close>, not \<open>admin\<close>; \<open>budget_get\<close> is classified \<open>write\<close>, not
  \<open>read\<close>.
\<close>

theorem classify_misses_later_segment:
  "word_at ''dropbox_drop'' ''drop'' 8 \<and> ''drop'' \<in> set adminKeywords \<and>
   ClassifyEndpoint ''tool'' ''dropbox_drop'' [] = ''write'' \<and>
   word_at ''budget_get'' ''get'' 7 \<and> ''get'' \<in> set readKeywords \<and>
   ClassifyEndpoint ''tool'' ''budget_get'' [] = ''write''"
  by code_simp

end
