(* ===== verification/Access_Store.thy ===== *)
theory Access_Store
  imports Relay_DB Mcp_Classify
begin

text \<open>
  \<open>internal/store/access.go\<close> and \<open>internal/store/profiles.go\<close>: endpoint access tiers and
  agent profiles. A transaction is a run on a copy of the database that replaces the database at
  \<open>Commit\<close>; a query that does not go through the transaction reads the state before it.
\<close>

section \<open>Access tiers\<close>

definition tier_matches :: "string \<Rightarrow> string \<Rightarrow> string \<Rightarrow> EndpointTier \<Rightarrow> bool" where
  "tier_matches sid ty nm t \<longleftrightarrow> tier_key t = (sid, ty, nm)"

definition AccessStore_GetTier :: "faults \<Rightarrow> string \<Rightarrow> string \<Rightarrow> string \<Rightarrow> relay_db \<Rightarrow> string" where
  "AccessStore_GetTier io sid ty nm db =
     (if \<not> io 0 then ''write''
      else case sql_row (tier_matches sid ty nm) (db_tiers db) of
        None \<Rightarrow> ''write''
      | Some t \<Rightarrow> et_AccessTier t)"

definition AccessStore_GetAllTiers :: "faults \<Rightarrow> string \<Rightarrow> relay_db \<Rightarrow> EndpointTier list res" where
  "AccessStore_GetAllTiers io sid db =
     stmt (io 0) (Inr (sql_order et_EndpointType (sql_order et_EndpointName
       (sql_select (\<lambda>t. et_ServerID t = sid) (db_tiers db)))))"

text \<open>
  \<open>INSERT ... ON CONFLICT DO UPDATE ... WHERE guard\<close> on the primary key: an existing row is
  rewritten when it passes the guard, otherwise the statement does nothing to it.
\<close>

definition upsert_tier :: "(EndpointTier \<Rightarrow> bool) \<Rightarrow> EndpointTier \<Rightarrow> relay_db \<Rightarrow> relay_db res" where
  "upsert_tier guard r db =
     (if \<not> valid_endpoint_type (et_EndpointType r) \<or> \<not> valid_tier (et_AccessTier r) then Inl CheckViolation
      else if sql_has (\<lambda>t. tier_key t = tier_key r) (db_tiers db) then
        Inr (db\<lparr>db_tiers := sql_update (\<lambda>t. tier_key t = tier_key r \<and> guard t)
          (\<lambda>t. t\<lparr>et_AccessTier := et_AccessTier r, et_AutoClassified := et_AutoClassified r\<rparr>) (db_tiers db)\<rparr>)
      else if \<not> server_exists db (et_ServerID r) then Inl ForeignKeyViolation
      else Inr (db\<lparr>db_tiers := db_tiers db @ [r]\<rparr>))"

definition AccessStore_SetTier :: "faults \<Rightarrow> string \<Rightarrow> string \<Rightarrow> string \<Rightarrow> string \<Rightarrow> relay_db \<Rightarrow> relay_db \<times> unit res" where
  "AccessStore_SetTier io sid ty nm tier db =
     exec (io 0) (upsert_tier (\<lambda>_. True) \<lparr>et_ServerID = sid, et_EndpointType = ty, et_EndpointName = nm,
       et_AccessTier = tier, et_AutoClassified = False\<rparr>) db"

record EndpointInfo =
  ei_Type :: string
  ei_Name :: string
  ei_Description :: string

definition endpoint_key :: "string \<Rightarrow> string \<Rightarrow> string" where
  "endpoint_key ty nm = ty @ '':'' @ nm"

definition auto_tier :: "(string \<Rightarrow> string \<Rightarrow> string \<Rightarrow> string) \<Rightarrow> string \<Rightarrow> EndpointInfo \<Rightarrow> EndpointTier" where
  "auto_tier classify sid ep =
     \<lparr>et_ServerID = sid, et_EndpointType = ei_Type ep, et_EndpointName = ei_Name ep,
      et_AccessTier = classify (ei_Type ep) (ei_Name ep) (ei_Description ep), et_AutoClassified = True\<rparr>"

fun sync_upserts :: "(string \<Rightarrow> string \<Rightarrow> string \<Rightarrow> string) \<Rightarrow> faults \<Rightarrow> string \<Rightarrow> EndpointInfo list \<Rightarrow> relay_db \<Rightarrow> relay_db" where
  "sync_upserts classify io sid [] tx = tx"
| "sync_upserts classify io sid (ep # eps) tx =
     sync_upserts classify (after_stmts 1 io) sid eps
       (exec_ignore (io 0) (upsert_tier et_AutoClassified (auto_tier classify sid ep)) tx)"

definition delete_tier :: "string \<Rightarrow> string \<Rightarrow> string \<Rightarrow> relay_db \<Rightarrow> relay_db res" where
  "delete_tier sid ty nm db = Inr (db\<lparr>db_tiers := sql_delete (tier_matches sid ty nm) (db_tiers db)\<rparr>)"

fun sync_deletes :: "faults \<Rightarrow> string \<Rightarrow> string set \<Rightarrow> EndpointTier list \<Rightarrow> relay_db \<Rightarrow> relay_db" where
  "sync_deletes io sid current [] tx = tx"
| "sync_deletes io sid current (t # ts) tx =
     (if endpoint_key (et_EndpointType t) (et_EndpointName t) \<notin> current then
        sync_deletes (after_stmts 1 io) sid current ts
          (exec_ignore (io 0) (delete_tier sid (et_EndpointType t) (et_EndpointName t)) tx)
      else sync_deletes (after_stmts 1 io) sid current ts tx)"

text \<open>
  Statement 0 is \<open>Begin\<close>, 1 is \<open>Commit\<close>, 2 the listing of the existing tiers outside the
  transaction, and the upserts and deletions follow.
\<close>

definition AccessStore_SyncAfterEnumerate ::
    "(string \<Rightarrow> string \<Rightarrow> string \<Rightarrow> string) \<Rightarrow> faults \<Rightarrow> string \<Rightarrow> EndpointInfo list \<Rightarrow> relay_db \<Rightarrow> relay_db" where
  "AccessStore_SyncAfterEnumerate classify io sid endpoints db =
     (if \<not> io 0 then db
      else
        let current = set (map (\<lambda>ep. endpoint_key (ei_Type ep) (ei_Name ep)) endpoints);
            tx1 = sync_upserts classify (after_stmts 3 io) sid endpoints db;
            tx2 = (case AccessStore_GetAllTiers (after_stmts 2 io) sid db of
                     Inl _ \<Rightarrow> tx1
                   | Inr existing \<Rightarrow>
                       sync_deletes (after_stmts (3 + length endpoints) io) sid current existing tx1)
        in if io 1 then tx2 else db)"

definition tierLevel :: "string \<Rightarrow> int" where
  "tierLevel tier =
     (if tier = ''read'' then 1 else if tier = ''write'' then 2 else if tier = ''admin'' then 3 else 2)"

definition AccessStore_CheckAccess :: "string \<Rightarrow> string \<Rightarrow> bool" where
  "AccessStore_CheckAccess userLevel endpointTier \<longleftrightarrow> tierLevel endpointTier \<le> tierLevel userLevel"

section \<open>Agent profiles\<close>

definition ProfileStore_Create :: "faults \<Rightarrow> time \<Rightarrow> string \<Rightarrow> string \<Rightarrow> string \<Rightarrow> relay_db \<Rightarrow> relay_db \<times> AgentProfile res" where
  "ProfileStore_Create io now pid name description db =
     (let p = \<lparr>ap_ID = pid, ap_Name = name, ap_Description = description, ap_CreatedAt = now, ap_UpdatedAt = now\<rparr> in
      case stmt (io 0) (insert_profile p db) of
        Inl e \<Rightarrow> (db, Inl e)
      | Inr db' \<Rightarrow> (db', Inr p))"

text \<open>An unknown profile is an error here (\<open>sql.ErrNoRows\<close> is handed on).\<close>

definition ProfileStore_Get :: "faults \<Rightarrow> string \<Rightarrow> relay_db \<Rightarrow> AgentProfile res" where
  "ProfileStore_Get io i db =
     stmt (io 0) (case sql_row (\<lambda>p. ap_ID p = i) (db_profiles db) of None \<Rightarrow> Inl NoRows | Some p \<Rightarrow> Inr p)"

definition ProfileStore_GetByName :: "faults \<Rightarrow> string \<Rightarrow> relay_db \<Rightarrow> AgentProfile res" where
  "ProfileStore_GetByName io name db =
     stmt (io 0) (case sql_row (\<lambda>p. ap_Name p = name) (db_profiles db) of None \<Rightarrow> Inl NoRows | Some p \<Rightarrow> Inr p)"

definition ProfileStore_List :: "faults \<Rightarrow> relay_db \<Rightarrow> AgentProfile list res" where
  "ProfileStore_List io db = stmt (io 0) (Inr (sql_order ap_Name (db_profiles db)))"

definition update_profile :: "string \<Rightarrow> string \<Rightarrow> string \<Rightarrow> time \<Rightarrow> relay_db \<Rightarrow> relay_db res" where
  "update_profile i name description now db =
     (if sql_has (\<lambda>p. ap_ID p = i) (db_profiles db) \<and>
         sql_has (\<lambda>p. ap_ID p \<noteq> i \<and> ap_Name p = name) (db_profiles db) then Inl UniqueViolation
      else Inr (db\<lparr>db_profiles := sql_update (\<lambda>p. ap_ID p = i)
        (\<lambda>p. p\<lparr>ap_Name := name, ap_Description := description, ap_UpdatedAt := now\<rparr>) (db_profiles db)\<rparr>))"

definition ProfileStore_Update :: "faults \<Rightarrow> time \<Rightarrow> string \<Rightarrow> string \<Rightarrow> string \<Rightarrow> relay_db \<Rightarrow> relay_db \<times> unit res" where
  "ProfileStore_Update io now i name description db = exec (io 0) (update_profile i name description now) db"

definition ProfileStore_Delete :: "faults \<Rightarrow> string \<Rightarrow> relay_db \<Rightarrow> relay_db \<times> unit res" where
  "ProfileStore_Delete io i db = exec (io 0) (\<lambda>d. Inr (delete_profile i d)) db"

definition ProfileStore_GetPermissions :: "faults \<Rightarrow> string \<Rightarrow> relay_db \<Rightarrow> ProfilePermission list res" where
  "ProfileStore_GetPermissions io pid db =
     stmt (io 0) (Inr (sql_order pp_ServerID (sql_order pp_EndpointType (sql_order pp_EndpointName
       (sql_select (\<lambda>p. pp_ProfileID p = pid) (db_permissions db))))))"

definition ProfileStore_GetPermissionsForServer :: "faults \<Rightarrow> string \<Rightarrow> string \<Rightarrow> relay_db \<Rightarrow> ProfilePermission list res" where
  "ProfileStore_GetPermissionsForServer io pid sid db =
     stmt (io 0) (Inr (sql_order pp_EndpointType (sql_order pp_EndpointName
       (sql_select (\<lambda>p. pp_ProfileID p = pid \<and> pp_ServerID p = sid) (db_permissions db)))))"

definition mk_perm :: "string \<Rightarrow> string \<Rightarrow> string \<Rightarrow> string \<Rightarrow> ProfilePermission" where
  "mk_perm pid sid ty nm =
     \<lparr>pp_ProfileID = pid, pp_ServerID = sid, pp_EndpointType = ty, pp_EndpointName = nm\<rparr>"

definition ProfileStore_SetPermission :: "faults \<Rightarrow> string \<Rightarrow> string \<Rightarrow> string \<Rightarrow> string \<Rightarrow> relay_db \<Rightarrow> relay_db \<times> unit res" where
  "ProfileStore_SetPermission io pid sid ty nm db =
     exec (io 0) (insert_permission_ignore (mk_perm pid sid ty nm)) db"

definition ProfileStore_RemovePermission :: "faults \<Rightarrow> string \<Rightarrow> string \<Rightarrow> string \<Rightarrow> string \<Rightarrow> relay_db \<Rightarrow> relay_db \<times> unit res" where
  "ProfileStore_RemovePermission io pid sid ty nm db =
     exec (io 0) (\<lambda>d. Inr (d\<lparr>db_permissions := sql_delete (same_perm (mk_perm pid sid ty nm)) (db_permissions d)\<rparr>)) db"

fun insert_permissions :: "faults \<Rightarrow> string \<Rightarrow> string \<Rightarrow> ProfilePermission list \<Rightarrow> relay_db \<Rightarrow> relay_db res" where
  "insert_permissions io pid sid [] tx = Inr tx"
| "insert_permissions io pid sid (p # ps) tx =
     res_bind (stmt (io 0) (insert_permission (mk_perm pid sid (pp_EndpointType p) (pp_EndpointName p)) tx))
       (insert_permissions (after_stmts 1 io) pid sid ps)"

text \<open>Statements: \<open>Begin\<close>, \<open>Commit\<close>, the \<open>DELETE\<close>, the insertions; any error rolls back.\<close>

definition ProfileStore_BulkSetPermissions ::
    "faults \<Rightarrow> string \<Rightarrow> string \<Rightarrow> ProfilePermission list \<Rightarrow> relay_db \<Rightarrow> relay_db \<times> unit res" where
  "ProfileStore_BulkSetPermissions io pid sid perms db =
     (if \<not> io 0 then (db, Inl DriverError)
      else if \<not> io 2 then (db, Inl DriverError)
      else
        let tx = db\<lparr>db_permissions :=
          sql_delete (\<lambda>p. pp_ProfileID p = pid \<and> pp_ServerID p = sid) (db_permissions db)\<rparr> in
        case insert_permissions (after_stmts 3 io) pid sid perms tx of
          Inl e \<Rightarrow> (db, Inl e)
        | Inr tx' \<Rightarrow> if io 1 then (tx', Inr ()) else (db, Inl DriverError))"

definition ProfileStore_CheckPermission :: "faults \<Rightarrow> string \<Rightarrow> string \<Rightarrow> string \<Rightarrow> string \<Rightarrow> relay_db \<Rightarrow> bool res" where
  "ProfileStore_CheckPermission io pid sid ty nm db =
     stmt (io 0) (Inr (0 < sql_count (same_perm (mk_perm pid sid ty nm)) (db_permissions db)))"

definition seed_condition :: "string \<Rightarrow> (EndpointTier \<Rightarrow> bool) option" where
  "seed_condition maxTier =
     (if maxTier = ''read'' then Some (\<lambda>t. et_AccessTier t = ''read'')
      else if maxTier = ''write'' then Some (\<lambda>t. et_AccessTier t \<in> {''read'', ''write''})
      else if maxTier = ''admin'' then Some (\<lambda>_. True)
      else None)"

fun insert_all_ignore :: "ProfilePermission list \<Rightarrow> relay_db \<Rightarrow> relay_db res" where
  "insert_all_ignore [] db = Inr db"
| "insert_all_ignore (p # ps) db = res_bind (insert_permission_ignore p db) (insert_all_ignore ps)"

text \<open>One \<open>INSERT OR IGNORE ... SELECT\<close>: all rows or, at a foreign key violation, none.\<close>

definition ProfileStore_SeedFromTier :: "faults \<Rightarrow> string \<Rightarrow> string \<Rightarrow> string \<Rightarrow> relay_db \<Rightarrow> relay_db \<times> unit res" where
  "ProfileStore_SeedFromTier io pid sid maxTier db =
     (case seed_condition maxTier of
        None \<Rightarrow> (db, Inl (InvalidTier maxTier))
      | Some cond \<Rightarrow>
          exec (io 0) (insert_all_ignore (map (\<lambda>t. mk_perm pid (et_ServerID t) (et_EndpointType t) (et_EndpointName t))
            (sql_select (\<lambda>t. et_ServerID t = sid \<and> cond t) (db_tiers db)))) db)"

definition ProfileStore_PermissionCount :: "faults \<Rightarrow> string \<Rightarrow> relay_db \<Rightarrow> nat res" where
  "ProfileStore_PermissionCount io pid db =
     stmt (io 0) (Inr (sql_count (\<lambda>p. pp_ProfileID p = pid) (db_permissions db)))"

definition ProfileStore_APIKeyCount :: "faults \<Rightarrow> string \<Rightarrow> relay_db \<Rightarrow> nat res" where
  "ProfileStore_APIKeyCount io pid db =
     stmt (io 0) (Inr (sql_count (\<lambda>k. kr_profile_id k = Some pid \<and> \<not> kr_revoked k) (db_api_keys db)))"

definition ProfileStore_ServerIDsForProfile :: "faults \<Rightarrow> string \<Rightarrow> relay_db \<Rightarrow> string set res" where
  "ProfileStore_ServerIDsForProfile io pid db =
     stmt (io 0) (Inr (set (map pp_ServerID
       (sql_select (\<lambda>p. pp_ProfileID p = pid \<and> server_exists db (pp_ServerID p)) (db_permissions db)))))"

section \<open>The operations keep the database well-formed\<close>

lemma upsert_tier_wf:
  assumes up: "upsert_tier guard r db = Inr db'" and wf: "db_wf db"
  shows "db_wf db'"
proof (cases "sql_has (\<lambda>t. tier_key t = tier_key r) (db_tiers db)")
  case True
  with up have ok: "valid_tier (et_AccessTier r)"
    and db': "db' = db\<lparr>db_tiers := sql_update (\<lambda>t. tier_key t = tier_key r \<and> guard t)
          (\<lambda>t. t\<lparr>et_AccessTier := et_AccessTier r, et_AutoClassified := et_AutoClassified r\<rparr>) (db_tiers db)\<rparr>"
    by (auto simp: upsert_tier_def split: if_splits)
  have "tbl_ok tier_key (tier_row_ok (server_exists db)) (db_tiers db')"
    using wf ok by (auto simp: db' db_wf_def tier_key_def tier_row_ok_def intro!: tbl_ok_update)
  with wf show ?thesis by (simp add: db' db_wf_def)
next
  case False
  with up wf show ?thesis
    by (auto simp: upsert_tier_def db_wf_def tier_row_ok_def split: if_splits)
qed

lemma delete_tier_wf: "delete_tier sid ty nm db = Inr db' \<Longrightarrow> db_wf db \<Longrightarrow> db_wf db'"
  by (auto simp: delete_tier_def db_wf_def elim: tbl_ok_delete)

lemma sync_upserts_wf: "db_wf tx \<Longrightarrow> db_wf (sync_upserts classify io sid eps tx)"
proof (induction eps arbitrary: io tx)
  case (Cons ep eps)
  then show ?case by (auto intro!: Cons.IH exec_ignore_pres [where P = db_wf] intro: upsert_tier_wf)
qed simp

lemma sync_deletes_wf: "db_wf tx \<Longrightarrow> db_wf (sync_deletes io sid current ts tx)"
proof (induction ts arbitrary: io tx)
  case (Cons t ts)
  then show ?case by (auto intro!: Cons.IH exec_ignore_pres [where P = db_wf] intro: delete_tier_wf)
qed simp

lemma AccessStore_SyncAfterEnumerate_wf:
  "db_wf db \<Longrightarrow> db_wf (AccessStore_SyncAfterEnumerate classify io sid eps db)"
  by (auto simp: AccessStore_SyncAfterEnumerate_def Let_def intro: sync_upserts_wf sync_deletes_wf
      split: sum.splits)

lemma AccessStore_SetTier_wf: "db_wf db \<Longrightarrow> db_wf (fst (AccessStore_SetTier io sid ty nm tier db))"
  unfolding AccessStore_SetTier_def by (rule exec_pres) (auto intro: upsert_tier_wf)

lemma update_profile_wf:
  assumes up: "update_profile i name description now db = Inr db'" and wf: "db_wf db"
  shows "db_wf db'"
proof -
  let ?f = "\<lambda>p. p\<lparr>ap_Name := name, ap_Description := description, ap_UpdatedAt := now\<rparr>"
  from up have db': "db' = db\<lparr>db_profiles := sql_update (\<lambda>p. ap_ID p = i) ?f (db_profiles db)\<rparr>"
    and free: "\<And>p q. p \<in> set (db_profiles db) \<Longrightarrow> ap_ID p = i \<Longrightarrow> q \<in> set (db_profiles db) \<Longrightarrow>
      ap_ID q \<noteq> i \<Longrightarrow> ap_Name q \<noteq> name"
    by (auto simp: update_profile_def sql_has_iff split: if_splits)
  have ids: "tbl_ok ap_ID (\<lambda>_. True) (db_profiles db')" and ex: "profile_exists db' = profile_exists db"
    using wf by (auto simp: db' db_wf_def profile_exists_def sql_has_update fun_eq_iff intro: tbl_ok_update)
  have dist: "distinct (map ap_Name t)" "distinct (map ap_ID t)" if "t = db_profiles db" for t
    using wf that by (auto simp: db_wf_def tbl_ok_def)
  have "distinct (map ap_Name (sql_update (\<lambda>p. ap_ID p = i) ?f t))"
    if "distinct (map ap_Name t)" "distinct (map ap_ID t)"
      "\<And>p q. p \<in> set t \<Longrightarrow> ap_ID p = i \<Longrightarrow> q \<in> set t \<Longrightarrow> ap_ID q \<noteq> i \<Longrightarrow> ap_Name q \<noteq> name" for t
    using that
    by (induction t) (auto simp: sql_update_def image_iff split: if_splits dest: sym)
  from this [OF dist] free have "tbl_ok ap_Name (\<lambda>_. True) (db_profiles db')"
    by (simp add: db' tbl_ok_def)
  with wf ids ex show ?thesis by (simp add: db' db_wf_def)
qed

lemma ProfileStore_simple_wf:
  assumes wf: "db_wf db"
  shows "db_wf (fst (ProfileStore_Create io now pid name desc db))"
    and "db_wf (fst (ProfileStore_Update io now i name desc db))"
    and "db_wf (fst (ProfileStore_Delete io i db))"
    and "db_wf (fst (ProfileStore_SetPermission io pid sid ty nm db))"
    and "db_wf (fst (ProfileStore_RemovePermission io pid sid ty nm db))"
proof -
  show "db_wf (fst (ProfileStore_Create io now pid name desc db))"
    using wf by (auto simp: ProfileStore_Create_def Let_def stmt_def dest: insert_profile_wf split: sum.splits)
  show "db_wf (fst (ProfileStore_Update io now i name desc db))"
    unfolding ProfileStore_Update_def by (rule exec_pres) (auto simp: wf intro: update_profile_wf)
  show "db_wf (fst (ProfileStore_Delete io i db))"
    unfolding ProfileStore_Delete_def by (rule exec_pres) (auto simp: wf intro: delete_profile_wf)
  show "db_wf (fst (ProfileStore_SetPermission io pid sid ty nm db))"
    unfolding ProfileStore_SetPermission_def by (rule exec_pres) (auto simp: wf intro: insert_permission_ignore_wf)
  show "db_wf (fst (ProfileStore_RemovePermission io pid sid ty nm db))"
    unfolding ProfileStore_RemovePermission_def
    by (rule exec_pres) (use wf in \<open>auto simp: db_wf_def elim: tbl_ok_delete\<close>)
qed

lemma insert_permissions_wf: "insert_permissions io pid sid ps db = Inr db' \<Longrightarrow> db_wf db \<Longrightarrow> db_wf db'"
  by (induction io pid sid ps db rule: insert_permissions.induct)
    (auto simp: res_bind_Inr_iff stmt_Inr_iff intro: insert_permission_wf)

lemma insert_all_ignore_wf: "insert_all_ignore ps db = Inr db' \<Longrightarrow> db_wf db \<Longrightarrow> db_wf db'"
  by (induction ps db rule: insert_all_ignore.induct)
    (auto simp: res_bind_Inr_iff intro: insert_permission_ignore_wf)

lemma ProfileStore_BulkSetPermissions_wf:
  assumes wf: "db_wf db"
  shows "db_wf (fst (ProfileStore_BulkSetPermissions io pid sid perms db))"
proof -
  have "db_wf (db\<lparr>db_permissions := sql_delete p (db_permissions db)\<rparr>)" for p
    using wf by (auto simp: db_wf_def elim: tbl_ok_delete)
  then show ?thesis
    using wf by (auto simp: ProfileStore_BulkSetPermissions_def Let_def intro: insert_permissions_wf split: sum.splits)
qed

lemma ProfileStore_SeedFromTier_wf: "db_wf db \<Longrightarrow> db_wf (fst (ProfileStore_SeedFromTier io pid sid maxTier db))"
  by (auto simp: ProfileStore_SeedFromTier_def split: option.splits
      intro!: exec_pres [where P = db_wf] intro: insert_all_ignore_wf)

lemmas access_store_wf = AccessStore_SetTier_wf AccessStore_SyncAfterEnumerate_wf ProfileStore_simple_wf
  ProfileStore_BulkSetPermissions_wf ProfileStore_SeedFromTier_wf

section \<open>What a synchronisation leaves behind\<close>

abbreviation tier_of :: "relay_db \<Rightarrow> string \<Rightarrow> string \<Rightarrow> string \<Rightarrow> EndpointTier option" where
  "tier_of db sid ty nm \<equiv> sql_row (\<lambda>t. tier_key t = (sid, ty, nm)) (db_tiers db)"

lemma tier_matches_eta: "tier_matches sid ty nm = (\<lambda>t. tier_key t = (sid, ty, nm))"
  by (simp add: fun_eq_iff tier_matches_def)

interpretation tier_rows: keyed_update tier_key
  "\<lambda>t. t\<lparr>et_AccessTier := a, et_AutoClassified := b\<rparr>" for a b
  by unfold_locales (simp add: tier_key_def)

lemma tier_rewritten:
  "tier_key t = tier_key r \<Longrightarrow>
     t\<lparr>et_AccessTier := et_AccessTier r, et_AutoClassified := et_AutoClassified r\<rparr> = (r :: EndpointTier)"
  by (cases t; cases r) (simp add: tier_key_def)

lemma upsert_tier_row:
  assumes "server_exists db (et_ServerID r)" "valid_endpoint_type (et_EndpointType r)" "valid_tier (et_AccessTier r)"
  obtains db' where "upsert_tier guard r db = Inr db'" "server_exists db' = server_exists db"
    "\<And>k. sql_row (\<lambda>t. tier_key t = k) (db_tiers db') =
       (if k \<noteq> tier_key r then sql_row (\<lambda>t. tier_key t = k) (db_tiers db)
        else case sql_row (\<lambda>t. tier_key t = k) (db_tiers db) of
               None \<Rightarrow> Some r | Some t \<Rightarrow> if guard t then Some r else Some t)"
proof (cases "sql_has (\<lambda>t. tier_key t = tier_key r) (db_tiers db)")
  case True
  let ?p = "\<lambda>t. tier_key t = tier_key r \<and> guard t"
  have row: "map_option (\<lambda>t. if ?p t then t\<lparr>et_AccessTier := et_AccessTier r, et_AutoClassified := et_AutoClassified r\<rparr> else t)
      (sql_row (\<lambda>t. tier_key t = k) (db_tiers db)) =
     (if k \<noteq> tier_key r then sql_row (\<lambda>t. tier_key t = k) (db_tiers db)
      else case sql_row (\<lambda>t. tier_key t = k) (db_tiers db) of
               None \<Rightarrow> Some r | Some t \<Rightarrow> if guard t then Some r else Some t)" for k
  proof (cases "sql_row (\<lambda>t. tier_key t = k) (db_tiers db)")
    case None
    with True have "k \<noteq> tier_key r" by (auto simp: sql_row_None_iff sql_has_iff)
    with None show ?thesis by simp
  next
    case (Some a)
    then have "tier_key a = k" by (auto dest: sql_row_SomeD)
    with Some show ?thesis by (auto simp: tier_rewritten)
  qed
  have up: "upsert_tier guard r db = Inr (db\<lparr>db_tiers := sql_update ?p
      (\<lambda>t. t\<lparr>et_AccessTier := et_AccessTier r, et_AutoClassified := et_AutoClassified r\<rparr>) (db_tiers db)\<rparr>)"
    using assms True by (simp add: upsert_tier_def)
  show ?thesis
    by (rule that [OF up]) (simp_all add: tier_rows.row_after row)
next
  case False
  then have none: "sql_row (\<lambda>t. tier_key t = tier_key r) (db_tiers db) = None"
    by (auto simp: sql_row_None_iff sql_has_iff)
  have up: "upsert_tier guard r db = Inr (db\<lparr>db_tiers := db_tiers db @ [r]\<rparr>)"
    using assms False by (simp add: upsert_tier_def)
  show ?thesis
    by (rule that [OF up]) (auto simp: none sql_row_append split: option.splits)
qed

text \<open>The endpoint a key was last announced with.\<close>

definition last_endpoint :: "string \<Rightarrow> string \<Rightarrow> EndpointInfo list \<Rightarrow> EndpointInfo option" where
  "last_endpoint ty nm eps = List.find (\<lambda>ep. ei_Type ep = ty \<and> ei_Name ep = nm) (rev eps)"

definition synced :: "(string \<Rightarrow> string \<Rightarrow> string \<Rightarrow> string) \<Rightarrow> string \<Rightarrow> EndpointInfo option \<Rightarrow> EndpointTier option \<Rightarrow> EndpointTier option" where
  "synced classify sid ep old =
     (case ep of
        None \<Rightarrow> old
      | Some e \<Rightarrow> (case old of Some t \<Rightarrow> if et_AutoClassified t then Some (auto_tier classify sid e) else Some t
                            | None \<Rightarrow> Some (auto_tier classify sid e)))"

lemma find_snoc: "List.find P (xs @ [x]) = (case List.find P xs of None \<Rightarrow> if P x then Some x else None | Some y \<Rightarrow> Some y)"
  by (induction xs) auto

lemma last_endpoint_Cons:
  "last_endpoint ty nm (ep # eps) =
     (case last_endpoint ty nm eps of
        None \<Rightarrow> if ei_Type ep = ty \<and> ei_Name ep = nm then Some ep else None | Some e \<Rightarrow> Some e)"
  by (simp add: last_endpoint_def find_snoc)

lemma last_endpoint_SomeD:
  "last_endpoint ty nm eps = Some e \<Longrightarrow> e \<in> set eps \<and> ei_Type e = ty \<and> ei_Name e = nm"
  by (auto simp: last_endpoint_def find_Some_iff) (metis length_rev nth_mem set_rev)

lemma last_endpoint_None_iff:
  "last_endpoint ty nm eps = None \<longleftrightarrow> (\<forall>e \<in> set eps. \<not> (ei_Type e = ty \<and> ei_Name e = nm))"
  by (auto simp: last_endpoint_def find_None_iff)

lemma sync_upserts_row:
  assumes "server_exists tx sid" "\<forall>ep \<in> set eps. valid_endpoint_type (ei_Type ep)"
    "\<And>t n d. valid_tier (classify t n d)"
  shows "tier_of (sync_upserts classify no_faults sid eps tx) sid' ty nm =
    (if sid' = sid then synced classify sid (last_endpoint ty nm eps) (tier_of tx sid ty nm)
     else tier_of tx sid' ty nm)"
  using assms(1,2)
proof (induction eps arbitrary: tx)
  case Nil
  then show ?case by (simp add: synced_def last_endpoint_def)
next
  case (Cons ep eps)
  let ?r = "auto_tier classify sid ep"
  have shift: "after_stmts (Suc 0) no_faults = no_faults" by (simp add: after_stmts_def)
  from Cons.prems assms(3) have ok: "server_exists tx (et_ServerID ?r)" "valid_endpoint_type (et_EndpointType ?r)"
      "valid_tier (et_AccessTier ?r)"
    by (simp_all add: auto_tier_def)
  obtain tx' where up: "upsert_tier et_AutoClassified ?r tx = Inr tx'" and ex: "server_exists tx' = server_exists tx"
    and row: "\<And>k. sql_row (\<lambda>t. tier_key t = k) (db_tiers tx') =
       (if k \<noteq> tier_key ?r then sql_row (\<lambda>t. tier_key t = k) (db_tiers tx)
        else case sql_row (\<lambda>t. tier_key t = k) (db_tiers tx) of
               None \<Rightarrow> Some ?r | Some t \<Rightarrow> if et_AutoClassified t then Some ?r else Some t)"
    by (rule upsert_tier_row [OF ok, of et_AutoClassified]) (rule that)
  have key: "tier_key ?r = (sid, ei_Type ep, ei_Name ep)" "et_AutoClassified ?r"
    by (simp_all add: auto_tier_def tier_key_def)
  have "tier_of (sync_upserts classify no_faults sid eps tx') sid' ty nm =
    (if sid' = sid then synced classify sid (last_endpoint ty nm eps) (tier_of tx' sid ty nm)
     else tier_of tx' sid' ty nm)"
    using Cons.IH [of tx'] Cons.prems ex by simp
  then show ?case
    by (auto simp: up shift exec_ignore_def row key last_endpoint_Cons synced_def split: option.splits)
qed

lemma delete_tier_row:
  "tier_of (exec_ignore True (delete_tier sid ty nm) tx) sid' ty' nm' =
     (if (sid', ty', nm') = (sid, ty, nm) then None else tier_of tx sid' ty' nm')"
  by (auto simp: exec_ignore_def delete_tier_def tier_matches_eta sql_row_None_iff intro!: sql_row_delete_other)

lemma sync_deletes_row:
  "tier_of (sync_deletes no_faults sid current ts tx) sid' ty nm =
     (if sid' = sid \<and> endpoint_key ty nm \<notin> current \<and>
        (\<exists>t \<in> set ts. et_EndpointType t = ty \<and> et_EndpointName t = nm) then None
      else tier_of tx sid' ty nm)"
proof (induction ts arbitrary: tx sid' ty nm)
  case (Cons t ts)
  have shift: "after_stmts (Suc 0) no_faults = no_faults" by (simp add: after_stmts_def)
  show ?case by (auto simp: shift Cons.IH delete_tier_row)
qed simp

lemma endpoint_key_inj:
  "valid_endpoint_type a \<Longrightarrow> valid_endpoint_type c \<Longrightarrow> endpoint_key a b = endpoint_key c d \<longleftrightarrow> a = c \<and> b = d"
  by (auto simp: endpoint_key_def valid_endpoint_type_def)

text \<open>
  C11. After an enumeration of a server's endpoints, the tiers of that server are exactly those of the
  endpoints announced: a tier set by hand stays as it is, every other endpoint has the tier
  \<open>ClassifyEndpoint\<close> gives it, and an endpoint no longer announced has none. Tiers of other
  servers are not touched.
\<close>

theorem sync_after_enumerate_spec:
  assumes "db_wf db" "server_exists db sid" "\<forall>ep \<in> set eps. valid_endpoint_type (ei_Type ep)"
  shows "tier_of (AccessStore_SyncAfterEnumerate ClassifyEndpoint no_faults sid eps db) sid' ty nm =
    (if sid' \<noteq> sid then tier_of db sid' ty nm
     else case last_endpoint ty nm eps of
       None \<Rightarrow> None
     | Some ep \<Rightarrow>
         (case tier_of db sid ty nm of
            Some t \<Rightarrow> if et_AutoClassified t then Some (auto_tier ClassifyEndpoint sid ep) else Some t
          | None \<Rightarrow> Some (auto_tier ClassifyEndpoint sid ep)))"
proof -
  have shift: "after_stmts n no_faults = no_faults" for n by (simp add: after_stmts_def)
  have "valid_tier (ClassifyEndpoint t n d)" for t n d
    using ClassifyEndpoint_range [of t n d] by (simp add: valid_tier_def)
  note up = sync_upserts_row [OF assms(2,3) this]
  have valid: "valid_endpoint_type ty" if "tier_of db sid ty nm = Some t" for t
    using that assms(1) by (auto simp: db_wf_def tbl_ok_def tier_row_ok_def tier_key_def dest!: sql_row_SomeD)
  have listed: "(\<exists>t \<in> set (sql_order et_EndpointType (sql_order et_EndpointName
        (sql_select (\<lambda>t. et_ServerID t = sid) (db_tiers db)))). et_EndpointType t = ty \<and> et_EndpointName t = nm) \<longleftrightarrow>
      tier_of db sid ty nm \<noteq> None"
    by (auto simp: sql_row_None_iff tier_key_def)
  have cur: "endpoint_key ty nm \<in> set (map (\<lambda>ep. endpoint_key (ei_Type ep) (ei_Name ep)) eps) \<longleftrightarrow>
      last_endpoint ty nm eps \<noteq> None" if "valid_endpoint_type ty"
    using assms(3) that by (auto simp: last_endpoint_None_iff endpoint_key_inj image_iff)
  show ?thesis
  proof (cases "tier_of db sid ty nm")
    case None
    with listed show ?thesis
      by (auto simp: AccessStore_SyncAfterEnumerate_def AccessStore_GetAllTiers_def Let_def shift sync_deletes_row up
          synced_def split: option.splits)
  next
    case (Some t)
    with listed cur [OF valid [OF Some]] show ?thesis
      by (auto simp: AccessStore_SyncAfterEnumerate_def AccessStore_GetAllTiers_def Let_def shift sync_deletes_row up
          synced_def split: option.splits)
  qed
qed

definition demo_server :: Server where
  "demo_server = \<lparr>sv_ID = ''s1'', sv_Name = ''files'', sv_DisplayName = ''Files'', sv_ServerType = ''http'', sv_Config = ''{}'',
     sv_Status = ''running'', sv_ErrorMsg = [], sv_Health = ''healthy'', sv_HealthCheckAt = None, sv_HealthError = [],
     sv_OptimizeEnabled = False, sv_CreatedAt = 0, sv_UpdatedAt = 0\<rparr>"

definition demo_tier :: "string \<Rightarrow> string \<Rightarrow> bool \<Rightarrow> EndpointTier" where
  "demo_tier nm tier auto = \<lparr>et_ServerID = ''s1'', et_EndpointType = ''tool'', et_EndpointName = nm,
     et_AccessTier = tier, et_AutoClassified = auto\<rparr>"

definition demo_tier_db :: relay_db where
  "demo_tier_db = empty_db\<lparr>db_servers := [demo_server],
     db_profiles := [\<lparr>ap_ID = ''p1'', ap_Name = ''agent'', ap_Description = [], ap_CreatedAt = 0, ap_UpdatedAt = 0\<rparr>],
     db_tiers := [demo_tier ''wipe'' ''admin'' False, demo_tier ''old'' ''read'' True]\<rparr>"

lemma demo_tier_db_wf: "db_wf demo_tier_db"
  by (simp add: db_wf_def demo_tier_db_def demo_tier_def demo_server_def empty_db_def tbl_ok_def row_ok_defs
      valid_defs exists_defs sql_has_def tier_key_def)

theorem sync_after_enumerate_spec_witness:
  "tier_of (AccessStore_SyncAfterEnumerate ClassifyEndpoint no_faults ''s1''
     [\<lparr>ei_Type = ''tool'', ei_Name = ''wipe'', ei_Description = []\<rparr>,
      \<lparr>ei_Type = ''tool'', ei_Name = ''get_x'', ei_Description = []\<rparr>] demo_tier_db) ''s1'' ''tool'' ''wipe'' =
   Some (demo_tier ''wipe'' ''admin'' False)"
proof -
  have "server_exists demo_tier_db ''s1''"
    by (simp add: server_exists_def demo_tier_db_def demo_server_def sql_has_def)
  note spec = sync_after_enumerate_spec [OF demo_tier_db_wf this,
     of "[\<lparr>ei_Type = ''tool'', ei_Name = ''wipe'', ei_Description = []\<rparr>,
      \<lparr>ei_Type = ''tool'', ei_Name = ''get_x'', ei_Description = []\<rparr>]" "''s1''" "''tool''" "''wipe''"]
  have "tier_of demo_tier_db ''s1'' ''tool'' ''wipe'' = Some (demo_tier ''wipe'' ''admin'' False)"
    by (simp add: demo_tier_db_def demo_tier_def tier_key_def)
  then show ?thesis
    by (subst spec) (simp_all add: valid_endpoint_type_def last_endpoint_def demo_tier_def)
qed

section \<open>Profile permissions\<close>

lemma mk_perm_eq_iff: "mk_perm a b c d = mk_perm a' b' c' d' \<longleftrightarrow> a = a' \<and> b = b' \<and> c = c' \<and> d = d'"
  by (simp add: mk_perm_def)

lemma check_permission_iff:
  "ProfileStore_CheckPermission no_faults pid sid ty nm db = Inr (mk_perm pid sid ty nm \<in> set (db_permissions db))"
  by (auto simp: ProfileStore_CheckPermission_def sql_count_def same_perm_def filter_empty_conv)

lemma insert_permission_set:
  "insert_permission r db = Inr db' \<Longrightarrow> set (db_permissions db') = insert r (set (db_permissions db))"
  by (auto simp: insert_permission_def split: if_splits)

lemma insert_permissions_set:
  "insert_permissions io pid sid ps db = Inr db' \<Longrightarrow>
     set (db_permissions db') =
       (\<lambda>p. mk_perm pid sid (pp_EndpointType p) (pp_EndpointName p)) ` set ps \<union> set (db_permissions db)"
  by (induction io pid sid ps db rule: insert_permissions.induct)
    (auto simp: res_bind_Inr_iff stmt_Inr_iff dest: insert_permission_set)

text \<open>
  Replacing a profile's permissions on a server is all or nothing: on success the profile may use
  exactly the endpoints listed there, and every other permission is as before; on any error the
  database is as before.
\<close>

theorem bulk_set_permissions_spec:
  "case ProfileStore_BulkSetPermissions io pid sid perms db of
     (db', Inl e) \<Rightarrow> db' = db
   | (db', Inr u) \<Rightarrow> \<forall>pid' sid' ty nm.
       ProfileStore_CheckPermission no_faults pid' sid' ty nm db' =
         (if pid' = pid \<and> sid' = sid
          then Inr (\<exists>p \<in> set perms. pp_EndpointType p = ty \<and> pp_EndpointName p = nm)
          else ProfileStore_CheckPermission no_faults pid' sid' ty nm db)"
proof (cases "ProfileStore_BulkSetPermissions io pid sid perms db")
  case (Pair db' r)
  show ?thesis
  proof (cases r)
    case (Inl e)
    with Pair show ?thesis
      by (auto simp: ProfileStore_BulkSetPermissions_def Let_def split: if_splits sum.splits)
  next
    case (Inr u)
    with Pair have "insert_permissions (after_stmts 3 io) pid sid perms (db\<lparr>db_permissions :=
          sql_delete (\<lambda>p. pp_ProfileID p = pid \<and> pp_ServerID p = sid) (db_permissions db)\<rparr>) = Inr db'"
      by (auto simp: ProfileStore_BulkSetPermissions_def Let_def split: if_splits sum.splits)
    then have "set (db_permissions db') =
       (\<lambda>p. mk_perm pid sid (pp_EndpointType p) (pp_EndpointName p)) ` set perms \<union>
       {p \<in> set (db_permissions db). \<not> (pp_ProfileID p = pid \<and> pp_ServerID p = sid)}"
      by (auto dest: insert_permissions_set)
    then show ?thesis
      by (auto simp: Pair Inr check_permission_iff mk_perm_eq_iff image_iff) (auto simp: mk_perm_def)
  qed
qed

lemma insert_permission_ignore_run:
  assumes "valid_endpoint_type (pp_EndpointType r)" "profile_exists db (pp_ProfileID r)" "server_exists db (pp_ServerID r)"
  obtains db' where "insert_permission_ignore r db = Inr db'"
    "set (db_permissions db') = insert r (set (db_permissions db))"
    "profile_exists db' = profile_exists db" "server_exists db' = server_exists db"
proof (cases "sql_has (same_perm r) (db_permissions db)")
  case True
  then have "r \<in> set (db_permissions db)" by (auto simp: sql_has_iff same_perm_def)
  with True assms show ?thesis
    by (intro that [of db]) (auto simp: insert_permission_ignore_def insert_permission_def)
next
  case False
  with assms show ?thesis
    by (intro that [of "db\<lparr>db_permissions := db_permissions db @ [r]\<rparr>"])
      (auto simp: insert_permission_ignore_def insert_permission_def)
qed

lemma insert_all_ignore_run:
  assumes "\<forall>r \<in> set rs. valid_endpoint_type (pp_EndpointType r) \<and> profile_exists db (pp_ProfileID r) \<and>
    server_exists db (pp_ServerID r)"
  shows "\<exists>db'. insert_all_ignore rs db = Inr db' \<and> set (db_permissions db') = set rs \<union> set (db_permissions db)"
  using assms
proof (induction rs arbitrary: db)
  case (Cons r rs)
  then have "valid_endpoint_type (pp_EndpointType r)" "profile_exists db (pp_ProfileID r)" "server_exists db (pp_ServerID r)"
    by simp_all
  then obtain db1 where db1: "insert_permission_ignore r db = Inr db1"
      "set (db_permissions db1) = insert r (set (db_permissions db))"
      "profile_exists db1 = profile_exists db" "server_exists db1 = server_exists db"
    by (rule insert_permission_ignore_run)
  from Cons.prems db1 Cons.IH [of db1] show ?case by auto
qed simp

lemma seed_condition_iff:
  "valid_tier maxTier \<Longrightarrow> \<exists>cond. seed_condition maxTier = Some cond \<and>
     (\<forall>t. valid_tier (et_AccessTier t) \<longrightarrow> cond t = AccessStore_CheckAccess maxTier (et_AccessTier t))"
  unfolding valid_tier_def seed_condition_def AccessStore_CheckAccess_def tierLevel_def
  by (elim insertE emptyE) (auto; simp)+

text \<open>
  Seeding a profile from a tier grants, on that server, exactly the endpoints a user of that access
  level could use under the tier rules, on top of what the profile had.
\<close>

theorem seed_from_tier_spec:
  assumes "db_wf db" "profile_exists db pid" "valid_tier maxTier"
  shows "\<exists>db'. ProfileStore_SeedFromTier no_faults pid sid maxTier db = (db', Inr ()) \<and>
    (\<forall>ty nm. ProfileStore_CheckPermission no_faults pid sid ty nm db' =
       Inr (mk_perm pid sid ty nm \<in> set (db_permissions db) \<or>
         (\<exists>t \<in> set (db_tiers db). tier_key t = (sid, ty, nm) \<and> AccessStore_CheckAccess maxTier (et_AccessTier t))))"
proof -
  from assms(3) obtain cond where cond: "seed_condition maxTier = Some cond"
    and acc: "\<And>t. valid_tier (et_AccessTier t) \<Longrightarrow> cond t = AccessStore_CheckAccess maxTier (et_AccessTier t)"
    using seed_condition_iff by blast
  have ok: "valid_endpoint_type (et_EndpointType t)" "valid_tier (et_AccessTier t)" "server_exists db (et_ServerID t)"
    if "t \<in> set (db_tiers db)" for t
    using that assms(1) by (auto simp: db_wf_def tier_row_ok_def dest: tbl_okD)
  let ?rs = "map (\<lambda>t. mk_perm pid (et_ServerID t) (et_EndpointType t) (et_EndpointName t))
            (sql_select (\<lambda>t. et_ServerID t = sid \<and> cond t) (db_tiers db))"
  have "\<exists>db'. insert_all_ignore ?rs db = Inr db' \<and> set (db_permissions db') = set ?rs \<union> set (db_permissions db)"
    by (rule insert_all_ignore_run) (use ok assms(2) in \<open>auto simp: mk_perm_def\<close>)
  then obtain db' where run: "insert_all_ignore ?rs db = Inr db'"
      "set (db_permissions db') = set ?rs \<union> set (db_permissions db)" by blast
  have "mk_perm pid sid ty nm \<in> set ?rs \<longleftrightarrow>
      (\<exists>t \<in> set (db_tiers db). tier_key t = (sid, ty, nm) \<and> AccessStore_CheckAccess maxTier (et_AccessTier t))" for ty nm
    using ok(2) acc by (auto simp: mk_perm_def tier_key_def image_iff)
  with run show ?thesis
    by (auto simp: ProfileStore_SeedFromTier_def cond exec_def check_permission_iff)
qed

theorem seed_from_tier_spec_witness:
  "\<exists>db'. ProfileStore_SeedFromTier no_faults ''p1'' ''s1'' ''write'' demo_tier_db = (db', Inr ()) \<and>
     ProfileStore_CheckPermission no_faults ''p1'' ''s1'' ''tool'' ''old'' db' = Inr True \<and>
     ProfileStore_CheckPermission no_faults ''p1'' ''s1'' ''tool'' ''wipe'' db' = Inr False"
proof -
  have "profile_exists demo_tier_db ''p1''" "valid_tier ''write''"
    by (simp_all add: profile_exists_def demo_tier_db_def sql_has_def valid_tier_def)
  from seed_from_tier_spec [OF demo_tier_db_wf this, of "''s1''"] show ?thesis
    by (auto simp: demo_tier_db_def demo_tier_def empty_db_def tier_key_def AccessStore_CheckAccess_def tierLevel_def)
qed

end
