(* ===== verification/Server_Store.thy ===== *)
theory Server_Store
  imports Relay_DB
begin

text \<open>
  \<open>internal/store/crypto.go\<close> and \<open>internal/store/servers.go\<close>: the encryption of stored
  credentials and the table of MCP servers. AES-GCM with its base64 envelope is an argument:
  \<open>g_seal nonce text\<close> is the encoded nonce and ciphertext, \<open>g_open\<close> its inverse, \<open>None\<close> on
  authentication failure or malformed input.
\<close>

record gcm =
  g_seal :: "string \<Rightarrow> string \<Rightarrow> string"
  g_open :: "string \<Rightarrow> string option"

type_synonym ConfigEncryptor = "gcm option"

definition encryptedPrefix :: string where
  "encryptedPrefix = ''enc:''"

text \<open>\<open>None\<close> as the nonce: the random source failed.\<close>

definition Encrypt :: "ConfigEncryptor \<Rightarrow> string option \<Rightarrow> string \<Rightarrow> string res" where
  "Encrypt e nonce plaintext =
     (case e of
        None \<Rightarrow> Inr plaintext
      | Some g \<Rightarrow> (case nonce of None \<Rightarrow> Inl CryptoError | Some n \<Rightarrow> Inr (encryptedPrefix @ g_seal g n plaintext)))"

definition Decrypt :: "ConfigEncryptor \<Rightarrow> string \<Rightarrow> string res" where
  "Decrypt e data =
     (if \<not> has_prefix data encryptedPrefix then Inr data
      else case e of
        None \<Rightarrow> Inl CryptoError
      | Some g \<Rightarrow> (case g_open g (trim_prefix data encryptedPrefix) of None \<Rightarrow> Inl CryptoError | Some p \<Rightarrow> Inr p))"

section \<open>Slugs\<close>

definition slug_edge :: "char \<Rightarrow> bool" where
  "slug_edge c \<longleftrightarrow> (let n = of_char c :: nat in (97 \<le> n \<and> n \<le> 122) \<or> (48 \<le> n \<and> n \<le> 57))"

definition slugPattern :: "string \<Rightarrow> bool" where
  "slugPattern s \<longleftrightarrow> 2 \<le> length s \<and> slug_edge (hd s) \<and> slug_edge (last s) \<and>
     list_all (\<lambda>c. slug_edge c \<or> c = CHR ''-'') s"

definition ValidateSlug :: "string \<Rightarrow> unit res" where
  "ValidateSlug name = (if name = [] then Inl InvalidSlug else if \<not> slugPattern name then Inl InvalidSlug else Inr ())"

section \<open>Servers\<close>

text \<open>\<open>health\<close> and the other columns that are not inserted take their defaults. \<open>UniqueViolation\<close> is \<open>ErrSlugConflict\<close>.\<close>

definition ServerStore_Create ::
    "ConfigEncryptor \<Rightarrow> faults \<Rightarrow> time \<Rightarrow> string option \<Rightarrow> string \<Rightarrow> Server \<Rightarrow> relay_db \<Rightarrow> relay_db \<times> Server res" where
  "ServerStore_Create enc io now nonce uuid srv db =
     (case ValidateSlug (sv_Name srv) of
        Inl e \<Rightarrow> (db, Inl e)
      | Inr _ \<Rightarrow>
          let srv' = srv\<lparr>sv_ID := (if sv_ID srv = [] then uuid else sv_ID srv), sv_Status := ''stopped'',
                sv_CreatedAt := now, sv_UpdatedAt := now\<rparr> in
          (case Encrypt enc nonce (sv_Config srv') of
            Inl e \<Rightarrow> (db, Inl e)
          | Inr stored \<Rightarrow>
              (case stmt (io 0) (insert_server (srv'\<lparr>sv_Config := stored, sv_ErrorMsg := [], sv_Health := ''unknown'',
                     sv_HealthCheckAt := None, sv_HealthError := [], sv_OptimizeEnabled := False\<rparr>) db) of
                 Inl e \<Rightarrow> (db, Inl e)
               | Inr db' \<Rightarrow> (db', Inr srv'))))"

definition open_config :: "ConfigEncryptor \<Rightarrow> Server \<Rightarrow> Server res" where
  "open_config enc srv = res_bind (Decrypt enc (sv_Config srv)) (\<lambda>p. Inr (srv\<lparr>sv_Config := p\<rparr>))"

definition find_server :: "ConfigEncryptor \<Rightarrow> bool \<Rightarrow> (Server \<Rightarrow> bool) \<Rightarrow> relay_db \<Rightarrow> Server option res" where
  "find_server enc ok p db =
     stmt ok (case sql_row p (db_servers db) of
        None \<Rightarrow> Inr None
      | Some srv \<Rightarrow> res_bind (open_config enc srv) (\<lambda>s. Inr (Some s)))"

definition ServerStore_Get :: "ConfigEncryptor \<Rightarrow> faults \<Rightarrow> string \<Rightarrow> relay_db \<Rightarrow> Server option res" where
  "ServerStore_Get enc io i db = find_server enc (io 0) (\<lambda>s. sv_ID s = i) db"

definition ServerStore_GetByName :: "ConfigEncryptor \<Rightarrow> faults \<Rightarrow> string \<Rightarrow> relay_db \<Rightarrow> Server option res" where
  "ServerStore_GetByName enc io name db = find_server enc (io 0) (\<lambda>s. sv_Name s = name) db"

fun open_configs :: "ConfigEncryptor \<Rightarrow> Server list \<Rightarrow> Server list res" where
  "open_configs enc [] = Inr []"
| "open_configs enc (s # ss) =
     res_bind (open_config enc s) (\<lambda>s'. res_bind (open_configs enc ss) (\<lambda>ss'. Inr (s' # ss')))"

definition ServerStore_List :: "ConfigEncryptor \<Rightarrow> faults \<Rightarrow> relay_db \<Rightarrow> Server list res" where
  "ServerStore_List enc io db = stmt (io 0) (open_configs enc (sql_order sv_CreatedAt (db_servers db)))"

text \<open>\<open>UPDATE servers ... WHERE id = ?\<close>: at most one row, so only its own constraints matter.\<close>

definition update_server :: "string \<Rightarrow> (Server \<Rightarrow> Server) \<Rightarrow> relay_db \<Rightarrow> relay_db res" where
  "update_server i f db =
     (if sql_has (\<lambda>s. sv_ID s = i \<and> \<not> server_row_ok (f s)) (db_servers db) then Inl CheckViolation
      else if sql_has (\<lambda>s. sv_ID s = i \<and> sql_has (\<lambda>t. sv_ID t \<noteq> i \<and> sv_Name t = sv_Name (f s)) (db_servers db)) (db_servers db)
        then Inl UniqueViolation
      else Inr (db\<lparr>db_servers := sql_update (\<lambda>s. sv_ID s = i) f (db_servers db)\<rparr>))"

definition ServerStore_Update ::
    "ConfigEncryptor \<Rightarrow> faults \<Rightarrow> time \<Rightarrow> string option \<Rightarrow> Server \<Rightarrow> relay_db \<Rightarrow> relay_db \<times> unit res" where
  "ServerStore_Update enc io now nonce srv db =
     (case Encrypt enc nonce (sv_Config srv) of
        Inl e \<Rightarrow> (db, Inl e)
      | Inr stored \<Rightarrow>
          exec (io 0) (update_server (sv_ID srv)
            (\<lambda>s. s\<lparr>sv_Name := sv_Name srv, sv_DisplayName := sv_DisplayName srv, sv_ServerType := sv_ServerType srv,
               sv_Config := stored, sv_Status := sv_Status srv, sv_ErrorMsg := sv_ErrorMsg srv, sv_UpdatedAt := now\<rparr>)) db)"

definition ServerStore_UpdateStatus :: "faults \<Rightarrow> time \<Rightarrow> string \<Rightarrow> string \<Rightarrow> string \<Rightarrow> relay_db \<Rightarrow> relay_db \<times> unit res" where
  "ServerStore_UpdateStatus io now i status errMsg db =
     exec (io 0) (update_server i (\<lambda>s. s\<lparr>sv_Status := status, sv_ErrorMsg := errMsg, sv_UpdatedAt := now\<rparr>)) db"

definition ServerStore_UpdateHealth :: "faults \<Rightarrow> time \<Rightarrow> string \<Rightarrow> string \<Rightarrow> string \<Rightarrow> relay_db \<Rightarrow> relay_db \<times> unit res" where
  "ServerStore_UpdateHealth io now i health healthError db =
     exec (io 0) (update_server i (\<lambda>s. s\<lparr>sv_Health := health, sv_HealthCheckAt := Some now,
       sv_HealthError := healthError, sv_UpdatedAt := now\<rparr>)) db"

definition ServerStore_UpdateConfig ::
    "ConfigEncryptor \<Rightarrow> faults \<Rightarrow> time \<Rightarrow> string option \<Rightarrow> string \<Rightarrow> string \<Rightarrow> relay_db \<Rightarrow> relay_db \<times> unit res" where
  "ServerStore_UpdateConfig enc io now nonce i config db =
     (case Encrypt enc nonce config of
        Inl e \<Rightarrow> (db, Inl e)
      | Inr stored \<Rightarrow> exec (io 0) (update_server i (\<lambda>s. s\<lparr>sv_Config := stored, sv_UpdatedAt := now\<rparr>)) db)"

definition ServerStore_SetOptimizeEnabled :: "faults \<Rightarrow> time \<Rightarrow> string \<Rightarrow> bool \<Rightarrow> relay_db \<Rightarrow> relay_db \<times> unit res" where
  "ServerStore_SetOptimizeEnabled io now i enabled db =
     exec (io 0) (update_server i (\<lambda>s. s\<lparr>sv_OptimizeEnabled := enabled, sv_UpdatedAt := now\<rparr>)) db"

definition ServerStore_Delete :: "faults \<Rightarrow> string \<Rightarrow> relay_db \<Rightarrow> relay_db \<times> unit res" where
  "ServerStore_Delete io i db = exec (io 0) (\<lambda>d. Inr (delete_server i d)) db"

section \<open>Lemmas\<close>

lemma decrypt_encrypt:
  assumes "Encrypt e nonce p = Inr c"
    and "e = None \<Longrightarrow> \<not> has_prefix p encryptedPrefix"
    and "\<And>g n. e = Some g \<Longrightarrow> g_open g (g_seal g n p) = Some p"
  shows "Decrypt e c = Inr p"
  using assms by (auto simp: Encrypt_def Decrypt_def split: option.splits)

lemma server_names_updated:
  assumes "tbl_ok sv_ID ok t" "tbl_ok sv_Name (\<lambda>_. True) t" "\<And>s. sv_ID (f s) = sv_ID s"
    and free: "\<And>s u. s \<in> set t \<Longrightarrow> sv_ID s = i \<Longrightarrow> u \<in> set t \<Longrightarrow> sv_ID u \<noteq> i \<Longrightarrow> sv_Name u \<noteq> sv_Name (f s)"
  shows "tbl_ok sv_Name (\<lambda>_. True) (sql_update (\<lambda>s. sv_ID s = i) f t)"
proof -
  have "distinct (map sv_ID t)" "distinct (map sv_Name t)" using assms by (auto simp: tbl_ok_def)
  then have "distinct (map sv_Name (sql_update (\<lambda>s. sv_ID s = i) f t))"
    using free by (induction t) (auto simp: sql_update_def image_iff split: if_splits dest: sym)
  then show ?thesis by (simp add: tbl_ok_def)
qed

lemma update_server_wf:
  assumes up: "update_server i f db = Inr db'" and wf: "db_wf db" and ids: "\<And>s. sv_ID (f s) = sv_ID s"
  shows "db_wf db'"
proof -
  from up have db': "db' = db\<lparr>db_servers := sql_update (\<lambda>s. sv_ID s = i) f (db_servers db)\<rparr>"
    and chk: "\<And>s. s \<in> set (db_servers db) \<Longrightarrow> sv_ID s = i \<Longrightarrow> server_row_ok (f s)"
    and free: "\<And>s u. s \<in> set (db_servers db) \<Longrightarrow> sv_ID s = i \<Longrightarrow> u \<in> set (db_servers db) \<Longrightarrow> sv_ID u \<noteq> i \<Longrightarrow>
      sv_Name u \<noteq> sv_Name (f s)"
    by (auto simp: update_server_def sql_has_iff split: if_splits)
  have ex: "server_exists db' = server_exists db"
    using ids by (simp add: db' server_exists_def sql_has_update fun_eq_iff)
  have "tbl_ok sv_ID (\<lambda>s. server_row_ok s \<and> (sv_ID s = i \<longrightarrow> server_row_ok (f s))) (db_servers db)"
    using wf chk by (auto simp: db_wf_def elim!: tbl_ok_strengthen)
  then have "tbl_ok sv_ID server_row_ok (db_servers db')"
    using ids by (auto simp: db' elim!: tbl_ok_update)
  moreover have "tbl_ok sv_Name (\<lambda>_. True) (db_servers db')"
    using wf free ids by (auto simp: db' db_wf_def intro!: server_names_updated)
  ultimately show ?thesis using wf ex by (simp add: db' db_wf_def)
qed

lemma ServerStore_Create_wf: "db_wf db \<Longrightarrow> db_wf (fst (ServerStore_Create enc io now n u srv db))"
  by (auto simp: ServerStore_Create_def Let_def stmt_def split: sum.splits dest: insert_server_wf)

lemma server_store_simple_wf:
  assumes "db_wf db"
  shows "db_wf (fst (ServerStore_Update enc io now n srv db))"
    "db_wf (fst (ServerStore_UpdateStatus io now i st e db))"
    "db_wf (fst (ServerStore_UpdateHealth io now i h e db))"
    "db_wf (fst (ServerStore_UpdateConfig enc io now n i cfg db))"
    "db_wf (fst (ServerStore_SetOptimizeEnabled io now i b db))"
    "db_wf (fst (ServerStore_Delete io i db))"
  using assms
  by (auto simp: ServerStore_Update_def ServerStore_UpdateStatus_def ServerStore_UpdateHealth_def
      ServerStore_UpdateConfig_def ServerStore_SetOptimizeEnabled_def ServerStore_Delete_def split: sum.splits
      intro!: exec_pres [where P = db_wf] intro: delete_server_wf elim!: update_server_wf)

lemmas server_store_wf = ServerStore_Create_wf server_store_simple_wf

lemma open_config_keeps: "open_config enc s = Inr s' \<Longrightarrow> sv_ID s' = sv_ID s \<and> sv_Name s' = sv_Name s"
  by (auto simp: open_config_def res_bind_Inr_iff)

text \<open>
  With an encryption key configured, the row written for a new server holds the configuration in
  sealed form only, and reading the server back gives the configuration that was stored, with the
  server in state \<open>stopped\<close>.
\<close>

theorem server_create_get_roundtrip:
  assumes "\<And>n p. g_open g (g_seal g n p) = Some p"
    and "ServerStore_Create (Some g) io now (Some nonce) uuid srv db = (db', Inr srv')"
  shows "(\<exists>row \<in> set (db_servers db'). sv_ID row = sv_ID srv' \<and>
      sv_Config row = encryptedPrefix @ g_seal g nonce (sv_Config srv)) \<and>
    (\<exists>s. ServerStore_Get (Some g) no_faults (sv_ID srv') db' = Inr (Some s) \<and> sv_Config s = sv_Config srv \<and>
      sv_Name s = sv_Name srv \<and> sv_Status s = ''stopped'')"
proof -
  define row where "row = srv'\<lparr>sv_Config := encryptedPrefix @ g_seal g nonce (sv_Config srv), sv_ErrorMsg := [],
     sv_Health := ''unknown'', sv_HealthCheckAt := None, sv_HealthError := [], sv_OptimizeEnabled := False\<rparr>"
  from assms(2) have srv': "srv' = srv\<lparr>sv_ID := (if sv_ID srv = [] then uuid else sv_ID srv), sv_Status := ''stopped'',
      sv_CreatedAt := now, sv_UpdatedAt := now\<rparr>"
    and ins: "insert_server row db = Inr db'"
    by (auto simp: ServerStore_Create_def Let_def stmt_def Encrypt_def row_def split: sum.splits if_splits)
  from ins have rows: "db_servers db' = db_servers db @ [row]" and new: "\<not> sql_has (\<lambda>s. sv_ID s = sv_ID row) (db_servers db)"
    by (auto simp: insert_server_def split: if_splits)
  have "sql_row (\<lambda>s. sv_ID s = sv_ID srv') (db_servers db') = Some row"
    unfolding rows by (rule sql_row_snoc) (use new in \<open>simp_all add: row_def\<close>)
  then have "ServerStore_Get (Some g) no_faults (sv_ID srv') db' = Inr (Some (row\<lparr>sv_Config := sv_Config srv\<rparr>))"
    using assms(1) by (simp add: ServerStore_Get_def find_server_def open_config_def Decrypt_def row_def)
  then show ?thesis by (auto simp: rows row_def srv')
qed

definition demo_gcm :: gcm where
  "demo_gcm = \<lparr>g_seal = (\<lambda>n p. p), g_open = Some\<rparr>"

theorem server_create_get_roundtrip_witness:
  "\<exists>db' srv'. ServerStore_Create (Some demo_gcm) no_faults 3 (Some ''nonce'') ''s9''
      \<lparr>sv_ID = [], sv_Name = ''files'', sv_DisplayName = ''Files'', sv_ServerType = ''http'', sv_Config = ''{}'', sv_Status = [],
       sv_ErrorMsg = [], sv_Health = [], sv_HealthCheckAt = None, sv_HealthError = [], sv_OptimizeEnabled = False,
       sv_CreatedAt = 0, sv_UpdatedAt = 0\<rparr> empty_db = (db', Inr srv') \<and>
     (\<exists>s. ServerStore_Get (Some demo_gcm) no_faults (sv_ID srv') db' = Inr (Some s) \<and> sv_Config s = ''{}'')"
  (is "\<exists>db' srv'. ServerStore_Create _ _ _ _ _ ?srv _ = _ \<and> _")
proof -
  have law: "g_open demo_gcm (g_seal demo_gcm n p) = Some p" for n p by (simp add: demo_gcm_def)
  obtain db' srv' where run: "ServerStore_Create (Some demo_gcm) no_faults 3 (Some ''nonce'') ''s9'' ?srv empty_db = (db', Inr srv')"
    by (simp add: ServerStore_Create_def ValidateSlug_def slugPattern_def slug_edge_def Let_def Encrypt_def
        insert_server_def valid_defs sql_has_def empty_db_def)
  from server_create_get_roundtrip [OF law run] run show ?thesis by auto
qed

end
