(* ===== verification/Json_Scan.thy ===== *)
theory Json_Scan
  imports Relay_Prelude
begin

text \<open>
  What the relay uses of \<open>encoding/json\<close>. A \<open>json.RawMessage\<close> is the text of a value; decoding
  one level of it gives its shape, whose components are again the texts of the inner values, exactly
  as decoding into \<open>map[string]json.RawMessage\<close> or \<open>[]json.RawMessage\<close> does. The scanner
  follows the JSON grammar on bytes; its fuel, twice the length of the text, is never short, since
  every two calls consume a byte. The nesting limit of 10000 is not modelled.
\<close>

definition byte :: "nat \<Rightarrow> char" where
  "byte n = char_of n"

definition ord :: "char \<Rightarrow> nat" where
  "ord c = of_char c"

definition is_ws :: "char \<Rightarrow> bool" where
  "is_ws c \<longleftrightarrow> ord c = 32 \<or> ord c = 9 \<or> ord c = 10 \<or> ord c = 13"

definition skip_ws :: "string \<Rightarrow> string" where
  "skip_ws s = dropWhile is_ws s"

definition quote_ch :: char where "quote_ch = byte 34"
definition backslash :: char where "backslash = byte 92"

definition is_digit :: "char \<Rightarrow> bool" where
  "is_digit c \<longleftrightarrow> 48 \<le> ord c \<and> ord c \<le> 57"

definition hexval :: "char \<Rightarrow> nat option" where
  "hexval c =
     (let n = ord c in
      if 48 \<le> n \<and> n \<le> 57 then Some (n - 48)
      else if 97 \<le> n \<and> n \<le> 102 then Some (n - 87)
      else if 65 \<le> n \<and> n \<le> 70 then Some (n - 55)
      else None)"

definition getu4 :: "char \<Rightarrow> char \<Rightarrow> char \<Rightarrow> char \<Rightarrow> nat option" where
  "getu4 a b c d =
     (case (hexval a, hexval b, hexval c, hexval d) of
        (Some w, Some x, Some y, Some z) \<Rightarrow> Some (((w * 16 + x) * 16 + y) * 16 + z)
      | _ \<Rightarrow> None)"

section \<open>Strings\<close>

text \<open>The raw body of a string literal, from after the opening quote, and what follows the closing one.\<close>

fun scan_str :: "string \<Rightarrow> (string \<times> string) option" where
  "scan_str [] = None"
| "scan_str (c # cs) =
     (if c = quote_ch then Some ([], cs)
      else if c = backslash then
        (case cs of
           [] \<Rightarrow> None
         | e # es \<Rightarrow>
             if e \<in> {quote_ch, backslash, CHR ''/'', CHR ''b'', CHR ''f'', CHR ''n'', CHR ''r'', CHR ''t''} then
               map_option (\<lambda>(b, r). (c # e # b, r)) (scan_str es)
             else if e = CHR ''u'' then
               (case es of
                  a # b # x # y # r \<Rightarrow>
                    (case getu4 a b x y of
                       None \<Rightarrow> None
                     | Some _ \<Rightarrow> map_option (\<lambda>(bd, r). (c # e # a # b # x # y # bd, r)) (scan_str r))
                | _ \<Rightarrow> None)
             else None)
      else if ord c < 32 then None
      else map_option (\<lambda>(b, r). (c # b, r)) (scan_str cs))"

definition utf8_enc :: "nat \<Rightarrow> string" where
  "utf8_enc n =
     (if n < 128 then [byte n]
      else if n < 2048 then [byte (192 + n div 64), byte (128 + n mod 64)]
      else if n < 65536 then [byte (224 + n div 4096), byte (128 + n div 64 mod 64), byte (128 + n mod 64)]
      else [byte (240 + n div 262144), byte (128 + n div 4096 mod 64), byte (128 + n div 64 mod 64), byte (128 + n mod 64)])"

definition rune_error :: string where
  "rune_error = utf8_enc 65533"

definition is_cont :: "char \<Rightarrow> bool" where
  "is_cont c \<longleftrightarrow> 128 \<le> ord c \<and> ord c < 192"

text \<open>The length of the UTF-8 sequence at the head of a text, 0 where \<open>utf8.DecodeRune\<close> reports an error.\<close>

fun utf8_len :: "string \<Rightarrow> nat" where
  "utf8_len [] = 0"
| "utf8_len (a # cs) =
     (let n = ord a in
      if n < 128 then 1
      else if 194 \<le> n \<and> n < 224 then (case cs of b # _ \<Rightarrow> if is_cont b then 2 else 0 | _ \<Rightarrow> 0)
      else if 224 \<le> n \<and> n < 240 then
        (case cs of
           b # c # _ \<Rightarrow>
             if is_cont b \<and> is_cont c \<and> (n = 224 \<longrightarrow> 160 \<le> ord b) \<and> (n = 237 \<longrightarrow> ord b < 160) then 3 else 0
         | _ \<Rightarrow> 0)
      else if 240 \<le> n \<and> n < 245 then
        (case cs of
           b # c # d # _ \<Rightarrow>
             if is_cont b \<and> is_cont c \<and> is_cont d \<and> (n = 240 \<longrightarrow> 144 \<le> ord b) \<and> (n = 244 \<longrightarrow> ord b < 144) then 4 else 0
         | _ \<Rightarrow> 0)
      else 0)"

definition escape_value :: "char \<Rightarrow> char" where
  "escape_value e =
     (if e = CHR ''b'' then byte 8 else if e = CHR ''f'' then byte 12 else if e = CHR ''n'' then byte 10
      else if e = CHR ''r'' then byte 13 else if e = CHR ''t'' then byte 9 else e)"

text \<open>\<open>\uXXXX\<close> at the head: the text it denotes and what follows (a surrogate pair is one rune).\<close>

definition unquote_u :: "nat \<Rightarrow> string \<Rightarrow> string \<times> nat" where
  "unquote_u r rest =
     (if 55296 \<le> r \<and> r < 57344 then
        (case rest of
           p # u # a # b # c # d # _ \<Rightarrow>
             (if p = backslash \<and> u = CHR ''u'' then
                (case getu4 a b c d of
                   Some q \<Rightarrow>
                     if r < 56320 \<and> 56320 \<le> q \<and> q < 57344
                     then (utf8_enc ((r - 55296) * 1024 + (q - 56320) + 65536), 6)
                     else (rune_error, 0)
                 | None \<Rightarrow> (rune_error, 0))
              else (rune_error, 0))
         | _ \<Rightarrow> (rune_error, 0))
      else (utf8_enc r, 0))"

function unquote :: "string \<Rightarrow> string" where
  "unquote [] = []"
| "unquote (c # cs) =
     (if c = backslash then
        (case cs of
           [] \<Rightarrow> []
         | e # es \<Rightarrow>
             if e = CHR ''u'' then
               (case es of
                  a # b # x # y # r \<Rightarrow>
                    (case getu4 a b x y of
                       None \<Rightarrow> []
                     | Some n \<Rightarrow> (case unquote_u n r of (t, k) \<Rightarrow> t @ unquote (drop k r)))
                | _ \<Rightarrow> [])
             else escape_value e # unquote es)
      else
        let k = utf8_len (c # cs) in
        if k = 0 then rune_error @ unquote cs
        else c # take (k - 1) cs @ unquote (drop (k - 1) cs))"
  by pat_completeness auto
termination by (relation "measure length") auto

section \<open>Numbers and literals\<close>

definition scan_digits :: "string \<Rightarrow> string option" where
  "scan_digits s = (case s of [] \<Rightarrow> None | c # cs \<Rightarrow> if is_digit c then Some (dropWhile is_digit cs) else None)"

definition scan_int :: "string \<Rightarrow> string option" where
  "scan_int s =
     (case s of
        [] \<Rightarrow> None
      | c # cs \<Rightarrow> if c = CHR ''0'' then Some cs else if is_digit c then Some (dropWhile is_digit cs) else None)"

definition scan_frac :: "string \<Rightarrow> string option" where
  "scan_frac s = (case s of [] \<Rightarrow> Some [] | c # cs \<Rightarrow> if c = CHR ''.'' then scan_digits cs else Some s)"

definition scan_exp :: "string \<Rightarrow> string option" where
  "scan_exp s =
     (case s of
        [] \<Rightarrow> Some []
      | c # cs \<Rightarrow>
          if c = CHR ''e'' \<or> c = CHR ''E'' then
            (case cs of
               [] \<Rightarrow> None
             | d # ds \<Rightarrow> if d = CHR ''+'' \<or> d = CHR ''-'' then scan_digits ds else scan_digits cs)
          else Some s)"

definition scan_num :: "string \<Rightarrow> string option" where
  "scan_num s =
     (let s' = (case s of [] \<Rightarrow> [] | c # cs \<Rightarrow> if c = CHR ''-'' then cs else s) in
      case scan_int s' of None \<Rightarrow> None
      | Some r \<Rightarrow> (case scan_frac r of None \<Rightarrow> None | Some r' \<Rightarrow> scan_exp r'))"

section \<open>Values\<close>

datatype jshape =
    SNull
  | SBool bool
  | SNum string
  | SStr string
  | SArr "string list"
  | SObj "(string \<times> string) list"

definition raw_of :: "string \<Rightarrow> string \<Rightarrow> string" where
  "raw_of s rest = take (length s - length rest) s"

fun jvalue :: "nat \<Rightarrow> string \<Rightarrow> (jshape \<times> string) option"
  and jelems :: "nat \<Rightarrow> string \<Rightarrow> (string list \<times> string) option"
  and jmembers :: "nat \<Rightarrow> string \<Rightarrow> ((string \<times> string) list \<times> string) option" where
  "jvalue 0 s = None"
| "jvalue (Suc n) s =
     (case s of
        [] \<Rightarrow> None
      | c # cs \<Rightarrow>
          if c = quote_ch then map_option (\<lambda>(b, r). (SStr (unquote b), r)) (scan_str cs)
          else if c = CHR ''{'' then
            (case skip_ws cs of
               [] \<Rightarrow> None
             | d # ds \<Rightarrow>
                 if d = CHR ''}'' then Some (SObj [], ds)
                 else map_option (\<lambda>(ms, r). (SObj ms, r)) (jmembers n (d # ds)))
          else if c = CHR ''['' then
            (case skip_ws cs of
               [] \<Rightarrow> None
             | d # ds \<Rightarrow>
                 if d = CHR '']'' then Some (SArr [], ds)
                 else map_option (\<lambda>(es, r). (SArr es, r)) (jelems n (d # ds)))
          else if has_prefix s ''null'' then Some (SNull, drop 4 s)
          else if has_prefix s ''true'' then Some (SBool True, drop 4 s)
          else if has_prefix s ''false'' then Some (SBool False, drop 5 s)
          else map_option (\<lambda>r. (SNum (raw_of s r), r)) (scan_num s))"
| "jelems 0 s = None"
| "jelems (Suc n) s =
     (case jvalue n s of
        None \<Rightarrow> None
      | Some (_, r) \<Rightarrow>
          (case skip_ws r of
             [] \<Rightarrow> None
           | d # ds \<Rightarrow>
               if d = CHR '']'' then Some ([raw_of s r], ds)
               else if d = CHR '','' then map_option (\<lambda>(es, q). (raw_of s r # es, q)) (jelems n (skip_ws ds))
               else None))"
| "jmembers 0 s = None"
| "jmembers (Suc n) s =
     (case s of
        [] \<Rightarrow> None
      | c # cs \<Rightarrow>
          if c \<noteq> quote_ch then None
          else (case scan_str cs of
            None \<Rightarrow> None
          | Some (k, r0) \<Rightarrow>
              (case skip_ws r0 of
                 [] \<Rightarrow> None
               | e # es \<Rightarrow>
                   if e \<noteq> CHR '':'' then None
                   else
                     let v = skip_ws es in
                     (case jvalue n v of
                       None \<Rightarrow> None
                     | Some (_, r) \<Rightarrow>
                         (case skip_ws r of
                            [] \<Rightarrow> None
                          | d # ds \<Rightarrow>
                              if d = CHR ''}'' then Some ([(unquote k, raw_of v r)], ds)
                              else if d = CHR '','' then
                                map_option (\<lambda>(ms, q). ((unquote k, raw_of v r) # ms, q)) (jmembers n (skip_ws ds))
                              else None)))))"

text \<open>The shape of a text; \<open>None\<close> for text that is not one JSON value.\<close>

definition shape :: "string \<Rightarrow> jshape option" where
  "shape s =
     (case jvalue (2 * length s + 2) (skip_ws s) of
        None \<Rightarrow> None
      | Some (v, r) \<Rightarrow> if skip_ws r = [] then Some v else None)"

section \<open>Decoding into Go values\<close>

text \<open>
  \<open>foldName\<close>: field names match without regard to case; besides ASCII letters, the long s and the
  Kelvin sign fold to \<open>s\<close> and \<open>k\<close>.
\<close>

fun fold_name :: "string \<Rightarrow> string" where
  "fold_name [] = []"
| "fold_name (c # cs) =
     (if ord c = 197 \<and> cs \<noteq> [] \<and> ord (hd cs) = 191 then CHR ''S'' # fold_name (tl cs)
      else if ord c = 226 \<and> 2 \<le> length cs \<and> ord (cs ! 0) = 132 \<and> ord (cs ! 1) = 170 then CHR ''K'' # fold_name (drop 2 cs)
      else upper_char c # fold_name cs)"

text \<open>The texts assigned to a struct field, in order: every member whose name folds to the field's.\<close>

definition field_values :: "string \<Rightarrow> (string \<times> string) list \<Rightarrow> string list" where
  "field_values name kvs = map snd (filter (\<lambda>(k, _). fold_name k = fold_name name) kvs)"

text \<open>A \<open>string\<close> field: a string sets it, \<open>null\<close> leaves it, any other value is an error that does not stop the decoding.\<close>

fun str_field :: "string \<Rightarrow> string list \<Rightarrow> string \<times> bool" where
  "str_field cur [] = (cur, True)"
| "str_field cur (v # vs) =
     (case shape v of
        Some (SStr t) \<Rightarrow> str_field t vs
      | Some SNull \<Rightarrow> str_field cur vs
      | _ \<Rightarrow> (fst (str_field cur vs), False))"

text \<open>A \<open>json.RawMessage\<close> field: the last text, \<open>null\<close> included.\<close>

definition raw_field :: "string list \<Rightarrow> string option" where
  "raw_field vs = (if vs = [] then None else Some (last vs))"

text \<open>Integer literals; a number with a fraction or an exponent, or one beyond 64 bits, does not fit an \<open>int\<close>.\<close>

fun digits_value :: "nat \<Rightarrow> string \<Rightarrow> nat option" where
  "digits_value acc [] = Some acc"
| "digits_value acc (c # cs) = (if is_digit c then digits_value (10 * acc + (ord c - 48)) cs else None)"

definition parse_int :: "string \<Rightarrow> int option" where
  "parse_int s =
     (let neg = (s \<noteq> [] \<and> hd s = CHR ''-''); ds = (if neg then tl s else s) in
      if ds = [] then None
      else case digits_value 0 ds of
        None \<Rightarrow> None
      | Some n \<Rightarrow>
          let v = (if neg then - int n else int n) in
          if - (2 ^ 63) \<le> v \<and> v < 2 ^ 63 then Some v else None)"

fun int_field :: "int \<Rightarrow> string list \<Rightarrow> int \<times> bool" where
  "int_field cur [] = (cur, True)"
| "int_field cur (v # vs) =
     (case shape v of
        Some (SNum t) \<Rightarrow>
          (case parse_int t of Some n \<Rightarrow> int_field n vs | None \<Rightarrow> (fst (int_field cur vs), False))
      | Some SNull \<Rightarrow> int_field cur vs
      | _ \<Rightarrow> (fst (int_field cur vs), False))"

text \<open>
  A Go map of raw messages, as the list of its entries; a later member of the same name replaces the
  earlier one. \<open>null\<close> decodes to the nil map.
\<close>

fun map_put :: "string \<Rightarrow> string \<Rightarrow> (string \<times> string) list \<Rightarrow> (string \<times> string) list" where
  "map_put k v [] = [(k, v)]"
| "map_put k v ((k', v') # m) = (if k = k' then (k, v) # m else (k', v') # map_put k v m)"

definition decode_map :: "string \<Rightarrow> (string \<times> string) list option" where
  "decode_map s =
     (case shape s of
        Some (SObj kvs) \<Rightarrow> Some (fold (\<lambda>(k, v). map_put k v) kvs [])
      | Some SNull \<Rightarrow> Some []
      | _ \<Rightarrow> None)"

definition decode_arr :: "string \<Rightarrow> string list option" where
  "decode_arr s = (case shape s of Some (SArr xs) \<Rightarrow> Some xs | Some SNull \<Rightarrow> Some [] | _ \<Rightarrow> None)"

text \<open>Decoding into a \<open>string\<close> variable that holds the empty string.\<close>

definition decode_str :: "string \<Rightarrow> string option" where
  "decode_str s = (case shape s of Some (SStr t) \<Rightarrow> Some t | Some SNull \<Rightarrow> Some [] | _ \<Rightarrow> None)"

text \<open>Decoding into a struct: the members of the object, none for \<open>null\<close>.\<close>

definition decode_members :: "string \<Rightarrow> (string \<times> string) list option" where
  "decode_members s = (case shape s of Some (SObj kvs) \<Rightarrow> Some kvs | Some SNull \<Rightarrow> Some [] | _ \<Rightarrow> None)"

text \<open>A \<open>[]string\<close> field.\<close>

fun strs_field :: "string list \<Rightarrow> string list \<Rightarrow> string list \<times> bool" where
  "strs_field cur [] = (cur, True)"
| "strs_field cur (v # vs) =
     (case shape v of
        Some (SArr es) \<Rightarrow>
          (if list_all (\<lambda>e. decode_str e \<noteq> None) es then strs_field (map (\<lambda>e. the (decode_str e)) es) vs
           else (fst (strs_field cur vs), False))
      | Some SNull \<Rightarrow> strs_field [] vs
      | _ \<Rightarrow> (fst (strs_field cur vs), False))"

section \<open>Encoding\<close>

definition hex_digit :: "nat \<Rightarrow> char" where
  "hex_digit n = (if n < 10 then byte (48 + n) else byte (87 + n))"

definition u_escape :: "nat \<Rightarrow> string" where
  "u_escape n =
     [backslash, CHR ''u'', hex_digit (n div 4096 mod 16), hex_digit (n div 256 mod 16),
      hex_digit (n div 16 mod 16), hex_digit (n mod 16)]"

definition escape_byte :: "char \<Rightarrow> string" where
  "escape_byte c =
     (let n = ord c in
      if c = quote_ch \<or> c = backslash then [backslash, c]
      else if n = 8 then backslash # ''b'' else if n = 12 then backslash # ''f''
      else if n = 10 then backslash # ''n'' else if n = 13 then backslash # ''r''
      else if n = 9 then backslash # ''t''
      else if n < 32 \<or> c = CHR ''<'' \<or> c = CHR ''>'' \<or> c = CHR ''&'' then u_escape n
      else [c])"

text \<open>The body of an encoded string, with the HTML-sensitive bytes and the line separators escaped.\<close>

function quote_body :: "string \<Rightarrow> string" where
  "quote_body [] = []"
| "quote_body (c # cs) =
     (if ord c < 128 then escape_byte c @ quote_body cs
      else
        let k = utf8_len (c # cs) in
        if k = 0 then u_escape 65533 @ quote_body cs
        else if take 3 (c # cs) = utf8_enc 8232 then u_escape 8232 @ quote_body (drop 2 cs)
        else if take 3 (c # cs) = utf8_enc 8233 then u_escape 8233 @ quote_body (drop 2 cs)
        else c # take (k - 1) cs @ quote_body (drop (k - 1) cs))"
  by pat_completeness auto
termination by (relation "measure length") auto

definition marshal_str :: "string \<Rightarrow> string" where
  "marshal_str s = quote_ch # quote_body s @ [quote_ch]"

text \<open>\<open>jsonEscape\<close>: the encoded string without its quotes.\<close>

definition jsonEscape :: "string \<Rightarrow> string" where
  "jsonEscape s = (let b = marshal_str s in if 2 \<le> length b then take (length b - 2) (drop 1 b) else s)"

datatype compact_state = Outside | InString | Escaped

definition compact_next :: "compact_state \<Rightarrow> char \<Rightarrow> compact_state" where
  "compact_next st c =
     (case st of
        Outside \<Rightarrow> if c = quote_ch then InString else Outside
      | InString \<Rightarrow> if c = quote_ch then Outside else if c = backslash then Escaped else InString
      | Escaped \<Rightarrow> InString)"

text \<open>What the encoder does to an embedded raw message: white space out, HTML-sensitive bytes escaped.\<close>

fun compact :: "compact_state \<Rightarrow> string \<Rightarrow> string" where
  "compact st [] = []"
| "compact st (c # cs) =
     (if st = Outside \<and> is_ws c then compact st cs
      else if c = CHR ''<'' \<or> c = CHR ''>'' \<or> c = CHR ''&'' then u_escape (ord c) @ compact (compact_next st c) cs
      else if ord c = 226 \<and> 2 \<le> length cs \<and> ord (cs ! 0) = 128 \<and> (ord (cs ! 1) = 168 \<or> ord (cs ! 1) = 169)
        then u_escape (8192 + (ord (cs ! 1) - 128)) @ compact st (drop 2 cs)
      else c # compact (compact_next st c) cs)"

fun join_with :: "string \<Rightarrow> string list \<Rightarrow> string" where
  "join_with sep [] = []"
| "join_with sep [x] = x"
| "join_with sep (x # y # ys) = x @ sep @ join_with sep (y # ys)"

definition marshal_arr :: "string list \<Rightarrow> string" where
  "marshal_arr xs = ''['' @ join_with '','' (map (compact Outside) xs) @ '']''"

definition marshal_map :: "(string \<times> string) list \<Rightarrow> string" where
  "marshal_map m =
     ''{'' @ join_with '','' (map (\<lambda>(k, v). marshal_str k @ '':'' @ compact Outside v) (sort_key fst m)) @ ''}''"

section \<open>Lemmas\<close>

lemma map_of_map_put: "map_of (map_put k v m) = (map_of m)(k \<mapsto> v)"
  by (induction m) (auto simp: fun_upd_twist)

lemma map_of_fold_put: "map_of (fold (\<lambda>(k, v). map_put k v) kvs m) = map_of m ++ map_of (rev kvs)"
  by (induction kvs arbitrary: m) (auto simp: map_of_map_put map_add_def fun_eq_iff split: option.splits)

lemma set_map_put_keys: "fst ` set (map_put k v m) = insert k (fst ` set m)"
  by (induction k v m rule: map_put.induct) auto

lemma distinct_map_put: "distinct (map fst m) \<Longrightarrow> distinct (map fst (map_put k v m))"
proof (induction k v m rule: map_put.induct)
  case (2 k v k' v' m)
  then show ?case using set_map_put_keys [of k v m] by (auto simp flip: set_map)
qed simp

lemma decode_map_lookup:
  "shape s = Some (SObj kvs) \<Longrightarrow> \<exists>m. decode_map s = Some m \<and> map_of m = map_of (rev kvs)"
  by (simp add: decode_map_def map_of_fold_put)

text \<open>Texts of examples: a tilde stands for a double quote.\<close>

definition jtext :: "string \<Rightarrow> string" where
  "jtext s = map (\<lambda>c. if c = CHR ''~'' then quote_ch else c) s"

end
