(* ===== verification/Mcp_Protocol.thy ===== *)
theory Mcp_Protocol
  imports Json_Scan
begin

text \<open>
  \<open>internal/mcp/protocol.go\<close>: the JSON-RPC messages of the Model Context Protocol. Identifiers,
  parameters and results are raw texts; \<open>None\<close> is a nil \<open>json.RawMessage\<close>. Decoding follows
  the struct tags: member names match without regard to case, the last match wins, and a member of
  the wrong type makes the decoding fail after the other members are set.
\<close>

record Request =
  rq_JSONRPC :: string
  rq_ID :: "string option"
  rq_Method :: string
  rq_Params :: "string option"

record RPCError =
  er_Code :: int
  er_Message :: string
  er_Data :: "string option"

record Response =
  rs_JSONRPC :: string
  rs_ID :: "string option"
  rs_Result :: "string option"
  rs_Error :: "RPCError option"

record Notification =
  nt_JSONRPC :: string
  nt_Method :: string
  nt_Params :: "string option"

definition ErrCodeParse :: int where "ErrCodeParse = - 32700"
definition ErrCodeInvalidRequest :: int where "ErrCodeInvalidRequest = - 32600"
definition ErrCodeMethodNotFound :: int where "ErrCodeMethodNotFound = - 32601"
definition ErrCodeInvalidParams :: int where "ErrCodeInvalidParams = - 32602"
definition ErrCodeInternal :: int where "ErrCodeInternal = - 32603"

text \<open>\<open>json.Unmarshal\<close> into a \<open>Request\<close>.\<close>

definition decode_request :: "string \<Rightarrow> Request option" where
  "decode_request body =
     (case decode_members body of
        None \<Rightarrow> None
      | Some kvs \<Rightarrow>
          (let (v, ok1) = str_field [] (field_values ''jsonrpc'' kvs);
               (m, ok2) = str_field [] (field_values ''method'' kvs) in
           if ok1 \<and> ok2 then
             Some \<lparr>rq_JSONRPC = v, rq_ID = raw_field (field_values ''id'' kvs), rq_Method = m,
                   rq_Params = raw_field (field_values ''params'' kvs)\<rparr>
           else None))"

text \<open>Into a \<open>Notification\<close>, with the error dropped: what was set before or after it stays.\<close>

definition decode_notification :: "string \<Rightarrow> Notification" where
  "decode_notification body =
     (case decode_members body of
        None \<Rightarrow> \<lparr>nt_JSONRPC = [], nt_Method = [], nt_Params = None\<rparr>
      | Some kvs \<Rightarrow>
          \<lparr>nt_JSONRPC = fst (str_field [] (field_values ''jsonrpc'' kvs)),
           nt_Method = fst (str_field [] (field_values ''method'' kvs)),
           nt_Params = raw_field (field_values ''params'' kvs)\<rparr>)"

text \<open>Into a struct with one string field.\<close>

definition decode_name :: "string \<Rightarrow> string option \<Rightarrow> string option" where
  "decode_name field params =
     (case params of
        None \<Rightarrow> None
      | Some p \<Rightarrow>
          (case decode_members p of
             None \<Rightarrow> None
           | Some kvs \<Rightarrow>
               (case str_field [] (field_values field kvs) of (v, ok) \<Rightarrow> if ok then Some v else None)))"

definition NewErrorResponse :: "string option \<Rightarrow> int \<Rightarrow> string \<Rightarrow> Response" where
  "NewErrorResponse i code message =
     \<lparr>rs_JSONRPC = ''2.0'', rs_ID = i, rs_Result = None,
      rs_Error = Some \<lparr>er_Code = code, er_Message = message, er_Data = None\<rparr>\<rparr>"

text \<open>The constructors take parameters that are already encoded.\<close>

definition NewRequest :: "string option \<Rightarrow> string \<Rightarrow> string option \<Rightarrow> Request" where
  "NewRequest i method params = \<lparr>rq_JSONRPC = ''2.0'', rq_ID = i, rq_Method = method, rq_Params = params\<rparr>"

definition NewResponse :: "string option \<Rightarrow> string \<Rightarrow> Response" where
  "NewResponse i result = \<lparr>rs_JSONRPC = ''2.0'', rs_ID = i, rs_Result = Some result, rs_Error = None\<rparr>"

section \<open>Encoding\<close>

fun show_nat_aux :: "nat \<Rightarrow> nat \<Rightarrow> string \<Rightarrow> string" where
  "show_nat_aux 0 n acc = acc"
| "show_nat_aux (Suc k) n acc =
     (if n < 10 then byte (48 + n) # acc else show_nat_aux k (n div 10) (byte (48 + n mod 10) # acc))"

definition show_nat :: "nat \<Rightarrow> string" where
  "show_nat n = show_nat_aux (Suc n) n []"

definition show_int :: "int \<Rightarrow> string" where
  "show_int i = (if i < 0 then ''-'' @ show_nat (nat (- i)) else show_nat (nat i))"

text \<open>A raw field with \<open>omitempty\<close>: left out when empty; text that is not JSON makes the encoder fail.\<close>

definition raw_member :: "string \<Rightarrow> string option \<Rightarrow> string list option" where
  "raw_member name raw =
     (case raw of
        None \<Rightarrow> Some []
      | Some t \<Rightarrow>
          if t = [] then Some []
          else if shape t = None then None
          else Some [marshal_str name @ '':'' @ compact Outside t])"

definition encode_error :: "RPCError \<Rightarrow> string option" where
  "encode_error e =
     map_option (\<lambda>d. ''{'' @ join_with '','' ([marshal_str ''code'' @ '':'' @ show_int (er_Code e),
         marshal_str ''message'' @ '':'' @ marshal_str (er_Message e)] @ d) @ ''}'')
       (raw_member ''data'' (er_Data e))"

definition encode_response :: "Response \<Rightarrow> string option" where
  "encode_response r =
     (case (raw_member ''id'' (rs_ID r), raw_member ''result'' (rs_Result r),
            case rs_Error r of None \<Rightarrow> Some []
            | Some e \<Rightarrow> map_option (\<lambda>t. [marshal_str ''error'' @ '':'' @ t]) (encode_error e)) of
        (Some i, Some res, Some err) \<Rightarrow>
          Some (''{'' @ join_with '','' ([marshal_str ''jsonrpc'' @ '':'' @ marshal_str (rs_JSONRPC r)] @ i @ res @ err) @ ''}'')
      | _ \<Rightarrow> None)"

definition encode_request :: "Request \<Rightarrow> string option" where
  "encode_request r =
     (case (raw_member ''id'' (rq_ID r), raw_member ''params'' (rq_Params r)) of
        (Some i, Some ps) \<Rightarrow>
          Some (''{'' @ join_with '','' ([marshal_str ''jsonrpc'' @ '':'' @ marshal_str (rq_JSONRPC r)] @ i @
            [marshal_str ''method'' @ '':'' @ marshal_str (rq_Method r)] @ ps) @ ''}'')
      | _ \<Rightarrow> None)"

lemma NewErrorResponse_simps [simp]:
  "rs_Error (NewErrorResponse i c m) = Some \<lparr>er_Code = c, er_Message = m, er_Data = None\<rparr>"
  "rs_ID (NewErrorResponse i c m) = i" "rs_Result (NewErrorResponse i c m) = None"
  "rs_JSONRPC (NewErrorResponse i c m) = ''2.0''"
  by (simp_all add: NewErrorResponse_def)

end
