(* ===== verification/Json_Roundtrip.thy ===== *)
theory Json_Roundtrip
  imports Json_Scan
begin

text \<open>
  The string encoder of \<open>Json_Scan\<close> against its scanner: an encoded string is one string token
  whatever bytes it encodes, decodes to the text itself when that is UTF-8, and is at most six times
  as long. \<open>jsonEscape\<close> (\<open>internal/middleware/sizer.go\<close>) rests on the first fact.
\<close>

section \<open>Bytes\<close>

lemma ord_byte [simp]: "n < 256 \<Longrightarrow> ord (byte n) = n"
  by (simp add: ord_def byte_def)

lemma byte_ord [simp]: "byte (ord c) = c"
  by (simp add: ord_def byte_def)

lemma ord_less [simp]: "ord c < 256"
  by (cases c) (simp add: ord_def)

lemma ord_inject: "ord c = ord d \<longleftrightarrow> c = d"
  by (simp add: ord_def)

lemma char_eq_ord: "c = d \<longleftrightarrow> ord c = ord d"
  by (simp add: ord_inject)

lemma ord_special [simp]: "ord quote_ch = 34" "ord backslash = 92"
  by (simp_all add: quote_ch_def backslash_def)

lemma ord_letters [simp]:
  "ord CHR ''u'' = 117" "ord CHR ''b'' = 98" "ord CHR ''f'' = 102" "ord CHR ''n'' = 110" "ord CHR ''r'' = 114"
  "ord CHR ''t'' = 116" "ord CHR ''/'' = 47" "ord CHR ''<'' = 60" "ord CHR ''>'' = 62" "ord CHR ''&'' = 38"
  by (simp_all add: ord_def)

lemma hexval_hex_digit [simp]: "n < 16 \<Longrightarrow> hexval (hex_digit n) = Some n"
  by (auto simp: hexval_def hex_digit_def Let_def)

lemma getu4_hex:
  "a < 16 \<Longrightarrow> b < 16 \<Longrightarrow> c < 16 \<Longrightarrow> d < 16 \<Longrightarrow>
     getu4 (hex_digit a) (hex_digit b) (hex_digit c) (hex_digit d) = Some (((a * 16 + b) * 16 + c) * 16 + d)"
  by (simp add: getu4_def)

lemma getu4_u_escape:
  assumes "n < 65536"
  shows "getu4 (hex_digit (n div 4096 mod 16)) (hex_digit (n div 256 mod 16)) (hex_digit (n div 16 mod 16))
    (hex_digit (n mod 16)) = Some n"
proof -
  have *: "n div 256 = n div 16 div 16" "n div 4096 = n div 16 div 16 div 16" by (simp_all add: div_mult2_eq [symmetric])
  have "n div 4096 mod 16 = n div 16 div 16 div 16" using assms by (simp add: * (2) [symmetric])
  then have "((n div 4096 mod 16 * 16 + n div 256 mod 16) * 16 + n div 16 mod 16) * 16 + n mod 16 = n"
    unfolding * by (simp only: div_mult_mod_eq)
  then show ?thesis by (simp only: getu4_hex mod_less_divisor zero_less_numeral)
qed

section \<open>Tokens\<close>

lemma scan_u_escape: "n < 65536 \<Longrightarrow>
    scan_str (u_escape n @ t) = map_option (\<lambda>(b, r). (u_escape n @ b, r)) (scan_str t)"
  using getu4_u_escape [of n] by (simp add: u_escape_def char_eq_ord case_prod_beta)

lemma scan_plain: "c \<noteq> quote_ch \<Longrightarrow> c \<noteq> backslash \<Longrightarrow> 32 \<le> ord c \<Longrightarrow>
    scan_str (c # t) = map_option (\<lambda>(b, r). (c # b, r)) (scan_str t)"
  by simp

lemma scan_escape_byte:
  "scan_str (escape_byte c @ t) = map_option (\<lambda>(b, r). (escape_byte c @ b, r)) (scan_str t)"
proof -
  consider "c = quote_ch \<or> c = backslash" | "ord c \<in> {8, 12, 10, 13, 9}"
    | "c \<noteq> quote_ch" "c \<noteq> backslash" "ord c \<notin> {8, 12, 10, 13, 9}" "ord c < 32 \<or> c = CHR ''<'' \<or> c = CHR ''>'' \<or> c = CHR ''&''"
    | "c \<noteq> quote_ch" "c \<noteq> backslash" "32 \<le> ord c" "c \<noteq> CHR ''<''" "c \<noteq> CHR ''>''" "c \<noteq> CHR ''&''"
    by fastforce
  then show ?thesis
  proof cases
    case 1
    then show ?thesis by (auto simp: escape_byte_def char_eq_ord)
  next
    case 2
    then show ?thesis by (auto simp: escape_byte_def Let_def char_eq_ord)
  next
    case 3
    have "ord c < 65536" using ord_less [of c] by linarith
    moreover have "escape_byte c = u_escape (ord c)" using 3 by (simp add: escape_byte_def Let_def)
    ultimately show ?thesis by (simp add: scan_u_escape)
  next
    case 4
    then have "escape_byte c = [c]" by (simp add: escape_byte_def Let_def)
    with 4 show ?thesis by simp
  qed
qed

lemma scan_high: "list_all (\<lambda>c. 128 \<le> ord c) p \<Longrightarrow>
    scan_str (p @ t) = map_option (\<lambda>(b, r). (p @ b, r)) (scan_str t)"
proof (induction p)
  case Nil
  then show ?case by (simp add: case_prod_beta option.map_ident)
next
  case (Cons c p)
  then have "c \<noteq> quote_ch" "c \<noteq> backslash" "32 \<le> ord c" by (auto simp: char_eq_ord)
  with Cons show ?case by (simp add: option.map_comp comp_def case_prod_beta)
qed

lemma utf8_len_high:
  assumes "utf8_len (c # cs) = k" "128 \<le> ord c" "k \<noteq> 0"
  shows "list_all (\<lambda>c. 128 \<le> ord c) (c # take (k - 1) cs)" "k - 1 \<le> length cs"
  using assms by (auto simp: Let_def is_cont_def split: if_splits list.splits)

theorem scan_quoted: "scan_str (quote_body s @ quote_ch # r) = Some (quote_body s, r)"
proof (induction s rule: quote_body.induct)
  case 1
  then show ?case by simp
next
  case (2 c cs)
  let ?k = "utf8_len (c # cs)"
  consider (ascii) "ord c < 128" | (bad) "128 \<le> ord c" "?k = 0"
    | (ls) "128 \<le> ord c" "?k \<noteq> 0" "take 3 (c # cs) = utf8_enc 8232"
    | (ps) "128 \<le> ord c" "?k \<noteq> 0" "take 3 (c # cs) \<noteq> utf8_enc 8232" "take 3 (c # cs) = utf8_enc 8233"
    | (rune) "128 \<le> ord c" "?k \<noteq> 0" "take 3 (c # cs) \<noteq> utf8_enc 8232" "take 3 (c # cs) \<noteq> utf8_enc 8233"
    by linarith
  then show ?case
  proof cases
    case ascii
    with 2(1) show ?thesis by (simp add: scan_escape_byte del: scan_str.simps utf8_len.simps)
  next
    case bad
    with 2(2) show ?thesis by (simp add: scan_u_escape del: scan_str.simps utf8_len.simps)
  next
    case ls
    with 2(3) show ?thesis by (simp add: scan_u_escape del: scan_str.simps utf8_len.simps take_Suc_Cons)
  next
    case ps
    with 2(4) show ?thesis by (simp add: scan_u_escape del: scan_str.simps utf8_len.simps)
  next
    case rune
    with 2(5) scan_high [OF utf8_len_high(1) [OF refl rune(1,2)]] show ?thesis
      by (simp add: Let_def del: scan_str.simps utf8_len.simps)
  qed
qed

section \<open>Decoding gives the text back\<close>

text \<open>Valid UTF-8, as \<open>utf8.ValidString\<close> has it.\<close>

function utf8_valid :: "string \<Rightarrow> bool" where
  "utf8_valid [] = True"
| "utf8_valid (c # cs) = (utf8_len (c # cs) \<noteq> 0 \<and> utf8_valid (drop (utf8_len (c # cs) - 1) cs))"
  by pat_completeness auto
termination by (relation "measure length") auto

lemma utf8_len_append:
  "utf8_len (c # cs) = k \<Longrightarrow> k \<noteq> 0 \<Longrightarrow> utf8_len (c # take (k - 1) cs @ t) = k"
  by (auto simp: Let_def split: if_splits list.splits)

lemma unquote_u_escape:
  "n < 65536 \<Longrightarrow> \<not> (55296 \<le> n \<and> n < 57344) \<Longrightarrow> unquote (u_escape n @ t) = utf8_enc n @ unquote t"
proof -
  assume n: "n < 65536" "\<not> (55296 \<le> n \<and> n < 57344)"
  then have "unquote_u n t = (utf8_enc n, 0)" by (simp only: unquote_u_def if_False)
  with getu4_u_escape [OF n(1)] show ?thesis by (simp add: u_escape_def)
qed

lemma unquote_rune:
  assumes "utf8_len (c # cs) = k" "k \<noteq> 0" "c \<noteq> backslash"
  shows "unquote (c # take (k - 1) cs @ t) = c # take (k - 1) cs @ unquote t"
proof -
  from assms(1,2) have "utf8_len (c # take (k - 1) cs @ t) = k" by (rule utf8_len_append)
  moreover have "k - 1 \<le> length cs"
    using assms(1,2) by (auto simp: Let_def split: if_splits list.splits)
  ultimately show ?thesis using assms by (simp del: utf8_len.simps)
qed

lemma unquote_escape_byte: "ord c < 128 \<Longrightarrow> unquote (escape_byte c @ t) = c # unquote t"
proof -
  assume c: "ord c < 128"
  consider "c = quote_ch \<or> c = backslash" | "ord c \<in> {8, 12, 10, 13, 9}"
    | "c \<noteq> quote_ch" "c \<noteq> backslash" "ord c \<notin> {8, 12, 10, 13, 9}" "ord c < 32 \<or> c = CHR ''<'' \<or> c = CHR ''>'' \<or> c = CHR ''&''"
    | "c \<noteq> quote_ch" "c \<noteq> backslash" "32 \<le> ord c" "c \<noteq> CHR ''<''" "c \<noteq> CHR ''>''" "c \<noteq> CHR ''&''"
    by fastforce
  then show ?thesis
  proof cases
    case 1
    then show ?thesis by (auto simp: escape_byte_def escape_value_def char_eq_ord)
  next
    case 2
    then have "escape_value CHR ''b'' = c \<and> ord c = 8 \<or> escape_value CHR ''f'' = c \<and> ord c = 12 \<or>
        escape_value CHR ''n'' = c \<and> ord c = 10 \<or> escape_value CHR ''r'' = c \<and> ord c = 13 \<or> escape_value CHR ''t'' = c \<and> ord c = 9"
      by (auto simp: escape_value_def char_eq_ord)
    then show ?thesis by (auto simp: escape_byte_def Let_def char_eq_ord)
  next
    case 3
    then have "escape_byte c = u_escape (ord c)" by (simp add: escape_byte_def Let_def)
    with c show ?thesis by (simp add: unquote_u_escape utf8_enc_def)
  next
    case 4
    then have "escape_byte c = [c]" by (simp add: escape_byte_def Let_def)
    with 4 c unquote_rune [of c "[]" 1 t] show ?thesis by simp
  qed
qed

lemma utf8_enc_separators:
  "utf8_enc 8232 = [byte 226, byte 128, byte 168]" "utf8_enc 8233 = [byte 226, byte 128, byte 169]"
  by (simp_all add: utf8_enc_def)

lemma three_byte_runes:
  assumes "take 3 (c # cs) = utf8_enc n" "n = 8232 \<or> n = 8233"
  shows "utf8_len (c # cs) = 3 \<and> c # cs = utf8_enc n @ drop 2 cs"
proof -
  from assms have "length (take 3 (c # cs)) = 3" by (auto simp only: utf8_enc_separators) simp_all
  then have "2 \<le> length cs" by simp
  then obtain b d r where cs: "cs = b # d # r" by (metis Suc_le_length_iff numeral_2_eq_2)
  from assms have "c = byte 226" "b = byte 128" "d = byte 168 \<or> d = byte 169" "[c, b, d] = utf8_enc n"
    by (auto simp: cs utf8_enc_separators)
  then show ?thesis by (auto simp: cs is_cont_def)
qed

theorem unquote_quote_body: "utf8_valid s \<Longrightarrow> unquote (quote_body s) = s"
proof (induction s rule: quote_body.induct)
  case 1
  then show ?case by simp
next
  case (2 c cs)
  let ?k = "utf8_len (c # cs)"
  have valid: "?k \<noteq> 0" "utf8_valid (drop (?k - 1) cs)" using 2(6) by simp_all
  consider (ascii) "ord c < 128"
    | (ls) "128 \<le> ord c" "take 3 (c # cs) = utf8_enc 8232"
    | (ps) "128 \<le> ord c" "take 3 (c # cs) \<noteq> utf8_enc 8232" "take 3 (c # cs) = utf8_enc 8233"
    | (rune) "128 \<le> ord c" "take 3 (c # cs) \<noteq> utf8_enc 8232" "take 3 (c # cs) \<noteq> utf8_enc 8233"
    by linarith
  then show ?case
  proof cases
    case ascii
    with 2(1) valid show ?thesis by (simp add: unquote_escape_byte Let_def del: unquote.simps)
  next
    case ls
    with three_byte_runes [of c cs 8232] have "?k = 3" "c # cs = utf8_enc 8232 @ drop 2 cs" by blast+
    moreover from \<open>?k = 3\<close> ls have "quote_body (c # cs) = u_escape 8232 @ quote_body (drop 2 cs)"
      by (simp add: Let_def del: utf8_len.simps)
    moreover from \<open>?k = 3\<close> valid ls 2(3) have "unquote (quote_body (drop 2 cs)) = drop 2 cs"
      by (simp del: utf8_len.simps)
    ultimately show ?thesis by (simp add: unquote_u_escape del: unquote.simps quote_body.simps)
  next
    case ps
    with three_byte_runes [of c cs 8233] have "?k = 3" "c # cs = utf8_enc 8233 @ drop 2 cs" by blast+
    moreover from \<open>?k = 3\<close> ps have "quote_body (c # cs) = u_escape 8233 @ quote_body (drop 2 cs)"
      by (simp add: Let_def del: utf8_len.simps)
    moreover from \<open>?k = 3\<close> valid ps 2(4) have "unquote (quote_body (drop 2 cs)) = drop 2 cs"
      by (simp del: utf8_len.simps)
    ultimately show ?thesis by (simp add: unquote_u_escape del: unquote.simps quote_body.simps)
  next
    case rune
    then have "c \<noteq> backslash" by (auto simp: char_eq_ord)
    with 2(5) valid rune unquote_rune [OF refl valid(1)] show ?thesis
      by (simp add: Let_def del: unquote.simps utf8_len.simps)
  qed
qed

lemma length_escape_byte: "length (escape_byte c) \<le> 6"
  by (simp add: escape_byte_def Let_def u_escape_def)

theorem length_quote_body: "length (quote_body s) \<le> 6 * length s"
proof (induction s rule: quote_body.induct)
  case 1
  then show ?case by simp
next
  case (2 c cs)
  have high: "length (quote_body (drop k cs)) + length (take k cs) \<le> 6 * length cs"
    if "length (quote_body (drop k cs)) \<le> 6 * length (drop k cs)" for k
    using that by (auto simp: min_def)
  have "utf8_enc 8233 \<noteq> utf8_enc 8232" by (simp add: utf8_enc_separators char_eq_ord)
  then show ?case
    using 2(1,2,3,4) length_escape_byte [of c] high [OF 2(5)]
    by (auto simp: Let_def u_escape_def simp del: utf8_len.simps)
qed

lemma jsonEscape_eq: "jsonEscape s = quote_body s"
  by (simp add: jsonEscape_def marshal_str_def Let_def)

lemma quote_body_append_ascii: "list_all (\<lambda>c. ord c < 128) p \<Longrightarrow> quote_body (p @ s) = concat (map escape_byte p) @ quote_body s"
  by (induction p) simp_all

section \<open>Literal texts\<close>

definition plain :: "char \<Rightarrow> bool" where
  "plain c \<longleftrightarrow> 32 \<le> ord c \<and> ord c < 128 \<and> ord c \<notin> {34, 92, 60, 62, 38}"

lemma escape_plain: "list_all plain p \<Longrightarrow> concat (map escape_byte p) = p"
  by (induction p) (auto simp: plain_def escape_byte_def Let_def char_eq_ord)

lemma quote_body_plain: "list_all plain p \<Longrightarrow> quote_body (p @ s) = p @ quote_body s"
  using quote_body_append_ascii [of p s] escape_plain [of p]
  by (simp add: list_all_iff plain_def)

lemma quote_lit: "quote_ch = CHR 0x22" "backslash = CHR 0x5C"
  by code_simp+

lemma skip_ws_lit [simp]: "skip_ws [] = []" "skip_ws (c # cs) = (if ord c \<in> {32, 9, 10, 13} then skip_ws cs else c # cs)"
  by (auto simp: skip_ws_def is_ws_def)

lemma scan_quoted_lit: "scan_str (quote_body s @ CHR 0x22 # r) = Some (quote_body s, r)"
  using scan_quoted [of s r] by (simp add: quote_lit)

end
