(* ===== verification/Middleware_Pipeline.thy ===== *)
theory Middleware_Pipeline
  imports Mcp_Protocol Json_Roundtrip Relay_DB
begin

text \<open>
  \<open>internal/middleware/middleware.go\<close>, \<open>sizer.go\<close>, \<open>alerter.go\<close>, \<open>sanitizer.go\<close> and
  \<open>archive.go\<close>: the pipeline that inspects and rewrites MCP messages between client and backend.
  A middleware returns the effects it triggers (logged events, webhook calls, archived payloads) next
  to its result, in order. An error of a middleware is its text.

  The \<open>regexp\<close> engine, URL and IP parsing and the NaCl envelope are arguments. \<open>%q\<close> of a
  format string is \<open>go_quote\<close>, exact for ASCII text.
\<close>

record RequestMeta =
  rm_UserID :: string
  rm_ServerID :: string
  rm_ServerName :: string
  rm_Method :: string
  rm_ToolName :: string
  rm_ClientIP :: string
  rm_RequestID :: string

record ArchiveConfig =
  ac_URL :: string
  ac_AuthType :: string
  ac_AuthValue :: string
  ac_APIKeyHeader :: string
  ac_Include :: string
  ac_NaClRecipientKey :: string

datatype mw_effect =
    Event MiddlewareEvent
  | Webhook string string RequestMeta
  | Archived string ArchiveConfig string

type_synonym 'a mw_result = "mw_effect list \<times> (string + 'a)"

record Middleware =
  mw_Name :: string
  mw_ProcessRequest :: "Request \<Rightarrow> RequestMeta \<Rightarrow> Request mw_result"
  mw_ProcessResponse :: "Request \<Rightarrow> Response \<Rightarrow> RequestMeta \<Rightarrow> Response mw_result"

type_synonym Pipeline = "Middleware list"

definition Pipeline_Add :: "Middleware \<Rightarrow> Pipeline \<Rightarrow> Pipeline" where
  "Pipeline_Add m p = p @ [m]"

fun Pipeline_ProcessRequest :: "Pipeline \<Rightarrow> Request \<Rightarrow> RequestMeta \<Rightarrow> Request mw_result" where
  "Pipeline_ProcessRequest [] req meta = ([], Inr req)"
| "Pipeline_ProcessRequest (m # ms) req meta =
     (case mw_ProcessRequest m req meta of
        (es, Inl err) \<Rightarrow> (es, Inl err)
      | (es, Inr req') \<Rightarrow> (case Pipeline_ProcessRequest ms req' meta of (es', r) \<Rightarrow> (es @ es', r)))"

fun process_responses :: "Middleware list \<Rightarrow> Request \<Rightarrow> Response \<Rightarrow> RequestMeta \<Rightarrow> Response mw_result" where
  "process_responses [] req resp meta = ([], Inr resp)"
| "process_responses (m # ms) req resp meta =
     (case mw_ProcessResponse m req resp meta of
        (es, Inl err) \<Rightarrow> (es, Inl err)
      | (es, Inr resp') \<Rightarrow> (case process_responses ms req resp' meta of (es', r) \<Rightarrow> (es @ es', r)))"

definition Pipeline_ProcessResponse :: "Pipeline \<Rightarrow> Request \<Rightarrow> Response \<Rightarrow> RequestMeta \<Rightarrow> Response mw_result" where
  "Pipeline_ProcessResponse p req resp meta = process_responses (rev p) req resp meta"

definition mw_event :: "string \<Rightarrow> string \<Rightarrow> string \<Rightarrow> RequestMeta \<Rightarrow> MiddlewareEvent" where
  "mw_event name eventType summary meta =
     \<lparr>me_ID = [], me_Timestamp = 0, me_ServerID = [], me_Middleware = name, me_EventType = eventType,
      me_Summary = summary, me_RequestMethod = rm_Method meta, me_EndpointName = rm_ToolName meta,
      me_UserID = rm_UserID meta\<rparr>"

section \<open>Content sizer\<close>

record SizerConfig =
  zc_MaxResponseBytes :: int
  zc_Action :: string

record Sizer =
  sz_maxBytes :: int
  sz_action :: string

definition DefaultSizerConfig :: SizerConfig where
  "DefaultSizerConfig = \<lparr>zc_MaxResponseBytes = 500000, zc_Action = ''truncate''\<rparr>"

definition NewSizer :: "SizerConfig \<Rightarrow> Sizer" where
  "NewSizer cfg =
     \<lparr>sz_maxBytes = (if zc_MaxResponseBytes cfg \<le> 0 then 500000 else zc_MaxResponseBytes cfg),
      sz_action = (if zc_Action cfg = [] then ''truncate'' else zc_Action cfg)\<rparr>"

definition decode_sizer_config :: "string \<Rightarrow> SizerConfig option" where
  "decode_sizer_config config =
     (case decode_members config of
        None \<Rightarrow> None
      | Some kvs \<Rightarrow>
          (let (n, ok1) = int_field 0 (field_values ''max_response_bytes'' kvs);
               (a, ok2) = str_field [] (field_values ''action'' kvs) in
           if ok1 \<and> ok2 then Some \<lparr>zc_MaxResponseBytes = n, zc_Action = a\<rparr> else None))"

definition NewSizerFromConfig :: "string \<Rightarrow> Sizer option" where
  "NewSizerFromConfig config =
     (if config \<noteq> [] \<and> config \<noteq> ''{}'' then map_option NewSizer (decode_sizer_config config)
      else Some (NewSizer DefaultSizerConfig))"

definition truncation_message :: "nat \<Rightarrow> int \<Rightarrow> string \<Rightarrow> string" where
  "truncation_message sz maxBytes shown =
     ''{'' @ marshal_str ''content'' @ '':[{'' @ marshal_str ''type'' @ '':'' @ marshal_str ''text'' @ '','' @
     marshal_str ''text'' @ '':'' @ [quote_ch] @ ''[Response truncated: '' @ show_nat sz @ '' bytes exceeded '' @
     show_int maxBytes @ '' byte limit. First '' @ show_int maxBytes @ '' bytes shown.]'' @ [backslash] @ ''n'' @
     jsonEscape shown @ [quote_ch] @ ''}]}''"

definition Sizer_ProcessResponse :: "Sizer \<Rightarrow> Request \<Rightarrow> Response \<Rightarrow> RequestMeta \<Rightarrow> Response mw_result" where
  "Sizer_ProcessResponse s req resp meta =
     (case (rs_Error resp, rs_Result resp) of
        (None, Some result) \<Rightarrow>
          (let sz = length result;
               summary = ''Response size '' @ show_nat sz @ '' bytes exceeds limit '' @ show_int (sz_maxBytes s) @ '' bytes'' in
           if int sz \<le> sz_maxBytes s then ([], Inr resp)
           else if sz_action s = ''block'' then
             ([Event (mw_event ''sizer'' ''blocked'' summary meta)],
              Inr (NewErrorResponse (rs_ID resp) ErrCodeInternal
                (''response too large ('' @ show_nat sz @ '' bytes, limit '' @ show_int (sz_maxBytes s) @ '')'')))
           else if sz_action s = ''truncate'' then
             ([Event (mw_event ''sizer'' ''truncated'' summary meta)],
              Inr \<lparr>rs_JSONRPC = rs_JSONRPC resp, rs_ID = rs_ID resp,
                   rs_Result = Some (truncation_message sz (sz_maxBytes s) (take (nat (sz_maxBytes s)) result)),
                   rs_Error = None\<rparr>)
           else if sz_action s = ''warn'' then
             ([Event (mw_event ''sizer'' ''alert'' summary meta)], Inr resp)
           else ([], Inr resp))
      | _ \<Rightarrow> ([], Inr resp))"

definition sizer_mw :: "Sizer \<Rightarrow> Middleware" where
  "sizer_mw s =
     \<lparr>mw_Name = ''sizer'', mw_ProcessRequest = (\<lambda>req meta. ([], Inr req)),
      mw_ProcessResponse = Sizer_ProcessResponse s\<rparr>"

section \<open>Regular expressions and quoting\<close>

record regexp =
  rx_valid :: "string \<Rightarrow> bool"
  rx_match :: "string \<Rightarrow> string \<Rightarrow> bool"
  rx_replace :: "string \<Rightarrow> string \<Rightarrow> string \<Rightarrow> string"

text \<open>The documented behaviour the sanitizer relies on: a text without a match is replaced by itself.\<close>

definition regexp_ok :: "regexp \<Rightarrow> bool" where
  "regexp_ok rx \<longleftrightarrow> (\<forall>p s t. \<not> rx_match rx p s \<longrightarrow> rx_replace rx p s t = s)"

definition go_quote_byte :: "char \<Rightarrow> string" where
  "go_quote_byte c =
     (let n = ord c in
      if c = quote_ch \<or> c = backslash then [backslash, c]
      else if n = 7 then backslash # ''a'' else if n = 8 then backslash # ''b'' else if n = 12 then backslash # ''f''
      else if n = 10 then backslash # ''n'' else if n = 13 then backslash # ''r'' else if n = 9 then backslash # ''t''
      else if n = 11 then backslash # ''v''
      else if n < 32 \<or> n = 127 then backslash # CHR ''x'' # [hex_digit (n div 16), hex_digit (n mod 16)]
      else [c])"

definition go_quote :: "string \<Rightarrow> string" where
  "go_quote s = quote_ch # concat (map go_quote_byte s) @ [quote_ch]"

section \<open>Sanitizer\<close>

record SanitizePattern =
  sp_Name :: string
  sp_Regex :: string
  sp_Action :: string

type_synonym Sanitizer = "SanitizePattern list"

text \<open>A pattern without an action redacts; one invalid expression rejects the whole configuration.\<close>

definition NewSanitizer :: "regexp \<Rightarrow> SanitizePattern list \<Rightarrow> Sanitizer option" where
  "NewSanitizer rx ps =
     (if list_all (\<lambda>p. rx_valid rx (sp_Regex p)) ps
      then Some (map (\<lambda>p. p\<lparr>sp_Action := (if sp_Action p = [] then ''redact'' else sp_Action p)\<rparr>) ps)
      else None)"

fun sanitize_loop ::
    "regexp \<Rightarrow> SanitizePattern list \<Rightarrow> RequestMeta \<Rightarrow> Response \<Rightarrow> string \<Rightarrow> bool \<Rightarrow> mw_effect list \<times> Response" where
  "sanitize_loop rx [] meta resp result modified =
     ([], if modified then \<lparr>rs_JSONRPC = rs_JSONRPC resp, rs_ID = rs_ID resp, rs_Result = Some result, rs_Error = None\<rparr>
          else resp)"
| "sanitize_loop rx (p # ps) meta resp result modified =
     (if \<not> rx_match rx (sp_Regex p) result then sanitize_loop rx ps meta resp result modified
      else if sp_Action p = ''block'' then
        ([Event (mw_event ''sanitizer'' ''blocked'' (''Response blocked: pattern '' @ go_quote (sp_Name p) @ '' matched'') meta)],
         NewErrorResponse (rs_ID resp) ErrCodeInternal
           (''response blocked by sanitizer: '' @ sp_Name p @ '' pattern detected''))
      else
        let result' = rx_replace rx (sp_Regex p) result ''[REDACTED]'' in
        if result' \<noteq> result then
          (case sanitize_loop rx ps meta resp result' True of
             (es, r) \<Rightarrow> (Event (mw_event ''sanitizer'' ''redacted'' (''Pattern '' @ go_quote (sp_Name p) @ '' redacted from response'') meta) # es, r))
        else sanitize_loop rx ps meta resp result' modified)"

definition Sanitizer_ProcessResponse :: "regexp \<Rightarrow> Sanitizer \<Rightarrow> Request \<Rightarrow> Response \<Rightarrow> RequestMeta \<Rightarrow> Response mw_result" where
  "Sanitizer_ProcessResponse rx s req resp meta =
     (case (rs_Error resp, rs_Result resp) of
        (None, Some result) \<Rightarrow> (case sanitize_loop rx s meta resp result False of (es, r) \<Rightarrow> (es, Inr r))
      | _ \<Rightarrow> ([], Inr resp))"

definition Sanitizer_ScanText :: "regexp \<Rightarrow> Sanitizer \<Rightarrow> string \<Rightarrow> string list" where
  "Sanitizer_ScanText rx s text =
     map (\<lambda>p. sp_Name p @ '' ('' @ sp_Action p @ '')'') (filter (\<lambda>p. rx_match rx (sp_Regex p) text) s)"

fun Sanitizer_RedactText :: "regexp \<Rightarrow> Sanitizer \<Rightarrow> string \<Rightarrow> string" where
  "Sanitizer_RedactText rx [] text = text"
| "Sanitizer_RedactText rx (p # ps) text =
     Sanitizer_RedactText rx ps
       (if sp_Action p = ''redact'' then rx_replace rx (sp_Regex p) text ''[REDACTED]'' else text)"

definition sanitizer_mw :: "regexp \<Rightarrow> Sanitizer \<Rightarrow> Middleware" where
  "sanitizer_mw rx s =
     \<lparr>mw_Name = ''sanitizer'', mw_ProcessRequest = (\<lambda>req meta. ([], Inr req)),
      mw_ProcessResponse = Sanitizer_ProcessResponse rx s\<rparr>"

section \<open>Configurations that hold lists\<close>

text \<open>A slice field: an array sets it, \<open>null\<close> clears it, anything else is an error.\<close>

fun list_field :: "(string \<Rightarrow> 'a \<times> bool) \<Rightarrow> 'a list \<Rightarrow> string list \<Rightarrow> 'a list \<times> bool" where
  "list_field dec cur [] = (cur, True)"
| "list_field dec cur (v # vs) =
     (case shape v of
        Some (SArr xs) \<Rightarrow>
          (let (r, ok) = list_field dec (map (\<lambda>x. fst (dec x)) xs) vs in (r, ok \<and> list_all (\<lambda>x. snd (dec x)) xs))
      | Some SNull \<Rightarrow> list_field dec [] vs
      | _ \<Rightarrow> (fst (list_field dec cur vs), False))"

definition decode_pattern :: "string \<Rightarrow> SanitizePattern \<times> bool" where
  "decode_pattern v =
     (case decode_members v of
        None \<Rightarrow> (\<lparr>sp_Name = [], sp_Regex = [], sp_Action = []\<rparr>, False)
      | Some kvs \<Rightarrow>
          (let (n, ok1) = str_field [] (field_values ''name'' kvs);
               (r, ok2) = str_field [] (field_values ''regex'' kvs);
               (a, ok3) = str_field [] (field_values ''action'' kvs) in
           (\<lparr>sp_Name = n, sp_Regex = r, sp_Action = a\<rparr>, ok1 \<and> ok2 \<and> ok3)))"

text \<open>A tilde stands for a backslash in the texts below.\<close>

definition re_text :: "string \<Rightarrow> string" where
  "re_text s = map (\<lambda>c. if c = CHR ''~'' then backslash else c) s"

definition DefaultSanitizerConfig :: "SanitizePattern list" where
  "DefaultSanitizerConfig =
     [\<lparr>sp_Name = ''api_key'',
       sp_Regex = re_text ''(?i)(api[_-]?key|secret[_-]?key|access[_-]?token|private[_-]?key)~s*[=:]~s*~S+'', sp_Action = ''redact''\<rparr>,
      \<lparr>sp_Name = ''password'', sp_Regex = re_text ''(?i)(password|passwd|pwd)~s*[=:]~s*~S+'', sp_Action = ''redact''\<rparr>,
      \<lparr>sp_Name = ''ssn'', sp_Regex = re_text ''~b~d{3}-~d{2}-~d{4}~b'', sp_Action = ''redact''\<rparr>,
      \<lparr>sp_Name = ''credit_card'', sp_Regex = re_text ''~b~d{4}[~s-]?~d{4}[~s-]?~d{4}[~s-]?~d{4}~b'', sp_Action = ''block''\<rparr>]"

definition NewSanitizerFromConfig :: "regexp \<Rightarrow> string \<Rightarrow> Sanitizer option" where
  "NewSanitizerFromConfig rx config =
     (if config \<noteq> [] \<and> config \<noteq> ''{}'' then
        (case decode_members config of
           None \<Rightarrow> None
         | Some kvs \<Rightarrow>
             (case list_field decode_pattern [] (field_values ''patterns'' kvs) of
                (ps, ok) \<Rightarrow> if ok then NewSanitizer rx ps else None))
      else NewSanitizer rx DefaultSanitizerConfig)"

section \<open>Alerter\<close>

record AlertRule =
  ar_Name :: string
  ar_Match :: string
  ar_MatchSize :: int
  ar_Direction :: string
  ar_Action :: string
  ar_WebhookURL :: string

definition DefaultAlerterConfig :: "AlertRule list" where
  "DefaultAlerterConfig =
     [\<lparr>ar_Name = ''production_access'', ar_Match = ''(?i)(production|prod[_-]db|master[_-]password)'', ar_MatchSize = 0,
       ar_Direction = ''request'', ar_Action = ''log'', ar_WebhookURL = []\<rparr>,
      \<lparr>ar_Name = ''large_response'', ar_Match = [], ar_MatchSize = 100000,
       ar_Direction = ''response'', ar_Action = ''log'', ar_WebhookURL = []\<rparr>]"

text \<open>Compiled rules: the expression of a rule is present when \<open>ar_Match\<close> is not empty.\<close>

type_synonym Alerter = "AlertRule list"

definition NewAlerter :: "regexp \<Rightarrow> AlertRule list \<Rightarrow> Alerter option" where
  "NewAlerter rx rules =
     (if list_all (\<lambda>r. ar_Match r \<noteq> [] \<longrightarrow> rx_valid rx (ar_Match r)) rules
      then Some (map (\<lambda>r. r\<lparr>ar_Direction := (if ar_Direction r = [] then ''both'' else ar_Direction r),
                            ar_Action := (if ar_Action r = [] then ''log'' else ar_Action r)\<rparr>) rules)
      else None)"

definition decode_rule :: "string \<Rightarrow> AlertRule \<times> bool" where
  "decode_rule v =
     (case decode_members v of
        None \<Rightarrow> (\<lparr>ar_Name = [], ar_Match = [], ar_MatchSize = 0, ar_Direction = [], ar_Action = [], ar_WebhookURL = []\<rparr>, False)
      | Some kvs \<Rightarrow>
          (let (n, ok1) = str_field [] (field_values ''name'' kvs);
               (m, ok2) = str_field [] (field_values ''match'' kvs);
               (z, ok3) = int_field 0 (field_values ''match_size'' kvs);
               (d, ok4) = str_field [] (field_values ''direction'' kvs);
               (a, ok5) = str_field [] (field_values ''action'' kvs);
               (w, ok6) = str_field [] (field_values ''webhook_url'' kvs) in
           (\<lparr>ar_Name = n, ar_Match = m, ar_MatchSize = z, ar_Direction = d, ar_Action = a, ar_WebhookURL = w\<rparr>,
            ok1 \<and> ok2 \<and> ok3 \<and> ok4 \<and> ok5 \<and> ok6)))"

definition NewAlerterFromConfig :: "regexp \<Rightarrow> string \<Rightarrow> Alerter option" where
  "NewAlerterFromConfig rx config =
     (if config \<noteq> [] \<and> config \<noteq> ''{}'' then
        (case decode_members config of
           None \<Rightarrow> None
         | Some kvs \<Rightarrow>
             (case list_field decode_rule [] (field_values ''rules'' kvs) of
                (rs, ok) \<Rightarrow> if ok then NewAlerter rx rs else None))
      else NewAlerter rx DefaultAlerterConfig)"

definition fireAlert :: "AlertRule \<Rightarrow> RequestMeta \<Rightarrow> string \<Rightarrow> mw_effect list" where
  "fireAlert r meta summary =
     Event (mw_event ''alerter'' ''alert'' summary meta) #
     (if ar_Action r = ''webhook'' \<and> ar_WebhookURL r \<noteq> [] then [Webhook (ar_WebhookURL r) summary meta] else [])"

definition raw_text :: "string option \<Rightarrow> string" where
  "raw_text r = (case r of None \<Rightarrow> [] | Some t \<Rightarrow> t)"

definition Alerter_ProcessRequest :: "regexp \<Rightarrow> Alerter \<Rightarrow> Request \<Rightarrow> RequestMeta \<Rightarrow> Request mw_result" where
  "Alerter_ProcessRequest rx a req meta =
     (concat (map (\<lambda>r.
        if ar_Direction r \<noteq> ''request'' \<and> ar_Direction r \<noteq> ''both'' then []
        else if ar_Match r \<noteq> [] \<and> rx_match rx (ar_Match r) (raw_text (rq_Params req)) then
          fireAlert r meta (''Alert rule '' @ go_quote (ar_Name r) @ '' matched in request: '' @ rm_Method meta @ '' '' @ rm_ToolName meta)
        else []) a), Inr req)"

definition Alerter_ProcessResponse :: "regexp \<Rightarrow> Alerter \<Rightarrow> Request \<Rightarrow> Response \<Rightarrow> RequestMeta \<Rightarrow> Response mw_result" where
  "Alerter_ProcessResponse rx a req resp meta =
     (case (rs_Error resp, rs_Result resp) of
        (None, Some text) \<Rightarrow>
          (concat (map (\<lambda>r.
             if ar_Direction r \<noteq> ''response'' \<and> ar_Direction r \<noteq> ''both'' then []
             else if (ar_Match r \<noteq> [] \<and> rx_match rx (ar_Match r) text) \<or>
                     (0 < ar_MatchSize r \<and> ar_MatchSize r < int (length text)) then
               fireAlert r meta (''Alert rule '' @ go_quote (ar_Name r) @ '' matched in response: '' @ rm_Method meta @ '' '' @
                 rm_ToolName meta @ '' (size='' @ show_nat (length text) @ '')'')
             else []) a), Inr resp)
      | _ \<Rightarrow> ([], Inr resp))"

definition alerter_mw :: "regexp \<Rightarrow> Alerter \<Rightarrow> Middleware" where
  "alerter_mw rx a =
     \<lparr>mw_Name = ''alerter'', mw_ProcessRequest = Alerter_ProcessRequest rx a,
      mw_ProcessResponse = Alerter_ProcessResponse rx a\<rparr>"

text \<open>The body a webhook call posts.\<close>

definition sendWebhook_body :: "string \<Rightarrow> RequestMeta \<Rightarrow> string" where
  "sendWebhook_body summary meta =
     marshal_map [(''text'', marshal_str summary), (''server'', marshal_str (rm_ServerName meta)),
       (''method'', marshal_str (rm_Method meta)), (''tool'', marshal_str (rm_ToolName meta)),
       (''user'', marshal_str (rm_UserID meta)), (''request_id'', marshal_str (rm_RequestID meta))]"

section \<open>Archive\<close>

definition DefaultArchiveConfig :: ArchiveConfig where
  "DefaultArchiveConfig = \<lparr>ac_URL = [], ac_AuthType = [], ac_AuthValue = [], ac_APIKeyHeader = [],
     ac_Include = ''both'', ac_NaClRecipientKey = []\<rparr>"

definition decode_archive_config :: "string \<Rightarrow> ArchiveConfig option" where
  "decode_archive_config config =
     (case decode_members config of
        None \<Rightarrow> None
      | Some kvs \<Rightarrow>
          (let (u, ok1) = str_field [] (field_values ''url'' kvs);
               (t, ok2) = str_field [] (field_values ''auth_type'' kvs);
               (v, ok3) = str_field [] (field_values ''auth_value'' kvs);
               (h, ok4) = str_field [] (field_values ''api_key_header'' kvs);
               (i, ok5) = str_field [] (field_values ''include'' kvs);
               (k, ok6) = str_field [] (field_values ''nacl_recipient_key'' kvs) in
           if ok1 \<and> ok2 \<and> ok3 \<and> ok4 \<and> ok5 \<and> ok6 then
             Some \<lparr>ac_URL = u, ac_AuthType = t, ac_AuthValue = v, ac_APIKeyHeader = h, ac_Include = i,
                   ac_NaClRecipientKey = k\<rparr>
           else None))"

definition ParseArchiveConfig :: "string \<Rightarrow> ArchiveConfig option" where
  "ParseArchiveConfig config =
     map_option (\<lambda>cfg. cfg\<lparr>ac_Include := (if ac_Include cfg = [] then ''both'' else ac_Include cfg),
         ac_APIKeyHeader := (if ac_APIKeyHeader cfg = [] then ''X-API-Key'' else ac_APIKeyHeader cfg)\<rparr>)
       (if config \<noteq> [] \<and> config \<noteq> ''{}'' then decode_archive_config config else Some DefaultArchiveConfig)"

text \<open>
  \<open>net/url\<close>, \<open>net.ParseIP\<close> and the base64 key decoder: scheme and host name of a URL, whether
  a host is an IP literal and then whether it is a loopback address, the decoded key. \<open>seal\<close> is
  the NaCl envelope for a recipient key.
\<close>

record archive_env =
  ae_url_parse :: "string \<Rightarrow> (string \<times> string) option"
  ae_ip_loopback :: "string \<Rightarrow> bool option"
  ae_decode_key :: "string \<Rightarrow> string option"
  ae_seal :: "string \<Rightarrow> string \<Rightarrow> string option"
  ae_timestamp :: string
  ae_dispatch :: "string \<Rightarrow> ArchiveConfig \<Rightarrow> string \<Rightarrow> string option"

definition isLoopbackHost :: "archive_env \<Rightarrow> string \<Rightarrow> bool" where
  "isLoopbackHost env host =
     (if host = ''localhost'' then True
      else case ae_ip_loopback env host of Some b \<Rightarrow> b | None \<Rightarrow> False)"

text \<open>\<open>Inr None\<close>: valid, not encrypted; \<open>Inr (Some k)\<close>: valid, encrypted for \<open>k\<close>.\<close>

definition ValidateArchiveConfig :: "archive_env \<Rightarrow> ArchiveConfig \<Rightarrow> string + string option" where
  "ValidateArchiveConfig env cfg =
     (if ac_URL cfg = [] then Inl ''archive: url is required''
      else case ae_url_parse env (ac_URL cfg) of
        None \<Rightarrow> Inl ''archive: url is not parseable''
      | Some (scheme, host) \<Rightarrow>
          if scheme \<noteq> ''https'' \<and> scheme \<noteq> ''http'' then Inl (''archive: url must use http or https, got '' @ go_quote scheme)
          else if scheme = ''http'' \<and> \<not> isLoopbackHost env host then
            Inl ''archive: url must use https (plain http allowed only for localhost)''
          else if ac_AuthType cfg \<in> {''bearer'', ''api_key''} \<and> ac_AuthValue cfg = [] then
            Inl (''archive: auth_value is required when auth_type is '' @ ac_AuthType cfg)
          else if ac_AuthType cfg \<notin> {[], ''none'', ''bearer'', ''api_key''} then
            Inl (''archive: auth_type must be none/bearer/api_key, got '' @ go_quote (ac_AuthType cfg))
          else if ac_Include cfg \<notin> {[], ''request'', ''response'', ''both''} then
            Inl (''archive: include must be request/response/both, got '' @ go_quote (ac_Include cfg))
          else if ac_NaClRecipientKey cfg = [] then Inr None
          else (case ae_decode_key env (ac_NaClRecipientKey cfg) of
            None \<Rightarrow> Inl ''archive: invalid nacl_recipient_key''
          | Some k \<Rightarrow> Inr (Some k)))"

record Archive =
  av_cfg :: ArchiveConfig
  av_recipientKey :: "string option"

definition NewArchiveFromConfig :: "archive_env \<Rightarrow> bool \<Rightarrow> string \<Rightarrow> Archive option" where
  "NewArchiveFromConfig env has_dispatcher config =
     (case ParseArchiveConfig config of
        None \<Rightarrow> None
      | Some cfg \<Rightarrow>
          (case ValidateArchiveConfig env cfg of
             Inl _ \<Rightarrow> None
           | Inr key \<Rightarrow> if \<not> has_dispatcher then None else Some \<lparr>av_cfg = cfg, av_recipientKey = key\<rparr>))"

definition archive_meta :: "RequestMeta \<Rightarrow> string" where
  "archive_meta m =
     ''{'' @ join_with '','' (map (\<lambda>(k, v). marshal_str k @ '':'' @ marshal_str v)
       [(''server_id'', rm_ServerID m), (''server_name'', rm_ServerName m), (''user_id'', rm_UserID m),
        (''client_ip'', rm_ClientIP m), (''method'', rm_Method m), (''tool_name'', rm_ToolName m),
        (''request_id'', rm_RequestID m)]) @ ''}''"

text \<open>A payload that cannot be encoded is empty (the error is dropped).\<close>

definition buildPayload :: "archive_env \<Rightarrow> string \<Rightarrow> RequestMeta \<Rightarrow> string option \<Rightarrow> string option \<Rightarrow> string" where
  "buildPayload env phase meta reqJSON respJSON =
     (case (raw_member ''request'' reqJSON, raw_member ''response'' respJSON) of
        (Some rq, Some rs) \<Rightarrow>
          ''{'' @ join_with '','' ([marshal_str ''version'' @ '':'' @ marshal_str ''v1'',
            marshal_str ''source'' @ '':'' @ marshal_str ''arc_relay'',
            marshal_str ''phase'' @ '':'' @ marshal_str phase,
            marshal_str ''timestamp'' @ '':'' @ marshal_str (ae_timestamp env),
            marshal_str ''meta'' @ '':'' @ archive_meta meta] @ rq @ rs) @ ''}''
      | _ \<Rightarrow> [])"

definition archive_error_event :: "string \<Rightarrow> MiddlewareEvent" where
  "archive_error_event summary =
     \<lparr>me_ID = [], me_Timestamp = 0, me_ServerID = [], me_Middleware = ''archive'', me_EventType = ''error'',
      me_Summary = summary, me_RequestMethod = [], me_EndpointName = [], me_UserID = []\<rparr>"

definition Archive_enqueue :: "archive_env \<Rightarrow> Archive \<Rightarrow> string \<Rightarrow> RequestMeta \<Rightarrow> mw_effect list" where
  "Archive_enqueue env a body meta =
     (case (case av_recipientKey a of None \<Rightarrow> Some body | Some k \<Rightarrow> ae_seal env k body) of
        None \<Rightarrow> [Event (archive_error_event ''archive payload dropped: envelope encryption failed'')]
      | Some payload \<Rightarrow>
          (case ae_dispatch env payload (av_cfg a) (rm_ServerID meta) of
             None \<Rightarrow> [Archived payload (av_cfg a) (rm_ServerID meta)]
           | Some err \<Rightarrow> [Event (archive_error_event (''failed to enqueue archive payload: '' @ err))]))"

definition Archive_ProcessRequest :: "archive_env \<Rightarrow> Archive \<Rightarrow> Request \<Rightarrow> RequestMeta \<Rightarrow> Request mw_result" where
  "Archive_ProcessRequest env a req meta =
     (if ac_Include (av_cfg a) \<noteq> ''request'' then ([], Inr req)
      else (Archive_enqueue env a (buildPayload env ''request'' meta (encode_request req) None) meta, Inr req))"

definition Archive_ProcessResponse :: "archive_env \<Rightarrow> Archive \<Rightarrow> Request \<Rightarrow> Response \<Rightarrow> RequestMeta \<Rightarrow> Response mw_result" where
  "Archive_ProcessResponse env a req resp meta =
     (if ac_Include (av_cfg a) = ''request'' then ([], Inr resp)
      else
        let reqJSON = (if ac_Include (av_cfg a) = ''both'' then encode_request req else None);
            phase = (if ac_Include (av_cfg a) = ''both'' then ''exchange'' else ''response'') in
        (Archive_enqueue env a (buildPayload env phase meta reqJSON (encode_response resp)) meta, Inr resp))"

definition archive_mw :: "archive_env \<Rightarrow> Archive \<Rightarrow> Middleware" where
  "archive_mw env a =
     \<lparr>mw_Name = ''archive'', mw_ProcessRequest = Archive_ProcessRequest env a,
      mw_ProcessResponse = Archive_ProcessResponse env a\<rparr>"

section \<open>Observers\<close>

text \<open>The contract of a middleware that watches and never interferes.\<close>

locale observer =
  fixes m :: Middleware
  assumes request_kept: "snd (mw_ProcessRequest m req meta) = Inr req"
    and response_kept: "snd (mw_ProcessResponse m req resp meta) = Inr resp"
begin

lemma request_run: "\<exists>es. mw_ProcessRequest m req meta = (es, Inr req)"
  using request_kept [of req meta] by (cases "mw_ProcessRequest m req meta") simp

lemma response_run: "\<exists>es. mw_ProcessResponse m req resp meta = (es, Inr resp)"
  using response_kept [of req resp meta] by (cases "mw_ProcessResponse m req resp meta") simp

lemma request_transparent:
  "snd (Pipeline_ProcessRequest (p @ m # q) req meta) = snd (Pipeline_ProcessRequest (p @ q) req meta)"
proof (induction p arbitrary: req)
  case Nil
  obtain es where "mw_ProcessRequest m req meta = (es, Inr req)" using request_run by blast
  then show ?case by (simp split: prod.split)
next
  case (Cons x p)
  then show ?case by (auto split: prod.splits sum.splits) (metis snd_conv)+
qed

lemma responses_transparent:
  "snd (process_responses (p @ m # q) req resp meta) = snd (process_responses (p @ q) req resp meta)"
proof (induction p arbitrary: resp)
  case Nil
  obtain es where "mw_ProcessResponse m req resp meta = (es, Inr resp)" using response_run by blast
  then show ?case by (simp split: prod.split)
next
  case (Cons x p)
  then show ?case by (auto split: prod.splits sum.splits) (metis snd_conv)+
qed

lemma response_transparent:
  "snd (Pipeline_ProcessResponse (p @ m # q) req resp meta) = snd (Pipeline_ProcessResponse (p @ q) req resp meta)"
  using responses_transparent [of "rev q" "rev p"] by (simp add: Pipeline_ProcessResponse_def)

end

interpretation alerter: observer "alerter_mw rx a" for rx a
  by unfold_locales
    (auto simp: alerter_mw_def Alerter_ProcessRequest_def Alerter_ProcessResponse_def split: option.splits)

interpretation archive: observer "archive_mw env a" for env a
  by unfold_locales
    (auto simp: archive_mw_def Archive_ProcessRequest_def Archive_ProcessResponse_def Let_def)

text \<open>
  C13. The alerter and the archive are observe-only: wherever they stand in a pipeline, the request that
  reaches the backend, the response that reaches the client and the errors are those of the pipeline
  without them.
\<close>

theorem observers_never_interfere:
  "snd (Pipeline_ProcessRequest (p @ alerter_mw rx a # q) req meta) = snd (Pipeline_ProcessRequest (p @ q) req meta) \<and>
   snd (Pipeline_ProcessResponse (p @ alerter_mw rx a # q) req resp meta) = snd (Pipeline_ProcessResponse (p @ q) req resp meta) \<and>
   snd (Pipeline_ProcessRequest (p @ archive_mw env v # q) req meta) = snd (Pipeline_ProcessRequest (p @ q) req meta) \<and>
   snd (Pipeline_ProcessResponse (p @ archive_mw env v # q) req resp meta) = snd (Pipeline_ProcessResponse (p @ q) req resp meta)"
  by (simp add: alerter.request_transparent alerter.response_transparent archive.request_transparent
      archive.response_transparent)

section \<open>Properties of the rewriting middleware\<close>

lemma plain_digit: "n < 10 \<Longrightarrow> plain (byte (48 + n))"
  by (simp add: plain_def)

lemma plain_show_nat: "list_all plain (show_nat n)"
proof -
  have "list_all plain acc \<Longrightarrow> list_all plain (show_nat_aux k m acc)" for k m acc
    by (induction k m acc rule: show_nat_aux.induct) (simp_all add: plain_digit)
  then show ?thesis by (simp add: show_nat_def del: show_nat_aux.simps)
qed

lemma plain_show_int: "list_all plain (show_int i)"
  using plain_show_nat by (simp add: show_int_def plain_def ord_def)

definition truncation_notice :: "nat \<Rightarrow> int \<Rightarrow> string" where
  "truncation_notice sz maxBytes = ''[Response truncated: '' @ show_nat sz @ '' bytes exceeded '' @
     show_int maxBytes @ '' byte limit. First '' @ show_int maxBytes @ '' bytes shown.]''"

lemma truncation_message_eq:
  "truncation_message sz m shown =
     jtext ''{~content~:[{~type~:~text~,~text~:~'' @ quote_body (truncation_notice sz m @ byte 10 # shown) @ jtext ''~}]}''"
proof -
  have lits: "list_all plain ''[Response truncated: ''" "list_all plain '' bytes exceeded ''" "list_all plain '' byte limit. First ''"
    "list_all plain '' bytes shown.]''"
    by code_simp+
  have "list_all plain (truncation_notice sz m)"
    using plain_show_nat plain_show_int lits unfolding truncation_notice_def list_all_append by blast
  then have "quote_body (truncation_notice sz m @ byte 10 # shown) =
      truncation_notice sz m @ [backslash, CHR ''n''] @ quote_body shown"
    by (simp add: quote_body_plain escape_byte_def char_eq_ord)
  moreover have "jtext ''{~content~:[{~type~:~text~,~text~:~'' = ''{'' @ marshal_str ''content'' @ '':[{'' @ marshal_str ''type'' @ '':'' @ marshal_str ''text'' @ '','' @
     marshal_str ''text'' @ '':'' @ [quote_ch]" "jtext ''~}]}'' = [quote_ch] @ ''}]}''"
    by code_simp+
  ultimately show ?thesis
    by (simp only: truncation_message_def truncation_notice_def jsonEscape_eq append_assoc append_Cons append_Nil)
qed

lemma truncation_shape: "\<exists>content. shape (truncation_message sz m shown) = Some (SObj [(''content'', content)])"
proof -
  let ?s = "truncation_message sz m shown"
  have "\<exists>content. jvalue (Suc (Suc (Suc (Suc (Suc (Suc (Suc (Suc (Suc (Suc k)))))))))) ?s = Some (SObj [(''content'', content)], [])" for k
    unfolding truncation_message_eq
    by (simp add: jtext_def quote_lit scan_quoted_lit ord_def Let_def)
  moreover have "10 \<le> 2 * length ?s + 2" by (simp add: truncation_message_eq jtext_def)
  then obtain k where "2 * length ?s + 2 = Suc (Suc (Suc (Suc (Suc (Suc (Suc (Suc (Suc (Suc k)))))))))"
    by (auto dest!: le_Suc_ex)
  moreover have "skip_ws ?s = ?s" by (simp add: truncation_message_eq jtext_def ord_def)
  ultimately obtain content where "jvalue (2 * length ?s + 2) (skip_ws ?s) = Some (SObj [(''content'', content)], [])" by metis
  then have "shape ?s = Some (SObj [(''content'', content)])" by (simp add: shape_def)
  then show ?thesis by blast
qed

lemma truncation_length: "length (truncation_message sz m shown) \<le> length (truncation_message sz m []) + 6 * length shown"
  using length_quote_body [of shown] by (simp add: truncation_message_def jsonEscape_eq)

text \<open>
  A sizer whose action is \<open>block\<close> or \<open>truncate\<close> bounds what reaches the client. The response
  is the backend's own, no longer than the limit; or an error; or a truncation notice that is a JSON
  object with the one member \<open>content\<close>, whatever bytes the cut-off text ends in, and at most six
  bytes per shown byte longer than the bare notice.
\<close>

theorem sizer_bounds_response:
  assumes "sz_action (NewSizer cfg) = ''block'' \<or> sz_action (NewSizer cfg) = ''truncate''"
    and "snd (Sizer_ProcessResponse (NewSizer cfg) req resp meta) = Inr r"
    and "rs_Error r = None" "rs_Result r = Some t"
  shows "r = resp \<and> int (length t) \<le> sz_maxBytes (NewSizer cfg) \<or>
    (\<exists>sent content. rs_Result resp = Some sent \<and> sz_maxBytes (NewSizer cfg) < int (length sent) \<and>
       shape t = Some (SObj [(''content'', content)]) \<and>
       length t \<le> length (truncation_message (length sent) (sz_maxBytes (NewSizer cfg)) []) +
         6 * nat (sz_maxBytes (NewSizer cfg)))"
proof -
  let ?m = "sz_maxBytes (NewSizer cfg)"
  show ?thesis
  proof (cases "rs_Error resp = None \<and> (\<exists>sent. rs_Result resp = Some sent \<and> ?m < int (length sent))")
    case False
    with assms have "r = resp" "int (length t) \<le> ?m"
      by (auto simp: Sizer_ProcessResponse_def Let_def split: option.splits if_splits)
    then show ?thesis by simp
  next
    case True
    then obtain sent where sent: "rs_Result resp = Some sent" "?m < int (length sent)" "rs_Error resp = None" by blast
    with assms have "t = truncation_message (length sent) ?m (take (nat ?m) sent)"
      by (auto simp: Sizer_ProcessResponse_def Let_def NewErrorResponse_def split: if_splits)
    with sent truncation_shape [of "length sent" ?m "take (nat ?m) sent"]
      truncation_length [of "length sent" ?m "take (nat ?m) sent"]
    show ?thesis by (auto simp: min_def split: if_splits)
  qed
qed

theorem sizer_bounds_response_witness:
  "length (truncation_message 8 4 (jtext ''~abc'')) \<le> length (truncation_message 8 4 []) + 6 * nat 4 \<and>
   (\<exists>content. shape (truncation_message 8 4 (jtext ''~abc'')) = Some (SObj [(''content'', content)]))"
proof -
  define cfg where "cfg = \<lparr>zc_MaxResponseBytes = 4, zc_Action = ''truncate''\<rparr>"
  define resp where "resp = NewResponse (Some ''1'') (jtext ''~abcdef~'')"
  define req :: Request where "req = \<lparr>rq_JSONRPC = ''2.0'', rq_ID = Some ''1'', rq_Method = ''tools/call'', rq_Params = None\<rparr>"
  define meta where "meta = \<lparr>rm_UserID = ''u1'', rm_ServerID = ''s1'', rm_ServerName = ''files'', rm_Method = ''tools/call'',
    rm_ToolName = ''old'', rm_ClientIP = [], rm_RequestID = ''1''\<rparr>"
  have cfg: "sz_action (NewSizer cfg) = ''truncate''" "sz_maxBytes (NewSizer cfg) = 4"
    by (simp_all add: cfg_def NewSizer_def)
  have "snd (Sizer_ProcessResponse (NewSizer cfg) req resp meta) =
      Inr (resp\<lparr>rs_Result := Some (truncation_message 8 4 (jtext ''~abc''))\<rparr>)"
    by (simp add: cfg resp_def Sizer_ProcessResponse_def NewResponse_def jtext_def Let_def eval_nat_numeral)
  moreover have "\<not> length (truncation_message n 4 x) \<le> Suc (Suc (Suc (Suc 0)))" for n x
    by (simp add: truncation_message_def)
  ultimately show ?thesis using sizer_bounds_response [where cfg = cfg and resp = resp and req = req and meta = meta]
    by (fastforce simp: cfg resp_def NewResponse_def jtext_def eval_nat_numeral)
qed

lemma sanitize_loop_redacts:
  assumes "regexp_ok rx" "list_all (\<lambda>p. sp_Action p = ''redact'') ps" "rs_Error resp = None"
    "rs_Result resp = Some orig" "\<not> modified \<Longrightarrow> result = orig"
  shows "snd (sanitize_loop rx ps meta resp result modified) = resp\<lparr>rs_Result := Some (Sanitizer_RedactText rx ps result)\<rparr>"
  using assms(2-)
proof (induction ps arbitrary: result modified)
  case Nil
  then show ?case by (cases resp) auto
next
  case (Cons p ps)
  have same: "rx_replace rx (sp_Regex p) result t = result" if "\<not> rx_match rx (sp_Regex p) result" for t
    using that assms(1) by (simp add: regexp_ok_def)
  show ?case
    using Cons.prems Cons.IH [where result = "rx_replace rx (sp_Regex p) result ''[REDACTED]''" and modified = True]
      Cons.IH [where result = result and modified = modified]
    by (auto simp: Let_def same split: prod.split)
qed

text \<open>
  With redacting patterns only, the client gets exactly what the preview \<open>RedactText\<close> shows, and a
  response that no pattern matches is passed on as it is, without an event.
\<close>

theorem sanitizer_delivers_preview:
  assumes "regexp_ok rx" "\<forall>p \<in> set s. sp_Action p = ''redact''"
  shows "snd (Sanitizer_ProcessResponse rx s req resp meta) =
      (case (rs_Error resp, rs_Result resp) of
         (None, Some text) \<Rightarrow> Inr (resp\<lparr>rs_Result := Some (Sanitizer_RedactText rx s text)\<rparr>)
       | _ \<Rightarrow> Inr resp)"
  using assms sanitize_loop_redacts [where rx = rx and ps = s and resp = resp and modified = False and meta = meta]
  by (auto simp: Sanitizer_ProcessResponse_def list_all_iff split: option.splits prod.splits) (metis snd_conv)

definition demo_regexp :: regexp where
  "demo_regexp = \<lparr>rx_valid = (\<lambda>_. True), rx_match = (\<lambda>p s. str_contains s p),
     rx_replace = (\<lambda>p s t. if str_contains s p then t else s)\<rparr>"

theorem sanitizer_delivers_preview_witness:
  "snd (Sanitizer_ProcessResponse demo_regexp [\<lparr>sp_Name = ''pw'', sp_Regex = ''pwd='', sp_Action = ''redact''\<rparr>]
     (NewRequest None ''tools/call'' None) (NewResponse (Some ''1'') ''pwd=x'')
     \<lparr>rm_UserID = [], rm_ServerID = [], rm_ServerName = [], rm_Method = [], rm_ToolName = [], rm_ClientIP = [], rm_RequestID = []\<rparr>) =
   Inr (NewResponse (Some ''1'') ''[REDACTED]'')"
proof -
  have "regexp_ok demo_regexp" by (simp add: regexp_ok_def demo_regexp_def)
  from sanitizer_delivers_preview [OF this, of "[\<lparr>sp_Name = ''pw'', sp_Regex = ''pwd='', sp_Action = ''redact''\<rparr>]"]
  show ?thesis
    by (simp add: NewResponse_def demo_regexp_def str_contains_def has_prefix_def)
qed

end
