(* ===== verification/Middleware_Store.thy ===== *)
theory Middleware_Store
  imports Middleware_Pipeline
begin

text \<open>
  \<open>internal/store/middleware.go\<close> and the registry of \<open>internal/middleware/middleware.go\<close>: the
  stored middleware configurations, their merge into the effective configuration of a server, the
  event log, and the construction of pipelines. Go iterates over maps in an arbitrary order; the
  order a run takes is the argument \<open>iter\<close>.
\<close>

definition mw_put :: "MiddlewareConfig \<Rightarrow> (string \<times> MiddlewareConfig) list \<Rightarrow> (string \<times> MiddlewareConfig) list" where
  "mw_put mc m = (mc_Middleware mc, mc) # filter (\<lambda>(k, _). k \<noteq> mc_Middleware mc) m"

text \<open>The insertion sort of \<open>GetForServer\<close>, on the reversed sorted prefix.\<close>

fun insert_by_priority :: "MiddlewareConfig \<Rightarrow> MiddlewareConfig list \<Rightarrow> MiddlewareConfig list" where
  "insert_by_priority x [] = [x]"
| "insert_by_priority x (y # ys) =
     (if mc_Priority x < mc_Priority y then y # insert_by_priority x ys else x # y # ys)"

definition sort_by_priority :: "MiddlewareConfig list \<Rightarrow> MiddlewareConfig list" where
  "sort_by_priority xs = rev (fold insert_by_priority xs [])"

definition inherit_config :: "(string \<times> MiddlewareConfig) list \<Rightarrow> MiddlewareConfig \<Rightarrow> MiddlewareConfig" where
  "inherit_config globals sc =
     (if mc_Config sc = ''{}'' \<or> mc_Config sc = [] then
        (case map_of globals (mc_Middleware sc) of
           Some gc \<Rightarrow> sc\<lparr>mc_Config := mc_Config gc\<rparr>
         | None \<Rightarrow> sc)
      else sc)"

definition merge_configs ::
    "(string \<times> MiddlewareConfig) list \<Rightarrow> (string \<times> MiddlewareConfig) list \<Rightarrow> (string \<times> MiddlewareConfig) list" where
  "merge_configs globals servers =
     (let merged = filter (\<lambda>(_, gc). mc_Enabled gc) globals in
      fold (\<lambda>(_, sc). mw_put (inherit_config globals sc)) servers merged)"

definition MiddlewareStore_GetForServer ::
    "(MiddlewareConfig list \<Rightarrow> MiddlewareConfig list) \<Rightarrow> faults \<Rightarrow> string \<Rightarrow> relay_db \<Rightarrow> MiddlewareConfig list res" where
  "MiddlewareStore_GetForServer iter io sid db =
     (if \<not> io 0 then Inl DriverError
      else
        let rows = sql_order mc_Priority (sql_order mc_Middleware
              (sql_select (\<lambda>c. mc_ServerID c = None \<or> mc_ServerID c = Some sid) (db_mw_configs db)));
            globals = fold mw_put (filter (\<lambda>c. mc_ServerID c = None) rows) [];
            servers = fold mw_put (filter (\<lambda>c. mc_ServerID c \<noteq> None) rows) []
        in Inr (sort_by_priority (iter (map snd (merge_configs globals servers)))))"

definition MiddlewareStore_Get :: "faults \<Rightarrow> string \<Rightarrow> relay_db \<Rightarrow> MiddlewareConfig option res" where
  "MiddlewareStore_Get io i db = stmt (io 0) (Inr (sql_row (\<lambda>c. mc_ID c = i) (db_mw_configs db)))"

text \<open>\<open>ON CONFLICT(server_id, middleware) DO UPDATE\<close>; a conflict on the identifier is still an error.\<close>

definition upsert_mw :: "(MiddlewareConfig \<Rightarrow> MiddlewareConfig) \<Rightarrow> MiddlewareConfig \<Rightarrow> relay_db \<Rightarrow> relay_db res" where
  "upsert_mw f r db =
     (if sql_has (\<lambda>c. mc_ID c = mc_ID r) (db_mw_configs db) then Inl UniqueViolation
      else if sql_has (same_mw r) (db_mw_configs db) then
        Inr (db\<lparr>db_mw_configs := sql_update (same_mw r) f (db_mw_configs db)\<rparr>)
      else insert_mw_config r db)"

definition MiddlewareStore_Upsert ::
    "faults \<Rightarrow> time \<Rightarrow> string option \<Rightarrow> MiddlewareConfig \<Rightarrow> relay_db \<Rightarrow> relay_db \<times> unit res" where
  "MiddlewareStore_Upsert io now genID mc db =
     (case (if mc_ID mc = [] then genID else Some (mc_ID mc)) of
        None \<Rightarrow> (db, Inl CryptoError)
      | Some i \<Rightarrow>
          exec (io 0) (upsert_mw
            (\<lambda>c. c\<lparr>mc_Enabled := mc_Enabled mc, mc_Config := mc_Config mc, mc_Priority := mc_Priority mc, mc_UpdatedAt := now\<rparr>)
            (mc\<lparr>mc_ID := i, mc_CreatedAt := now, mc_UpdatedAt := now\<rparr>)) db)"

definition MiddlewareStore_UpsertEnabled ::
    "faults \<Rightarrow> time \<Rightarrow> string option \<Rightarrow> string \<Rightarrow> string \<Rightarrow> bool \<Rightarrow> int \<Rightarrow> relay_db \<Rightarrow> relay_db \<times> unit res" where
  "MiddlewareStore_UpsertEnabled io now genID sid middleware enabled priority db =
     (case genID of
        None \<Rightarrow> (db, Inl CryptoError)
      | Some i \<Rightarrow>
          exec (io 0) (upsert_mw
            (\<lambda>c. c\<lparr>mc_Enabled := enabled, mc_Priority := priority, mc_UpdatedAt := now\<rparr>)
            \<lparr>mc_ID = i, mc_ServerID = Some sid, mc_Middleware = middleware, mc_Enabled = enabled, mc_Config = ''{}'',
             mc_Priority = priority, mc_CreatedAt = now, mc_UpdatedAt = now\<rparr>) db)"

definition MiddlewareStore_GetGlobal :: "faults \<Rightarrow> string \<Rightarrow> relay_db \<Rightarrow> MiddlewareConfig option res" where
  "MiddlewareStore_GetGlobal io middleware db =
     stmt (io 0) (Inr (sql_row (\<lambda>c. mc_ServerID c = None \<and> mc_Middleware c = middleware) (db_mw_configs db)))"

definition MiddlewareStore_UpsertGlobal ::
    "faults \<Rightarrow> time \<Rightarrow> string option \<Rightarrow> MiddlewareConfig \<Rightarrow> relay_db \<Rightarrow> relay_db \<times> unit res" where
  "MiddlewareStore_UpsertGlobal io now genID mc db =
     (case MiddlewareStore_GetGlobal io (mc_Middleware mc) db of
        Inl e \<Rightarrow> (db, Inl e)
      | Inr (Some existing) \<Rightarrow>
          exec (io 1) (\<lambda>d. Inr (d\<lparr>db_mw_configs := sql_update (\<lambda>c. mc_ID c = mc_ID existing)
            (\<lambda>c. c\<lparr>mc_Enabled := mc_Enabled mc, mc_Config := mc_Config mc, mc_Priority := mc_Priority mc, mc_UpdatedAt := now\<rparr>)
            (db_mw_configs d)\<rparr>)) db
      | Inr None \<Rightarrow>
          (case genID of
             None \<Rightarrow> (db, Inl CryptoError)
           | Some i \<Rightarrow>
               exec (io 1) (insert_mw_config
                 (mc\<lparr>mc_ID := i, mc_ServerID := None, mc_CreatedAt := now, mc_UpdatedAt := now\<rparr>)) db))"

definition MiddlewareStore_Delete :: "faults \<Rightarrow> string \<Rightarrow> relay_db \<Rightarrow> relay_db \<times> unit res" where
  "MiddlewareStore_Delete io i db =
     exec (io 0) (\<lambda>d. Inr (d\<lparr>db_mw_configs := sql_delete (\<lambda>c. mc_ID c = i) (db_mw_configs d)\<rparr>)) db"

definition MiddlewareStore_LogEvent ::
    "faults \<Rightarrow> time \<Rightarrow> string option \<Rightarrow> MiddlewareEvent \<Rightarrow> relay_db \<Rightarrow> relay_db \<times> unit res" where
  "MiddlewareStore_LogEvent io now genID evt db =
     (case (if me_ID evt = [] then genID else Some (me_ID evt)) of
        None \<Rightarrow> (db, Inl CryptoError)
      | Some i \<Rightarrow> exec (io 0) (insert_mw_event (evt\<lparr>me_ID := i, me_Timestamp := now\<rparr>)) db)"

definition MiddlewareStore_RecentEvents :: "faults \<Rightarrow> string \<Rightarrow> int \<Rightarrow> relay_db \<Rightarrow> MiddlewareEvent list res" where
  "MiddlewareStore_RecentEvents io sid limit db =
     stmt (io 0) (Inr (sql_limit limit (sql_order_desc me_Timestamp
       (if sid \<noteq> [] then sql_select (\<lambda>e. me_ServerID e = sid) (db_mw_events db) else db_mw_events db))))"

text \<open>\<open>datetime('now', ...)\<close> has a resolution of a second.\<close>

definition MiddlewareStore_EventCounts :: "faults \<Rightarrow> time \<Rightarrow> string \<Rightarrow> int \<Rightarrow> relay_db \<Rightarrow> (string \<Rightarrow> nat) res" where
  "MiddlewareStore_EventCounts io now sid hours db =
     stmt (io 0) (Inr (\<lambda>ty. sql_count (\<lambda>e. me_ServerID e = sid \<and> me_EventType e = ty \<and>
        (now - hours * hour) div second * second < me_Timestamp e) (db_mw_events db)))"

section \<open>The registry\<close>

text \<open>A middleware is built by the factory registered for its name; a factory that fails drops it.\<close>

definition mw_factory :: "regexp \<Rightarrow> archive_env \<Rightarrow> bool \<Rightarrow> string \<Rightarrow> string \<Rightarrow> Middleware option" where
  "mw_factory rx env has_dispatcher name config =
     (if name = ''sanitizer'' then map_option (sanitizer_mw rx) (NewSanitizerFromConfig rx config)
      else if name = ''sizer'' then map_option sizer_mw (NewSizerFromConfig config)
      else if name = ''alerter'' then map_option (alerter_mw rx) (NewAlerterFromConfig rx config)
      else if name = ''archive'' then map_option (archive_mw env) (NewArchiveFromConfig env has_dispatcher config)
      else None)"

definition IsRegistered :: "string \<Rightarrow> bool" where
  "IsRegistered name \<longleftrightarrow> name \<in> {''sanitizer'', ''sizer'', ''alerter'', ''archive''}"

fun build_pipeline :: "(string \<Rightarrow> string \<Rightarrow> Middleware option) \<Rightarrow> MiddlewareConfig list \<Rightarrow> Pipeline \<Rightarrow> Pipeline" where
  "build_pipeline factory [] p = p"
| "build_pipeline factory (mc # mcs) p =
     (if \<not> mc_Enabled mc then build_pipeline factory mcs p
      else case factory (mc_Middleware mc) (mc_Config mc) of
        None \<Rightarrow> build_pipeline factory mcs p
      | Some m \<Rightarrow> build_pipeline factory mcs (Pipeline_Add m p))"

definition Registry_BuildPipeline ::
    "(MiddlewareConfig list \<Rightarrow> MiddlewareConfig list) \<Rightarrow> (string \<Rightarrow> string \<Rightarrow> Middleware option) \<Rightarrow> faults \<Rightarrow> string \<Rightarrow> relay_db \<Rightarrow> Pipeline" where
  "Registry_BuildPipeline iter factory io sid db =
     (case MiddlewareStore_GetForServer iter io sid db of
        Inl _ \<Rightarrow> []
      | Inr configs \<Rightarrow> build_pipeline factory configs [])"

definition makeEventLogger ::
    "faults \<Rightarrow> time \<Rightarrow> string option \<Rightarrow> string \<Rightarrow> MiddlewareEvent \<Rightarrow> relay_db \<Rightarrow> relay_db" where
  "makeEventLogger io now genID sid evt db =
     fst (MiddlewareStore_LogEvent io now genID (evt\<lparr>me_ServerID := sid\<rparr>) db)"

section \<open>The operations keep the database well-formed\<close>

lemma update_mw_wf:
  assumes wf: "db_wf db" and f: "\<And>c. mc_ID (f c) = mc_ID c" "\<And>c. mc_ServerID (f c) = mc_ServerID c"
    "\<And>c. mc_Middleware (f c) = mc_Middleware c"
  shows "db_wf (db\<lparr>db_mw_configs := sql_update p f (db_mw_configs db)\<rparr>)"
proof -
  have "mw_key (f c) = mw_key c" for c by (simp add: mw_key_def f split: option.split)
  then have "tbl_ok mc_ID (\<lambda>c. opt_ref (server_exists db) (mc_ServerID c)) (sql_update p f (db_mw_configs db))"
      "tbl_ok mw_key (\<lambda>_. True) (sql_update p f (db_mw_configs db))"
    using wf f by (auto simp: db_wf_def intro: tbl_ok_update)
  with wf show ?thesis by (simp add: db_wf_def)
qed

lemma upsert_mw_wf:
  assumes "upsert_mw f r db = Inr db'" "db_wf db" "\<And>c. mc_ID (f c) = mc_ID c"
    "\<And>c. mc_ServerID (f c) = mc_ServerID c" "\<And>c. mc_Middleware (f c) = mc_Middleware c"
  shows "db_wf db'"
  using assms(1) by (auto simp: upsert_mw_def assms update_mw_wf split: if_splits intro: insert_mw_config_wf assms)

lemma MiddlewareStore_Upsert_wf: "db_wf db \<Longrightarrow> db_wf (fst (MiddlewareStore_Upsert io now g mc db))"
  by (auto simp: MiddlewareStore_Upsert_def split: option.splits intro!: exec_pres [where P = db_wf] elim!: upsert_mw_wf)

lemma MiddlewareStore_UpsertEnabled_wf: "db_wf db \<Longrightarrow> db_wf (fst (MiddlewareStore_UpsertEnabled io now g sid m e p db))"
  by (auto simp: MiddlewareStore_UpsertEnabled_def split: option.splits intro!: exec_pres [where P = db_wf] elim!: upsert_mw_wf)

lemma MiddlewareStore_UpsertGlobal_wf: "db_wf db \<Longrightarrow> db_wf (fst (MiddlewareStore_UpsertGlobal io now g mc db))"
  by (auto simp: MiddlewareStore_UpsertGlobal_def split: option.splits sum.splits intro!: exec_pres [where P = db_wf]
      intro: update_mw_wf insert_mw_config_wf)

lemma MiddlewareStore_Delete_wf: "db_wf db \<Longrightarrow> db_wf (fst (MiddlewareStore_Delete io i db))"
proof -
  assume wf: "db_wf db"
  then have "db_wf (db\<lparr>db_mw_configs := sql_delete p (db_mw_configs db)\<rparr>)" for p
    by (auto simp: db_wf_def elim: tbl_ok_delete)
  with wf show ?thesis
    by (auto simp: MiddlewareStore_Delete_def intro!: exec_pres [where P = db_wf])
qed

lemma MiddlewareStore_LogEvent_wf: "db_wf db \<Longrightarrow> db_wf (fst (MiddlewareStore_LogEvent io now g evt db))"
  by (auto simp: MiddlewareStore_LogEvent_def split: option.splits intro!: exec_pres [where P = db_wf]
      intro: insert_mw_event_wf)

lemmas middleware_store_wf = MiddlewareStore_Upsert_wf MiddlewareStore_UpsertEnabled_wf MiddlewareStore_UpsertGlobal_wf
  MiddlewareStore_Delete_wf MiddlewareStore_LogEvent_wf

section \<open>The effective configuration of a server\<close>

definition last_config :: "(MiddlewareConfig \<Rightarrow> bool) \<Rightarrow> MiddlewareConfig list \<Rightarrow> MiddlewareConfig option" where
  "last_config p rows = List.find p (rev rows)"

text \<open>What a server gets for a middleware name, said without maps and loops.\<close>

definition effective_config :: "string \<Rightarrow> relay_db \<Rightarrow> string \<Rightarrow> MiddlewareConfig option" where
  "effective_config sid db name =
     (let rows = sql_order mc_Priority (sql_order mc_Middleware (db_mw_configs db));
          g = last_config (\<lambda>c. mc_ServerID c = None \<and> mc_Middleware c = name) rows in
      case last_config (\<lambda>c. mc_ServerID c = Some sid \<and> mc_Middleware c = name) rows of
        Some sc \<Rightarrow>
          Some (if mc_Config sc = ''{}'' \<or> mc_Config sc = []
                then (case g of Some gc \<Rightarrow> sc\<lparr>mc_Config := mc_Config gc\<rparr> | None \<Rightarrow> sc) else sc)
      | None \<Rightarrow> (case g of Some gc \<Rightarrow> if mc_Enabled gc then Some gc else None | None \<Rightarrow> None))"

text \<open>A table of configurations by name: keys are unique and name their values.\<close>

definition mw_table :: "(string \<times> MiddlewareConfig) list \<Rightarrow> bool" where
  "mw_table m \<longleftrightarrow> distinct (map fst m) \<and> (\<forall>(k, c) \<in> set m. k = mc_Middleware c)"

lemma mw_table_Nil [simp]: "mw_table []"
  by (simp add: mw_table_def)

lemma mw_table_put: "mw_table m \<Longrightarrow> mw_table (mw_put c m)"
  by (auto simp: mw_table_def mw_put_def distinct_map_filter)

lemma mw_table_fold: "mw_table m \<Longrightarrow> mw_table (fold mw_put cs m)"
  by (induction cs arbitrary: m) (auto intro: mw_table_put)

lemma map_of_mw_put: "map_of (mw_put c m) k = (if k = mc_Middleware c then Some c else map_of m k)"
proof -
  have "map_of (filter (\<lambda>(k', _). k' \<noteq> j) m) k = map_of m k" if "k \<noteq> j" for j
    using that by (induction m) auto
  then show ?thesis by (auto simp: mw_put_def)
qed

lemma map_of_mw_fold:
  "map_of (fold mw_put cs m) k =
     (case last_config (\<lambda>c. mc_Middleware c = k) cs of Some c \<Rightarrow> Some c | None \<Rightarrow> map_of m k)"
proof (induction cs rule: rev_induct)
  case Nil
  then show ?case by (simp add: last_config_def)
next
  case (snoc c cs)
  then show ?case by (simp add: last_config_def map_of_mw_put)
qed

lemma find_filter: "List.find p (filter q xs) = List.find (\<lambda>x. q x \<and> p x) xs"
  by (induction xs) auto

lemma last_config_filter: "last_config p (filter q rows) = last_config (\<lambda>c. q c \<and> p c) rows"
  by (simp add: last_config_def find_filter rev_filter)

lemma last_config_table:
  "mw_table m \<Longrightarrow> last_config (\<lambda>c. mc_Middleware c = k) (map snd m) = map_of m k"
proof (induction m rule: rev_induct)
  case (snoc kc m)
  obtain k' c where kc: "kc = (k', c)" by fastforce
  with snoc.prems have "mw_table m" "k' = mc_Middleware c" "k' \<notin> fst ` set m" by (auto simp: mw_table_def)
  with snoc.IH kc show ?case
    by (auto simp: last_config_def map_add_def split: option.split dest: map_of_SomeD)
      (force dest: map_of_SomeD)+
qed (simp add: last_config_def)

lemma inherit_config_name [simp]: "mc_Middleware (inherit_config g c) = mc_Middleware c"
  by (simp add: inherit_config_def split: option.split)

lemma fold_mw_put_pairs:
  "fold (\<lambda>(_, sc). mw_put (f sc)) m acc = fold mw_put (map (\<lambda>kc. f (snd kc)) m) acc"
  by (induction m arbitrary: acc) (auto simp: case_prod_beta)

lemma last_config_map:
  "(\<And>c. p (f c) = p c) \<Longrightarrow> last_config p (map f cs) = map_option f (last_config p cs)"
  by (induction cs rule: rev_induct) (auto simp: last_config_def)

lemma map_of_merge:
  assumes "mw_table globals" "mw_table servers"
  shows "map_of (merge_configs globals servers) k =
    (case map_of servers k of
       Some sc \<Rightarrow> Some (inherit_config globals sc)
     | None \<Rightarrow> (case map_of globals k of Some gc \<Rightarrow> if mc_Enabled gc then Some gc else None | None \<Rightarrow> None))"
proof -
  have "map_of (filter (\<lambda>(_, gc). mc_Enabled gc) globals) k =
      (case map_of globals k of Some gc \<Rightarrow> if mc_Enabled gc then Some gc else None | None \<Rightarrow> None)"
    using assms(1) by (induction globals) (force simp: mw_table_def split: option.splits dest: map_of_SomeD)+
  moreover have "last_config (\<lambda>c. mc_Middleware c = k) (map (\<lambda>kc. inherit_config globals (snd kc)) servers) =
      map_option (inherit_config globals) (map_of servers k)"
    using last_config_map [of "\<lambda>c. mc_Middleware c = k" "inherit_config globals" "map snd servers"]
      last_config_table [OF assms(2), of k] by (simp add: comp_def)
  ultimately show ?thesis
    by (simp add: merge_configs_def Let_def fold_mw_put_pairs map_of_mw_fold split: option.split)
qed

lemma mw_table_merge: "mw_table globals \<Longrightarrow> mw_table (merge_configs globals servers)"
proof -
  assume "mw_table globals"
  then have "mw_table (filter (\<lambda>(_, gc). mc_Enabled gc) globals)"
    by (auto simp: mw_table_def distinct_map_filter)
  then show ?thesis by (simp add: merge_configs_def Let_def fold_mw_put_pairs mw_table_fold)
qed

lemma mset_insert_by_priority: "mset (insert_by_priority x ys) = add_mset x (mset ys)"
  by (induction ys) auto

lemma mset_sort_by_priority: "mset (sort_by_priority xs) = mset xs"
proof -
  have "mset (fold insert_by_priority xs acc) = mset acc + mset xs" for acc
    by (induction xs arbitrary: acc) (auto simp: mset_insert_by_priority)
  then show ?thesis by (simp add: sort_by_priority_def)
qed

lemma set_insert_by_priority: "set (insert_by_priority x ys) = insert x (set ys)"
  using mset_insert_by_priority [of x ys] by (metis set_mset_mset set_mset_add_mset_insert)

lemma sorted_sort_by_priority: "sorted (map mc_Priority (sort_by_priority xs))"
proof -
  have ins: "sorted_wrt (\<lambda>a b. mc_Priority b \<le> mc_Priority a) (insert_by_priority x ys)"
    if "sorted_wrt (\<lambda>a b. mc_Priority b \<le> mc_Priority a) ys" for x ys
    using that by (induction ys) (auto simp: set_insert_by_priority intro: order_trans)
  have "sorted_wrt (\<lambda>a b. mc_Priority b \<le> mc_Priority a) (fold insert_by_priority xs acc)"
    if "sorted_wrt (\<lambda>a b. mc_Priority b \<le> mc_Priority a) acc" for acc
    using that by (induction xs arbitrary: acc) (auto intro: ins)
  from this [of "[]"] show ?thesis
    by (simp add: sort_by_priority_def sorted_wrt_map sorted_wrt_rev)
qed

lemma sql_order_filter: "filter p (sql_order k t) = sql_order k (filter p t)"
  by (simp add: sql_order_def filter_sort)

lemma map_of_rows:
  assumes "rows = sql_order mc_Priority (sql_order mc_Middleware
      (sql_select (\<lambda>c. mc_ServerID c = None \<or> mc_ServerID c = Some sid) t))"
  shows "map_of (fold mw_put (filter (\<lambda>c. mc_ServerID c = None) rows) []) k =
      last_config (\<lambda>c. mc_ServerID c = None \<and> mc_Middleware c = k) (sql_order mc_Priority (sql_order mc_Middleware t))"
    and "map_of (fold mw_put (filter (\<lambda>c. mc_ServerID c \<noteq> None) rows) []) k =
      last_config (\<lambda>c. mc_ServerID c = Some sid \<and> mc_Middleware c = k) (sql_order mc_Priority (sql_order mc_Middleware t))"
proof -
  let ?all = "sql_order mc_Priority (sql_order mc_Middleware t)"
  have rows: "rows = filter (\<lambda>c. mc_ServerID c = None \<or> mc_ServerID c = Some sid) ?all"
    by (simp add: assms sql_select_def sql_order_filter)
  have sel: "(\<lambda>c. (mc_ServerID c = None \<or> mc_ServerID c = Some sid) \<and> mc_ServerID c = None \<and> mc_Middleware c = k) =
      (\<lambda>c. mc_ServerID c = None \<and> mc_Middleware c = k)"
    "(\<lambda>c. (mc_ServerID c = None \<or> mc_ServerID c = Some sid) \<and> mc_ServerID c \<noteq> None \<and> mc_Middleware c = k) =
      (\<lambda>c. mc_ServerID c = Some sid \<and> mc_Middleware c = k)"
    by auto
  show "map_of (fold mw_put (filter (\<lambda>c. mc_ServerID c = None) rows) []) k =
      last_config (\<lambda>c. mc_ServerID c = None \<and> mc_Middleware c = k) ?all"
    by (simp add: map_of_mw_fold rows last_config_filter sel(1) option.case_eq_if)
  show "map_of (fold mw_put (filter (\<lambda>c. mc_ServerID c \<noteq> None) rows) []) k =
      last_config (\<lambda>c. mc_ServerID c = Some sid \<and> mc_Middleware c = k) ?all"
    unfolding map_of_mw_fold rows last_config_filter sel(2) by (simp add: option.case_eq_if)
qed

text \<open>
  The configurations a server's pipeline is built from, for whatever order the maps are walked in:
  one per middleware name, by ascending priority, each the server's own row or else the enabled global
  row; a server row with an empty configuration takes the configuration of the global row, enabled or
  not.
\<close>

theorem get_for_server_spec:
  assumes "\<And>xs. mset (iter xs) = mset xs"
  shows "\<exists>cs. MiddlewareStore_GetForServer iter no_faults sid db = Inr cs \<and>
    sorted (map mc_Priority cs) \<and> distinct (map mc_Middleware cs) \<and>
    (\<forall>c. c \<in> set cs \<longleftrightarrow> effective_config sid db (mc_Middleware c) = Some c)"
proof -
  define rows where "rows = sql_order mc_Priority (sql_order mc_Middleware
      (sql_select (\<lambda>c. mc_ServerID c = None \<or> mc_ServerID c = Some sid) (db_mw_configs db)))"
  define globals where "globals = fold mw_put (filter (\<lambda>c. mc_ServerID c = None) rows) []"
  define servers where "servers = fold mw_put (filter (\<lambda>c. mc_ServerID c \<noteq> None) rows) []"
  have tab: "mw_table globals" "mw_table servers"
    by (simp_all add: globals_def servers_def mw_table_fold)
  define merged where "merged = merge_configs globals servers"
  have mt: "mw_table merged" using tab by (simp add: merged_def mw_table_merge)
  have eff: "effective_config sid db k = map_of merged k" for k
  proof -
    note lookup = map_of_rows [OF rows_def, of k, folded globals_def servers_def]
    have "mc_Middleware sc = k" if "map_of servers k = Some sc" for sc
      using that tab(2) by (auto simp: mw_table_def dest: map_of_SomeD)
    then show ?thesis
      unfolding effective_config_def Let_def merged_def map_of_merge [OF tab] lookup [symmetric]
      by (cases "map_of servers k") (auto simp: inherit_config_def split: option.split)
  qed
  let ?cs = "sort_by_priority (iter (map snd merged))"
  have run: "MiddlewareStore_GetForServer iter no_faults sid db = Inr ?cs"
    by (simp add: MiddlewareStore_GetForServer_def Let_def merged_def globals_def servers_def rows_def)
  have ms: "mset ?cs = mset (map snd merged)" using assms by (simp add: mset_sort_by_priority)
  then have set: "set ?cs = snd ` set merged" by (metis set_mset_mset set_map)
  have names: "map mc_Middleware (map snd merged) = map fst merged"
    using mt by (auto simp: mw_table_def)
  have "mset (map mc_Middleware ?cs) = mset (map fst merged)"
    using ms names by (metis mset_map)
  then have "distinct (map mc_Middleware ?cs)"
    using mt by (metis mset_eq_imp_distinct_iff mw_table_def)
  moreover have "c \<in> set ?cs \<longleftrightarrow> effective_config sid db (mc_Middleware c) = Some c" for c
    using mt by (auto simp: set eff mw_table_def map_of_eq_Some_iff) force+
  ultimately show ?thesis using run sorted_sort_by_priority by blast
qed

definition demo_mw :: "string \<Rightarrow> string option \<Rightarrow> string \<Rightarrow> bool \<Rightarrow> string \<Rightarrow> int \<Rightarrow> MiddlewareConfig" where
  "demo_mw i sid name enabled config prio = \<lparr>mc_ID = i, mc_ServerID = sid, mc_Middleware = name, mc_Enabled = enabled,
     mc_Config = config, mc_Priority = prio, mc_CreatedAt = 0, mc_UpdatedAt = 0\<rparr>"

definition demo_mw_db :: relay_db where
  "demo_mw_db = empty_db\<lparr>db_mw_configs := [demo_mw ''m1'' None ''archive'' False ''{u}'' 40,
     demo_mw ''m2'' (Some ''s1'') ''archive'' True ''{}'' 40]\<rparr>"

theorem get_for_server_spec_witness:
  "\<exists>cs. MiddlewareStore_GetForServer rev no_faults ''s1'' demo_mw_db = Inr cs \<and>
     demo_mw ''m2'' (Some ''s1'') ''archive'' True ''{u}'' 40 \<in> set cs"
proof -
  have "effective_config ''s1'' demo_mw_db ''archive'' = Some (demo_mw ''m2'' (Some ''s1'') ''archive'' True ''{u}'' 40)"
    by (simp add: effective_config_def demo_mw_db_def demo_mw_def last_config_def sql_order_def Let_def)
  then have "effective_config ''s1'' demo_mw_db (mc_Middleware (demo_mw ''m2'' (Some ''s1'') ''archive'' True ''{u}'' 40)) =
      Some (demo_mw ''m2'' (Some ''s1'') ''archive'' True ''{u}'' 40)"
    by (simp add: demo_mw_def)
  with get_for_server_spec [of rev "''s1''" demo_mw_db] show ?thesis by auto
qed

end
