(* ===== verification/Mcp_Proxy.thy ===== *)
theory Mcp_Proxy
  imports Auth_Middleware Access_Store Server_Store Middleware_Store
begin

text \<open>
  The MCP proxy of \<open>internal/server/http.go\<close>: routing of \<open>/mcp/{server}\<close>, the access check on
  calls, the middleware pipeline, the backend, and the filter on list responses. A run yields the
  reply, the calls it made to the backend, the effects of the middleware and the request-log entry.

  The running backends are an argument, as is the tool optimiser
  (\<open>internal/middleware/optimizer.go\<close>): the results hold for every one of them.
\<close>

section \<open>Endpoints\<close>

definition methodShouldLog :: "string \<Rightarrow> bool" where
  "methodShouldLog m \<longleftrightarrow>
     m \<notin> {''initialize'', ''ping'', ''tools/list'', ''resources/list'', ''prompts/list'', ''notifications/initialized''}"

definition name_or_empty :: "string option \<Rightarrow> string" where
  "name_or_empty n = (case n of None \<Rightarrow> [] | Some v \<Rightarrow> v)"

definition extractEndpointName :: "string \<Rightarrow> string option \<Rightarrow> string \<times> string" where
  "extractEndpointName method params =
     (if method = ''tools/call'' then (''tool'', name_or_empty (decode_name ''name'' params))
      else if method = ''resources/read'' then (''resource'', name_or_empty (decode_name ''uri'' params))
      else if method = ''prompts/get'' then (''prompt'', name_or_empty (decode_name ''name'' params))
      else ([], []))"

text \<open>The stores the server was built with; a nil store switches its check off.\<close>

record proxy_cfg =
  px_accessStore :: bool
  px_profileStore :: bool
  px_requestLogs :: bool
  px_mwRegistry :: bool
  px_optimizer :: bool

definition checkEndpointAccess ::
    "proxy_cfg \<Rightarrow> faults \<Rightarrow> User option \<Rightarrow> string \<Rightarrow> Request \<Rightarrow> relay_db \<Rightarrow> Response option" where
  "checkEndpointAccess cfg io user sid req db =
     (case user of
        None \<Rightarrow> None
      | Some u \<Rightarrow>
          if u_Role u = ''admin'' then None
          else
            let (ty, nm) = extractEndpointName (rq_Method req) (rq_Params req) in
            if ty = [] \<or> nm = [] then None
            else if u_ProfileID u \<noteq> None \<and> px_profileStore cfg then
              (case ProfileStore_CheckPermission io (the (u_ProfileID u)) sid ty nm db of
                 Inl _ \<Rightarrow> Some (NewErrorResponse (rq_ID req) ErrCodeInternal ''permission check failed'')
               | Inr allowed \<Rightarrow>
                   if \<not> allowed then
                     Some (NewErrorResponse (rq_ID req) ErrCodeInternal ''access denied: not permitted by profile'')
                   else None)
            else
              let tier = AccessStore_GetTier io sid ty nm db in
              if \<not> AccessStore_CheckAccess (u_AccessLevel u) tier then
                Some (NewErrorResponse (rq_ID req) ErrCodeInternal (''access denied: requires '' @ tier @ '' level''))
              else None)"

definition list_method :: "string \<Rightarrow> (string \<times> string \<times> string) option" where
  "list_method m =
     (if m = ''tools/list'' then Some (''tool'', ''tools'', ''name'')
      else if m = ''resources/list'' then Some (''resource'', ''resources'', ''uri'')
      else if m = ''prompts/list'' then Some (''prompt'', ''prompts'', ''name'')
      else None)"

text \<open>The name of a listed item, \<open>None\<close> where the loop skips it.\<close>

definition item_name :: "string \<Rightarrow> string \<Rightarrow> string option" where
  "item_name field raw =
     (case decode_map raw of
        None \<Rightarrow> None
      | Some item \<Rightarrow> (case map_of item field of None \<Rightarrow> None | Some v \<Rightarrow> decode_str v))"

definition filter_items :: "string \<Rightarrow> string set \<Rightarrow> string list \<Rightarrow> string list" where
  "filter_items field permitted items =
     filter (\<lambda>raw. case item_name field raw of None \<Rightarrow> False | Some n \<Rightarrow> n \<in> permitted) items"

definition filterListResponse ::
    "faults \<Rightarrow> Response option \<Rightarrow> string \<Rightarrow> User option \<Rightarrow> string \<Rightarrow> relay_db \<Rightarrow> Response option" where
  "filterListResponse io resp method user sid db =
     (case (resp, user) of
        (Some r, Some u) \<Rightarrow>
          if rs_Error r \<noteq> None \<or> u_ProfileID u = None then resp
          else if u_Role u = ''admin'' then resp
          else (case list_method method of
            None \<Rightarrow> resp
          | Some (ty, listKey, nameField) \<Rightarrow>
              (case ProfileStore_GetPermissionsForServer io (the (u_ProfileID u)) sid db of
                 Inl _ \<Rightarrow> resp
               | Inr perms \<Rightarrow>
                   let permSet = set (map pp_EndpointName (filter (\<lambda>p. pp_EndpointType p = ty) perms)) in
                   (case rs_Result r of
                      None \<Rightarrow> resp
                    | Some text \<Rightarrow>
                        (case decode_map text of
                           None \<Rightarrow> resp
                         | Some result \<Rightarrow>
                             (case map_of result listKey of
                                None \<Rightarrow> resp
                              | Some listRaw \<Rightarrow>
                                  (case decode_arr listRaw of
                                     None \<Rightarrow> resp
                                   | Some items \<Rightarrow>
                                       Some (r\<lparr>rs_Result := Some (marshal_map
                                         (map_put listKey (marshal_arr (filter_items nameField permSet items)) result))\<rparr>))))))) 
      | _ \<Rightarrow> resp)"

section \<open>The handler\<close>

record Backend =
  bk_Send :: "Request \<Rightarrow> string + Response"
  bk_Notifier :: bool

datatype backend_call = Sent Request | Notified Notification

datatype proxy_body = Text string | Rpc Response | Accepted

record log_entry =
  le_UserID :: string
  le_ServerID :: string
  le_Method :: string
  le_EndpointName :: string
  le_Status :: string
  le_ErrorMsg :: string

record proxy_run =
  pr_status :: nat
  pr_body :: proxy_body
  pr_calls :: "backend_call list"
  pr_effects :: "mw_effect list"
  pr_log :: "log_entry option"

record proxy_env =
  pe_cfg :: proxy_cfg
  pe_enc :: ConfigEncryptor
  pe_backends :: "string \<Rightarrow> Backend option"
  pe_pipeline :: "string \<Rightarrow> Pipeline"
  pe_optimize :: "Request \<Rightarrow> Response \<Rightarrow> RequestMeta \<Rightarrow> Response"

definition early :: "nat \<Rightarrow> string \<Rightarrow> proxy_run" where
  "early status msg = \<lparr>pr_status = status, pr_body = Text msg, pr_calls = [], pr_effects = [], pr_log = None\<rparr>"

definition logRequest :: "proxy_cfg \<Rightarrow> User option \<Rightarrow> string \<Rightarrow> string \<Rightarrow> string \<Rightarrow> string \<Rightarrow> string \<Rightarrow> log_entry option" where
  "logRequest cfg user sid method endpointName status errMsg =
     (if px_requestLogs cfg \<and> methodShouldLog method then
        Some \<lparr>le_UserID = (case user of None \<Rightarrow> [] | Some u \<Rightarrow> u_ID u), le_ServerID = sid, le_Method = method,
              le_EndpointName = endpointName, le_Status = status, le_ErrorMsg = errMsg\<rparr>
      else None)"

definition mw_meta :: "User option \<Rightarrow> Server \<Rightarrow> Request \<Rightarrow> string \<Rightarrow> string \<Rightarrow> RequestMeta" where
  "mw_meta user srv req endpointName remote =
     \<lparr>rm_UserID = (case user of None \<Rightarrow> [] | Some u \<Rightarrow> u_ID u), rm_ServerID = sv_ID srv, rm_ServerName = sv_Name srv,
      rm_Method = rq_Method req, rm_ToolName = endpointName, rm_ClientIP = remote, rm_RequestID = raw_text (rq_ID req)\<rparr>"

definition opt_meta :: "Server \<Rightarrow> Request \<Rightarrow> RequestMeta" where
  "opt_meta srv req =
     \<lparr>rm_UserID = [], rm_ServerID = sv_ID srv, rm_ServerName = sv_Name srv, rm_Method = rq_Method req,
      rm_ToolName = [], rm_ClientIP = [], rm_RequestID = []\<rparr>"

text \<open>From the backend's answer to the reply: response middleware, optimiser, list filter.\<close>

definition finish_response ::
    "proxy_env \<Rightarrow> faults \<Rightarrow> User option \<Rightarrow> Server \<Rightarrow> Request \<Rightarrow> string \<Rightarrow> Pipeline \<Rightarrow> RequestMeta option \<Rightarrow>
     backend_call list \<Rightarrow> mw_effect list \<Rightarrow> Response \<Rightarrow> relay_db \<Rightarrow> proxy_run" where
  "finish_response env io user srv req endpointName pipeline meta calls effs resp db =
     (let rlog = logRequest (pe_cfg env) user (sv_ID srv) (rq_Method req) endpointName in
      case (case meta of None \<Rightarrow> ([], Inr resp) | Some m \<Rightarrow> Pipeline_ProcessResponse pipeline req resp m) of
        (es, Inl err) \<Rightarrow>
          \<lparr>pr_status = 200, pr_body = Rpc (NewErrorResponse (rq_ID req) ErrCodeInternal err), pr_calls = calls,
           pr_effects = effs @ es, pr_log = rlog ''blocked'' (''middleware: '' @ err)\<rparr>
      | (es, Inr resp1) \<Rightarrow>
          (let resp2 = (if px_optimizer (pe_cfg env) \<and> rq_Method req = ''tools/list''
                        then pe_optimize env req resp1 (case meta of None \<Rightarrow> opt_meta srv req | Some m \<Rightarrow> m) else resp1);
               resp3 = (if (case user of None \<Rightarrow> False | Some u \<Rightarrow> u_Role u \<noteq> ''admin'' \<and> u_ProfileID u \<noteq> None) \<and>
                           px_profileStore (pe_cfg env)
                        then filterListResponse io (Some resp2) (rq_Method req) user (sv_ID srv) db else Some resp2) in
           \<lparr>pr_status = 200, pr_body = Rpc (the resp3), pr_calls = calls, pr_effects = effs @ es,
            pr_log = rlog ''success'' []\<rparr>))"

text \<open>A request that passed the access check: request middleware, backend, response.\<close>

definition forward_request ::
    "proxy_env \<Rightarrow> faults \<Rightarrow> User option \<Rightarrow> Server \<Rightarrow> Backend \<Rightarrow> string \<Rightarrow> Request \<Rightarrow> string \<Rightarrow> relay_db \<Rightarrow> proxy_run" where
  "forward_request env io user srv backend remote req endpointName db =
     (let rlog = (\<lambda>m. logRequest (pe_cfg env) user (sv_ID srv) m endpointName);
          pipeline = (if px_mwRegistry (pe_cfg env) then pe_pipeline env (sv_ID srv) else []);
          meta = (if pipeline \<noteq> [] then Some (mw_meta user srv req endpointName remote) else None) in
      case (case meta of None \<Rightarrow> ([], Inr req) | Some m \<Rightarrow> Pipeline_ProcessRequest pipeline req m) of
        (es, Inl err) \<Rightarrow>
          \<lparr>pr_status = 200, pr_body = Rpc (NewErrorResponse (rq_ID req) ErrCodeInternal err), pr_calls = [],
           pr_effects = es, pr_log = rlog (rq_Method req) ''blocked'' (''middleware: '' @ err)\<rparr>
      | (es, Inr req1) \<Rightarrow>
          (case bk_Send backend req1 of
             Inl err \<Rightarrow>
               \<lparr>pr_status = 200, pr_body = Rpc (NewErrorResponse (rq_ID req1) ErrCodeInternal (''proxy error: '' @ err)),
                pr_calls = [Sent req1], pr_effects = es, pr_log = rlog (rq_Method req1) ''error'' err\<rparr>
           | Inr resp \<Rightarrow> finish_response env io user srv req1 endpointName pipeline meta [Sent req1] es resp db))"

text \<open>Statement 0 looks the server up; the access check and the list filter run one statement each.\<close>

definition handleMCPProxy :: "proxy_env \<Rightarrow> faults \<Rightarrow> auth_ctx \<Rightarrow> http_request \<Rightarrow> relay_db \<Rightarrow> proxy_run" where
  "handleMCPProxy env io ctx r db =
     (if hr_Method r \<noteq> ''POST'' then early 405 ''method not allowed, use POST''
      else
        let serverName = hd (str_split (CHR ''/'') (trim_prefix (hr_Path r) ''/mcp/'')) in
        if serverName = [] then early 400 ''missing server name in path''
        else (case ServerStore_GetByName (pe_enc env) io serverName db of
          Inl _ \<Rightarrow> early 500 ''internal error''
        | Inr None \<Rightarrow> early 404 (''server '' @ go_quote serverName @ '' not found'')
        | Inr (Some srv) \<Rightarrow>
            (case pe_backends env (sv_ID srv) of
               None \<Rightarrow> early 503 (''server '' @ go_quote serverName @ '' is not running'')
             | Some backend \<Rightarrow>
                 (case hr_Body r of
                    None \<Rightarrow> early 400 ''failed to read request body''
                  | Some body \<Rightarrow>
                      (case decode_map body of
                         None \<Rightarrow> early 400 ''invalid JSON''
                       | Some raw \<Rightarrow>
                           if map_of raw ''id'' = None then
                             \<lparr>pr_status = 202, pr_body = Accepted,
                              pr_calls = (if bk_Notifier backend then [Notified (decode_notification body)] else []),
                              pr_effects = [], pr_log = None\<rparr>
                           else (case decode_request body of
                             None \<Rightarrow> early 400 ''invalid JSON-RPC request''
                           | Some req \<Rightarrow>
                               (let endpointName = snd (extractEndpointName (rq_Method req) (rq_Params req)) in
                                case (if px_accessStore (pe_cfg env)
                                      then checkEndpointAccess (pe_cfg env) (after_stmts 1 io) (cx_User ctx) (sv_ID srv) req db
                                      else None) of
                                  Some denied \<Rightarrow>
                                    \<lparr>pr_status = 200, pr_body = Rpc denied, pr_calls = [], pr_effects = [],
                                     pr_log = logRequest (pe_cfg env) (cx_User ctx) (sv_ID srv) (rq_Method req) endpointName
                                       ''denied'' ''access denied''\<rparr>
                                | None \<Rightarrow>
                                    forward_request env (after_stmts 2 io) (cx_User ctx) srv backend (hr_RemoteAddr r) req
                                      endpointName db)))))))"

section \<open>Who may call what\<close>

text \<open>
  The access policy, apart from the code: administrators may call everything; a caller with a profile
  what the profile lists; any other caller what the tier of the endpoint allows for the access level.
\<close>

definition endpoint_tier :: "relay_db \<Rightarrow> string \<Rightarrow> string \<Rightarrow> string \<Rightarrow> string" where
  "endpoint_tier db sid ty nm = (case tier_of db sid ty nm of None \<Rightarrow> ''write'' | Some t \<Rightarrow> et_AccessTier t)"

definition may_call :: "relay_db \<Rightarrow> User \<Rightarrow> string \<Rightarrow> string \<Rightarrow> string \<Rightarrow> bool" where
  "may_call db u sid ty nm \<longleftrightarrow>
     u_Role u = ''admin'' \<or>
     (case u_ProfileID u of
        Some p \<Rightarrow> mk_perm p sid ty nm \<in> set (db_permissions db)
      | None \<Rightarrow> tierLevel (endpoint_tier db sid ty nm) \<le> tierLevel (u_AccessLevel u))"

lemma get_tier_eq: "io 0 \<Longrightarrow> AccessStore_GetTier io sid ty nm db = endpoint_tier db sid ty nm"
  by (simp add: AccessStore_GetTier_def endpoint_tier_def tier_matches_eta)

lemma check_permission_ok:
  "io 0 \<Longrightarrow> ProfileStore_CheckPermission io p sid ty nm db = Inr (mk_perm p sid ty nm \<in> set (db_permissions db))"
  using check_permission_iff [of p sid ty nm db] by (simp add: ProfileStore_CheckPermission_def)

lemma check_access_None_iff:
  assumes "io 0" "px_profileStore cfg" "extractEndpointName (rq_Method req) (rq_Params req) = (ty, nm)"
  shows "checkEndpointAccess cfg io (Some u) sid req db = None \<longleftrightarrow> ty = [] \<or> nm = [] \<or> may_call db u sid ty nm"
proof (cases "u_ProfileID u")
  case None
  with assms show ?thesis
    by (simp add: checkEndpointAccess_def may_call_def get_tier_eq AccessStore_CheckAccess_def Let_def)
next
  case (Some p)
  with assms show ?thesis
    by (simp add: checkEndpointAccess_def may_call_def check_permission_ok)
qed

text \<open>What the handler must have done when a request reached a backend.\<close>

lemma finish_calls [simp]: "pr_calls (finish_response env io user srv req en pl meta calls effs resp db) = calls"
  by (simp add: finish_response_def Let_def split: prod.split sum.split)

lemma forward_calls:
  "pr_calls (forward_request env io user srv backend remote req en db) =
     (case (if px_mwRegistry (pe_cfg env) \<and> pe_pipeline env (sv_ID srv) \<noteq> []
            then Pipeline_ProcessRequest (pe_pipeline env (sv_ID srv)) req (mw_meta user srv req en remote)
            else ([], Inr req)) of
        (_, Inl _) \<Rightarrow> [] | (_, Inr req1) \<Rightarrow> [Sent req1])"
  by (auto simp: forward_request_def Let_def split: prod.split sum.split option.split)

lemma sent_request_checked:
  assumes "Sent req1 \<in> set (pr_calls (handleMCPProxy env io ctx r db))"
  shows "\<exists>srv backend body req.
    ServerStore_GetByName (pe_enc env) io (hd (str_split (CHR ''/'') (trim_prefix (hr_Path r) ''/mcp/''))) db = Inr (Some srv) \<and>
    hr_Body r = Some body \<and> decode_request body = Some req \<and>
    (px_accessStore (pe_cfg env) \<longrightarrow>
      checkEndpointAccess (pe_cfg env) (after_stmts 1 io) (cx_User ctx) (sv_ID srv) req db = None) \<and>
    Sent req1 \<in> set (pr_calls (forward_request env (after_stmts 2 io) (cx_User ctx) srv backend (hr_RemoteAddr r) req
      (snd (extractEndpointName (rq_Method req) (rq_Params req))) db))"
  using assms
  by (auto simp: handleMCPProxy_def early_def Let_def split: if_splits sum.splits option.splits)


text \<open>The path of a request to a running server, up to the access check.\<close>

lemma handle_request_calls:
  assumes "hr_Method r = ''POST''" "hd (str_split (CHR ''/'') (trim_prefix (hr_Path r) ''/mcp/'')) = name" "name \<noteq> []"
    and "ServerStore_GetByName (pe_enc env) io name db = Inr (Some srv)" "pe_backends env (sv_ID srv) = Some backend"
    and "hr_Body r = Some body" "decode_map body = Some raw" "map_of raw ''id'' \<noteq> None" "decode_request body = Some req"
    and "px_accessStore (pe_cfg env)" "\<not> px_mwRegistry (pe_cfg env)"
  shows "checkEndpointAccess (pe_cfg env) (after_stmts 1 io) (cx_User ctx) (sv_ID srv) req db = None \<Longrightarrow>
      pr_calls (handleMCPProxy env io ctx r db) = [Sent req]"
    and "checkEndpointAccess (pe_cfg env) (after_stmts 1 io) (cx_User ctx) (sv_ID srv) req db = Some resp \<Longrightarrow>
      pr_calls (handleMCPProxy env io ctx r db) = [] \<and> pr_body (handleMCPProxy env io ctx r db) = Rpc resp"
  using assms by (simp_all add: handleMCPProxy_def Let_def forward_calls)


section \<open>Ways around the check\<close>

definition bypass_params :: string where
  "bypass_params = jtext ''{~name~:~wipe~,~Name~:0}''"

text \<open>
  The proxy reads the name of a tool case-insensitively and gives up on a member of the wrong type,
  but forwards the raw parameters. With a second member \<open>Name\<close> that is not a string, no name is read
  and the check is skipped for every caller, while a backend that reads the member \<open>name\<close> runs
  \<open>wipe\<close>.
\<close>

theorem access_check_bypass_by_name_variant:
  "extractEndpointName ''tools/call'' (Some bypass_params) = (''tool'', []) \<and>
   item_name ''name'' bypass_params = Some ''wipe'' \<and>
   checkEndpointAccess cfg io user sid
     \<lparr>rq_JSONRPC = ''2.0'', rq_ID = Some i, rq_Method = ''tools/call'', rq_Params = Some bypass_params\<rparr> db = None"
proof -
  have "decode_name ''name'' (Some bypass_params) = None" "item_name ''name'' bypass_params = Some ''wipe''"
    by code_simp+
  then show ?thesis
    by (simp add: extractEndpointName_def name_or_empty_def checkEndpointAccess_def split: option.split)
qed

text \<open>
  C35. A message without an identifier is passed to the backend as a notification before any access check:
  whoever the caller is, a backend that takes notifications gets the method and the parameters of the
  body as they are.
\<close>

theorem notifications_bypass_access_check:
  assumes "hr_Method r = ''POST''" "hd (str_split (CHR ''/'') (trim_prefix (hr_Path r) ''/mcp/'')) = name" "name \<noteq> []"
    and "ServerStore_GetByName (pe_enc env) io name db = Inr (Some srv)" "pe_backends env (sv_ID srv) = Some backend"
    and "bk_Notifier backend" "hr_Body r = Some body" "decode_map body = Some raw" "map_of raw ''id'' = None"
  shows "pr_calls (handleMCPProxy env io ctx r db) = [Notified (decode_notification body)]"
  using assms by (simp add: handleMCPProxy_def Let_def)

text \<open>
  The tier check fails open: when the database does not answer, the tier of every endpoint counts as
  \<open>write\<close>, so that a caller with access level \<open>write\<close> and no profile passes the check for an
  endpoint of tier \<open>admin\<close>.
\<close>

theorem tier_check_fails_open:
  assumes "\<not> io 0" "u_Role u = ''user''" "u_ProfileID u = None" "u_AccessLevel u = ''write''"
  shows "checkEndpointAccess cfg io (Some u) sid req db = None"
  using assms
  by (simp add: checkEndpointAccess_def AccessStore_GetTier_def AccessStore_CheckAccess_def Let_def split: prod.split)

section \<open>Examples\<close>

definition demo_backend :: Backend where
  "demo_backend = \<lparr>bk_Send = (\<lambda>q. Inr (NewResponse (rq_ID q) ''{}'')), bk_Notifier = True\<rparr>"

definition demo_proxy_env :: proxy_env where
  "demo_proxy_env = \<lparr>pe_cfg = \<lparr>px_accessStore = True, px_profileStore = True, px_requestLogs = True, px_mwRegistry = False,
     px_optimizer = False\<rparr>, pe_enc = None, pe_backends = (\<lambda>_. Some demo_backend), pe_pipeline = (\<lambda>_. []),
     pe_optimize = (\<lambda>q r m. r)\<rparr>"

definition demo_post :: "string \<Rightarrow> http_request" where
  "demo_post body = \<lparr>hr_Method = ''POST'', hr_Path = ''/mcp/files'', hr_Header = (\<lambda>_. []), hr_Query = (\<lambda>_. []),
     hr_Form = (\<lambda>_. []), hr_Cookie = (\<lambda>_. None), hr_Body = Some body, hr_RemoteAddr = []\<rparr>"

definition demo_call :: "string \<Rightarrow> string" where
  "demo_call nm = jtext (''{~id~:1,~method~:~tools/call~,~params~:{~name~:~'' @ nm @ ''~}}'')"

definition demo_req :: "string \<Rightarrow> Request" where
  "demo_req nm = \<lparr>rq_JSONRPC = [], rq_ID = Some ''1'', rq_Method = ''tools/call'',
     rq_Params = Some (jtext (''{~name~:~'' @ nm @ ''~}''))\<rparr>"

definition demo_user :: User where
  "demo_user = user_of_row demo_user_row"

lemma demo_call_parse:
  "decode_map (demo_call ''old'') = Some [(''id'', ''1''), (''method'', jtext ''~tools/call~''), (''params'', jtext ''{~name~:~old~}'')]"
  "decode_request (demo_call ''old'') = Some (demo_req ''old'')"
  "extractEndpointName (rq_Method (demo_req ''old'')) (rq_Params (demo_req ''old'')) = (''tool'', ''old'')"
  by code_simp+

lemma demo_server_found: "ServerStore_GetByName None no_faults ''files'' demo_tier_db = Inr (Some demo_server)"
  by (simp add: ServerStore_GetByName_def find_server_def open_config_def Decrypt_def demo_tier_db_def demo_server_def
      has_prefix_def encryptedPrefix_def)

lemma demo_path: "hd (str_split (CHR ''/'') (trim_prefix (hr_Path (demo_post b)) ''/mcp/'')) = ''files''"
  by (simp add: demo_post_def trim_prefix_def has_prefix_def)

lemma demo_may_call: "may_call demo_tier_db demo_user ''s1'' ''tool'' ''old''"
  by (simp add: may_call_def endpoint_tier_def demo_tier_db_def demo_tier_def tier_key_def demo_user_def user_of_row_def
      demo_user_row_def tierLevel_def)

lemma demo_server_id [simp]: "sv_ID demo_server = ''s1''"
  by (simp add: demo_server_def)

lemma demo_env_simps [simp]: "px_accessStore (pe_cfg demo_proxy_env)" "px_profileStore (pe_cfg demo_proxy_env)"
  "\<not> px_mwRegistry (pe_cfg demo_proxy_env)" "pe_enc demo_proxy_env = None" "pe_backends demo_proxy_env i = Some demo_backend"
  "hr_Method (demo_post b) = ''POST''" "hr_Body (demo_post b) = Some b" "bk_Notifier demo_backend"
  by (simp_all add: demo_proxy_env_def demo_post_def demo_backend_def)

lemma demo_sent:
  "pr_calls (handleMCPProxy demo_proxy_env no_faults \<lparr>cx_User = Some demo_user, cx_APIKey = None\<rparr>
     (demo_post (demo_call ''old'')) demo_tier_db) = [Sent (demo_req ''old'')]"
proof (rule handle_request_calls(1) [OF _ demo_path _ _ _ _ demo_call_parse(1) _ demo_call_parse(2)])
  show "ServerStore_GetByName (pe_enc demo_proxy_env) no_faults ''files'' demo_tier_db = Inr (Some demo_server)"
    using demo_server_found by simp
  show "checkEndpointAccess (pe_cfg demo_proxy_env) (after_stmts 1 no_faults)
      (cx_User \<lparr>cx_User = Some demo_user, cx_APIKey = None\<rparr>) (sv_ID demo_server) (demo_req ''old'') demo_tier_db = None"
    using check_access_None_iff [where cfg = "pe_cfg demo_proxy_env" and io = "after_stmts 1 no_faults" and
        req = "demo_req ''old''" and u = demo_user and sid = "''s1''" and db = demo_tier_db] demo_call_parse(3) demo_may_call
    by simp
qed simp_all



theorem notifications_bypass_access_check_witness:
  "pr_calls (handleMCPProxy demo_proxy_env no_faults \<lparr>cx_User = Some demo_user, cx_APIKey = None\<rparr>
     (demo_post (jtext ''{~method~:~tools/call~,~params~:{~name~:~wipe~}}'')) demo_tier_db) =
   [Notified \<lparr>nt_JSONRPC = [], nt_Method = ''tools/call'', nt_Params = Some (jtext ''{~name~:~wipe~}'')\<rparr>] \<and>
   \<not> may_call demo_tier_db demo_user ''s1'' ''tool'' ''wipe''"
proof -
  have parse: "decode_map (jtext ''{~method~:~tools/call~,~params~:{~name~:~wipe~}}'') =
      Some [(''method'', jtext ''~tools/call~''), (''params'', jtext ''{~name~:~wipe~}'')]"
    "decode_notification (jtext ''{~method~:~tools/call~,~params~:{~name~:~wipe~}}'') =
      \<lparr>nt_JSONRPC = [], nt_Method = ''tools/call'', nt_Params = Some (jtext ''{~name~:~wipe~}'')\<rparr>"
    by code_simp+
  have "\<not> may_call demo_tier_db demo_user ''s1'' ''tool'' ''wipe''"
    by (simp add: may_call_def endpoint_tier_def demo_tier_db_def demo_tier_def tier_key_def demo_user_def user_of_row_def
        demo_user_row_def tierLevel_def)
  with notifications_bypass_access_check [where env = demo_proxy_env and io = no_faults and name = "''files''" and
      db = demo_tier_db and ctx = "\<lparr>cx_User = Some demo_user, cx_APIKey = None\<rparr>" and
      r = "demo_post (jtext ''{~method~:~tools/call~,~params~:{~name~:~wipe~}}'')" and
      srv = demo_server and backend = demo_backend, OF _ demo_path _ _ _ _ _ parse(1)] demo_server_found parse(2)
  show ?thesis by simp
qed

theorem tier_check_fails_open_witness:
  "checkEndpointAccess (pe_cfg demo_proxy_env) (\<lambda>_. False) (Some demo_user) ''s1'' (demo_req ''wipe'') demo_tier_db = None"
  using tier_check_fails_open [of "\<lambda>_. False" demo_user]
  by (simp add: demo_user_def user_of_row_def demo_user_row_def)

section \<open>List responses\<close>

lemma permissions_for_server:
  "ProfileStore_GetPermissionsForServer io p sid db = Inr perms \<Longrightarrow>
     (nm \<in> set (map pp_EndpointName (filter (\<lambda>q. pp_EndpointType q = ty) perms))) \<longleftrightarrow>
     mk_perm p sid ty nm \<in> set (db_permissions db)"
proof -
  assume "ProfileStore_GetPermissionsForServer io p sid db = Inr perms"
  then have "set perms = {q \<in> set (db_permissions db). pp_ProfileID q = p \<and> pp_ServerID q = sid}"
    by (auto simp: ProfileStore_GetPermissionsForServer_def stmt_def split: if_splits)
  moreover have "q = mk_perm (pp_ProfileID q) (pp_ServerID q) (pp_EndpointType q) (pp_EndpointName q)" for q :: ProfilePermission
    by (cases q) (simp add: mk_perm_def)
  ultimately show ?thesis
    by (auto simp: image_iff) (auto simp: mk_perm_def)
qed

text \<open>
  C9. For a caller with a profile, a list response keeps exactly the items whose name the caller may
  call, in their order, and everything else of the result as it is; so what is listed is what can be
  called. An administrator's list is left alone.
\<close>

theorem filter_list_response_spec:
  assumes "io 0" "u_ProfileID u = Some p" "rs_Error r = None"
    and "list_method meth = Some (ty, listKey, nameField)"
    and "rs_Result r = Some text" "decode_map text = Some result" "map_of result listKey = Some listRaw"
    and "decode_arr listRaw = Some items"
  shows "filterListResponse io (Some r) meth (Some u) sid db =
    (if u_Role u = ''admin'' then Some r
     else Some (r\<lparr>rs_Result := Some (marshal_map (map_put listKey (marshal_arr
       (filter (\<lambda>raw. \<exists>n. item_name nameField raw = Some n \<and> may_call db u sid ty n) items)) result))\<rparr>))"
proof -
  obtain perms where perms: "ProfileStore_GetPermissionsForServer io p sid db = Inr perms"
    using assms(1) by (simp add: ProfileStore_GetPermissionsForServer_def)
  have "filter_items nameField (set (map pp_EndpointName (filter (\<lambda>q. pp_EndpointType q = ty) perms))) items =
      filter (\<lambda>raw. \<exists>n. item_name nameField raw = Some n \<and> may_call db u sid ty n) items" if "u_Role u \<noteq> ''admin''"
    unfolding filter_items_def permissions_for_server [OF perms]
    using that assms(2) by (auto simp: may_call_def intro!: filter_cong split: option.splits)
  with assms perms show ?thesis
    by (simp add: filterListResponse_def Let_def)
qed

theorem filter_list_response_spec_witness:
  "filterListResponse no_faults (Some (NewResponse (Some ''1'') (jtext ''{~tools~:[{~name~:~a~},{~name~:~b~}],~nextCursor~:~x~}'')))
     ''tools/list'' (Some (demo_user\<lparr>u_ProfileID := Some ''p1''\<rparr>)) ''s1''
     (demo_tier_db\<lparr>db_permissions := [mk_perm ''p1'' ''s1'' ''tool'' ''b'']\<rparr>) =
   Some (NewResponse (Some ''1'') (jtext ''{~nextCursor~:~x~,~tools~:[{~name~:~b~}]}''))"
proof -
  let ?text = "jtext ''{~tools~:[{~name~:~a~},{~name~:~b~}],~nextCursor~:~x~}''"
  let ?list = "jtext ''[{~name~:~a~},{~name~:~b~}]''"
  have parse: "decode_map ?text = Some [(''tools'', ?list), (''nextCursor'', jtext ''~x~'')]"
    "map_of [(''tools'', ?list), (''nextCursor'', jtext ''~x~'')] ''tools'' = Some ?list"
    "decode_arr ?list = Some [jtext ''{~name~:~a~}'', jtext ''{~name~:~b~}'']"
    "item_name ''name'' (jtext ''{~name~:~a~}'') = Some ''a''" "item_name ''name'' (jtext ''{~name~:~b~}'') = Some ''b''"
    "marshal_map (map_put ''tools'' (marshal_arr [jtext ''{~name~:~b~}''])
        [(''tools'', ?list), (''nextCursor'', jtext ''~x~'')]) = jtext ''{~nextCursor~:~x~,~tools~:[{~name~:~b~}]}''"
    by code_simp+
  have "rs_Result (NewResponse (Some ''1'') ?text) = Some ?text" "rs_Error (NewResponse (Some ''1'') ?text) = None"
    by (simp_all add: NewResponse_def)
  moreover have "list_method ''tools/list'' = Some (''tool'', ''tools'', ''name'')" by (simp add: list_method_def)
  ultimately show ?thesis
    using filter_list_response_spec [where io = no_faults and u = "demo_user\<lparr>u_ProfileID := Some ''p1''\<rparr>" and p = "''p1''" and
        r = "NewResponse (Some ''1'') ?text" and meth = "''tools/list''" and sid = "''s1''" and
        db = "demo_tier_db\<lparr>db_permissions := [mk_perm ''p1'' ''s1'' ''tool'' ''b'']\<rparr>", OF _ _ _ _ _ parse(1-3)] parse(4-6)
    by (simp add: may_call_def mk_perm_eq_iff demo_user_def user_of_row_def demo_user_row_def NewResponse_def)
qed

end
