(* ===== verification/Archive_Queue.thy ===== *)
theory Archive_Queue
  imports Server_Store Middleware_Pipeline
begin

text \<open>
  \<open>internal/store/archive_queue.go\<close> and \<open>internal/middleware/archive_dispatcher.go\<close>: the durable
  queue of archived payloads and the dispatcher that delivers them, with backoff and a circuit
  breaker. The table \<open>archive_queue\<close> has no foreign keys, so it stands alone. Its time columns hold
  whole seconds of UTC (\<open>sqliteTime\<close>); their texts compare as the times do.

  One delivery attempt takes what happens outside of the relay as an argument: the answer of the
  destination, the readings of the clock, whether the statement on the queue succeeds and whether a
  stop was requested before it.
\<close>

section \<open>The queue\<close>

definition sqliteTime :: "time \<Rightarrow> time" where
  "sqliteTime t = t div second * second"

text \<open>\<open>qi_LastError = None\<close> is NULL, read as the empty string.\<close>

record ArchiveQueueItem =
  qi_ID :: string
  qi_ServerID :: string
  qi_CreatedAt :: time
  qi_Payload :: string
  qi_URL :: string
  qi_AuthType :: string
  qi_AuthValue :: string
  qi_APIKeyHeader :: string
  qi_Status :: string
  qi_Attempts :: nat
  qi_NextAttemptAt :: time
  qi_LastAttemptAt :: "time option"
  qi_LastError :: "string option"

type_synonym archive_queue = "ArchiveQueueItem list"

text \<open>What is stored for a credential: nothing is encrypted when it is empty or no key is set.\<close>

definition stored_auth :: "ConfigEncryptor \<Rightarrow> string option \<Rightarrow> string \<Rightarrow> string res" where
  "stored_auth enc nonce v = (if v \<noteq> [] \<and> enc \<noteq> None then Encrypt enc nonce v else Inr v)"

definition insert_item :: "ArchiveQueueItem \<Rightarrow> archive_queue \<Rightarrow> archive_queue res" where
  "insert_item r q = (if sql_has (\<lambda>x. qi_ID x = qi_ID r) q then Inl UniqueViolation else Inr (q @ [r]))"

definition ArchiveQueueStore_Enqueue ::
    "ConfigEncryptor \<Rightarrow> faults \<Rightarrow> time \<Rightarrow> string option \<Rightarrow> string option \<Rightarrow> ArchiveQueueItem \<Rightarrow> archive_queue \<Rightarrow>
     archive_queue \<times> unit res" where
  "ArchiveQueueStore_Enqueue enc io now gen nonce item q =
     (case (if qi_ID item = [] then gen else Some (qi_ID item)) of
        None \<Rightarrow> (q, Inl CryptoError)
      | Some i \<Rightarrow>
          (case stored_auth enc nonce (qi_AuthValue item) of
             Inl e \<Rightarrow> (q, Inl e)
           | Inr auth \<Rightarrow>
               exec (io 0) (insert_item (item\<lparr>qi_ID := i, qi_AuthValue := auth, qi_Status := ''pending'', qi_Attempts := 0,
                 qi_CreatedAt := sqliteTime now, qi_NextAttemptAt := sqliteTime now, qi_LastAttemptAt := None,
                 qi_LastError := None\<rparr>)) q))"

definition MarkDelivered :: "bool \<Rightarrow> string \<Rightarrow> archive_queue \<Rightarrow> archive_queue" where
  "MarkDelivered ok i q = exec_ignore ok (\<lambda>q. Inr (sql_delete (\<lambda>r. qi_ID r = i) q)) q"

definition Reschedule :: "bool \<Rightarrow> time \<Rightarrow> string \<Rightarrow> time \<Rightarrow> string \<Rightarrow> archive_queue \<Rightarrow> archive_queue" where
  "Reschedule ok now i nextAttempt errMsg q =
     exec_ignore ok (\<lambda>q. Inr (sql_update (\<lambda>r. qi_ID r = i)
       (\<lambda>r. r\<lparr>qi_Attempts := qi_Attempts r + 1, qi_NextAttemptAt := sqliteTime nextAttempt,
              qi_LastAttemptAt := Some (sqliteTime now), qi_LastError := Some errMsg\<rparr>) q)) q"

definition MarkHold :: "bool \<Rightarrow> time \<Rightarrow> string \<Rightarrow> string \<Rightarrow> archive_queue \<Rightarrow> archive_queue" where
  "MarkHold ok now i errMsg q =
     exec_ignore ok (\<lambda>q. Inr (sql_update (\<lambda>r. qi_ID r = i)
       (\<lambda>r. r\<lparr>qi_Status := ''hold'', qi_Attempts := qi_Attempts r + 1,
              qi_LastAttemptAt := Some (sqliteTime now), qi_LastError := Some errMsg\<rparr>) q)) q"

definition due :: "time \<Rightarrow> ArchiveQueueItem \<Rightarrow> bool" where
  "due now r \<longleftrightarrow> qi_Status r = ''pending'' \<and> qi_NextAttemptAt r \<le> sqliteTime now"

text \<open>Rows whose credential cannot be decrypted are put on hold and left out of the batch.\<close>

fun read_items ::
    "ConfigEncryptor \<Rightarrow> faults \<Rightarrow> time \<Rightarrow> ArchiveQueueItem list \<Rightarrow> archive_queue \<Rightarrow> archive_queue \<times> ArchiveQueueItem list" where
  "read_items enc io now [] q = (q, [])"
| "read_items enc io now (r # rs) q =
     (if qi_AuthValue r \<noteq> [] \<and> enc \<noteq> None then
        (case Decrypt enc (qi_AuthValue r) of
           Inl _ \<Rightarrow>
             read_items enc (after_stmts 1 io) now rs (MarkHold (io 0) now (qi_ID r) ''decrypt failed'' q)
         | Inr v \<Rightarrow>
             (case read_items enc io now rs q of (q', items) \<Rightarrow> (q', r\<lparr>qi_AuthValue := v\<rparr> # items)))
      else (case read_items enc io now rs q of (q', items) \<Rightarrow> (q', r # items)))"

definition DequeueDue ::
    "ConfigEncryptor \<Rightarrow> faults \<Rightarrow> time \<Rightarrow> int \<Rightarrow> archive_queue \<Rightarrow> archive_queue \<times> ArchiveQueueItem list res" where
  "DequeueDue enc io now limit q =
     (if \<not> io 0 then (q, Inl DriverError)
      else
        let rows = sql_limit limit (sql_order qi_NextAttemptAt (sql_order qi_CreatedAt (sql_select (due now) q))) in
        (case read_items enc (after_stmts 1 io) now rows q of (q', items) \<Rightarrow> (q', Inr items)))"

definition ArchiveQueueStore_RetryHeld :: "faults \<Rightarrow> time \<Rightarrow> archive_queue \<Rightarrow> archive_queue \<times> nat res" where
  "ArchiveQueueStore_RetryHeld io now q =
     (if \<not> io 0 then (q, Inl DriverError)
      else (sql_update (\<lambda>r. qi_Status r = ''hold'')
              (\<lambda>r. r\<lparr>qi_Status := ''pending'', qi_NextAttemptAt := sqliteTime now, qi_Attempts := 0\<rparr>) q,
            Inr (sql_count (\<lambda>r. qi_Status r = ''hold'') q)))"

definition ArchiveQueueStore_RewriteHeldDelivery ::
    "ConfigEncryptor \<Rightarrow> faults \<Rightarrow> time \<Rightarrow> string option \<Rightarrow> string \<Rightarrow> string \<Rightarrow> string \<Rightarrow> string \<Rightarrow> archive_queue \<Rightarrow>
     archive_queue \<times> nat res" where
  "ArchiveQueueStore_RewriteHeldDelivery enc io now nonce url authType authValue apiKeyHeader q =
     (case stored_auth enc nonce authValue of
        Inl e \<Rightarrow> (q, Inl e)
      | Inr auth \<Rightarrow>
          if \<not> io 0 then (q, Inl DriverError)
          else
            let p = (\<lambda>r. (qi_Status r = ''hold'' \<or> qi_Status r = ''pending'') \<and> qi_URL r \<noteq> url) in
            (sql_update p (\<lambda>r. r\<lparr>qi_URL := url, qi_AuthType := authType, qi_AuthValue := auth, qi_APIKeyHeader := apiKeyHeader,
               qi_Attempts := 0, qi_LastError := Some [], qi_NextAttemptAt := sqliteTime now\<rparr>) q,
             Inr (sql_count p q)))"

definition ArchiveQueueStore_ClearHeld :: "faults \<Rightarrow> archive_queue \<Rightarrow> archive_queue \<times> nat res" where
  "ArchiveQueueStore_ClearHeld io q =
     (if \<not> io 0 then (q, Inl DriverError)
      else (sql_delete (\<lambda>r. qi_Status r = ''hold'') q, Inr (sql_count (\<lambda>r. qi_Status r = ''hold'') q)))"

record ArchiveQueueStatus =
  qs_PendingCount :: nat
  qs_HoldCount :: nat
  qs_TotalCount :: nat
  qs_LastError :: string
  qs_LastErrorAt :: "time option"

definition empty_status :: ArchiveQueueStatus where
  "empty_status = \<lparr>qs_PendingCount = 0, qs_HoldCount = 0, qs_TotalCount = 0, qs_LastError = [], qs_LastErrorAt = None\<rparr>"

definition queue_counts :: "archive_queue \<Rightarrow> ArchiveQueueStatus" where
  "queue_counts q =
     empty_status\<lparr>qs_PendingCount := sql_count (\<lambda>r. qi_Status r = ''pending'') q,
       qs_HoldCount := sql_count (\<lambda>r. qi_Status r = ''hold'') q, qs_TotalCount := length q\<rparr>"

text \<open>The row with the latest error; in descending order NULL comes last.\<close>

definition attempt_rank :: "ArchiveQueueItem \<Rightarrow> int" where
  "attempt_rank r = (case qi_LastAttemptAt r of None \<Rightarrow> -1 | Some t \<Rightarrow> t)"

definition ArchiveQueueStore_Status :: "faults \<Rightarrow> archive_queue \<Rightarrow> ArchiveQueueStatus res" where
  "ArchiveQueueStore_Status io q =
     (if \<not> io 0 \<or> \<not> io 1 then Inl DriverError
      else Inr (case sql_order_desc attempt_rank (sql_select (\<lambda>r. qi_LastError r \<noteq> None \<and> qi_LastError r \<noteq> Some []) q) of
        [] \<Rightarrow> queue_counts q
      | r # _ \<Rightarrow> (queue_counts q)\<lparr>qs_LastError := the (qi_LastError r), qs_LastErrorAt := qi_LastAttemptAt r\<rparr>))"

definition ArchiveQueueStore_StatusForServer :: "faults \<Rightarrow> string \<Rightarrow> archive_queue \<Rightarrow> ArchiveQueueStatus res" where
  "ArchiveQueueStore_StatusForServer io sid q =
     (if io 0 then Inr (queue_counts (sql_select (\<lambda>r. qi_ServerID r = sid) q)) else Inl DriverError)"

text \<open>
  \<open>Prune\<close> binds the cutoff as a time; its text, with fraction and zone, is longer than a stored
  one of the same second and so comes after it.
\<close>

definition ArchiveQueueStore_Prune :: "faults \<Rightarrow> time \<Rightarrow> time \<Rightarrow> archive_queue \<Rightarrow> archive_queue \<times> nat res" where
  "ArchiveQueueStore_Prune io now olderThan q =
     (if \<not> io 0 then (q, Inl DriverError)
      else
        let p = (\<lambda>r. qi_CreatedAt r \<le> sqliteTime (now - olderThan)) in
        (sql_delete p q, Inr (sql_count p q)))"

section \<open>The dispatcher\<close>

definition BackoffSchedule :: "time list" where
  "BackoffSchedule = [0, 15 * second, 1 * minute, 5 * minute, 15 * minute, 1 * hour, 6 * hour]"

definition cbPauseDurations :: "time list" where
  "cbPauseDurations = [1 * minute, 5 * minute, 15 * minute]"

definition cbFailThreshold :: nat where "cbFailThreshold = 5"
definition drainBatchSize :: int where "drainBatchSize = 50"

datatype cb_state = cbClosed | cbOpen | cbHalfOpen

text \<open>The breaker, and whether a wake-up is waiting in the channel of capacity one.\<close>

record ArchiveDispatcher =
  ad_consecutiveFails :: nat
  ad_cbState :: cb_state
  ad_cbOpenedAt :: time
  ad_cbPauseLevel :: nat
  ad_poll :: bool

definition NewArchiveDispatcher :: ArchiveDispatcher where
  "NewArchiveDispatcher =
     \<lparr>ad_consecutiveFails = 0, ad_cbState = cbClosed, ad_cbOpenedAt = 0, ad_cbPauseLevel = 0, ad_poll = False\<rparr>"

definition Wake :: "ArchiveDispatcher \<Rightarrow> ArchiveDispatcher" where
  "Wake d = d\<lparr>ad_poll := True\<rparr>"

definition EnqueueWithServer ::
    "ConfigEncryptor \<Rightarrow> faults \<Rightarrow> time \<Rightarrow> string option \<Rightarrow> string option \<Rightarrow> string \<Rightarrow> ArchiveConfig \<Rightarrow> string \<Rightarrow>
     ArchiveDispatcher \<times> archive_queue \<Rightarrow> (ArchiveDispatcher \<times> archive_queue) \<times> unit res" where
  "EnqueueWithServer enc io now gen nonce payload cfg serverID = (\<lambda>(d, q).
     let item = \<lparr>qi_ID = [], qi_ServerID = serverID, qi_CreatedAt = 0, qi_Payload = payload, qi_URL = ac_URL cfg,
           qi_AuthType = ac_AuthType cfg, qi_AuthValue = ac_AuthValue cfg,
           qi_APIKeyHeader = (if ac_APIKeyHeader cfg = [] then ''X-API-Key'' else ac_APIKeyHeader cfg), qi_Status = [],
           qi_Attempts = 0, qi_NextAttemptAt = 0, qi_LastAttemptAt = None, qi_LastError = None\<rparr> in
     case ArchiveQueueStore_Enqueue enc io now gen nonce item q of
       (q', Inl e) \<Rightarrow> ((d, q'), Inl e)
     | (q', Inr _) \<Rightarrow> ((Wake d, q'), Inr ()))"

definition ArchiveDispatcher_Enqueue ::
    "ConfigEncryptor \<Rightarrow> faults \<Rightarrow> time \<Rightarrow> string option \<Rightarrow> string option \<Rightarrow> string \<Rightarrow> ArchiveConfig \<Rightarrow>
     ArchiveDispatcher \<times> archive_queue \<Rightarrow> (ArchiveDispatcher \<times> archive_queue) \<times> unit res" where
  "ArchiveDispatcher_Enqueue enc io now gen nonce payload cfg = EnqueueWithServer enc io now gen nonce payload cfg []"

datatype send_outcome = BadRequest string | NetworkError string | HTTPStatus nat

record send_env =
  se_outcome :: send_outcome
  se_now :: time
  se_after :: time
  se_io :: bool
  se_stop :: bool

definition isTransient :: "nat \<Rightarrow> bool" where
  "isTransient statusCode \<longleftrightarrow> statusCode \<ge> 500 \<or> statusCode = 408 \<or> statusCode = 429"

definition nextAttemptTime :: "time \<Rightarrow> nat \<Rightarrow> time" where
  "nextAttemptTime now currentAttempts =
     (let idx = currentAttempts + 1;
          idx' = (if idx \<ge> length BackoffSchedule then length BackoffSchedule - 1 else idx) in
      now + BackoffSchedule ! idx')"

definition sendOne :: "send_env \<Rightarrow> ArchiveQueueItem \<Rightarrow> archive_queue \<Rightarrow> archive_queue \<times> bool" where
  "sendOne e item q =
     (case se_outcome e of
        BadRequest err \<Rightarrow> (MarkHold (se_io e) (se_now e) (qi_ID item) (''invalid request: '' @ err) q, False)
      | NetworkError err \<Rightarrow>
          (Reschedule (se_io e) (se_now e) (qi_ID item) (nextAttemptTime (se_now e) (qi_Attempts item))
             (''network error: '' @ err) q, False)
      | HTTPStatus code \<Rightarrow>
          if code < 300 then (MarkDelivered (se_io e) (qi_ID item) q, True)
          else if isTransient code then
            (Reschedule (se_io e) (se_now e) (qi_ID item) (nextAttemptTime (se_now e) (qi_Attempts item))
               (''HTTP '' @ show_nat code) q, False)
          else (MarkHold (se_io e) (se_now e) (qi_ID item) (''HTTP '' @ show_nat code) q, False))"

definition circuit_event :: "string \<Rightarrow> string \<Rightarrow> MiddlewareEvent" where
  "circuit_event ty summary =
     \<lparr>me_ID = [], me_Timestamp = 0, me_ServerID = [], me_Middleware = ''archive'', me_EventType = ty, me_Summary = summary,
      me_RequestMethod = [], me_EndpointName = [], me_UserID = []\<rparr>"

text \<open>What the breaker makes of one attempt; the flag says that the drain stops there.\<close>

definition after_send :: "time \<Rightarrow> bool \<Rightarrow> ArchiveDispatcher \<Rightarrow> ArchiveDispatcher \<times> MiddlewareEvent list \<times> bool" where
  "after_send now ok d =
     (if ok then
        (let d1 = d\<lparr>ad_consecutiveFails := 0\<rparr> in
         if ad_cbState d = cbHalfOpen then
           (d1\<lparr>ad_cbState := cbClosed, ad_cbPauseLevel := 0\<rparr>,
            [circuit_event ''circuit_closed'' ''archive delivery recovered, circuit breaker closed''], False)
         else (d1, [], False))
      else
        (let d1 = d\<lparr>ad_consecutiveFails := ad_consecutiveFails d + 1\<rparr> in
         if ad_cbState d = cbHalfOpen then
           (d1\<lparr>ad_cbState := cbOpen, ad_cbOpenedAt := now,
               ad_cbPauseLevel := (if ad_cbPauseLevel d < length cbPauseDurations - 1 then ad_cbPauseLevel d + 1
                                   else ad_cbPauseLevel d)\<rparr>, [], True)
         else if ad_consecutiveFails d1 \<ge> cbFailThreshold then
           (d1\<lparr>ad_cbState := cbOpen, ad_cbOpenedAt := now\<rparr>,
            [circuit_event ''circuit_open'' (''archive delivery failing, circuit breaker opened after '' @
               show_nat (ad_consecutiveFails d1) @ '' failures'')], True)
         else (d1, [], False)))"

record drain_run =
  dr_disp :: ArchiveDispatcher
  dr_queue :: archive_queue
  dr_sent :: "(ArchiveQueueItem \<times> send_outcome) list"
  dr_events :: "MiddlewareEvent list"

fun drain_items ::
    "(nat \<Rightarrow> send_env) \<Rightarrow> ArchiveQueueItem list \<Rightarrow> ArchiveDispatcher \<Rightarrow> archive_queue \<Rightarrow> drain_run" where
  "drain_items env [] d q = \<lparr>dr_disp = d, dr_queue = q, dr_sent = [], dr_events = []\<rparr>"
| "drain_items env (item # items) d q =
     (if se_stop (env 0) then \<lparr>dr_disp = d, dr_queue = q, dr_sent = [], dr_events = []\<rparr>
      else
        let (q1, ok) = sendOne (env 0) item q;
            (d1, evs, stop) = after_send (se_after (env 0)) ok d;
            rest = (if stop then \<lparr>dr_disp = d1, dr_queue = q1, dr_sent = [], dr_events = []\<rparr>
                    else drain_items (\<lambda>k. env (Suc k)) items d1 q1) in
        rest\<lparr>dr_sent := (item, se_outcome (env 0)) # dr_sent rest, dr_events := evs @ dr_events rest\<rparr>)"

definition check_circuit :: "time \<Rightarrow> ArchiveDispatcher \<Rightarrow> ArchiveDispatcher" where
  "check_circuit now d =
     (if ad_cbState d = cbOpen then
        let pauseIdx = (if ad_cbPauseLevel d \<ge> length cbPauseDurations then length cbPauseDurations - 1 else ad_cbPauseLevel d) in
        if now - ad_cbOpenedAt d \<ge> cbPauseDurations ! pauseIdx then d\<lparr>ad_cbState := cbHalfOpen\<rparr> else d
      else d)"

text \<open>\<open>io\<close> are the statements of the dequeue; \<open>env\<close> what happens at each attempt.\<close>

definition drainDue ::
    "ConfigEncryptor \<Rightarrow> faults \<Rightarrow> time \<Rightarrow> (nat \<Rightarrow> send_env) \<Rightarrow> ArchiveDispatcher \<Rightarrow> archive_queue \<Rightarrow> drain_run" where
  "drainDue enc io now env d q =
     (let d1 = check_circuit now d in
      if ad_cbState d1 = cbOpen then \<lparr>dr_disp = d1, dr_queue = q, dr_sent = [], dr_events = []\<rparr>
      else case DequeueDue enc io now drainBatchSize q of
        (q1, Inl _) \<Rightarrow> \<lparr>dr_disp = d1, dr_queue = q1, dr_sent = [], dr_events = []\<rparr>
      | (q1, Inr items) \<Rightarrow> drain_items env items d1 q1)"

definition ResetCircuit :: "ArchiveDispatcher \<Rightarrow> ArchiveDispatcher" where
  "ResetCircuit d = Wake (d\<lparr>ad_cbState := cbClosed, ad_cbPauseLevel := 0, ad_consecutiveFails := 0\<rparr>)"

definition ArchiveDispatcher_RetryHeld ::
    "faults \<Rightarrow> time \<Rightarrow> ArchiveDispatcher \<times> archive_queue \<Rightarrow> (ArchiveDispatcher \<times> archive_queue) \<times> nat res" where
  "ArchiveDispatcher_RetryHeld io now = (\<lambda>(d, q).
     case ArchiveQueueStore_RetryHeld io now q of
       (q', Inl e) \<Rightarrow> ((d, q'), Inl e)
     | (q', Inr n) \<Rightarrow> ((ResetCircuit d, q'), Inr n))"

definition ArchiveDispatcher_RewriteHeldDelivery ::
    "ConfigEncryptor \<Rightarrow> faults \<Rightarrow> time \<Rightarrow> string option \<Rightarrow> ArchiveConfig \<Rightarrow> archive_queue \<Rightarrow> archive_queue \<times> nat res" where
  "ArchiveDispatcher_RewriteHeldDelivery enc io now nonce cfg q =
     ArchiveQueueStore_RewriteHeldDelivery enc io now nonce (ac_URL cfg) (ac_AuthType cfg) (ac_AuthValue cfg) (ac_APIKeyHeader cfg) q"

definition ArchiveDispatcher_ClearHeld :: "faults \<Rightarrow> archive_queue \<Rightarrow> archive_queue \<times> nat res" where
  "ArchiveDispatcher_ClearHeld io q = ArchiveQueueStore_ClearHeld io q"

definition test_payload :: string where
  "test_payload = jtext ''{~version~:~v1~,~source~:~arc_relay~,~phase~:~test~,~meta~:{~server_name~:~connectivity_test~}}''"

text \<open>\<open>SendTest\<close>: the answer of the destination is the argument; the error texts are left out.\<close>

definition SendTest :: "archive_env \<Rightarrow> ArchiveConfig \<Rightarrow> send_outcome \<Rightarrow> ArchiveDispatcher \<Rightarrow> ArchiveDispatcher \<times> nat \<times> bool" where
  "SendTest env cfg outcome d =
     (case (if ac_NaClRecipientKey cfg \<noteq> [] then map_option Some (ae_decode_key env (ac_NaClRecipientKey cfg)) else Some None) of
        None \<Rightarrow> (d, 0, False)
      | Some key \<Rightarrow>
          (case (case key of None \<Rightarrow> Some test_payload | Some k \<Rightarrow> ae_seal env k test_payload) of
             None \<Rightarrow> (d, 0, False)
           | Some _ \<Rightarrow>
               (case outcome of
                  HTTPStatus code \<Rightarrow>
                    if code \<ge> 300 then (d, code, False)
                    else (if ad_cbState d = cbHalfOpen \<or> ad_cbState d = cbOpen
                          then d\<lparr>ad_cbState := cbClosed, ad_cbPauseLevel := 0, ad_consecutiveFails := 0\<rparr> else d, code, True)
                | _ \<Rightarrow> (d, 0, False))))"

definition ArchiveDispatcher_Status :: "faults \<Rightarrow> ArchiveDispatcher \<Rightarrow> archive_queue \<Rightarrow> cb_state \<times> ArchiveQueueStatus" where
  "ArchiveDispatcher_Status io d q =
     (ad_cbState d, case ArchiveQueueStore_Status io q of Inl _ \<Rightarrow> empty_status | Inr s \<Rightarrow> s)"

section \<open>The queue keeps its keys\<close>

definition queue_wf :: "archive_queue \<Rightarrow> bool" where
  "queue_wf q \<longleftrightarrow> distinct (map qi_ID q)"

lemma queue_stmt_wf [simp]:
  "queue_wf q \<Longrightarrow> queue_wf (MarkDelivered ok i q)"
  "queue_wf q \<Longrightarrow> queue_wf (Reschedule ok now i t e q)"
  "queue_wf q \<Longrightarrow> queue_wf (MarkHold ok now i e q)"
  by (auto simp: queue_wf_def MarkDelivered_def Reschedule_def MarkHold_def map_sql_update
      intro!: exec_ignore_pres [where P = "\<lambda>q. distinct (map qi_ID q)"] distinct_map_sql_delete)

lemma insert_item_wf: "queue_wf q \<Longrightarrow> insert_item r q = Inr q' \<Longrightarrow> queue_wf q'"
  by (fastforce simp: queue_wf_def insert_item_def sql_has_iff split: if_splits)

lemma enqueue_wf: "queue_wf q \<Longrightarrow> queue_wf (fst (ArchiveQueueStore_Enqueue enc io now gen nonce item q))"
proof -
  assume q: "queue_wf q"
  then have "queue_wf (fst (exec ok (insert_item r) q))" for ok r
    by (rule exec_pres) (rule insert_item_wf [OF q])
  with q show ?thesis by (simp add: ArchiveQueueStore_Enqueue_def split: option.split sum.split)
qed

lemma sendOne_wf: "queue_wf q \<Longrightarrow> queue_wf (fst (sendOne e item q))"
  by (simp add: sendOne_def split: send_outcome.split)

lemma read_items_pres:
  assumes "\<And>q ok i e. P q \<Longrightarrow> P (MarkHold ok now i e q)"
  shows "P q \<Longrightarrow> P (fst (read_items enc io now rs q))"
  by (induction rs arbitrary: io q) (simp_all add: assms case_prod_beta split: sum.split)

lemma read_items_wf: "queue_wf q \<Longrightarrow> queue_wf (fst (read_items enc io now rs q))"
  by (rule read_items_pres) simp_all

section \<open>Payloads are kept until delivered\<close>

text \<open>The same message: identifier, payload and destination.\<close>

definition same_msg :: "ArchiveQueueItem \<Rightarrow> ArchiveQueueItem \<Rightarrow> bool" where
  "same_msg r s \<longleftrightarrow> qi_ID r = qi_ID s \<and> qi_Payload r = qi_Payload s \<and> qi_URL r = qi_URL s"

lemma same_msg_refl [simp]: "same_msg r r"
  by (simp add: same_msg_def)

lemma same_msg_trans: "same_msg r s \<Longrightarrow> same_msg s t \<Longrightarrow> same_msg r t"
  by (simp add: same_msg_def)

definition kept :: "ArchiveQueueItem \<Rightarrow> archive_queue \<Rightarrow> bool" where
  "kept r q \<longleftrightarrow> (\<exists>s \<in> set q. same_msg s r)"

lemma kept_update: "kept r q \<Longrightarrow> (\<And>s. same_msg (f s) s) \<Longrightarrow> kept r (exec_ignore ok (\<lambda>q. Inr (sql_update p f q)) q)"
proof -
  assume k: "kept r q" and f: "\<And>s. same_msg (f s) s"
  from k obtain s where s: "s \<in> set q" "same_msg s r" by (auto simp: kept_def)
  have "(if p s then f s else s) \<in> set (sql_update p f q)" unfolding set_sql_update using s(1) by (rule imageI)
  moreover have "same_msg (if p s then f s else s) r" using s(2) f [of s] same_msg_trans [of "f s" s r] by simp
  ultimately have "kept r (sql_update p f q)" unfolding kept_def by blast
  with k show ?thesis by (simp add: exec_ignore_def stmt_def)
qed

lemma kept_delete: "kept r q \<Longrightarrow> qi_ID r \<noteq> i \<Longrightarrow> kept r (MarkDelivered ok i q)"
  by (auto simp: kept_def MarkDelivered_def exec_ignore_def stmt_def same_msg_def)

lemma kept_hold: "kept r q \<Longrightarrow> kept r (MarkHold ok now i e q)"
  unfolding MarkHold_def by (rule kept_update) (simp_all add: same_msg_def)

lemma kept_reschedule: "kept r q \<Longrightarrow> kept r (Reschedule ok now i t e q)"
  unfolding Reschedule_def by (rule kept_update) (simp_all add: same_msg_def)

definition accepted :: "send_outcome \<Rightarrow> bool" where
  "accepted oc \<longleftrightarrow> (\<exists>code < 300. oc = HTTPStatus code)"

lemma sendOne_ok: "snd (sendOne e item q) \<longleftrightarrow> accepted (se_outcome e)"
  by (auto simp: sendOne_def accepted_def split: send_outcome.split)

lemma sendOne_kept:
  "kept r q \<Longrightarrow> kept r (fst (sendOne e item q)) \<or> accepted (se_outcome e) \<and> qi_ID item = qi_ID r"
  by (auto simp: sendOne_def accepted_def kept_hold kept_reschedule kept_delete split: send_outcome.split)

lemma read_items_kept: "kept r q \<Longrightarrow> kept r (fst (read_items enc io now rs q))"
  by (rule read_items_pres) (simp_all add: kept_hold)

lemma read_items_from: "item \<in> set (snd (read_items enc io now rs q)) \<Longrightarrow> \<exists>r \<in> set rs. same_msg item r"
proof (induction rs arbitrary: io q)
  case (Cons r rs)
  have "same_msg (r\<lparr>qi_AuthValue := v\<rparr>) r" for v by (simp add: same_msg_def)
  with Cons show ?case
    by (auto simp: case_prod_beta split: if_splits sum.splits)
qed simp

lemma drain_items_kept:
  "kept r q \<Longrightarrow> kept r (dr_queue (drain_items env items d q)) \<or>
     (\<exists>item oc. (item, oc) \<in> set (dr_sent (drain_items env items d q)) \<and> accepted oc \<and> qi_ID item = qi_ID r)"
proof (induction items arbitrary: env d q)
  case (Cons item items)
  obtain q1 ok where s: "sendOne (env 0) item q = (q1, ok)" by fastforce
  obtain d1 evs stop where a: "after_send (se_after (env 0)) ok d = (d1, evs, stop)" using prod_cases3 by blast
  from sendOne_kept [OF Cons.prems, of "env 0" item] s
  consider "kept r q1" | "accepted (se_outcome (env 0))" "qi_ID item = qi_ID r" by auto
  then show ?case
  proof cases
    case 1
    with Cons.IH [of q1 "\<lambda>k. env (Suc k)" d1] Cons.prems show ?thesis by (auto simp: s a Let_def)
  next
    case 2
    with Cons.prems show ?thesis by (auto simp: s a Let_def)
  qed
qed simp

lemma drain_items_sent: "(item, oc) \<in> set (dr_sent (drain_items env items d q)) \<Longrightarrow> item \<in> set items"
  by (induction items arbitrary: env d q) (auto simp: Let_def split: if_splits prod.splits)

lemma dequeue_from:
  "DequeueDue enc io now n q = (q', Inr items) \<Longrightarrow> item \<in> set items \<Longrightarrow> \<exists>r \<in> set q. same_msg item r \<and> due now r"
proof -
  assume "DequeueDue enc io now n q = (q', Inr items)" "item \<in> set items"
  then have "item \<in> set (snd (read_items enc (after_stmts 1 io) now (sql_limit n (sql_order qi_NextAttemptAt
      (sql_order qi_CreatedAt (sql_select (due now) q)))) q))"
    by (auto simp: DequeueDue_def Let_def split: if_splits prod.splits)
  from read_items_from [OF this] obtain r where "same_msg item r" "r \<in> set (sql_limit n (sql_order qi_NextAttemptAt
      (sql_order qi_CreatedAt (sql_select (due now) q))))" by blast
  moreover from this(2) have "r \<in> set q \<and> due now r"
    by (auto simp: sql_limit_def split: if_splits dest: in_set_takeD)
  ultimately show ?thesis by blast
qed

lemma drain_sent_from:
  "(item, oc) \<in> set (dr_sent (drainDue enc io now env d q)) \<Longrightarrow> \<exists>r \<in> set q. same_msg item r \<and> due now r"
  by (auto simp: drainDue_def Let_def dest!: drain_items_sent dequeue_from split: if_splits prod.splits sum.splits)

text \<open>
  C14. No archived payload is lost: whatever the destination answers, whichever statements fail and
  whenever the drain is stopped, each queued message is still queued after a drain, with its payload and
  destination, unless it was sent in this drain and the destination accepted it (a status below 300).
\<close>

theorem payload_kept_until_delivered:
  assumes "queue_wf q" "r \<in> set q"
  shows "(\<exists>s \<in> set (dr_queue (drainDue enc io now env d q)). same_msg s r) \<or>
    (\<exists>item code. (item, HTTPStatus code) \<in> set (dr_sent (drainDue enc io now env d q)) \<and> code < 300 \<and> same_msg item r)"
proof -
  have "kept r q" unfolding kept_def using assms(2) by (auto intro: bexI [of _ r])
  then have "kept r (dr_queue (drainDue enc io now env d q)) \<or>
      (\<exists>item oc. (item, oc) \<in> set (dr_sent (drainDue enc io now env d q)) \<and> accepted oc \<and> qi_ID item = qi_ID r)"
    using read_items_kept [of r q] drain_items_kept [of r]
    by (auto simp: drainDue_def DequeueDue_def Let_def split: if_splits prod.splits sum.splits) (metis fst_conv)+
  moreover have "same_msg item r" if "(item, oc) \<in> set (dr_sent (drainDue enc io now env d q))" "qi_ID item = qi_ID r" for item oc
  proof -
    from drain_sent_from [OF that(1)] obtain s where s: "s \<in> set q" "same_msg item s" by blast
    with that(2) have "s = r" using assms by (auto simp: queue_wf_def same_msg_def dest: distinct_key_eq)
    with s show ?thesis by simp
  qed
  ultimately show ?thesis by (fastforce simp: kept_def accepted_def)
qed

definition demo_item :: "string \<Rightarrow> ArchiveQueueItem" where
  "demo_item i = \<lparr>qi_ID = i, qi_ServerID = ''s1'', qi_CreatedAt = 0, qi_Payload = ''{}'', qi_URL = ''https://a.example'',
     qi_AuthType = ''none'', qi_AuthValue = [], qi_APIKeyHeader = ''X-API-Key'', qi_Status = ''pending'', qi_Attempts = 0,
     qi_NextAttemptAt = 0, qi_LastAttemptAt = None, qi_LastError = None\<rparr>"

definition demo_send :: "nat \<Rightarrow> send_env" where
  "demo_send k = \<lparr>se_outcome = HTTPStatus (if k = 0 then 200 else 503), se_now = 0, se_after = 0, se_io = True, se_stop = False\<rparr>"

theorem payload_kept_until_delivered_witness:
  "\<exists>s \<in> set (dr_queue (drainDue None no_faults 0 demo_send NewArchiveDispatcher [demo_item ''a'', demo_item ''b''])).
     same_msg s (demo_item ''b'')"
proof -
  have "dr_sent (drainDue None no_faults 0 demo_send NewArchiveDispatcher [demo_item ''a'', demo_item ''b'']) =
      [(demo_item ''a'', HTTPStatus 200), (demo_item ''b'', HTTPStatus 503)]"
    by code_simp
  moreover have "queue_wf [demo_item ''a'', demo_item ''b'']" "\<not> same_msg (demo_item ''a'') (demo_item ''b'')" by code_simp+
  ultimately show ?thesis
    using payload_kept_until_delivered [of "[demo_item ''a'', demo_item ''b'']" "demo_item ''b''" None no_faults 0 demo_send NewArchiveDispatcher]
    by auto
qed

section \<open>Backoff\<close>

lemma backoff_values: "0 < i \<Longrightarrow> i < 7 \<Longrightarrow> 15 * second \<le> BackoffSchedule ! i \<and> BackoffSchedule ! i \<le> 6 * hour"
  by (auto simp: BackoffSchedule_def duration_defs nth_Cons split: nat.split)

lemma backoff_mono: "i \<le> j \<Longrightarrow> j < 7 \<Longrightarrow> BackoffSchedule ! i \<le> BackoffSchedule ! j"
  by (auto simp: BackoffSchedule_def duration_defs nth_Cons split: nat.split)

lemma length_BackoffSchedule [simp]: "length BackoffSchedule = 7"
  by (simp add: BackoffSchedule_def)

lemma nextAttemptTime_eq: "nextAttemptTime now n = now + BackoffSchedule ! min (Suc n) 6"
  by (auto simp: nextAttemptTime_def Let_def min_def)

text \<open>
  The retry delay is at least 15 seconds and at most six hours, never shrinks as the attempts go on,
  and a transient failure leaves the message pending and scheduled in exactly that window (to the second):
  a retry is never immediate and never further than six hours away.
\<close>

theorem backoff_bounds:
  assumes "se_outcome e = NetworkError err \<or> se_outcome e = HTTPStatus code \<and> isTransient code"
    and "se_io e" "item \<in> set q"
  shows "\<exists>s \<in> set (fst (sendOne e item q)). qi_ID s = qi_ID item \<and> qi_Status s = qi_Status item \<and>
      qi_Attempts s = qi_Attempts item + 1 \<and>
      se_now e + 14 * second < qi_NextAttemptAt s \<and> qi_NextAttemptAt s \<le> se_now e + 6 * hour \<and>
      (\<forall>n. nextAttemptTime (se_now e) n \<le> nextAttemptTime (se_now e) (n + 1))"
proof -
  let ?t = "nextAttemptTime (se_now e) (qi_Attempts item)"
  let ?p = "\<lambda>r. qi_ID r = qi_ID item"
  have bounds: "se_now e + 15 * second \<le> ?t" "?t \<le> se_now e + 6 * hour"
    using backoff_values [of "min (Suc (qi_Attempts item)) 6"] by (simp_all add: nextAttemptTime_eq)
  have trunc: "?t - second < sqliteTime ?t" "sqliteTime ?t \<le> ?t"
    using div_mult_mod_eq [of ?t second] pos_mod_bound [of second ?t] pos_mod_sign [of second ?t]
    by (simp_all add: sqliteTime_def second_def)
  from assms(1) obtain msg where "fst (sendOne e item q) = Reschedule (se_io e) (se_now e) (qi_ID item) ?t msg q"
    by (auto simp: sendOne_def isTransient_def split: send_outcome.split)
  then have "item\<lparr>qi_Attempts := qi_Attempts item + 1, qi_NextAttemptAt := sqliteTime ?t,
      qi_LastAttemptAt := Some (sqliteTime (se_now e)), qi_LastError := Some msg\<rparr> \<in> set (fst (sendOne e item q))"
    using assms(2,3) by (auto simp: Reschedule_def exec_ignore_def)
  moreover have "\<forall>n. nextAttemptTime (se_now e) n \<le> nextAttemptTime (se_now e) (n + 1)"
    using backoff_mono by (simp add: nextAttemptTime_eq)
  ultimately show ?thesis using bounds trunc by (intro bexI) auto
qed

theorem backoff_bounds_witness:
  "\<exists>s \<in> set (fst (sendOne (demo_send 1) (demo_item ''b'') [demo_item ''b''])). qi_ID s = ''b'' \<and> qi_Attempts s = 1 \<and>
     14 * second < qi_NextAttemptAt s \<and> qi_NextAttemptAt s \<le> 6 * hour"
  using backoff_bounds [of "demo_send 1" "[]" 503 "demo_item ''b''" "[demo_item ''b'']"]
  by (auto simp: demo_send_def demo_item_def isTransient_def)

section \<open>The circuit breaker\<close>

text \<open>
  The breaker as a state machine: the steps of the delivery loop (a check before each drain, the result
  of each attempt) and of the administrator (test delivery, reset, wake-ups), in any order. The loop is
  the only one that opens the breaker and stops when it does, so no attempt is made while it is open.
\<close>

inductive cb_step :: "ArchiveDispatcher \<Rightarrow> ArchiveDispatcher \<Rightarrow> bool" where
  check: "cb_step d (check_circuit now d)"
| attempt: "ad_cbState d \<noteq> cbOpen \<Longrightarrow> cb_step d (fst (after_send now ok d))"
| reset: "cb_step d (ResetCircuit d)"
| test: "cb_step d (fst (SendTest env cfg outcome d))"
| wake: "cb_step d (Wake d)"
| poll: "cb_step d (d\<lparr>ad_poll := False\<rparr>)"

inductive_cases cb_stepE: "cb_step d d'"

definition breaker_inv :: "ArchiveDispatcher \<Rightarrow> bool" where
  "breaker_inv d \<longleftrightarrow> ad_cbPauseLevel d < length cbPauseDurations \<and>
     (if ad_cbState d = cbClosed then ad_consecutiveFails d < cbFailThreshold \<and> ad_cbPauseLevel d = 0
      else cbFailThreshold \<le> ad_consecutiveFails d)"

lemma length_cbPauseDurations [simp]: "length cbPauseDurations = 3"
  by (simp add: cbPauseDurations_def)

lemma check_inv: "breaker_inv d \<Longrightarrow> breaker_inv (check_circuit now d)"
  by (simp add: breaker_inv_def check_circuit_def Let_def)

lemma attempt_inv: "breaker_inv d \<Longrightarrow> ad_cbState d \<noteq> cbOpen \<Longrightarrow> breaker_inv (fst (after_send now ok d))"
  by (cases "ad_cbState d") (auto simp: breaker_inv_def after_send_def Let_def cbFailThreshold_def)

lemma test_inv: "breaker_inv d \<Longrightarrow> breaker_inv (fst (SendTest env cfg outcome d))"
  by (auto simp: breaker_inv_def SendTest_def cbFailThreshold_def split: option.split send_outcome.split)

lemma poll_inv [simp]: "breaker_inv (d\<lparr>ad_poll := b\<rparr>) = breaker_inv d"
  by (simp add: breaker_inv_def)

lemma reset_inv: "breaker_inv (ResetCircuit d)"
  by (simp add: ResetCircuit_def Wake_def) (simp add: breaker_inv_def cbFailThreshold_def)

lemma cb_step_inv: "cb_step d d' \<Longrightarrow> breaker_inv d \<Longrightarrow> breaker_inv d'"
  by (erule cb_stepE) (simp_all add: check_inv attempt_inv test_inv reset_inv poll_inv Wake_def)

lemma breaker_reachable: "cb_step\<^sup>*\<^sup>* NewArchiveDispatcher d \<Longrightarrow> breaker_inv d"
proof (induction rule: rtranclp_induct)
  case base
  show ?case by (simp add: breaker_inv_def NewArchiveDispatcher_def cbFailThreshold_def)
next
  case (step d d')
  then show ?case by (simp add: cb_step_inv)
qed

text \<open>A drain is a sequence of such steps.\<close>

lemma attempt_stops: "after_send now ok d = (d', evs, stop) \<Longrightarrow> ad_cbState d \<noteq> cbOpen \<Longrightarrow> \<not> stop \<Longrightarrow> ad_cbState d' \<noteq> cbOpen"
  by (auto simp: after_send_def Let_def split: if_splits)

lemma drain_items_steps:
  "ad_cbState d \<noteq> cbOpen \<Longrightarrow> cb_step\<^sup>*\<^sup>* d (dr_disp (drain_items env items d q))"
proof (induction items arbitrary: env d q)
  case (Cons item items)
  obtain q1 ok where s: "sendOne (env 0) item q = (q1, ok)" by fastforce
  obtain d1 evs stop where a: "after_send (se_after (env 0)) ok d = (d1, evs, stop)" using prod_cases3 by blast
  from Cons.prems a have "cb_step d d1" by (metis attempt fst_conv)
  moreover have "cb_step\<^sup>*\<^sup>* d1 (dr_disp (drain_items (\<lambda>k. env (Suc k)) items d1 q1))" if "\<not> stop"
    using Cons.IH attempt_stops [OF a Cons.prems that] by blast
  ultimately show ?case by (simp add: s a Let_def converse_rtranclp_into_rtranclp)
qed simp

lemma drain_steps: "cb_step\<^sup>*\<^sup>* d (dr_disp (drainDue enc io now env d q))"
proof -
  have "cb_step d (check_circuit now d)" by (rule check)
  then show ?thesis
    using drain_items_steps [of "check_circuit now d" env]
    by (auto simp: drainDue_def Let_def split: prod.split sum.split intro: converse_rtranclp_into_rtranclp)
qed

text \<open>How far a run of failures gets.\<close>

lemma failing_drain_length:
  assumes "\<And>k. \<not> accepted (se_outcome (env k))" "ad_cbState d = cbClosed" "ad_consecutiveFails d < cbFailThreshold"
  shows "length (dr_sent (drain_items env items d q)) \<le> cbFailThreshold - ad_consecutiveFails d"
  using assms
proof (induction items arbitrary: env d q)
  case (Cons item items)
  obtain q1 ok where s: "sendOne (env 0) item q = (q1, ok)" by fastforce
  with sendOne_ok [of "env 0" item q] Cons.prems(1) have ok: "\<not> ok" by simp
  define d1 where "d1 = d\<lparr>ad_consecutiveFails := ad_consecutiveFails d + 1\<rparr>"
  show ?case
  proof (cases "ad_consecutiveFails d1 \<ge> cbFailThreshold")
    case True
    with Cons.prems(2,3) ok s show ?thesis by (auto simp: after_send_def d1_def Let_def)
  next
    case False
    with Cons.IH [of "\<lambda>k. env (Suc k)" d1 q1] Cons.prems have
      "length (dr_sent (drain_items (\<lambda>k. env (Suc k)) items d1 q1)) \<le> cbFailThreshold - ad_consecutiveFails d1"
      by (simp add: d1_def)
    with False Cons.prems(2,3) ok s show ?thesis by (auto simp: after_send_def d1_def Let_def)
  qed
qed simp

lemma probe_length:
  assumes "\<not> accepted (se_outcome (env 0))" "ad_cbState d = cbHalfOpen"
  shows "length (dr_sent (drain_items env items d q)) \<le> 1"
proof (cases items)
  case (Cons item rest)
  obtain q1 ok where s: "sendOne (env 0) item q = (q1, ok)" by fastforce
  with sendOne_ok [of "env 0" item q] assms(1) have "\<not> ok" by simp
  with s assms(2) Cons show ?thesis by (simp add: after_send_def Let_def)
qed simp

text \<open>
  C15. Whatever the history of the breaker, a drain against a destination that accepts nothing makes at
  most five attempts; none while the breaker is open and its pause (between one and fifteen minutes) has
  not passed; and at most one, the probe, once it has. Afterwards the breaker is again in a state that
  satisfies its invariant: closed with fewer than five failures in a row, or paused after five or more.
\<close>

theorem breaker_limits_traffic:
  assumes "cb_step\<^sup>*\<^sup>* NewArchiveDispatcher d" "\<And>k. \<not> accepted (se_outcome (env k))"
  shows "length (dr_sent (drainDue enc io now env d q)) \<le>
      (if ad_cbState d = cbClosed then cbFailThreshold - ad_consecutiveFails d
       else if ad_cbState d = cbOpen \<and> now - ad_cbOpenedAt d < cbPauseDurations ! ad_cbPauseLevel d then 0 else 1) \<and>
    1 * minute \<le> cbPauseDurations ! ad_cbPauseLevel d \<and> cbPauseDurations ! ad_cbPauseLevel d \<le> 15 * minute \<and>
    breaker_inv (dr_disp (drainDue enc io now env d q))"
proof -
  have inv: "breaker_inv d" by (rule breaker_reachable [OF assms(1)])
  then have lvl: "ad_cbPauseLevel d < 3" by (simp add: breaker_inv_def)
  have "length (dr_sent (drainDue enc io now env d q)) \<le>
      (if ad_cbState d = cbClosed then cbFailThreshold - ad_consecutiveFails d
       else if ad_cbState d = cbOpen \<and> now - ad_cbOpenedAt d < cbPauseDurations ! ad_cbPauseLevel d then 0 else 1)"
  proof (cases "ad_cbState d")
    case cbClosed
    with inv failing_drain_length [of env d, OF assms(2)] show ?thesis
      by (auto simp: drainDue_def check_circuit_def breaker_inv_def Let_def split: prod.split sum.split)
  next
    case cbOpen
    with lvl probe_length [of env "d\<lparr>ad_cbState := cbHalfOpen\<rparr>", OF assms(2)] show ?thesis
      by (auto simp: drainDue_def check_circuit_def Let_def split: prod.split sum.split)
  next
    case cbHalfOpen
    with probe_length [of env d, OF assms(2)] show ?thesis
      by (auto simp: drainDue_def check_circuit_def Let_def split: prod.split sum.split)
  qed
  moreover from lvl have "1 * minute \<le> cbPauseDurations ! ad_cbPauseLevel d \<and> cbPauseDurations ! ad_cbPauseLevel d \<le> 15 * minute"
    by (auto simp: cbPauseDurations_def duration_defs less_Suc_eq numeral_3_eq_3)
  moreover have "breaker_inv (dr_disp (drainDue enc io now env d q))"
    using breaker_reachable rtranclp_trans [OF assms(1) drain_steps] by blast
  ultimately show ?thesis by blast
qed

theorem breaker_limits_traffic_witness:
  "length (dr_sent (drainDue None no_faults 0 (\<lambda>k. demo_send (Suc k)) NewArchiveDispatcher
     (map (\<lambda>k. demo_item (show_nat k)) [0..<9]))) \<le> 5"
proof -
  have "\<not> accepted (se_outcome (demo_send (Suc k)))" for k
    by (simp add: demo_send_def accepted_def)
  from breaker_limits_traffic [OF rtranclp.rtrancl_refl this, where enc = None and io = no_faults and now = 0 and
      q = "map (\<lambda>k. demo_item (show_nat k)) [0..<9]"]
  show ?thesis by (simp add: NewArchiveDispatcher_def cbFailThreshold_def)
qed

section \<open>Delivery\<close>

definition opens :: "ConfigEncryptor \<Rightarrow> ArchiveQueueItem \<Rightarrow> bool" where
  "opens enc r \<longleftrightarrow> qi_AuthValue r = [] \<or> enc = None \<or> (\<exists>v. Decrypt enc (qi_AuthValue r) = Inr v)"

lemma read_items_opens:
  "list_all (opens enc) rs \<Longrightarrow> \<exists>items. read_items enc io now rs q = (q, items) \<and> map qi_ID items = map qi_ID rs"
proof (induction rs arbitrary: io)
  case (Cons r rs)
  then obtain items where "read_items enc io now rs q = (q, items)" "map qi_ID items = map qi_ID rs"
    by auto
  with Cons.prems show ?case by (auto simp: opens_def)
qed simp

definition delivered :: "ArchiveQueueItem list \<Rightarrow> archive_queue \<Rightarrow> archive_queue" where
  "delivered items q = sql_delete (\<lambda>r. qi_ID r \<in> qi_ID ` set items) q"

lemma healthy_drain_items:
  assumes "\<And>k. accepted (se_outcome (env k)) \<and> se_io (env k) \<and> \<not> se_stop (env k)"
  shows "dr_queue (drain_items env items d q) = delivered items q \<and>
    map fst (dr_sent (drain_items env items d q)) = items"
  using assms
proof (induction items arbitrary: env d q)
  case Nil
  show ?case by (simp add: delivered_def sql_delete_def)
next
  case (Cons item items)
  let ?q = "sql_delete (\<lambda>r. qi_ID r = qi_ID item) q"
  from Cons.prems [of 0] have s: "sendOne (env 0) item q = (?q, True)"
    by (auto simp: sendOne_def accepted_def MarkDelivered_def exec_ignore_def)
  obtain d1 evs where a: "after_send (se_after (env 0)) True d = (d1, evs, False)"
    by (cases "ad_cbState d = cbHalfOpen") (auto simp: after_send_def Let_def)
  have "delivered items ?q = delivered (item # items) q"
    by (auto simp: delivered_def sql_delete_def intro!: filter_cong)
  with Cons.IH [of "\<lambda>k. env (Suc k)" d1 ?q] Cons.prems show ?case
    by (simp add: s a Let_def)
qed

lemma filter_not_taken: "distinct xs \<Longrightarrow> filter (\<lambda>r. r \<notin> set (take n xs)) xs = drop n xs"
proof -
  assume d: "distinct xs"
  have "filter (\<lambda>r. r \<notin> set (take n xs)) (take n xs @ drop n xs) = drop n xs"
    using set_take_disj_set_drop_if_distinct [OF d, of n n] unfolding filter_append by (auto simp: filter_id_conv)
  then show ?thesis by simp
qed

lemma count_delivered:
  assumes "queue_wf q" "items = take n (sql_order qi_NextAttemptAt (sql_order qi_CreatedAt (sql_select p q)))"
  shows "sql_count p (delivered items q) = sql_count p q - n"
proof -
  let ?b = "sql_order qi_NextAttemptAt (sql_order qi_CreatedAt (sql_select p q))"
  have b: "mset ?b = mset (sql_select p q)" by (simp add: sql_order_def)
  have dist: "distinct (map qi_ID q)" using assms(1) by (simp add: queue_wf_def)
  have "sql_select p (delivered items q) = filter (\<lambda>r. qi_ID r \<notin> qi_ID ` set items) (sql_select p q)"
    by (simp add: delivered_def sql_select_def sql_delete_def) (metis (no_types, lifting) filter_filter filter_cong)
  also have "\<dots> = filter (\<lambda>r. r \<notin> set items) (sql_select p q)"
  proof (rule filter_cong [OF refl])
    fix r assume "r \<in> set (sql_select p q)"
    moreover have "set items \<subseteq> set q" using assms(2) by (auto dest!: in_set_takeD)
    ultimately show "(qi_ID r \<notin> qi_ID ` set items) = (r \<notin> set items)"
      using dist inj_on_image_mem_iff [of qi_ID "set q" r "set items"] by (simp add: distinct_map)
  qed
  finally have "mset (sql_select p (delivered items q)) = filter_mset (\<lambda>r. r \<notin> set items) (mset ?b)"
    using b by (simp flip: mset_filter)
  moreover have "distinct ?b"
    using dist b by (metis distinct_filter distinct_map mset_eq_imp_distinct_iff sql_select_def)
  then have "filter (\<lambda>r. r \<notin> set items) ?b = drop n ?b"
    unfolding assms(2) by (rule filter_not_taken)
  ultimately have "mset (sql_select p (delivered items q)) = mset (drop n ?b)" by (simp flip: mset_filter)
  then have "length (sql_select p (delivered items q)) = length (sql_select p q) - n"
    by (metis b length_drop mset_eq_length)
  then show ?thesis by (simp add: sql_count_def sql_select_def)
qed

lemma delivered_ids: "map qi_ID items = map qi_ID rs \<Longrightarrow> delivered items q = delivered rs q"
  by (metis delivered_def list.set_map)

lemma delivered_subset: "set (delivered items q) \<subseteq> set q" "queue_wf q \<Longrightarrow> queue_wf (delivered items q)"
  by (auto simp: delivered_def queue_wf_def distinct_map_sql_delete)

lemma healthy_breaker:
  "(\<And>k. accepted (se_outcome (env k))) \<Longrightarrow> ad_cbState d \<noteq> cbOpen \<Longrightarrow> ad_cbState (dr_disp (drain_items env items d q)) \<noteq> cbOpen"
proof (induction items arbitrary: env d q)
  case (Cons item items)
  obtain q1 where s: "sendOne (env 0) item q = (q1, True)"
    using sendOne_ok [of "env 0" item q] Cons.prems(1) by (cases "sendOne (env 0) item q") auto
  obtain d1 evs where a: "after_send (se_after (env 0)) True d = (d1, evs, False)" "ad_cbState d1 \<noteq> cbOpen"
    using Cons.prems(2) by (cases "ad_cbState d = cbHalfOpen") (auto simp: after_send_def Let_def)
  with Cons.IH [of "\<lambda>k. env (Suc k)" d1 q1] Cons.prems show ?case by (simp add: s Let_def)
qed simp

definition healthy :: "(nat \<Rightarrow> send_env) \<Rightarrow> bool" where
  "healthy env \<longleftrightarrow> (\<forall>k. accepted (se_outcome (env k)) \<and> se_io (env k) \<and> \<not> se_stop (env k))"

lemma healthy_drain:
  assumes "healthy env" "queue_wf q" "list_all (opens enc) q" "ad_cbState (check_circuit now d) \<noteq> cbOpen"
  shows "\<exists>rs. rs = take 50 (sql_order qi_NextAttemptAt (sql_order qi_CreatedAt (sql_select (due now) q))) \<and>
    dr_queue (drainDue enc no_faults now env d q) = delivered rs q \<and>
    ad_cbState (dr_disp (drainDue enc no_faults now env d q)) \<noteq> cbOpen"
proof -
  let ?rs = "take 50 (sql_order qi_NextAttemptAt (sql_order qi_CreatedAt (sql_select (due now) q)))"
  have "list_all (opens enc) ?rs" using assms(3) by (auto simp: list_all_iff dest!: in_set_takeD)
  then obtain items where items: "read_items enc (after_stmts 1 no_faults) now ?rs q = (q, items)" "map qi_ID items = map qi_ID ?rs"
    using read_items_opens by blast
  from items(1) have run: "drainDue enc no_faults now env d q = drain_items env items (check_circuit now d) q"
    using assms(4) by (simp add: drainDue_def DequeueDue_def Let_def sql_limit_def drainBatchSize_def)
  have "dr_queue (drain_items env items (check_circuit now d) q) = delivered ?rs q"
    using healthy_drain_items [of env items] assms(1) delivered_ids [OF items(2)] by (simp add: healthy_def)
  moreover have "ad_cbState (dr_disp (drain_items env items (check_circuit now d) q)) \<noteq> cbOpen"
    using healthy_breaker [of env "check_circuit now d" items q] assms(1,4) by (simp add: healthy_def)
  ultimately show ?thesis using run by simp
qed

text \<open>The delivery loop, woken \<open>n\<close> times.\<close>

fun drains :: "ConfigEncryptor \<Rightarrow> time \<Rightarrow> (nat \<Rightarrow> send_env) \<Rightarrow> nat \<Rightarrow> ArchiveDispatcher \<Rightarrow> archive_queue \<Rightarrow> archive_queue" where
  "drains enc now env 0 d q = q"
| "drains enc now env (Suc n) d q =
     (let run = drainDue enc no_faults now env d q in drains enc now env n (dr_disp run) (dr_queue run))"

text \<open>
  C16. Delivery makes progress: once the destination accepts requests again and the breaker is not in
  its pause, \<open>n\<close> drains deliver \<open>50 * n\<close> due messages, so a backlog of due messages is gone after
  as many drains as it has batches of fifty.
\<close>

theorem healthy_destination_drains_queue:
  assumes "healthy env" "queue_wf q" "list_all (opens enc) q" "ad_cbState (check_circuit now d) \<noteq> cbOpen"
  shows "sql_count (due now) (drains enc now env n d q) = sql_count (due now) q - 50 * n"
  using assms(2-)
proof (induction n arbitrary: d q)
  case (Suc n)
  define run where "run = drainDue enc no_faults now env d q"
  from healthy_drain [OF assms(1) Suc.prems] obtain rs where
    rs: "rs = take 50 (sql_order qi_NextAttemptAt (sql_order qi_CreatedAt (sql_select (due now) q)))"
    and q: "dr_queue run = delivered rs q" and d: "ad_cbState (dr_disp run) \<noteq> cbOpen"
    unfolding run_def by blast
  have "list_all (opens enc) (delivered rs q)"
    using Suc.prems(2) delivered_subset(1) [of rs q] by (auto simp: list_all_iff)
  moreover from d have "ad_cbState (check_circuit now (dr_disp run)) \<noteq> cbOpen" by (simp add: check_circuit_def)
  ultimately have "sql_count (due now) (drains enc now env n (dr_disp run) (delivered rs q)) =
      sql_count (due now) (delivered rs q) - 50 * n"
    using Suc.IH delivered_subset(2) Suc.prems(1) by blast
  with q count_delivered [OF Suc.prems(1) rs] show ?case by (simp add: run_def [symmetric] Let_def)
qed simp

theorem healthy_destination_drains_queue_witness:
  "sql_count (due 0) (drains None 0 (\<lambda>_. demo_send 0) 1 NewArchiveDispatcher [demo_item ''a'', demo_item ''b'']) = 0"
proof -
  have "healthy (\<lambda>_. demo_send 0)" by (simp add: healthy_def demo_send_def accepted_def)
  moreover have "queue_wf [demo_item ''a'', demo_item ''b'']" "list_all (opens None) [demo_item ''a'', demo_item ''b'']"
    "ad_cbState (check_circuit 0 NewArchiveDispatcher) \<noteq> cbOpen" "sql_count (due 0) [demo_item ''a'', demo_item ''b''] = 2"
    by (simp_all add: queue_wf_def demo_item_def opens_def check_circuit_def NewArchiveDispatcher_def sql_count_def due_def sqliteTime_def)
  ultimately show ?thesis
    using healthy_destination_drains_queue [of "\<lambda>_. demo_send 0" "[demo_item ''a'', demo_item ''b'']" None 0
        NewArchiveDispatcher 1] by simp
qed

text \<open>
  The rewrite of queued deliveries skips every row that already points at the new URL: when only the
  credential was changed, held rows keep the old one.
\<close>

theorem rewrite_keeps_stale_credential:
  assumes "r \<in> set q" "qi_URL r = ac_URL cfg"
  shows "r \<in> set (fst (ArchiveDispatcher_RewriteHeldDelivery enc io now nonce cfg q))"
  using assms
  by (auto simp: ArchiveDispatcher_RewriteHeldDelivery_def ArchiveQueueStore_RewriteHeldDelivery_def Let_def split: sum.split)

theorem rewrite_keeps_stale_credential_witness:
  "(demo_item ''a'')\<lparr>qi_Status := ''hold'', qi_AuthValue := ''old''\<rparr> \<in>
     set (fst (ArchiveDispatcher_RewriteHeldDelivery None no_faults 0 None
       \<lparr>ac_URL = ''https://a.example'', ac_AuthType = ''bearer'', ac_AuthValue = ''new'', ac_APIKeyHeader = [],
        ac_Include = [], ac_NaClRecipientKey = []\<rparr>
       [(demo_item ''a'')\<lparr>qi_Status := ''hold'', qi_AuthValue := ''old''\<rparr>]))"
  by (rule rewrite_keeps_stale_credential) (simp_all add: demo_item_def)

end
