(* ===== verification/Rate_Limit.thy ===== *)
theory Rate_Limit
  imports Complex_Main Auth_Middleware
begin

text \<open>
  The two throttles: the token bucket per user in front of the API and MCP routes
  (\<open>internal/server/ratelimit.go\<close>) and the sliding window per client address of the web forms
  (\<open>ipRateLimiter\<close> and \<open>clientIP\<close> of \<open>internal/web/handlers.go\<close>). The bucket's
  \<open>float64\<close> arithmetic is exact rational arithmetic here. Both are used under their mutex, so a run
  is a sequence of calls with non-decreasing readings of the monotonic clock.
\<close>

section \<open>Token bucket\<close>

record rateBucket =
  rb_tokens :: rat
  rb_lastFill :: time

record RateLimiter =
  rl_buckets :: "string \<Rightarrow> rateBucket option"
  rl_rate :: rat
  rl_burst :: nat

definition NewRateLimiter :: "rat \<Rightarrow> nat \<Rightarrow> RateLimiter" where
  "NewRateLimiter rate burst = \<lparr>rl_buckets = (\<lambda>_. None), rl_rate = rate, rl_burst = burst\<rparr>"

text \<open>\<open>Duration.Seconds\<close>\<close>

definition seconds :: "time \<Rightarrow> rat" where
  "seconds t = of_int t / of_int second"

definition RateLimiter_allow :: "time \<Rightarrow> string \<Rightarrow> RateLimiter \<Rightarrow> RateLimiter \<times> bool" where
  "RateLimiter_allow now key rl =
     (let b = (case rl_buckets rl key of None \<Rightarrow> \<lparr>rb_tokens = of_nat (rl_burst rl), rb_lastFill = now\<rparr> | Some b \<Rightarrow> b);
          filled = rb_tokens b + seconds (now - rb_lastFill b) * rl_rate rl;
          tokens = (if filled > of_nat (rl_burst rl) then of_nat (rl_burst rl) else filled);
          put = (\<lambda>t. rl\<lparr>rl_buckets := (rl_buckets rl)(key \<mapsto> \<lparr>rb_tokens = t, rb_lastFill = now\<rparr>)\<rparr>) in
      if tokens < 1 then (put tokens, False) else (put (tokens - 1), True))"

definition RateLimiter_cleanup :: "time \<Rightarrow> RateLimiter \<Rightarrow> RateLimiter" where
  "RateLimiter_cleanup now rl =
     rl\<lparr>rl_buckets := (\<lambda>key. case rl_buckets rl key of
        None \<Rightarrow> None
      | Some b \<Rightarrow> if rb_lastFill b < now - 10 * minute then None else Some b)\<rparr>"

definition RateLimiter_Middleware :: "time \<Rightarrow> auth_ctx \<Rightarrow> RateLimiter \<Rightarrow> RateLimiter \<times> denial option" where
  "RateLimiter_Middleware now ctx rl =
     (case cx_User ctx of
        None \<Rightarrow> (rl, None)
      | Some u \<Rightarrow>
          (case RateLimiter_allow now (u_ID u) rl of
             (rl', False) \<Rightarrow> (rl', Some (429, ''rate limit exceeded''))
           | (rl', True) \<Rightarrow> (rl', None)))"

section \<open>Sliding window\<close>

record ipRateLimiter =
  ip_attempts :: "string \<Rightarrow> time list"
  ip_window :: time
  ip_max :: int

definition newIPRateLimiter :: "time \<Rightarrow> int \<Rightarrow> ipRateLimiter" where
  "newIPRateLimiter window mx = \<lparr>ip_attempts = (\<lambda>_. []), ip_window = window, ip_max = mx\<rparr>"

definition newLoginRateLimiter :: ipRateLimiter where
  "newLoginRateLimiter = newIPRateLimiter (15 * minute) 5"

definition ip_allow :: "time \<Rightarrow> string \<Rightarrow> ipRateLimiter \<Rightarrow> ipRateLimiter \<times> bool" where
  "ip_allow now ip rl =
     (let filtered = filter (\<lambda>t. now - ip_window rl < t) (ip_attempts rl ip) in
      (rl\<lparr>ip_attempts := (ip_attempts rl)(ip := filtered)\<rparr>, int (length filtered) < ip_max rl))"

definition ip_record :: "time \<Rightarrow> string \<Rightarrow> ipRateLimiter \<Rightarrow> ipRateLimiter" where
  "ip_record now ip rl = rl\<lparr>ip_attempts := (ip_attempts rl)(ip := ip_attempts rl ip @ [now])\<rparr>"

text \<open>An address without entries and one with the empty list are the same to every operation.\<close>

definition ip_cleanup :: "time \<Rightarrow> ipRateLimiter \<Rightarrow> ipRateLimiter" where
  "ip_cleanup now rl = rl\<lparr>ip_attempts := (\<lambda>ip. filter (\<lambda>t. now - ip_window rl < t) (ip_attempts rl ip))\<rparr>"

text \<open>
  \<open>net.SplitHostPort\<close> is \<open>split\<close>; \<open>None\<close> is its error.
\<close>

definition clientIP :: "(string \<Rightarrow> string option) \<Rightarrow> http_request \<Rightarrow> string" where
  "clientIP split r =
     (let fwd = hr_Header r ''X-Forwarded-For'' in
      if fwd \<noteq> [] then hd (str_split2 (CHR '','') fwd)
      else (case split (hr_RemoteAddr r) of None \<Rightarrow> hr_RemoteAddr r | Some host \<Rightarrow> host))"

section \<open>The token bucket bounds the rate\<close>

datatype bucket_call = Allow string | Cleanup

fun bucket_run :: "(time \<times> bucket_call) list \<Rightarrow> RateLimiter \<Rightarrow> RateLimiter" where
  "bucket_run [] rl = rl"
| "bucket_run ((now, Allow key) # cs) rl = bucket_run cs (fst (RateLimiter_allow now key rl))"
| "bucket_run ((now, Cleanup) # cs) rl = bucket_run cs (RateLimiter_cleanup now rl)"

text \<open>How many calls for a key were allowed.\<close>

fun granted :: "string \<Rightarrow> (time \<times> bucket_call) list \<Rightarrow> RateLimiter \<Rightarrow> nat" where
  "granted k [] rl = 0"
| "granted k ((now, Allow key) # cs) rl =
     (case RateLimiter_allow now key rl of
        (rl', ok) \<Rightarrow> (if ok \<and> key = k then 1 else 0) + granted k cs rl')"
| "granted k ((now, Cleanup) # cs) rl = granted k cs (RateLimiter_cleanup now rl)"

text \<open>What a key could have at a time: a missing bucket counts as a full one.\<close>

definition credit :: "string \<Rightarrow> time \<Rightarrow> RateLimiter \<Rightarrow> rat" where
  "credit k now rl =
     (case rl_buckets rl k of
        None \<Rightarrow> of_nat (rl_burst rl)
      | Some b \<Rightarrow> min (of_nat (rl_burst rl)) (rb_tokens b + seconds (now - rb_lastFill b) * rl_rate rl))"

definition bucket_ok :: "time \<Rightarrow> RateLimiter \<Rightarrow> bool" where
  "bucket_ok now rl \<longleftrightarrow> 0 \<le> rl_rate rl \<and> of_nat (rl_burst rl) \<le> rl_rate rl * 600 \<and>
     (\<forall>k b. rl_buckets rl k = Some b \<longrightarrow> 0 \<le> rb_tokens b \<and> rb_tokens b \<le> of_nat (rl_burst rl) \<and> rb_lastFill b \<le> now)"

lemma seconds_add: "seconds (a + b) = seconds a + seconds b" "seconds (a - b) = seconds a - seconds b"
  by (simp_all add: seconds_def add_divide_distrib diff_divide_distrib)

lemma seconds_mono: "a \<le> b \<Longrightarrow> seconds a \<le> seconds b"
  by (simp add: seconds_def second_def divide_right_mono)

lemma fill_nonneg: "a \<le> b \<Longrightarrow> 0 \<le> r \<Longrightarrow> 0 \<le> seconds (b - a) * r"
  by (simp add: seconds_def second_def)

lemma allow_config [simp]:
  "rl_rate (fst (RateLimiter_allow now key rl)) = rl_rate rl" "rl_burst (fst (RateLimiter_allow now key rl)) = rl_burst rl"
  by (simp_all add: RateLimiter_allow_def Let_def)

lemma cleanup_config [simp]:
  "rl_rate (RateLimiter_cleanup now rl) = rl_rate rl" "rl_burst (RateLimiter_cleanup now rl) = rl_burst rl"
  by (simp_all add: RateLimiter_cleanup_def)

text \<open>One call: the credit pays for a granted request and grows with the time that passes.\<close>

lemma credit_later:
  assumes "bucket_ok now rl" "now \<le> later"
  shows "credit k later rl \<le> credit k now rl + seconds (later - now) * rl_rate rl"
proof -
  have nn: "0 \<le> seconds (later - now) * rl_rate rl"
    using assms by (simp add: bucket_ok_def fill_nonneg)
  show ?thesis
  proof (cases "rl_buckets rl k")
    case None
    with nn show ?thesis by (simp add: credit_def)
  next
    case (Some b)
    have "seconds (later - rb_lastFill b) = seconds (now - rb_lastFill b) + seconds (later - now)" by (simp add: seconds_add)
    with Some nn show ?thesis by (simp add: credit_def algebra_simps min_def)
  qed
qed

lemma allow_credit:
  assumes "bucket_ok now rl" "now \<le> t"
  shows "(if snd (RateLimiter_allow t key rl) \<and> key = k then 1 else 0) + credit k t (fst (RateLimiter_allow t key rl)) = credit k t rl"
    and "bucket_ok t (fst (RateLimiter_allow t key rl))"
proof -
  have rate: "0 \<le> seconds (t - rb_lastFill b) * rl_rate rl" if "rl_buckets rl key = Some b" for b
    using assms that by (intro fill_nonneg) (fastforce simp: bucket_ok_def)+
  have [simp]: "seconds 0 = 0" by (simp add: seconds_def)
  show "(if snd (RateLimiter_allow t key rl) \<and> key = k then 1 else 0) + credit k t (fst (RateLimiter_allow t key rl)) = credit k t rl"
    by (auto simp: RateLimiter_allow_def credit_def Let_def min_def split: option.split)
  show "bucket_ok t (fst (RateLimiter_allow t key rl))"
  proof -
    have "0 \<le> rb_tokens b \<and> rb_tokens b \<le> of_nat (rl_burst rl) \<and> rb_lastFill b \<le> t" (is ?ok)
      if b: "rl_buckets (fst (RateLimiter_allow t key rl)) k = Some b" for k b
    proof (cases "k = key")
      case True
      with b rate assms show ?ok
        by (cases "rl_buckets rl key") (fastforce simp: RateLimiter_allow_def bucket_ok_def Let_def split: if_splits)+
    next
      case False
      with b have "rl_buckets rl k = Some b" by (auto simp: RateLimiter_allow_def Let_def split: if_splits)
      with assms show ?ok by (fastforce simp: bucket_ok_def)
    qed
    with assms(1) show ?thesis by (simp add: bucket_ok_def)
  qed
qed

lemma cleanup_credit:
  assumes "bucket_ok now rl" "now \<le> t"
  shows "credit k t (RateLimiter_cleanup t rl) = credit k t rl" "bucket_ok t (RateLimiter_cleanup t rl)"
proof -
  have "of_nat (rl_burst rl) \<le> rb_tokens b + seconds (t - rb_lastFill b) * rl_rate rl"
    if "rl_buckets rl k = Some b" "rb_lastFill b < t - 10 * minute" for b
  proof -
    have "seconds (10 * minute) \<le> seconds (t - rb_lastFill b)" using that(2) by (intro seconds_mono) simp
    then have "600 \<le> seconds (t - rb_lastFill b)" by (simp add: seconds_def duration_defs)
    then have "600 * rl_rate rl \<le> seconds (t - rb_lastFill b) * rl_rate rl"
      using assms(1) by (intro mult_right_mono) (auto simp: bucket_ok_def)
    moreover have "0 \<le> rb_tokens b" "of_nat (rl_burst rl) \<le> rl_rate rl * 600" using assms(1) that(1) by (auto simp: bucket_ok_def)
    ultimately show ?thesis by simp
  qed
  then show "credit k t (RateLimiter_cleanup t rl) = credit k t rl"
    by (auto simp: credit_def RateLimiter_cleanup_def min_def split: option.split)
  show "bucket_ok t (RateLimiter_cleanup t rl)"
    using assms by (fastforce simp: bucket_ok_def RateLimiter_cleanup_def split: option.splits if_splits)
qed

lemma granted_credit:
  assumes "bucket_ok now rl" "sorted (map fst cs)" "\<forall>c \<in> set cs. now \<le> fst c \<and> fst c \<le> finish" "now \<le> finish"
  shows "of_nat (granted k cs rl) \<le> credit k now rl + seconds (finish - now) * rl_rate rl"
  using assms
proof (induction cs arbitrary: now rl)
  case Nil
  have "0 \<le> seconds (finish - now) * rl_rate rl"
    using Nil by (simp add: bucket_ok_def fill_nonneg)
  moreover have "0 \<le> credit k now rl"
  proof (cases "rl_buckets rl k")
    case (Some b)
    then have "0 \<le> rb_tokens b" "rb_lastFill b \<le> now" "0 \<le> rl_rate rl" using Nil(1) by (auto simp: bucket_ok_def)
    moreover from this(2,3) have "0 \<le> seconds (now - rb_lastFill b) * rl_rate rl" by (rule fill_nonneg)
    ultimately show ?thesis using Some by (simp add: credit_def)
  qed (simp add: credit_def)
  ultimately show ?case by simp
next
  case (Cons c cs)
  obtain t call where c: "c = (t, call)" by fastforce
  have t: "now \<le> t" "t \<le> finish" and rest: "\<forall>c \<in> set cs. t \<le> fst c \<and> fst c \<le> finish" "sorted (map fst cs)"
    using Cons.prems c by auto
  have later: "credit k t rl + seconds (finish - t) * rl_rate rl \<le> credit k now rl + seconds (finish - now) * rl_rate rl"
    using credit_later [OF Cons.prems(1) t(1), of k] by (simp add: seconds_add algebra_simps)
  show ?case
  proof (cases call)
    case (Allow key)
    let ?n = "if snd (RateLimiter_allow t key rl) \<and> key = k then 1 else 0 :: nat"
    have "granted k (c # cs) rl = ?n + granted k cs (fst (RateLimiter_allow t key rl))"
      by (simp add: c Allow case_prod_beta)
    moreover have "of_nat ?n + credit k t (fst (RateLimiter_allow t key rl)) = credit k t rl"
      using allow_credit(1) [OF Cons.prems(1) t(1), of key k] by (auto split: if_splits)
    moreover note Cons.IH [OF allow_credit(2) [OF Cons.prems(1) t(1), of key] rest(2,1) t(2)]
    ultimately show ?thesis using later by (simp only: of_nat_add allow_config)
  next
    case Cleanup
    with Cons.IH [OF cleanup_credit(2) [OF Cons.prems(1) t(1)] rest(2,1) t(2)] cleanup_credit(1) [OF Cons.prems(1) t(1)] later
    show ?thesis by (simp add: c)
  qed
qed

text \<open>
  The rate limit of the API and MCP routes: from a fresh limiter of 100 requests per second with
  bursts of 200, and over any run of requests of any users with clean-ups in between, the calls granted
  to one user are at most 200 plus 100 for each second the run takes. Dropping an idle bucket never
  gives a user more, since ten idle minutes refill it.
\<close>

theorem token_bucket_bounds_rate:
  assumes "sorted (map fst cs)" "\<forall>c \<in> set cs. start \<le> fst c \<and> fst c \<le> finish" "start \<le> finish"
  shows "of_nat (granted k cs (NewRateLimiter 100 200)) \<le> (200 + 100 * seconds (finish - start) :: rat)"
proof -
  have "bucket_ok start (NewRateLimiter 100 200)" by (simp add: bucket_ok_def NewRateLimiter_def)
  from granted_credit [OF this assms, of k] show ?thesis by (simp add: credit_def NewRateLimiter_def)
qed

theorem token_bucket_bounds_rate_witness:
  "of_nat (granted ''u1'' (replicate 300 (0, Allow ''u1'')) (NewRateLimiter 100 200)) \<le> (200 :: rat)"
proof -
  have "sorted (map fst (replicate 300 (0::int, Allow ''u1'')))" by (simp add: sorted_replicate)
  moreover have "\<forall>c \<in> set (replicate 300 (0::int, Allow ''u1'')). 0 \<le> fst c \<and> fst c \<le> 0" by simp
  ultimately show ?thesis
    using token_bucket_bounds_rate [of "replicate 300 (0, Allow ''u1'')" 0 0 "''u1''"] by (simp add: seconds_def)
qed

section \<open>The sliding window\<close>

text \<open>An attempt as the handlers make it: asked for, and recorded when it may go ahead.\<close>

definition ip_attempt :: "time \<Rightarrow> string \<Rightarrow> ipRateLimiter \<Rightarrow> ipRateLimiter \<times> bool" where
  "ip_attempt now ip rl = (case ip_allow now ip rl of (rl', ok) \<Rightarrow> (if ok then ip_record now ip rl' else rl', ok))"

text \<open>The times of the attempts of an address that went ahead.\<close>

fun admitted :: "string \<Rightarrow> (time \<times> string) list \<Rightarrow> ipRateLimiter \<Rightarrow> time list" where
  "admitted ip [] rl = []"
| "admitted ip ((now, ip') # cs) rl =
     (case ip_attempt now ip' rl of (rl', ok) \<Rightarrow> (if ok \<and> ip' = ip then now # admitted ip cs rl' else admitted ip cs rl'))"

definition in_window :: "time \<Rightarrow> time \<Rightarrow> time list \<Rightarrow> nat" where
  "in_window w t ts = length (filter (\<lambda>a. t - w < a \<and> a \<le> t) ts)"

text \<open>
  The limiter remembers every admitted attempt that can still matter: \<open>past\<close> are the admitted
  attempts so far.
\<close>

definition window_ok :: "time \<Rightarrow> string \<Rightarrow> time list \<Rightarrow> ipRateLimiter \<Rightarrow> bool" where
  "window_ok now ip past rl \<longleftrightarrow>
     filter (\<lambda>a. now - ip_window rl < a) past = filter (\<lambda>a. now - ip_window rl < a) (ip_attempts rl ip) \<and>
     (\<forall>a \<in> set past. a \<le> now) \<and> (\<forall>t. int (in_window (ip_window rl) t past) \<le> ip_max rl)"

lemma attempt_config [simp]:
  "ip_window (fst (ip_attempt now ip rl)) = ip_window rl" "ip_max (fst (ip_attempt now ip rl)) = ip_max rl"
  by (simp_all add: ip_attempt_def ip_allow_def ip_record_def Let_def)

lemma filter_recent_mono: "(now::int) \<le> t \<Longrightarrow> filter (\<lambda>a. now - w < a) xs = filter (\<lambda>a. now - w < a) ys \<Longrightarrow>
    filter (\<lambda>a. t - w < a) xs = filter (\<lambda>a. t - w < a) ys"
proof -
  assume t: "now \<le> t" and eq: "filter (\<lambda>a. now - w < a) xs = filter (\<lambda>a. now - w < a) ys"
  have *: "filter (\<lambda>a. t - w < a) zs = filter (\<lambda>a. t - w < a) (filter (\<lambda>a. now - w < a) zs)" for zs
    using t by (auto intro!: filter_cong)
  have "filter (\<lambda>a. t - w < a) xs = filter (\<lambda>a. t - w < a) (filter (\<lambda>a. now - w < a) xs)" by (rule *)
  also have "\<dots> = filter (\<lambda>a. t - w < a) (filter (\<lambda>a. now - w < a) ys)" by (simp only: eq)
  also have "\<dots> = filter (\<lambda>a. t - w < a) ys" by (rule * [symmetric])
  finally show ?thesis .
qed

lemma window_step:
  assumes "window_ok now ip past rl" "now \<le> t" "0 \<le> ip_window rl"
  shows "window_ok t ip (if snd (ip_attempt t ip' rl) \<and> ip' = ip then past @ [t] else past) (fst (ip_attempt t ip' rl))"
proof -
  let ?w = "ip_window rl"
  let ?new = "if snd (ip_attempt t ip' rl) \<and> ip' = ip then past @ [t] else past"
  have recent: "filter (\<lambda>a. t - ?w < a) past = filter (\<lambda>a. t - ?w < a) (ip_attempts rl ip)"
    using assms(1) by (intro filter_recent_mono [OF assms(2)]) (simp only: window_ok_def)
  have "filter (\<lambda>a. t - ?w < a) ?new = filter (\<lambda>a. t - ?w < a) (ip_attempts (fst (ip_attempt t ip' rl)) ip)"
    using recent by (auto simp: ip_attempt_def ip_allow_def ip_record_def Let_def)
  moreover have "\<forall>a \<in> set ?new. a \<le> t" using assms(1,2) by (auto simp: window_ok_def)
  moreover have "int (in_window ?w s ?new) \<le> ip_max rl" for s
  proof (cases "snd (ip_attempt t ip' rl) \<and> ip' = ip \<and> s - ?w < t \<and> t \<le> s")
    case False
    then have "in_window ?w s ?new = in_window ?w s past" by (auto simp: in_window_def)
    with assms(1) show ?thesis by (simp add: window_ok_def)
  next
    case True
    have "length (filter (\<lambda>a. s - ?w < a \<and> a \<le> s) past) \<le> length (filter (\<lambda>a. t - ?w < a) past)"
      using True by (induction past) auto
    moreover have "int (length (filter (\<lambda>a. t - ?w < a) past)) < ip_max rl"
      using True by (auto simp: recent ip_attempt_def ip_allow_def Let_def split: if_splits)
    ultimately show ?thesis using True by (simp add: in_window_def)
  qed
  ultimately show ?thesis by (simp add: window_ok_def)
qed

lemma admitted_window:
  assumes "window_ok now ip past rl" "0 \<le> ip_window rl" "sorted (now # map fst cs)"
  shows "int (in_window (ip_window rl) t (past @ admitted ip cs rl)) \<le> ip_max rl"
  using assms
proof (induction cs arbitrary: now past rl)
  case Nil
  then show ?case by (simp add: window_ok_def)
next
  case (Cons c cs)
  obtain s ip' where c: "c = (s, ip')" by fastforce
  from Cons.prems c have "now \<le> s" "sorted (s # map fst cs)" by auto
  from Cons.IH [OF window_step [OF Cons.prems(1) this(1) Cons.prems(2), of ip'] _ this(2)] Cons.prems(2)
  show ?case by (auto simp: c case_prod_beta split: if_splits)
qed

text \<open>
  The form throttles: whatever attempts come from whatever addresses, no window of the configured
  length, wherever it starts, holds more admitted attempts of one address than the maximum. For the login
  form that is five failures per address in any fifteen minutes.
\<close>

theorem sliding_window_bounds_attempts:
  assumes "0 \<le> w" "0 \<le> mx" "sorted (map fst cs)"
  shows "int (in_window w t (admitted ip cs (newIPRateLimiter w mx))) \<le> mx"
proof (cases cs)
  case Nil
  with assms show ?thesis by (simp add: in_window_def)
next
  case (Cons c rest)
  have "window_ok (fst c) ip [] (newIPRateLimiter w mx)"
    using assms(2) by (simp add: window_ok_def newIPRateLimiter_def in_window_def)
  moreover have "sorted (fst c # map fst cs)" using assms(3) Cons by simp
  ultimately show ?thesis
    using admitted_window [of "fst c" ip "[]" "newIPRateLimiter w mx" cs t] assms(1) by (simp add: newIPRateLimiter_def)
qed

theorem sliding_window_bounds_attempts_witness:
  "int (in_window (15 * minute) 0 (admitted ''a'' (replicate 9 (0, ''a'')) newLoginRateLimiter)) \<le> 5"
  using sliding_window_bounds_attempts [of "15 * minute" 5 "replicate 9 (0, ''a'')" 0 "''a''"]
  by (simp add: newLoginRateLimiter_def duration_defs)

text \<open>
  The address of the throttles is the first entry of \<open>X-Forwarded-For\<close>, which a client sets
  as it likes: an attempt under a header value not used before is always admitted, however many attempts
  the same machine made.
\<close>

theorem forwarded_header_evades_throttle:
  assumes "hr_Header r ''X-Forwarded-For'' = v" "v \<noteq> []" "CHR '','' \<notin> set v" "ip_attempts rl v = []" "0 < ip_max rl"
  shows "clientIP split r = v \<and> snd (ip_attempt now (clientIP split r) rl)"
proof -
  have "dropWhile (\<lambda>c. c \<noteq> CHR '','') v = []" using assms(3) by auto
  then have "hd (str_split2 (CHR '','') v) = v" by (simp only: str_split2_def list.case list.sel)
  with assms show ?thesis
    by (simp add: clientIP_def ip_attempt_def ip_allow_def Let_def case_prod_beta)
qed

theorem forwarded_header_evades_throttle_witness:
  "snd (ip_attempt 0 (clientIP (\<lambda>_. None) ((demo_bearer [])\<lparr>hr_Header := (\<lambda>_. ''new'')\<rparr>))
     (newLoginRateLimiter\<lparr>ip_attempts := (\<lambda>ip. if ip = ''old'' then replicate 5 0 else [])\<rparr>))"
  using forwarded_header_evades_throttle [of "(demo_bearer [])\<lparr>hr_Header := (\<lambda>_. ''new'')\<rparr>" "''new''"
      "newLoginRateLimiter\<lparr>ip_attempts := (\<lambda>ip. if ip = ''old'' then replicate 5 0 else [])\<rparr>" "\<lambda>_. None" 0]
  unfolding newLoginRateLimiter_def newIPRateLimiter_def by auto

end
