(* ===== verification/Web_Session.thy ===== *)
theory Web_Session
  imports Rate_Limit Access_Store Server_Store
begin

text \<open>
  The session layer of the web interface (\<open>internal/web/handlers.go\<close>): CSRF tokens, the
  \<open>requireAuth\<close> gate, login and logout, and what a user may see of the servers.

  A reply keeps what the handlers decide: status, redirect target, the session cookie it sets, the
  template it renders or the text it writes, and the fields of the page or JSON object that matter.
\<close>

datatype cookie_change = CookieKept | SessionSet string | SessionCleared

record reply =
  rp_status :: nat
  rp_location :: "string option"
  rp_cookie :: cookie_change
  rp_body :: string
  rp_fields :: "(string \<times> string) list"

definition redirect :: "string \<Rightarrow> nat \<Rightarrow> reply" where
  "redirect loc status = \<lparr>rp_status = status, rp_location = Some loc, rp_cookie = CookieKept, rp_body = [], rp_fields = []\<rparr>"

definition http_error :: "string \<Rightarrow> nat \<Rightarrow> reply" where
  "http_error msg status = \<lparr>rp_status = status, rp_location = None, rp_cookie = CookieKept, rp_body = msg, rp_fields = []\<rparr>"

definition page :: "string \<Rightarrow> (string \<times> string) list \<Rightarrow> reply" where
  "page tmpl fs = \<lparr>rp_status = 200, rp_location = None, rp_cookie = CookieKept, rp_body = tmpl, rp_fields = fs\<rparr>"

definition writeJSON :: "nat \<Rightarrow> (string \<times> string) list \<Rightarrow> reply" where
  "writeJSON status fs = \<lparr>rp_status = status, rp_location = None, rp_cookie = CookieKept, rp_body = [], rp_fields = fs\<rparr>"

lemmas reply_defs = redirect_def http_error_def page_def writeJSON_def

text \<open>What the handlers were built with; \<open>we_split\<close> is \<open>net.SplitHostPort\<close>.\<close>

record web_env =
  we_crypto :: crypto
  we_csrfSecret :: string
  we_baseURL :: string
  we_split :: "string \<Rightarrow> string option"
  we_enc :: ConfigEncryptor

section \<open>CSRF\<close>

definition csrfToken :: "web_env \<Rightarrow> string \<Rightarrow> string" where
  "csrfToken h sessionID = hmac_hex (we_crypto h) (we_csrfSecret h) sessionID"

definition validateCSRF :: "web_env \<Rightarrow> http_request \<Rightarrow> string \<Rightarrow> bool" where
  "validateCSRF h r sessionID =
     (let form = hr_Form r ''csrf_token'';
          token = (if form = [] then hr_Header r ''X-CSRF-Token'' else form) in
      if token = [] then False else token = csrfToken h sessionID)"

definition rateLimitResponse :: "time \<Rightarrow> reply" where
  "rateLimitResponse retryAfter = writeJSON 429 [(''error'', ''rate limit exceeded'')]"

section \<open>The session gate\<close>

datatype gate = Stop reply | Go User string

definition state_changing :: "string \<Rightarrow> bool" where
  "state_changing m \<longleftrightarrow> m = ''POST'' \<or> m = ''PUT'' \<or> m = ''DELETE''"

definition requireAuth :: "web_env \<Rightarrow> faults \<Rightarrow> time \<Rightarrow> http_request \<Rightarrow> relay_db \<Rightarrow> gate" where
  "requireAuth h io now r db =
     (case hr_Cookie r ''session'' of
        None \<Rightarrow>
          if \<not> str_contains (hr_Header r ''Accept'') ''text/html'' \<and> hr_Path r = ''/'' then
            Stop (writeJSON 401 [(''error'', ''authentication required'')])
          else Stop (redirect ''/login'' 302)
      | Some sid \<Rightarrow>
          (case SessionStore_Get io now sid db of
             None \<Rightarrow> Stop (redirect ''/login'' 302)
           | Some (user, _) \<Rightarrow>
               if u_MustChangePassword user \<and> hr_Path r \<noteq> ''/account/password'' \<and> hr_Path r \<noteq> ''/logout'' then
                 Stop (redirect ''/account/password'' 302)
               else if state_changing (hr_Method r) \<and> \<not> validateCSRF h r sid then
                 (if has_prefix (hr_Path r) ''/api/'' then Stop (writeJSON 403 [(''error'', ''csrf_invalid'')])
                  else Stop (http_error ''Invalid or missing CSRF token'' 403))
               else Go user sid))"

section \<open>Login and logout\<close>

definition renderLogin :: "string \<Rightarrow> string \<Rightarrow> reply" where
  "renderLogin err nxt =
     page ''login'' ([(''Error'', err)] @
       (if nxt \<noteq> [] \<and> has_prefix nxt ''/'' \<and> \<not> has_prefix nxt ''//'' then [(''next'', nxt)] else []))"

definition login_target :: "string \<Rightarrow> string" where
  "login_target nxt = (if nxt \<noteq> [] \<and> has_prefix nxt ''/'' \<and> \<not> has_prefix nxt ''//'' then nxt else ''/'')"

text \<open>\<open>gen\<close> is the generated session id, \<open>None\<close> when the random source fails.\<close>

definition handleLogin ::
    "web_env \<Rightarrow> faults \<Rightarrow> time \<Rightarrow> string option \<Rightarrow> http_request \<Rightarrow> ipRateLimiter \<times> relay_db \<Rightarrow> (ipRateLimiter \<times> relay_db) \<times> reply" where
  "handleLogin h io now gen r = (\<lambda>(lmt, db).
     if hr_Method r = ''GET'' then ((lmt, db), renderLogin [] (hr_Query r ''next''))
     else
       let ip = clientIP (we_split h) r in
       case ip_allow now ip lmt of
         (lmt1, False) \<Rightarrow> ((lmt1, db), renderLogin ''Too many login attempts. Please try again later.'' [])
       | (lmt1, True) \<Rightarrow>
           let nxt = hr_Form r ''next'' in
           (case UserStore_Authenticate (we_crypto h) io (hr_Form r ''username'') (hr_Form r ''password'') db of
              Inr (Some user) \<Rightarrow>
                (case gen of
                   None \<Rightarrow> ((lmt1, db), http_error ''Internal server error'' 500)
                 | Some sid \<Rightarrow>
                     (case SessionStore_Create (after_stmts 1 io) sid (u_ID user) (now + 30 * day) db of
                        (db1, Inl _) \<Rightarrow> ((lmt1, db1), http_error ''Internal server error'' 500)
                      | (db1, Inr _) \<Rightarrow>
                          ((lmt1, db1),
                           (redirect (if u_MustChangePassword user then ''/account/password'' else login_target nxt) 302)
                             \<lparr>rp_cookie := SessionSet sid\<rparr>)))
            | _ \<Rightarrow> ((ip_record now ip lmt1, db), renderLogin ''Invalid username or password'' nxt)))"

definition handleLogout :: "faults \<Rightarrow> http_request \<Rightarrow> relay_db \<Rightarrow> relay_db \<times> reply" where
  "handleLogout io r db =
     ((case hr_Cookie r ''session'' of None \<Rightarrow> db | Some sid \<Rightarrow> SessionStore_Delete io sid db),
      (redirect ''/login'' 302)\<lparr>rp_cookie := SessionCleared\<rparr>)"

section \<open>What a user may see\<close>

definition accessibleServers :: "faults \<Rightarrow> User \<Rightarrow> Server list \<Rightarrow> relay_db \<Rightarrow> Server list" where
  "accessibleServers io user servers db =
     (if u_Role user = ''admin'' then servers
      else case u_ProfileID user of
        None \<Rightarrow> []
      | Some p \<Rightarrow>
          (case ProfileStore_ServerIDsForProfile io p db of
             Inl _ \<Rightarrow> []
           | Inr allowed \<Rightarrow> if allowed = {} then [] else filter (\<lambda>s. sv_ID s \<in> allowed) servers))"

definition canAccessServer :: "faults \<Rightarrow> User \<Rightarrow> string \<Rightarrow> relay_db \<Rightarrow> bool" where
  "canAccessServer io user serverID db =
     (if u_Role user = ''admin'' then True
      else case u_ProfileID user of
        None \<Rightarrow> False
      | Some p \<Rightarrow>
          (case ProfileStore_ServerIDsForProfile io p db of Inl _ \<Rightarrow> False | Inr allowed \<Rightarrow> serverID \<in> allowed))"

definition requireAdmin :: "User option \<Rightarrow> reply option" where
  "requireAdmin user =
     (case user of
        None \<Rightarrow> Some (http_error ''Admin access required'' 403)
      | Some u \<Rightarrow> if u_Role u \<noteq> ''admin'' then Some (http_error ''Admin access required'' 403) else None)"

section \<open>Sessions\<close>

lemma session_get_Some:
  "SessionStore_Get io now sid db = Some (u, e) \<longleftrightarrow>
     io 0 \<and> (\<exists>s r. sql_row (\<lambda>s. sr_id s = sid \<and> now < sr_expires_at s) (db_sessions db) = Some s \<and>
       sql_row (\<lambda>u. ur_id u = sr_user_id s) (db_users db) = Some r \<and> u = session_user r \<and> e = sr_expires_at s)"
  by (auto simp: SessionStore_Get_def split: option.splits)

lemma requireAuth_Go:
  "requireAuth h io now r db = Go u sid \<Longrightarrow>
     hr_Cookie r ''session'' = Some sid \<and> (\<exists>e. SessionStore_Get io now sid db = Some (u, e)) \<and>
     (u_MustChangePassword u \<longrightarrow> hr_Path r = ''/account/password'' \<or> hr_Path r = ''/logout'') \<and>
     (state_changing (hr_Method r) \<longrightarrow> validateCSRF h r sid)"
  by (auto simp: requireAuth_def split: option.splits if_splits prod.splits)


lemma login_success:
  assumes "handleLogin h io now gen r (lmt, db) = ((lmt', db'), rep)" "rp_cookie rep = SessionSet sid"
  shows "\<exists>a. sql_row (\<lambda>u. ur_username u = hr_Form r ''username'') (db_users db) = Some a \<and>
     bcrypt_cmp (we_crypto h) (ur_password_hash a) (hr_Form r ''password'') \<and>
     insert_session \<lparr>sr_id = sid, sr_user_id = ur_id a, sr_expires_at = now + 30 * day\<rparr> db = Inr db'"
  using assms
  by (auto simp: handleLogin_def Let_def UserStore_Authenticate_def SessionStore_Create_def exec_def stmt_def reply_defs
      renderLogin_def user_of_row_def
      split: if_splits option.splits sum.splits prod.splits bool.splits)

text \<open>
  A login that sets a session cookie has seen the right password, and the cookie then stands for that
  account and no other: for the next thirty days a GET with it passes the gate as the account (unless
  its password must be changed), and once the user logs out it never does again.
\<close>

theorem login_session_lifecycle:
  assumes "db_wf db" "handleLogin h io now gen r (lmt, db) = ((lmt', db'), rep)" "rp_cookie rep = SessionSet sid"
    and "io' 0" "hr_Cookie q ''session'' = Some sid" "hr_Method q = ''GET''"
  shows "\<exists>a \<in> set (db_users db). ur_username a = hr_Form r ''username'' \<and>
     bcrypt_cmp (we_crypto h) (ur_password_hash a) (hr_Form r ''password'') \<and>
     (\<forall>t. now \<le> t \<and> t < now + 30 * day \<and> \<not> ur_must_change_password a \<longrightarrow>
        requireAuth h io' t q db' = Go (session_user a) sid) \<and>
     (\<forall>io2 t u. requireAuth h io2 t q (fst (handleLogout io' q db')) \<noteq> Go u sid)"
proof -
  from login_success [OF assms(2,3)] obtain a where a: "sql_row (\<lambda>u. ur_username u = hr_Form r ''username'') (db_users db) = Some a"
    "bcrypt_cmp (we_crypto h) (ur_password_hash a) (hr_Form r ''password'')"
    and ins: "insert_session \<lparr>sr_id = sid, sr_user_id = ur_id a, sr_expires_at = now + 30 * day\<rparr> db = Inr db'" by blast
  let ?s = "\<lparr>sr_id = sid, sr_user_id = ur_id a, sr_expires_at = now + 30 * day\<rparr>"
  from ins have db': "db' = db\<lparr>db_sessions := db_sessions db @ [?s]\<rparr>" and new: "\<not> sql_has (\<lambda>s. sr_id s = sid) (db_sessions db)"
    by (auto simp: insert_session_def split: if_splits)
  from a(1) have a_in: "a \<in> set (db_users db)" "ur_username a = hr_Form r ''username''" by (auto dest: sql_row_SomeD)
  have owner: "sql_row (\<lambda>u. ur_id u = ur_id a) (db_users db) = Some a"
    using assms(1) a_in(1) by (auto simp: db_wf_def intro: tbl_ok_row)
  have "sql_row (\<lambda>s. sr_id s = sid \<and> t < sr_expires_at s) (db_sessions db') = Some ?s" if "t < now + 30 * day" for t
    using new that unfolding db' by (simp add: sql_row_snoc sql_has_iff)
  then have "SessionStore_Get io' t sid db' = Some (session_user a, now + 30 * day)" if "t < now + 30 * day" for t
    using that owner assms(4) by (simp add: session_get_Some db')
  then have "requireAuth h io' t q db' = Go (session_user a) sid"
    if "t < now + 30 * day" "\<not> ur_must_change_password a" for t
    using that assms(5,6) by (simp add: requireAuth_def session_user_def state_changing_def)
  moreover have "requireAuth h io2 t q (fst (handleLogout io' q db')) \<noteq> Go u sid" for io2 t u
  proof -
    have "sql_row (\<lambda>s. sr_id s = sid \<and> t < sr_expires_at s) (db_sessions (fst (handleLogout io' q db'))) = None"
      using assms(4,5) by (auto simp: handleLogout_def SessionStore_Delete_def exec_ignore_def delete_sessions_def intro!: sql_row_deleted)
    then have "SessionStore_Get io2 t sid (fst (handleLogout io' q db')) = None" by (simp add: SessionStore_Get_def)
    then show ?thesis using requireAuth_Go by fastforce
  qed
  ultimately show ?thesis using a_in a(2) by blast
qed

text \<open>
  The list of servers a user sees and the check on one server agree, and both deny by default: a user
  who is no administrator sees exactly the servers on which the profile has a permission, none without
  a profile, and none when the lookup fails.
\<close>

theorem visible_servers_are_accessible:
  "(s \<in> set (accessibleServers io user servers db) \<longleftrightarrow> s \<in> set servers \<and> canAccessServer io user (sv_ID s) db) \<and>
   (canAccessServer io user sid db \<longleftrightarrow> u_Role user = ''admin'' \<or>
     io 0 \<and> (\<exists>p \<in> set (db_permissions db). u_ProfileID user = Some (pp_ProfileID p) \<and> pp_ServerID p = sid \<and> server_exists db sid))"
  by (cases "u_Role user = ''admin''"; cases "u_ProfileID user"; cases "io 0")
    (auto simp: accessibleServers_def canAccessServer_def ProfileStore_ServerIDsForProfile_def; metis)+

section \<open>Examples\<close>

definition demo_web :: web_env where
  "demo_web = \<lparr>we_crypto = demo_crypto, we_csrfSecret = ''k'', we_baseURL = ''https://relay.example'', we_split = (\<lambda>_. None), we_enc = None\<rparr>"

definition demo_form :: "string \<Rightarrow> string \<Rightarrow> (string \<Rightarrow> string) \<Rightarrow> string option \<Rightarrow> http_request" where
  "demo_form meth path form cookie = \<lparr>hr_Method = meth, hr_Path = path, hr_Header = (\<lambda>_. []), hr_Query = (\<lambda>_. []), hr_Form = form,
     hr_Cookie = (\<lambda>c. if c = ''session'' then cookie else None), hr_Body = None, hr_RemoteAddr = ''10.0.0.1''\<rparr>"

definition demo_session_db :: relay_db where
  "demo_session_db = demo_db\<lparr>db_sessions := [\<lparr>sr_id = ''sid'', sr_user_id = ''u1'', sr_expires_at = 10\<rparr>]\<rparr>"

lemma demo_session_db_wf: "db_wf demo_session_db"
proof -
  have "insert_session \<lparr>sr_id = ''sid'', sr_user_id = ''u1'', sr_expires_at = 10\<rparr> demo_db = Inr demo_session_db"
    by (simp add: insert_session_def demo_session_db_def demo_db_defs user_exists_def sql_has_def)
  then show ?thesis using demo_db_wf by (rule insert_session_wf)
qed


theorem login_session_lifecycle_witness:
  "\<exists>db'. requireAuth demo_web no_faults 5 (demo_form ''GET'' ''/servers'' (\<lambda>_. []) (Some ''sid'')) db' =
     Go (session_user demo_user_row) ''sid''"
proof -
  let ?form = "\<lambda>f. if f = ''username'' then ''alice'' else if f = ''password'' then ''secret12'' else []"
  let ?r = "demo_form ''POST'' ''/login'' ?form None"
  let ?db = "demo_db\<lparr>db_sessions := [\<lparr>sr_id = ''sid'', sr_user_id = ''u1'', sr_expires_at = 0 + 30 * day\<rparr>]\<rparr>"
  obtain lm rep where run: "handleLogin demo_web no_faults 0 (Some ''sid'') ?r (newLoginRateLimiter, demo_db) = ((lm, ?db), rep)"
    and c: "rp_cookie rep = SessionSet ''sid''"
    by (simp add: handleLogin_def demo_form_def demo_web_def ip_allow_def newLoginRateLimiter_def newIPRateLimiter_def Let_def
        UserStore_Authenticate_def demo_db_defs SessionStore_Create_def exec_def insert_session_def user_exists_def sql_has_def
        user_of_row_def reply_defs)
  have "hr_Cookie (demo_form ''GET'' ''/servers'' (\<lambda>_. []) (Some ''sid'')) ''session'' = Some ''sid''"
    "hr_Method (demo_form ''GET'' ''/servers'' (\<lambda>_. []) (Some ''sid'')) = ''GET''" by (simp_all add: demo_form_def)
  from login_session_lifecycle [OF demo_db_wf run c _ this, of no_faults]
  have "requireAuth demo_web no_faults 5 (demo_form ''GET'' ''/servers'' (\<lambda>_. []) (Some ''sid'')) ?db =
      Go (session_user demo_user_row) ''sid''"
    by (auto simp: demo_db_defs duration_defs)
  then show ?thesis by blast
qed

end
