(* ===== verification/OAuth_Provider.thy ===== *)
theory OAuth_Provider
  imports Web_Session Json_Scan
begin

text \<open>
  \<open>internal/web/oauth_provider.go\<close>: the OAuth 2.1 authorization server (authorization code with
  PKCE, refresh tokens, dynamic client registration). Authorization codes live in memory, clients and
  tokens in the database.

  Parsing and rebuilding of URLs (\<open>net/url\<close>) is an argument: \<open>oe_url\<close> gives scheme and host
  name, \<open>oe_redirect\<close> a URI with query parameters set. Codes and tokens are fresh random values,
  arguments of the handlers that draw them.
\<close>

record oauth_env =
  oe_web :: web_env
  oe_url :: "string \<Rightarrow> (string \<times> string) option"
  oe_redirect :: "string \<Rightarrow> (string \<times> string) list \<Rightarrow> string option"
  oe_login_next :: "http_request \<Rightarrow> string"

section \<open>Authorization codes\<close>

record oauthAuthCode =
  oac_ClientID :: string
  oac_UserID :: string
  oac_RedirectURI :: string
  oac_CodeChallenge :: string
  oac_Scope :: string
  oac_Resource :: string
  oac_CreatedAt :: time
  oac_ExpiresAt :: time

type_synonym auth_codes = "string \<Rightarrow> oauthAuthCode option"

definition codes_create ::
    "time \<Rightarrow> string option \<Rightarrow> string \<Rightarrow> string \<Rightarrow> string \<Rightarrow> string \<Rightarrow> string \<Rightarrow> string \<Rightarrow> auth_codes \<Rightarrow> auth_codes \<times> string option" where
  "codes_create now gen clientID userID redirectURI codeChallenge scope resource codes =
     (case gen of
        None \<Rightarrow> (codes, None)
      | Some code \<Rightarrow>
          (codes(code \<mapsto> \<lparr>oac_ClientID = clientID, oac_UserID = userID, oac_RedirectURI = redirectURI,
             oac_CodeChallenge = codeChallenge, oac_Scope = scope, oac_Resource = resource, oac_CreatedAt = now,
             oac_ExpiresAt = now + 5 * minute\<rparr>), Some code))"

definition codes_consume :: "time \<Rightarrow> string \<Rightarrow> auth_codes \<Rightarrow> auth_codes \<times> oauthAuthCode option" where
  "codes_consume now code codes =
     (case codes code of
        None \<Rightarrow> (codes(code := None), None)
      | Some ac \<Rightarrow>
          if oac_ExpiresAt ac < now then (codes(code := None), None) else (codes(code := None), Some ac))"

definition codes_cleanup :: "time \<Rightarrow> auth_codes \<Rightarrow> auth_codes" where
  "codes_cleanup now codes =
     (\<lambda>code. case codes code of None \<Rightarrow> None | Some ac \<Rightarrow> if oac_ExpiresAt ac < now then None else Some ac)"

section \<open>Tokens\<close>

definition oauthError :: "nat \<Rightarrow> string \<Rightarrow> string \<Rightarrow> reply" where
  "oauthError status code desc = writeJSON status [(''error'', code), (''error_description'', desc)]"

definition mintAccessToken ::
    "crypto \<Rightarrow> faults \<Rightarrow> time \<Rightarrow> string \<Rightarrow> string \<Rightarrow> string \<Rightarrow> string \<Rightarrow> string \<Rightarrow> relay_db \<Rightarrow> relay_db \<times> unit res" where
  "mintAccessToken cr io now raw userID clientID scope resource db =
     OAuthTokenStore_Create io (sha256_hex cr raw) userID clientID scope resource (now + 1 * hour) db"

definition mintRefreshToken ::
    "crypto \<Rightarrow> faults \<Rightarrow> time \<Rightarrow> string \<Rightarrow> string \<Rightarrow> string \<Rightarrow> string \<Rightarrow> string \<Rightarrow> relay_db \<Rightarrow> relay_db \<times> unit res" where
  "mintRefreshToken cr io now raw userID clientID scope resource db =
     OAuthRefreshTokenStore_Create io (sha256_hex cr raw) userID clientID scope resource (now + 30 * 24 * hour) db"

definition token_reply :: "string \<Rightarrow> string \<Rightarrow> string \<Rightarrow> reply" where
  "token_reply access refresh scope =
     writeJSON 200 [(''access_token'', access), (''token_type'', ''Bearer''), (''refresh_token'', refresh), (''scope'', scope)]"

text \<open>Both tokens, in this order; a failure of the second leaves the first in place.\<close>

definition mint_both ::
    "crypto \<Rightarrow> faults \<Rightarrow> time \<Rightarrow> string \<times> string \<Rightarrow> string \<Rightarrow> string \<Rightarrow> string \<Rightarrow> string \<Rightarrow> relay_db \<Rightarrow> relay_db \<times> reply" where
  "mint_both cr io now raws userID clientID scope resource db =
     (case mintAccessToken cr io now (fst raws) userID clientID scope resource db of
        (db1, Inl _) \<Rightarrow> (db1, oauthError 500 ''server_error'' ''failed to create access token'')
      | (db1, Inr _) \<Rightarrow>
          (case mintRefreshToken cr (after_stmts 1 io) now (snd raws) userID clientID scope resource db1 of
             (db2, Inl _) \<Rightarrow> (db2, oauthError 500 ''server_error'' ''failed to create refresh token'')
           | (db2, Inr _) \<Rightarrow> (db2, token_reply (fst raws) (snd raws) scope)))"

section \<open>Metadata\<close>

definition handleProtectedResourceMetadata :: "oauth_env \<Rightarrow> http_request \<Rightarrow> reply" where
  "handleProtectedResourceMetadata h r =
     (if hr_Method r \<noteq> ''GET'' then http_error ''Method not allowed'' 405
      else
        let base = we_baseURL (oe_web h); subPath = trim_prefix (hr_Path r) ''/.well-known/oauth-protected-resource'' in
        writeJSON 200 [(''resource'', if subPath \<noteq> [] \<and> subPath \<noteq> ''/'' then base @ subPath else base),
          (''authorization_servers'', base), (''bearer_methods_supported'', ''header'')])"

definition handleAuthorizationServerMetadata :: "oauth_env \<Rightarrow> http_request \<Rightarrow> reply" where
  "handleAuthorizationServerMetadata h r =
     (if hr_Method r \<noteq> ''GET'' then http_error ''Method not allowed'' 405
      else
        let base = we_baseURL (oe_web h) in
        writeJSON 200 [(''issuer'', base), (''authorization_endpoint'', base @ ''/authorize''), (''token_endpoint'', base @ ''/token''),
          (''registration_endpoint'', base @ ''/register''), (''response_types_supported'', ''code''),
          (''grant_types_supported'', ''authorization_code refresh_token''), (''code_challenge_methods_supported'', ''S256''),
          (''token_endpoint_auth_methods_supported'', ''none client_secret_post'')])"

section \<open>Client registration\<close>

text \<open>A decoder reads the first value of the body and ignores what follows.\<close>

definition first_value :: "string \<Rightarrow> jshape option" where
  "first_value s = map_option fst (jvalue (2 * length s + 2) (skip_ws s))"

definition body_members :: "string option \<Rightarrow> (string \<times> string) list option" where
  "body_members body =
     (case body of
        None \<Rightarrow> None
      | Some s \<Rightarrow> (case first_value s of Some (SObj kvs) \<Rightarrow> Some kvs | Some SNull \<Rightarrow> Some [] | _ \<Rightarrow> None))"

record register_request =
  rr_ClientName :: string
  rr_RedirectURIs :: "string list"
  rr_GrantTypes :: "string list"
  rr_ResponseTypes :: "string list"
  rr_TokenEndpointAuthMethod :: string

definition decode_register :: "string option \<Rightarrow> register_request option" where
  "decode_register body =
     (case body_members body of
        None \<Rightarrow> None
      | Some kvs \<Rightarrow>
          (let (name, ok1) = str_field [] (field_values ''client_name'' kvs);
               (uris, ok2) = strs_field [] (field_values ''redirect_uris'' kvs);
               (grants, ok3) = strs_field [] (field_values ''grant_types'' kvs);
               (types, ok4) = strs_field [] (field_values ''response_types'' kvs);
               (meth, ok5) = str_field [] (field_values ''token_endpoint_auth_method'' kvs) in
           if ok1 \<and> ok2 \<and> ok3 \<and> ok4 \<and> ok5
           then Some \<lparr>rr_ClientName = name, rr_RedirectURIs = uris, rr_GrantTypes = grants, rr_ResponseTypes = types,
                  rr_TokenEndpointAuthMethod = meth\<rparr>
           else None))"

fun check_redirect_uris :: "oauth_env \<Rightarrow> string list \<Rightarrow> reply option" where
  "check_redirect_uris h [] = None"
| "check_redirect_uris h (uri # uris) =
     (case oe_url h uri of
        None \<Rightarrow> Some (oauthError 400 ''invalid_redirect_uri'' (''invalid URI: '' @ uri))
      | Some (scheme, host) \<Rightarrow>
          if scheme = ''http'' \<and> host \<noteq> ''localhost'' \<and> host \<noteq> ''127.0.0.1'' \<and> \<not> has_prefix host ''[::1]'' then
            Some (oauthError 400 ''invalid_redirect_uri'' ''http redirect_uri only allowed for localhost'')
          else check_redirect_uris h uris)"

definition handleOAuthRegister ::
    "oauth_env \<Rightarrow> faults \<Rightarrow> time \<Rightarrow> string \<times> string \<Rightarrow> http_request \<Rightarrow> ipRateLimiter \<times> relay_db \<Rightarrow> (ipRateLimiter \<times> relay_db) \<times> reply" where
  "handleOAuthRegister h io now uuids r = (\<lambda>(rl, db).
     let ip = clientIP (we_split (oe_web h)) r in
     case ip_allow now ip rl of
       (rl1, False) \<Rightarrow> ((rl1, db), rateLimitResponse (1 * hour))
     | (rl1, True) \<Rightarrow>
         let rl2 = ip_record now ip rl1 in
         if hr_Method r \<noteq> ''POST'' then ((rl2, db), http_error ''Method not allowed'' 405)
         else (case decode_register (hr_Body r) of
           None \<Rightarrow> ((rl2, db), oauthError 400 ''invalid_client_metadata'' ''invalid JSON body'')
         | Some req \<Rightarrow>
             if rr_RedirectURIs req = [] then ((rl2, db), oauthError 400 ''invalid_client_metadata'' ''redirect_uris required'')
             else (case check_redirect_uris h (rr_RedirectURIs req) of
               Some err \<Rightarrow> ((rl2, db), err)
             | None \<Rightarrow>
                 (let name = (if rr_ClientName req = [] then ''MCP Client'' else rr_ClientName req);
                      meth = (if rr_TokenEndpointAuthMethod req = [] then ''none'' else rr_TokenEndpointAuthMethod req);
                      secret = (if meth = ''client_secret_post'' then snd uuids else []);
                      secretHash = (if meth = ''client_secret_post'' then sha256_hex (we_crypto (oe_web h)) (snd uuids) else []) in
                  case OAuthClientStore_Create io (fst uuids) secretHash name meth (rr_RedirectURIs req) db of
                    (db1, Inl _) \<Rightarrow> ((rl2, db1), oauthError 500 ''server_error'' ''failed to register client'')
                  | (db1, Inr _) \<Rightarrow>
                      ((rl2, db1), writeJSON 201 ([(''client_id'', fst uuids), (''client_name'', name),
                         (''token_endpoint_auth_method'', meth)] @ (if secret \<noteq> [] then [(''client_secret'', secret)] else [])))))))"

section \<open>Consent\<close>

definition consent_page :: "(string \<times> string) list \<Rightarrow> reply" where
  "consent_page fs = page ''oauth_authorize.html'' fs"

definition consent_error :: "string \<Rightarrow> reply" where
  "consent_error msg = consent_page [(''Error'', msg)]"

definition handleOAuthAuthorizeGet :: "faults \<Rightarrow> http_request \<Rightarrow> relay_db \<Rightarrow> reply" where
  "handleOAuthAuthorizeGet io r db =
     (let q = hr_Query r in
      if q ''response_type'' \<noteq> ''code'' then consent_error ''Unsupported response_type. Only code is supported.''
      else if q ''client_id'' = [] then consent_error ''Missing client_id parameter.''
      else (case OAuthClientStore_Get io (q ''client_id'') db of
        None \<Rightarrow> consent_error ''Unknown application. It may need to re-register.''
      | Some client \<Rightarrow>
          if q ''redirect_uri'' = [] \<or> \<not> HasRedirectURI client (q ''redirect_uri'') then consent_error ''Invalid redirect_uri.''
          else if q ''code_challenge'' = [] \<or> q ''code_challenge_method'' \<noteq> ''S256'' then
            consent_error ''PKCE with S256 code_challenge is required.''
          else consent_page [(''ShowConsent'', ''true''), (''ClientName'', oc_ClientName client), (''ClientID'', q ''client_id''),
            (''RedirectURI'', q ''redirect_uri''), (''State'', q ''state''), (''CodeChallenge'', q ''code_challenge''),
            (''CodeChallengeMethod'', q ''code_challenge_method''), (''Scope'', if q ''scope'' = [] then ''mcp'' else q ''scope''),
            (''Resource'', q ''resource'')]))"

definition handleOAuthAuthorizePost ::
    "oauth_env \<Rightarrow> faults \<Rightarrow> time \<Rightarrow> string option \<Rightarrow> User \<Rightarrow> http_request \<Rightarrow> relay_db \<Rightarrow> auth_codes \<Rightarrow> auth_codes \<times> reply" where
  "handleOAuthAuthorizePost h io now gen user r db codes =
     (let f = hr_Form r;
          scope = (if f ''scope'' = [] then ''mcp'' else f ''scope'');
          state = (if f ''state'' \<noteq> [] then [(''state'', f ''state'')] else []) in
      case OAuthClientStore_Get io (f ''client_id'') db of
        None \<Rightarrow> (codes, consent_error ''Unknown application. It may need to re-register.'')
      | Some client \<Rightarrow>
          if f ''redirect_uri'' = [] \<or> \<not> HasRedirectURI client (f ''redirect_uri'') then (codes, consent_error ''Invalid redirect_uri.'')
          else (case oe_redirect h (f ''redirect_uri'') [] of
            None \<Rightarrow> (codes, http_error ''Invalid redirect_uri'' 400)
          | Some _ \<Rightarrow>
              if f ''action'' = ''deny'' then
                (codes, redirect (the (oe_redirect h (f ''redirect_uri'') ([(''error'', ''access_denied'')] @ state))) 303)
              else (case codes_create now gen (f ''client_id'') (u_ID user) (f ''redirect_uri'') (f ''code_challenge'') scope (f ''resource'') codes of
                (codes1, None) \<Rightarrow> (codes1, http_error ''Internal error'' 500)
              | (codes1, Some code) \<Rightarrow>
                  (codes1, consent_page [(''ShowSuccess'', ''true''), (''ClientName'', oc_ClientName client),
                     (''RedirectURL'', the (oe_redirect h (f ''redirect_uri'') ([(''code'', code)] @ state)))]))))"

text \<open>Statement 0 reads the session, statement 1 the client.\<close>

definition handleOAuthAuthorize ::
    "oauth_env \<Rightarrow> faults \<Rightarrow> time \<Rightarrow> string option \<Rightarrow> http_request \<Rightarrow> relay_db \<Rightarrow> auth_codes \<Rightarrow> auth_codes \<times> reply" where
  "handleOAuthAuthorize h io now gen r db codes =
     (case hr_Cookie r ''session'' of
        None \<Rightarrow> (codes, redirect (oe_login_next h r) 302)
      | Some sid \<Rightarrow>
          (case SessionStore_Get io now sid db of
             None \<Rightarrow> (codes, redirect (oe_login_next h r) 302)
           | Some (user, _) \<Rightarrow>
               if hr_Method r = ''GET'' then (codes, handleOAuthAuthorizeGet (after_stmts 1 io) r db)
               else if hr_Method r = ''POST'' then
                 (if \<not> validateCSRF (oe_web h) r sid then (codes, http_error ''Invalid or missing CSRF token'' 403)
                  else handleOAuthAuthorizePost h (after_stmts 1 io) now gen user r db codes)
               else (codes, http_error ''Method not allowed'' 405)))"

section \<open>The token endpoint\<close>

definition handleTokenAuthorizationCode ::
    "oauth_env \<Rightarrow> faults \<Rightarrow> time \<Rightarrow> string \<times> string \<Rightarrow> http_request \<Rightarrow> auth_codes \<times> relay_db \<Rightarrow> (auth_codes \<times> relay_db) \<times> reply" where
  "handleTokenAuthorizationCode h io now raws r = (\<lambda>(codes, db).
     let f = hr_Form r; cr = we_crypto (oe_web h) in
     if f ''code'' = [] \<or> f ''client_id'' = [] \<or> f ''code_verifier'' = [] then
       ((codes, db), oauthError 400 ''invalid_request'' ''code, client_id, and code_verifier are required'')
     else (case OAuthClientStore_Get io (f ''client_id'') db of
       None \<Rightarrow> ((codes, db), oauthError 401 ''invalid_client'' ''unknown client_id'')
     | Some client \<Rightarrow>
         if oc_TokenEndpointAuthMethod client = ''client_secret_post'' \<and>
            \<not> OAuthClientStore_ValidateSecret cr (after_stmts 1 io) (f ''client_id'') (f ''client_secret'') db then
           ((codes, db), oauthError 401 ''invalid_client'' ''invalid client credentials'')
         else (case codes_consume now (f ''code'') codes of
           (codes1, None) \<Rightarrow>
             ((codes1, db), oauthError 400 ''invalid_grant'' ''invalid, expired, or already-used authorization code'')
         | (codes1, Some ac) \<Rightarrow>
             if oac_ClientID ac \<noteq> f ''client_id'' then ((codes1, db), oauthError 400 ''invalid_grant'' ''client_id mismatch'')
             else if oac_RedirectURI ac \<noteq> f ''redirect_uri'' then ((codes1, db), oauthError 400 ''invalid_grant'' ''redirect_uri mismatch'')
             else if s256_challenge cr (f ''code_verifier'') \<noteq> oac_CodeChallenge ac then
               ((codes1, db), oauthError 400 ''invalid_grant'' ''PKCE code_verifier does not match code_challenge'')
             else (case mint_both cr (after_stmts 2 io) now raws (oac_UserID ac) (f ''client_id'') (oac_Scope ac) (oac_Resource ac) db of
               (db1, rep) \<Rightarrow> ((codes1, db1), rep)))))"

definition handleTokenRefresh ::
    "oauth_env \<Rightarrow> faults \<Rightarrow> time \<Rightarrow> string \<times> string \<Rightarrow> http_request \<Rightarrow> relay_db \<Rightarrow> relay_db \<times> reply" where
  "handleTokenRefresh h io now raws r db =
     (let f = hr_Form r; cr = we_crypto (oe_web h) in
      if f ''refresh_token'' = [] then (db, oauthError 400 ''invalid_request'' ''refresh_token is required'')
      else if f ''client_id'' \<noteq> [] \<and> OAuthClientStore_Get io (f ''client_id'') db = None then
        (db, oauthError 401 ''invalid_client'' ''unknown client_id'')
      else (case OAuthRefreshTokenStore_Consume cr (after_stmts 1 io) now (f ''refresh_token'') db of
        (db1, None) \<Rightarrow> (db1, oauthError 400 ''invalid_grant'' ''invalid or expired refresh token'')
      | (db1, Some rt) \<Rightarrow>
          if f ''client_id'' \<noteq> [] \<and> ot_ClientID rt \<noteq> f ''client_id'' then (db1, oauthError 400 ''invalid_grant'' ''client_id mismatch'')
          else mint_both cr (after_stmts 3 io) now raws (ot_UserID rt) (ot_ClientID rt) (ot_Scope rt) (ot_Resource rt) db1))"

text \<open>\<open>None\<close> as the body: \<open>ParseForm\<close> failed.\<close>

definition handleOAuthToken ::
    "oauth_env \<Rightarrow> faults \<Rightarrow> time \<Rightarrow> string \<times> string \<Rightarrow> http_request \<Rightarrow> auth_codes \<times> relay_db \<Rightarrow> (auth_codes \<times> relay_db) \<times> reply" where
  "handleOAuthToken h io now raws r st =
     (if hr_Method r \<noteq> ''POST'' then (st, http_error ''Method not allowed'' 405)
      else if hr_Body r = None then (st, oauthError 400 ''invalid_request'' ''failed to parse form body'')
      else if hr_Form r ''grant_type'' = ''authorization_code'' then handleTokenAuthorizationCode h io now raws r st
      else if hr_Form r ''grant_type'' = ''refresh_token'' then
        (case handleTokenRefresh h io now raws r (snd st) of (db1, rep) \<Rightarrow> ((fst st, db1), rep))
      else (st, oauthError 400 ''unsupported_grant_type'' ''grant_type is not supported''))"

section \<open>The handlers keep the database well-formed\<close>

lemma mint_wf:
  assumes "db_wf db"
  shows "db_wf (fst (mintAccessToken cr io now raw u c sc rs db))" "db_wf (fst (mintRefreshToken cr io now raw u c sc rs db))"
  using assms by (simp_all add: mintAccessToken_def mintRefreshToken_def token_store_wf)

lemma mint_both_wf: "db_wf db \<Longrightarrow> db_wf (fst (mint_both cr io now raws u c sc rs db))"
proof -
  assume wf: "db_wf db"
  obtain db1 r1 where 1: "mintAccessToken cr io now (fst raws) u c sc rs db = (db1, r1)" by fastforce
  with mint_wf(1) [OF wf] have wf1: "db_wf db1" by (metis fst_conv)
  obtain db2 r2 where 2: "mintRefreshToken cr (after_stmts 1 io) now (snd raws) u c sc rs db1 = (db2, r2)" by fastforce
  with mint_wf(2) [OF wf1] have "db_wf db2" by (metis fst_conv)
  with wf1 show ?thesis using 2 by (simp add: mint_both_def 1 split: sum.split)
qed

lemma oauth_provider_wf:
  assumes wf: "db_wf db"
  shows "db_wf (snd (fst (handleTokenAuthorizationCode h io now raws r (codes, db))))"
    "db_wf (fst (handleTokenRefresh h io now raws r db))"
    "db_wf (snd (fst (handleOAuthRegister h io now uuids r (rl, db))))"
proof -
  show "db_wf (snd (fst (handleTokenAuthorizationCode h io now raws r (codes, db))))"
    using mint_both_wf [OF wf] wf
    by (simp add: handleTokenAuthorizationCode_def Let_def case_prod_beta split: option.split)
  have "db_wf (fst (OAuthRefreshTokenStore_Consume cr io now tok db))" for cr io now tok
    using wf by (simp add: token_store_wf)
  then show "db_wf (fst (handleTokenRefresh h io now raws r db))"
    using mint_both_wf wf by (simp add: handleTokenRefresh_def Let_def case_prod_beta split: option.split)
  have "db_wf (fst (OAuthClientStore_Create io a b c d e db))" for io a b c d e
    using wf by (simp add: token_store_wf)
  then show "db_wf (snd (fst (handleOAuthRegister h io now uuids r (rl, db))))"
    using wf by (simp add: handleOAuthRegister_def Let_def case_prod_beta split: option.split sum.split bool.split)
qed

section \<open>The authorization code grant\<close>

lemma issued_by_mint:
  assumes "mint_both cr io now raws u c sc rs db = (db', rep)" "rp_status rep = 200"
  shows "rep = token_reply (fst raws) (snd raws) sc \<and>
    (\<exists>db1. insert_oauth_token \<lparr>ot_TokenHash = sha256_hex cr (fst raws), ot_UserID = u, ot_ClientID = c, ot_Scope = sc,
        ot_Resource = rs, ot_ExpiresAt = now + 1 * hour\<rparr> db = Inr db1 \<and>
      insert_refresh_token \<lparr>ot_TokenHash = sha256_hex cr (snd raws), ot_UserID = u, ot_ClientID = c, ot_Scope = sc,
        ot_Resource = rs, ot_ExpiresAt = now + 30 * 24 * hour\<rparr> db1 = Inr db')"
  using assms
  by (auto simp: mint_both_def mintAccessToken_def mintRefreshToken_def OAuthTokenStore_Create_def
      OAuthRefreshTokenStore_Create_def exec_def stmt_def oauthError_def reply_defs split: if_splits prod.splits sum.splits)

lemma minted_token_valid:
  assumes wf: "db_wf db" and "mint_both cr io now raws u c sc rs db = (db', rep)" "rp_status rep = 200"
    and "io' 0" "io' 1" "t \<le> now + 1 * hour"
  shows "\<exists>a \<in> set (db_users db). ur_id a = u \<and> OAuthTokenStore_Validate cr io' t (fst raws) db' = Inr (Some (oauth_user a))"
proof -
  let ?tok = "\<lparr>ot_TokenHash = sha256_hex cr (fst raws), ot_UserID = u, ot_ClientID = c, ot_Scope = sc,
        ot_Resource = rs, ot_ExpiresAt = now + 1 * hour\<rparr>"
  from issued_by_mint [OF assms(2,3)] have db': "db_oauth_tokens db' = db_oauth_tokens db @ [?tok]" "db_users db' = db_users db"
    and new: "\<not> sql_has (\<lambda>x. ot_TokenHash x = sha256_hex cr (fst raws)) (db_oauth_tokens db)" and "user_exists db u"
    by (auto simp: insert_oauth_token_def insert_refresh_token_def split: if_splits)
  then obtain a where a: "a \<in> set (db_users db)" "ur_id a = u" by (auto simp: user_exists_def sql_has_iff)
  then have "sql_row (\<lambda>x. ur_id x = u) (db_users db') = Some a"
    using wf db'(2) by (auto simp: db_wf_def intro: tbl_ok_row)
  moreover have "sql_row (\<lambda>x. ot_TokenHash x = sha256_hex cr (fst raws)) (db_oauth_tokens db') = Some ?tok"
    unfolding db'(1) using new by (simp add: sql_row_snoc)
  ultimately show ?thesis using a assms(4-6)
    by (auto simp: OAuthTokenStore_Validate_def hashAPIKey_def Let_def intro!: bexI [of _ a])
qed

lemma exchange_issued:
  assumes "handleTokenAuthorizationCode h io now raws r (codes, db) = ((codes', db'), rep)" "rp_status rep = 200"
  shows "\<exists>ac client. codes (hr_Form r ''code'') = Some ac \<and> now \<le> oac_ExpiresAt ac \<and> oac_ClientID ac = hr_Form r ''client_id'' \<and>
    oac_RedirectURI ac = hr_Form r ''redirect_uri'' \<and>
    s256_challenge (we_crypto (oe_web h)) (hr_Form r ''code_verifier'') = oac_CodeChallenge ac \<and>
    sql_row (\<lambda>c. oc_ClientID c = hr_Form r ''client_id'') (db_oauth_clients db) = Some client \<and>
    (oc_TokenEndpointAuthMethod client = ''client_secret_post'' \<and> oc_ClientSecretHash client \<noteq> [] \<longrightarrow>
       sha256_hex (we_crypto (oe_web h)) (hr_Form r ''client_secret'') = oc_ClientSecretHash client) \<and>
    codes' = codes(hr_Form r ''code'' := None) \<and>
    mint_both (we_crypto (oe_web h)) (after_stmts 2 io) now raws (oac_UserID ac) (hr_Form r ''client_id'') (oac_Scope ac)
      (oac_Resource ac) db = (db', rep)"
  using assms
  by (auto simp: handleTokenAuthorizationCode_def Let_def codes_consume_def OAuthClientStore_Get_def oauthError_def writeJSON_def
      OAuthClientStore_ValidateSecret_def split: if_splits option.splits prod.splits)

text \<open>
  C30. The token endpoint gives tokens for an authorization code only to the client the code was issued
  for, with the redirect URI of the request that was approved, with the PKCE verifier of its challenge,
  with the client secret where the client registered one, and before the code expires. The access
  token then stands for the user who approved, for one hour, on the MCP routes.
\<close>

theorem code_exchange_sound:
  assumes "db_wf db" "handleTokenAuthorizationCode h io now raws r (codes, db) = ((codes', db'), rep)" "rp_status rep = 200"
    and "io' 0" "io' 1" "t \<le> now + 1 * hour"
  shows "\<exists>ac client a. codes (hr_Form r ''code'') = Some ac \<and> codes' (hr_Form r ''code'') = None \<and> now \<le> oac_ExpiresAt ac \<and>
    oac_ClientID ac = hr_Form r ''client_id'' \<and> oac_RedirectURI ac = hr_Form r ''redirect_uri'' \<and>
    s256_challenge (we_crypto (oe_web h)) (hr_Form r ''code_verifier'') = oac_CodeChallenge ac \<and>
    client \<in> set (db_oauth_clients db) \<and> oc_ClientID client = hr_Form r ''client_id'' \<and>
    (oc_TokenEndpointAuthMethod client = ''client_secret_post'' \<and> oc_ClientSecretHash client \<noteq> [] \<longrightarrow>
       sha256_hex (we_crypto (oe_web h)) (hr_Form r ''client_secret'') = oc_ClientSecretHash client) \<and>
    a \<in> set (db_users db) \<and> ur_id a = oac_UserID ac \<and>
    OAuthTokenStore_Validate (we_crypto (oe_web h)) io' t (fst raws) db' = Inr (Some (oauth_user a))"
proof -
  from exchange_issued [OF assms(2,3)] obtain ac client where
    ac: "codes (hr_Form r ''code'') = Some ac" "now \<le> oac_ExpiresAt ac" "oac_ClientID ac = hr_Form r ''client_id''"
      "oac_RedirectURI ac = hr_Form r ''redirect_uri''"
      "s256_challenge (we_crypto (oe_web h)) (hr_Form r ''code_verifier'') = oac_CodeChallenge ac"
    and cl: "sql_row (\<lambda>c. oc_ClientID c = hr_Form r ''client_id'') (db_oauth_clients db) = Some client"
      "oc_TokenEndpointAuthMethod client = ''client_secret_post'' \<and> oc_ClientSecretHash client \<noteq> [] \<longrightarrow>
       sha256_hex (we_crypto (oe_web h)) (hr_Form r ''client_secret'') = oc_ClientSecretHash client"
    and codes': "codes' = codes(hr_Form r ''code'' := None)"
    and mint: "mint_both (we_crypto (oe_web h)) (after_stmts 2 io) now raws (oac_UserID ac) (hr_Form r ''client_id'') (oac_Scope ac)
      (oac_Resource ac) db = (db', rep)" by blast
  from minted_token_valid [OF assms(1) mint assms(3-6)] obtain a where "a \<in> set (db_users db)" "ur_id a = oac_UserID ac"
    "OAuthTokenStore_Validate (we_crypto (oe_web h)) io' t (fst raws) db' = Inr (Some (oauth_user a))" by blast
  moreover from cl(1) have "client \<in> set (db_oauth_clients db)" "oc_ClientID client = hr_Form r ''client_id''"
    by (auto dest: sql_row_SomeD)
  ultimately show ?thesis using ac cl(2) codes' by (intro exI [of _ ac] exI [of _ client] exI [of _ a]) simp
qed

text \<open>An exchange attempt for one code, by whatever request.\<close>

definition exchange ::
    "oauth_env \<Rightarrow> string \<Rightarrow> faults \<times> time \<times> (string \<times> string) \<times> http_request \<times> relay_db \<Rightarrow> auth_codes \<Rightarrow> auth_codes \<times> reply option" where
  "exchange h code e codes =
     (case e of (io, now, raws, r, db) \<Rightarrow>
       (case handleTokenAuthorizationCode h io now raws r (codes, db) of
          ((codes', _), rep) \<Rightarrow> (codes', if hr_Form r ''code'' = code \<and> rp_status rep = 200 then Some rep else None)))"

text \<open>The other operations on codes; new codes are 32 random bytes, so none repeats this one.\<close>

inductive_set code_ops :: "string \<Rightarrow> (auth_codes \<Rightarrow> auth_codes) set" for code where
  create: "gen \<noteq> Some code \<Longrightarrow> (\<lambda>codes. fst (codes_create now gen c u ru ch sc rs codes)) \<in> code_ops code"
| cleanup: "codes_cleanup now \<in> code_ops code"

lemma codes_none_kept:
  "codes code = None \<Longrightarrow> fst (fst (handleTokenAuthorizationCode h io now raws r (codes, db))) code = None"
  by (auto simp: handleTokenAuthorizationCode_def codes_consume_def Let_def split: option.split prod.split)

interpretation auth_code: one_shot "exchange h code" "code_ops code" "\<lambda>_. True" "\<lambda>codes. codes code \<noteq> None" for h code
proof
  fix e s s' rep
  assume "exchange h code e s = (s', Some rep)"
  then obtain io now raws r db db' where
    "handleTokenAuthorizationCode h io now raws r (s, db) = ((s', db'), rep)" "rp_status rep = 200" "hr_Form r ''code'' = code"
    by (auto simp: exchange_def split: prod.splits if_splits)
  from exchange_issued [OF this(1,2)] this(3) show "s code \<noteq> None" and "\<not> s' code \<noteq> None" by auto
next
  fix e and s :: auth_codes
  assume "\<not> s code \<noteq> None"
  then show "\<not> fst (exchange h code e s) code \<noteq> None"
    using codes_none_kept [of s code h] by (auto simp: exchange_def case_prod_beta)
next
  fix f and s :: auth_codes
  assume "f \<in> code_ops code" "\<not> s code \<noteq> None"
  then show "\<not> f s code \<noteq> None"
    by (cases rule: code_ops.cases) (auto simp: codes_create_def codes_cleanup_def split: option.splits)
qed simp_all

text \<open>
  C31. An authorization code is good for one token response: over any sequence of exchange attempts, by
  any clients, with codes created and expired ones removed in between, at most one attempt gets tokens.
\<close>

theorem auth_code_used_at_most_once:
  assumes "\<And>f. Other f \<in> set us \<Longrightarrow> f \<in> code_ops code"
  shows "length (handed_out (exchange h code) us codes) \<le> 1"
  by (rule auth_code.used_at_most_once) (simp_all add: assms)

section \<open>Examples\<close>

definition demo_oauth :: oauth_env where
  "demo_oauth = \<lparr>oe_web = demo_web, oe_url = (\<lambda>_. Some (''https'', ''app'')), oe_redirect = (\<lambda>u ps. Some u), oe_login_next = (\<lambda>_. ''/login'')\<rparr>"

definition demo_oauth_db :: relay_db where
  "demo_oauth_db = demo_db\<lparr>db_oauth_clients := [\<lparr>oc_ClientID = ''c'', oc_ClientSecretHash = [], oc_ClientName = ''app'',
     oc_RedirectURIs = [''cb''], oc_TokenEndpointAuthMethod = ''none''\<rparr>]\<rparr>"

definition demo_codes :: auth_codes where
  "demo_codes = [''code'' \<mapsto> \<lparr>oac_ClientID = ''c'', oac_UserID = ''u1'', oac_RedirectURI = ''cb'', oac_CodeChallenge = ''cver'',
     oac_Scope = ''mcp'', oac_Resource = [], oac_CreatedAt = 0, oac_ExpiresAt = 9\<rparr>]"

definition demo_exchange :: http_request where
  "demo_exchange = demo_form ''POST'' ''/token'' (\<lambda>f. if f = ''code'' then ''code'' else if f = ''client_id'' then ''c''
     else if f = ''redirect_uri'' then ''cb'' else if f = ''code_verifier'' then ''ver'' else []) None"

lemma demo_oauth_db_wf: "db_wf demo_oauth_db"
proof -
  have "insert_oauth_client \<lparr>oc_ClientID = ''c'', oc_ClientSecretHash = [], oc_ClientName = ''app'',
     oc_RedirectURIs = [''cb''], oc_TokenEndpointAuthMethod = ''none''\<rparr> demo_db = Inr demo_oauth_db"
    by (simp add: insert_oauth_client_def demo_oauth_db_def demo_db_defs sql_has_def)
  then show ?thesis using demo_db_wf by (rule insert_oauth_client_wf)
qed

theorem code_exchange_sound_witness:
  "\<exists>db'. OAuthTokenStore_Validate demo_crypto no_faults 5 ''acc'' db' = Inr (Some (oauth_user demo_user_row))"
proof -
  obtain codes' db' rep where run: "handleTokenAuthorizationCode demo_oauth no_faults 1 (''acc'', ''ref'') demo_exchange (demo_codes, demo_oauth_db) =
      ((codes', db'), rep)" "rp_status rep = 200"
    by (simp add: handleTokenAuthorizationCode_def demo_oauth_def demo_web_def demo_exchange_def demo_form_def demo_codes_def
        demo_oauth_db_def demo_db_defs OAuthClientStore_Get_def codes_consume_def mint_both_def mintAccessToken_def
        mintRefreshToken_def OAuthTokenStore_Create_def OAuthRefreshTokenStore_Create_def exec_def insert_oauth_token_def
        insert_refresh_token_def user_exists_def sql_has_def token_reply_def writeJSON_def)
  have cr: "we_crypto (oe_web demo_oauth) = demo_crypto" by (simp add: demo_oauth_def demo_web_def)
  from code_exchange_sound [OF demo_oauth_db_wf run, of no_faults 5] have
    "\<exists>a \<in> set (db_users demo_oauth_db). OAuthTokenStore_Validate demo_crypto no_faults 5 ''acc'' db' = Inr (Some (oauth_user a))"
    by (auto simp: cr duration_defs)
  then show ?thesis by (auto simp: demo_oauth_db_def demo_db_def)
qed

theorem auth_code_used_at_most_once_witness:
  "length (handed_out (exchange demo_oauth ''code'') [Try (no_faults, 1, (''acc'', ''ref''), demo_exchange, demo_oauth_db),
     Other (codes_cleanup 1), Try (no_faults, 2, (''acc2'', ''ref2''), demo_exchange, demo_oauth_db)] demo_codes) \<le> 1"
  by (rule auth_code_used_at_most_once) (auto intro: code_ops.cleanup)

end
