(* ===== verification/Device_Auth.thy ===== *)
theory Device_Auth
  imports OAuth_Provider
begin

text \<open>
  \<open>internal/web/device_auth.go\<close>: the device authorization flow of the command line client. A client
  starts a request and polls with its device code; a logged-in user finds the request by its user
  code and approves it, which creates an API key, or denies it. Requests live in memory in two maps.

  Random choices are arguments; the handlers run one at a time, as under the store's mutex. A field
  of a JSON reply that is a number is given as text.
\<close>

section \<open>Pending requests\<close>

record deviceAuthRequest =
  da_DeviceCode :: string
  da_UserCode :: string
  da_CreatedAt :: time
  da_ExpiresAt :: time
  da_Status :: string
  da_APIKey :: string

record deviceAuthStore =
  ds_requests :: "string \<Rightarrow> deviceAuthRequest option"
  ds_byUser :: "string \<Rightarrow> string option"

definition newDeviceAuthStore :: deviceAuthStore where
  "newDeviceAuthStore = \<lparr>ds_requests = (\<lambda>_. None), ds_byUser = (\<lambda>_. None)\<rparr>"

text \<open>Sixteen random bytes, in hexadecimal; \<open>None\<close> when the random source fails.\<close>

definition code_hex :: "nat \<Rightarrow> char" where
  "code_hex n = ''0123456789abcdef'' ! (n mod 16)"

definition generateDeviceCode :: "nat list option \<Rightarrow> string option" where
  "generateDeviceCode bytes = map_option (concat \<circ> map (\<lambda>b. [code_hex (b div 16), code_hex b])) bytes"

definition user_code_chars :: string where
  "user_code_chars = ''ABCDEFGHJKLMNPQRSTUVWXYZ23456789''"

text \<open>Eight draws below the number of characters.\<close>

definition generateUserCode :: "nat list option \<Rightarrow> string option" where
  "generateUserCode draws =
     map_option (\<lambda>ns. let code = map (\<lambda>n. user_code_chars ! (n mod length user_code_chars)) ns in take 4 code @ ''-'' @ drop 4 code) draws"

definition device_create ::
    "time \<Rightarrow> nat list option \<Rightarrow> nat list option \<Rightarrow> deviceAuthStore \<Rightarrow> deviceAuthStore \<times> deviceAuthRequest option" where
  "device_create now bytes draws s =
     (case generateDeviceCode bytes of
        None \<Rightarrow> (s, None)
      | Some deviceCode \<Rightarrow>
          (case generateUserCode draws of
             None \<Rightarrow> (s, None)
           | Some userCode \<Rightarrow>
               let req = \<lparr>da_DeviceCode = deviceCode, da_UserCode = userCode, da_CreatedAt = now, da_ExpiresAt = now + 5 * minute,
                          da_Status = ''pending'', da_APIKey = []\<rparr> in
               (\<lparr>ds_requests = (ds_requests s)(deviceCode \<mapsto> req), ds_byUser = (ds_byUser s)(userCode \<mapsto> deviceCode)\<rparr>, Some req)))"

definition device_get :: "time \<Rightarrow> string \<Rightarrow> deviceAuthStore \<Rightarrow> deviceAuthRequest option" where
  "device_get now deviceCode s =
     (case ds_requests s deviceCode of
        None \<Rightarrow> None
      | Some req \<Rightarrow> if da_ExpiresAt req < now then None else Some req)"

definition device_getByUserCode :: "time \<Rightarrow> string \<Rightarrow> deviceAuthStore \<Rightarrow> deviceAuthRequest option" where
  "device_getByUserCode now userCode s =
     (case ds_byUser s userCode of
        None \<Rightarrow> None
      | Some deviceCode \<Rightarrow>
          (case ds_requests s deviceCode of
             None \<Rightarrow> None
           | Some req \<Rightarrow> if da_ExpiresAt req < now then None else Some req))"

definition device_approve :: "string \<Rightarrow> string \<Rightarrow> deviceAuthStore \<Rightarrow> deviceAuthStore" where
  "device_approve deviceCode apiKey s =
     (case ds_requests s deviceCode of
        None \<Rightarrow> s
      | Some req \<Rightarrow> s\<lparr>ds_requests := (ds_requests s)(deviceCode \<mapsto> req\<lparr>da_Status := ''approved'', da_APIKey := apiKey\<rparr>)\<rparr>)"

definition device_deny :: "string \<Rightarrow> deviceAuthStore \<Rightarrow> deviceAuthStore" where
  "device_deny deviceCode s =
     (case ds_requests s deviceCode of
        None \<Rightarrow> s
      | Some req \<Rightarrow> s\<lparr>ds_requests := (ds_requests s)(deviceCode \<mapsto> req\<lparr>da_Status := ''denied''\<rparr>)\<rparr>)"

definition device_consume :: "time \<Rightarrow> string \<Rightarrow> deviceAuthStore \<Rightarrow> deviceAuthStore \<times> deviceAuthRequest option" where
  "device_consume now deviceCode s =
     (case ds_requests s deviceCode of
        None \<Rightarrow> (s, None)
      | Some req \<Rightarrow>
          if da_ExpiresAt req < now then (s, None)
          else if da_Status req = ''pending'' then (s, Some req)
          else (\<lparr>ds_requests = (ds_requests s)(deviceCode := None), ds_byUser = (ds_byUser s)(da_UserCode req := None)\<rparr>, Some req))"

text \<open>
  One tick of the clean-up loop. The loop ranges over the map; \<open>codes\<close> are its keys in the order the
  runtime visits them.
\<close>

fun device_cleanup :: "time \<Rightarrow> string list \<Rightarrow> deviceAuthStore \<Rightarrow> deviceAuthStore" where
  "device_cleanup now [] s = s"
| "device_cleanup now (code # codes) s =
     (case ds_requests s code of
        None \<Rightarrow> device_cleanup now codes s
      | Some req \<Rightarrow>
          if da_ExpiresAt req < now then
            device_cleanup now codes
              \<lparr>ds_requests = (ds_requests s)(code := None), ds_byUser = (ds_byUser s)(da_UserCode req := None)\<rparr>
          else device_cleanup now codes s)"

section \<open>Handlers\<close>

definition handleDeviceAuthStart ::
    "web_env \<Rightarrow> time \<Rightarrow> nat list option \<Rightarrow> nat list option \<Rightarrow> http_request \<Rightarrow> ipRateLimiter \<times> deviceAuthStore \<Rightarrow>
     (ipRateLimiter \<times> deviceAuthStore) \<times> reply" where
  "handleDeviceAuthStart h now bytes draws r = (\<lambda>(rl, s).
     let ip = clientIP (we_split h) r in
     case ip_allow now ip rl of
       (rl1, False) \<Rightarrow> ((rl1, s), rateLimitResponse (15 * minute))
     | (rl1, True) \<Rightarrow>
         let rl2 = ip_record now ip rl1 in
         if hr_Method r \<noteq> ''POST'' then ((rl2, s), http_error ''{\"error\":\"method not allowed\"}'' 405)
         else (case device_create now bytes draws s of
           (s1, None) \<Rightarrow> ((rl2, s1), writeJSON 500 [(''error'', ''internal error'')])
         | (s1, Some req) \<Rightarrow>
             ((rl2, s1), writeJSON 200 [(''device_code'', da_DeviceCode req), (''user_code'', da_UserCode req),
                (''verification_url'', we_baseURL h @ ''/auth/device?code='' @ da_UserCode req), (''expires_in'', ''300''), (''interval'', ''5'')])))"

text \<open>A JSON body with one string field of interest; \<open>None\<close> when it does not decode.\<close>

definition body_string :: "string \<Rightarrow> string option \<Rightarrow> string option" where
  "body_string field body =
     (case body_members body of
        None \<Rightarrow> None
      | Some kvs \<Rightarrow> (case str_field [] (field_values field kvs) of (v, ok) \<Rightarrow> if ok then Some v else None))"

definition poll_reply :: "deviceAuthRequest option \<Rightarrow> reply" where
  "poll_reply req =
     (case req of
        None \<Rightarrow> writeJSON 200 [(''error'', ''expired_token'')]
      | Some q \<Rightarrow>
          if da_Status q = ''approved'' then writeJSON 200 [(''api_key'', da_APIKey q)]
          else if da_Status q = ''denied'' then writeJSON 200 [(''error'', ''access_denied'')]
          else writeJSON 200 [(''error'', ''authorization_pending'')])"

definition handleDeviceAuthToken ::
    "web_env \<Rightarrow> time \<Rightarrow> http_request \<Rightarrow> ipRateLimiter \<times> deviceAuthStore \<Rightarrow> (ipRateLimiter \<times> deviceAuthStore) \<times> reply" where
  "handleDeviceAuthToken h now r = (\<lambda>(rl, s).
     let ip = clientIP (we_split h) r in
     case ip_allow now ip rl of
       (rl1, False) \<Rightarrow> ((rl1, s), rateLimitResponse (1 * minute))
     | (rl1, True) \<Rightarrow>
         let rl2 = ip_record now ip rl1 in
         if hr_Method r \<noteq> ''POST'' then ((rl2, s), http_error ''{\"error\":\"method not allowed\"}'' 405)
         else (case body_string ''device_code'' (hr_Body r) of
           None \<Rightarrow> ((rl2, s), http_error ''{\"error\":\"invalid request, device_code required\"}'' 400)
         | Some deviceCode \<Rightarrow>
             if deviceCode = [] then ((rl2, s), http_error ''{\"error\":\"invalid request, device_code required\"}'' 400)
             else (case device_consume now deviceCode s of (s1, req) \<Rightarrow> ((rl2, s1), poll_reply req))))"

text \<open>\<open>Handlers.flashKeys\<close>: values shown once after a redirect; each entry is dropped after a minute.\<close>

type_synonym flash_keys = "string \<Rightarrow> string option"

definition device_page :: "(string \<times> string) list \<Rightarrow> reply" where
  "device_page fs = page ''device_auth.html'' fs"

definition handleDeviceAuthPageGet ::
    "time \<Rightarrow> http_request \<Rightarrow> deviceAuthStore \<Rightarrow> flash_keys \<Rightarrow> flash_keys \<times> reply" where
  "handleDeviceAuthPageGet now r s flash =
     (let userCode = hr_Query r ''code''; nonce = hr_Query r ''approved'' in
      if nonce \<noteq> [] then
        (case flash (''device-approved-'' @ nonce) of
           Some _ \<Rightarrow> (flash(''device-approved-'' @ nonce := None), device_page [(''Approved'', ''true'')])
         | None \<Rightarrow> (flash, device_page []))
      else if userCode = [] then
        (flash, device_page [(''Error'', ''No device code provided. Please run arc-sync init to start the authorization flow.'')])
      else (case device_getByUserCode now (to_upper userCode) s of
        None \<Rightarrow> (flash, device_page [(''Error'', ''This device code has expired or is invalid. Please run arc-sync init again.'')])
      | Some req \<Rightarrow>
          if da_Status req \<noteq> ''pending'' then (flash, device_page [(''Error'', ''This device code has already been used.'')])
          else (flash, device_page [(''UserCode'', da_UserCode req), (''DeviceCode'', da_DeviceCode req)])))"

text \<open>Statement 0 reads the account, statement 1 inserts the key \<open>raw\<close> under the id \<open>kid\<close>.\<close>

definition handleDeviceAuthPagePost ::
    "web_env \<Rightarrow> faults \<Rightarrow> time \<Rightarrow> string \<times> string \<Rightarrow> string option \<Rightarrow> User \<Rightarrow> http_request \<Rightarrow> deviceAuthStore \<times> flash_keys \<times> relay_db \<Rightarrow>
     (deviceAuthStore \<times> flash_keys \<times> relay_db) \<times> reply" where
  "handleDeviceAuthPagePost h io now key gen user r = (\<lambda>(s, flash, db).
     let deviceCode = hr_Form r ''device_code''; action = hr_Form r ''action'' in
     if deviceCode = [] then ((s, flash, db), redirect ''/auth/device'' 302)
     else (case device_get now deviceCode s of
       None \<Rightarrow> ((s, flash, db), device_page [(''Error'', ''This device code has expired or is invalid.'')])
     | Some req \<Rightarrow>
         if da_Status req \<noteq> ''pending'' then
           ((s, flash, db), device_page [(''Error'', ''This device code has expired or is invalid.'')])
         else if action = ''deny'' then ((device_deny deviceCode s, flash, db), device_page [(''Denied'', ''true'')])
         else
           let profile = (case UserStore_Get io (u_ID user) db of Inr (Some u) \<Rightarrow> u_DefaultProfileID u | _ \<Rightarrow> None) in
           (case UserStore_CreateAPIKey (we_crypto h) (after_stmts 1 io) now (fst key) (snd key) (u_ID user) ''arc-sync device auth'' profile [] db of
              (db1, Inl _) \<Rightarrow> ((s, flash, db1), device_page [(''Error'', ''Failed to create API key. Please try again.'')])
            | (db1, Inr (rawKey, _)) \<Rightarrow>
                let s1 = device_approve deviceCode rawKey s in
                (case gen of
                   None \<Rightarrow> ((s1, flash, db1), redirect ''/auth/device'' 302)
                 | Some nonce \<Rightarrow>
                     ((s1, flash(''device-approved-'' @ nonce \<mapsto> ''true''), db1), redirect (''/auth/device?approved='' @ nonce) 302)))))"

text \<open>
  \<open>nxt\<close> is the login page with the escaped address of this request. Statement 0 reads the session.
\<close>

definition handleDeviceAuthPage ::
    "web_env \<Rightarrow> faults \<Rightarrow> time \<Rightarrow> string \<times> string \<Rightarrow> string option \<Rightarrow> string \<Rightarrow> http_request \<Rightarrow>
     deviceAuthStore \<times> flash_keys \<times> relay_db \<Rightarrow> (deviceAuthStore \<times> flash_keys \<times> relay_db) \<times> reply" where
  "handleDeviceAuthPage h io now key gen nxt r = (\<lambda>(s, flash, db).
     case hr_Cookie r ''session'' of
       None \<Rightarrow> ((s, flash, db), redirect nxt 302)
     | Some sid \<Rightarrow>
         (case SessionStore_Get io now sid db of
            None \<Rightarrow> ((s, flash, db), redirect nxt 302)
          | Some (user, _) \<Rightarrow>
              if hr_Method r = ''GET'' then
                (case handleDeviceAuthPageGet now r s flash of (flash1, rep) \<Rightarrow> ((s, flash1, db), rep))
              else if hr_Method r = ''POST'' then
                (if \<not> validateCSRF h r sid then ((s, flash, db), http_error ''Invalid or missing CSRF token'' 403)
                 else handleDeviceAuthPagePost h (after_stmts 1 io) now key gen user r (s, flash, db))
              else ((s, flash, db), http_error ''Method not allowed'' 405)))"

text \<open>
  The client download: \<open>local\<close> says that the data directory holds a regular file of that name,
  \<open>repo\<close> is the environment variable with the release repository.
\<close>

definition validBinaries :: "string list" where
  "validBinaries = [''arc-sync-linux-amd64'', ''arc-sync-linux-arm64'', ''arc-sync-darwin-arm64'', ''arc-sync-darwin-amd64'',
     ''arc-sync-windows-amd64.exe'', ''arc-sync-windows-arm64.exe'']"

definition handleDownload :: "(string \<Rightarrow> bool) \<Rightarrow> string \<Rightarrow> http_request \<Rightarrow> reply" where
  "handleDownload local_file repo r =
     (if hr_Method r \<noteq> ''GET'' then http_error ''Method not allowed'' 405
      else
        let binary = trim_prefix (hr_Path r) ''/download/'' in
        if binary = [] then http_error ''Missing binary name'' 400
        else if binary \<notin> set validBinaries then http_error ''Unknown binary'' 404
        else if local_file binary then page ''file'' [(''filename'', binary)]
        else redirect (''https://github.com/'' @ (if repo = [] then ''ATECHPCS/arc-relay'' else repo) @ ''/releases/latest/download/'' @ binary) 302)"

section \<open>The store refines a list of grants\<close>

text \<open>
  What the store promises, without indices and without clean-up: a list of grants, each pending,
  approved with a key, or denied; a grant past its expiry is never found.
\<close>

datatype verdict = Pending | Approved string | Denied

record grant =
  g_device :: string
  g_user :: string
  g_expires :: time
  g_verdict :: verdict

definition spec_find :: "time \<Rightarrow> string \<Rightarrow> grant list \<Rightarrow> grant option" where
  "spec_find now dc gs = sql_row (\<lambda>g. g_device g = dc \<and> now \<le> g_expires g) gs"

definition spec_find_user :: "time \<Rightarrow> string \<Rightarrow> grant list \<Rightarrow> grant option" where
  "spec_find_user now uc gs = sql_row (\<lambda>g. g_user g = uc \<and> now \<le> g_expires g) gs"

definition spec_decide :: "string \<Rightarrow> verdict \<Rightarrow> grant list \<Rightarrow> grant list" where
  "spec_decide dc v gs = sql_update (\<lambda>g. g_device g = dc) (\<lambda>g. g\<lparr>g_verdict := v\<rparr>) gs"

definition spec_take :: "time \<Rightarrow> string \<Rightarrow> grant list \<Rightarrow> grant list \<times> grant option" where
  "spec_take now dc gs =
     (case spec_find now dc gs of
        None \<Rightarrow> (gs, None)
      | Some g \<Rightarrow> (if g_verdict g = Pending then gs else sql_delete (\<lambda>g. g_device g = dc) gs, Some g))"

datatype dev_op =
    OpCreate time "nat list option" "nat list option"
  | OpGet time string
  | OpGetUser time string
  | OpApprove string string
  | OpDeny string
  | OpConsume time string
  | OpCleanup time "string list"

text \<open>The state of the specification is the time of the last operation and the grants.\<close>

fun spec_step :: "dev_op \<Rightarrow> time \<times> grant list \<Rightarrow> (time \<times> grant list) \<times> grant option" where
  "spec_step (OpCreate now bytes draws) (_, gs) =
     (case (generateDeviceCode bytes, generateUserCode draws) of
        (Some dc, Some uc) \<Rightarrow>
          (let g = \<lparr>g_device = dc, g_user = uc, g_expires = now + 5 * minute, g_verdict = Pending\<rparr> in ((now, gs @ [g]), Some g))
      | _ \<Rightarrow> ((now, gs), None))"
| "spec_step (OpGet now dc) (_, gs) = ((now, gs), spec_find now dc gs)"
| "spec_step (OpGetUser now uc) (_, gs) = ((now, gs), spec_find_user now uc gs)"
| "spec_step (OpApprove dc key) (t, gs) = ((t, spec_decide dc (Approved key) gs), None)"
| "spec_step (OpDeny dc) (t, gs) = ((t, spec_decide dc Denied gs), None)"
| "spec_step (OpConsume now dc) (_, gs) = (case spec_take now dc gs of (gs', g) \<Rightarrow> ((now, gs'), g))"
| "spec_step (OpCleanup now codes) (_, gs) = ((now, gs), None)"

text \<open>The clock does not run backwards, and a new code is not one of a request still held.\<close>

fun op_legal :: "dev_op \<Rightarrow> time \<times> grant list \<Rightarrow> bool" where
  "op_legal (OpCreate now bytes draws) (t, gs) =
     (t \<le> now \<and> (\<forall>g \<in> set gs. generateDeviceCode bytes \<noteq> Some (g_device g) \<and> generateUserCode draws \<noteq> Some (g_user g)))"
| "op_legal (OpGet now _) (t, gs) = (t \<le> now)"
| "op_legal (OpGetUser now _) (t, gs) = (t \<le> now)"
| "op_legal (OpConsume now _) (t, gs) = (t \<le> now)"
| "op_legal (OpCleanup now _) (t, gs) = (t \<le> now)"
| "op_legal _ _ = True"

text \<open>The store's answer to the same operation, seen as a grant.\<close>

definition verdict_of :: "deviceAuthRequest \<Rightarrow> verdict" where
  "verdict_of req =
     (if da_Status req = ''pending'' then Pending else if da_Status req = ''approved'' then Approved (da_APIKey req) else Denied)"

definition grant_of :: "deviceAuthRequest \<Rightarrow> grant" where
  "grant_of req = \<lparr>g_device = da_DeviceCode req, g_user = da_UserCode req, g_expires = da_ExpiresAt req, g_verdict = verdict_of req\<rparr>"

fun store_step :: "dev_op \<Rightarrow> deviceAuthStore \<Rightarrow> deviceAuthStore \<times> grant option" where
  "store_step (OpCreate now bytes draws) s = (case device_create now bytes draws s of (s', q) \<Rightarrow> (s', map_option grant_of q))"
| "store_step (OpGet now dc) s = (s, map_option grant_of (device_get now dc s))"
| "store_step (OpGetUser now uc) s = (s, map_option grant_of (device_getByUserCode now uc s))"
| "store_step (OpApprove dc key) s = (device_approve dc key s, None)"
| "store_step (OpDeny dc) s = (device_deny dc s, None)"
| "store_step (OpConsume now dc) s = (case device_consume now dc s of (s', q) \<Rightarrow> (s', map_option grant_of q))"
| "store_step (OpCleanup now codes) s = (device_cleanup now codes s, None)"

text \<open>
  Every stored request is a grant of the list; a grant that has not expired is stored; the index of user
  codes points exactly at the stored requests.
\<close>

definition dev_sim :: "deviceAuthStore \<Rightarrow> time \<times> grant list \<Rightarrow> bool" where
  "dev_sim s = (\<lambda>(now, gs).
     (\<forall>dc req. ds_requests s dc = Some req \<longrightarrow> da_DeviceCode req = dc \<and> grant_of req \<in> set gs) \<and>
     (\<forall>g \<in> set gs. now \<le> g_expires g \<longrightarrow> ds_requests s (g_device g) \<noteq> None) \<and>
     (\<forall>uc dc. ds_byUser s uc = Some dc \<longleftrightarrow> (\<exists>req. ds_requests s dc = Some req \<and> da_UserCode req = uc)) \<and>
     distinct (map g_device gs) \<and> distinct (map g_user gs))"

lemma dev_simD:
  assumes "dev_sim s (now, gs)"
  shows "ds_requests s dc = Some req \<Longrightarrow> da_DeviceCode req = dc" "ds_requests s dc = Some req \<Longrightarrow> grant_of req \<in> set gs"
    "g \<in> set gs \<Longrightarrow> now \<le> g_expires g \<Longrightarrow> \<exists>req. ds_requests s (g_device g) = Some req"
    "ds_byUser s uc = Some dc \<longleftrightarrow> (\<exists>req. ds_requests s dc = Some req \<and> da_UserCode req = uc)"
    "distinct (map g_device gs)" "distinct (map g_user gs)"
  using assms by (auto simp: dev_sim_def)

lemma grant_of_simps [simp]:
  "g_device (grant_of q) = da_DeviceCode q" "g_user (grant_of q) = da_UserCode q" "g_expires (grant_of q) = da_ExpiresAt q"
  by (simp_all add: grant_of_def)

lemma dev_sim_later: "dev_sim s (t, gs) \<Longrightarrow> t \<le> now \<Longrightarrow> dev_sim s (now, gs)"
  by (auto simp: dev_sim_def)

text \<open>Under the relation, a grant that is found is the stored request.\<close>

lemma dev_sim_found:
  assumes "dev_sim s (now, gs)" "g \<in> set gs" "now \<le> g_expires g"
  shows "\<exists>req. ds_requests s (g_device g) = Some req \<and> grant_of req = g"
proof -
  from dev_simD(3) [OF assms] obtain req where req: "ds_requests s (g_device g) = Some req" by blast
  with dev_simD(1,2) [OF assms(1) req] assms(2) dev_simD(5) [OF assms(1)] have "grant_of req = g"
    by (intro distinct_key_eq [of g_device gs]) auto
  with req show ?thesis by blast
qed

lemma dev_sim_find:
  assumes "dev_sim s (now, gs)"
  shows "spec_find now dc gs = map_option grant_of (device_get now dc s)"
proof (cases "spec_find now dc gs")
  case None
  then have "\<not> (g \<in> set gs \<and> g_device g = dc \<and> now \<le> g_expires g)" for g
    by (auto simp: spec_find_def sql_row_None_iff)
  then have "da_ExpiresAt req < now" if "ds_requests s dc = Some req" for req
    using dev_simD(1,2) [OF assms that] by (metis grant_of_simps(1,3) not_le)
  with None show ?thesis by (auto simp: device_get_def split: option.split)
next
  case (Some g)
  then have g: "g \<in> set gs" "g_device g = dc" "now \<le> g_expires g" by (auto simp: spec_find_def dest: sql_row_SomeD)
  from dev_sim_found [OF assms g(1,3)] obtain req where "ds_requests s dc = Some req" "grant_of req = g" by (auto simp: g(2))
  with g Some show ?thesis by (auto simp: device_get_def)
qed

lemma dev_sim_find_user:
  assumes "dev_sim s (now, gs)"
  shows "spec_find_user now uc gs = map_option grant_of (device_getByUserCode now uc s)"
proof (cases "spec_find_user now uc gs")
  case None
  then have none: "\<not> (g \<in> set gs \<and> g_user g = uc \<and> now \<le> g_expires g)" for g
    by (auto simp: spec_find_user_def sql_row_None_iff)
  have "da_ExpiresAt req < now" if "ds_byUser s uc = Some dc" "ds_requests s dc = Some req" for dc req
    using that dev_simD(2) [OF assms that(2)] none [of "grant_of req"] by (auto simp: dev_simD(4) [OF assms])
  with None show ?thesis by (auto simp: device_getByUserCode_def split: option.split)
next
  case (Some g)
  then have g: "g \<in> set gs" "g_user g = uc" "now \<le> g_expires g" by (auto simp: spec_find_user_def dest: sql_row_SomeD)
  from dev_sim_found [OF assms g(1,3)] obtain req where req: "ds_requests s (g_device g) = Some req" "grant_of req = g" by auto
  with g(2) have "ds_byUser s uc = Some (g_device g)" unfolding dev_simD(4) [OF assms] by auto
  with req g Some show ?thesis by (auto simp: device_getByUserCode_def)
qed

lemma grant_of_decided:
  "grant_of (q\<lparr>da_Status := ''approved'', da_APIKey := key\<rparr>) = (grant_of q)\<lparr>g_verdict := Approved key\<rparr>"
  "grant_of (q\<lparr>da_Status := ''denied''\<rparr>) = (grant_of q)\<lparr>g_verdict := Denied\<rparr>"
  by (simp_all add: grant_of_def verdict_of_def)

lemma grant_of_eqD: "grant_of p = (grant_of q)\<lparr>g_verdict := v\<rparr> \<Longrightarrow> da_DeviceCode p = da_DeviceCode q \<and> da_UserCode p = da_UserCode q"
  by (simp add: grant_of_def)

lemma dev_sim_decide:
  assumes sim: "dev_sim s (t, gs)" and f: "\<And>q. grant_of (f q) = (grant_of q)\<lparr>g_verdict := v\<rparr>"
  shows "dev_sim (case ds_requests s dc of None \<Rightarrow> s | Some req \<Rightarrow> s\<lparr>ds_requests := (ds_requests s)(dc \<mapsto> f req)\<rparr>) (t, spec_decide dc v gs)"
    (is "dev_sim ?s (t, ?gs)")
proof -
  have keys: "da_DeviceCode (f q) = da_DeviceCode q" "da_UserCode (f q) = da_UserCode q" for q
    using grant_of_eqD [OF f] by auto
  have req: "ds_requests ?s x = map_option (if x = dc then f else id) (ds_requests s x)" for x
    by (cases "ds_requests s dc") (auto simp: option.map_id)
  have in_gs: "x = dc \<Longrightarrow> grant_of (f q) \<in> set ?gs" "x \<noteq> dc \<Longrightarrow> grant_of q \<in> set ?gs" if "ds_requests s x = Some q" for x q
    using dev_simD(1,2) [OF sim that] f [of q] by (force simp: spec_decide_def)+
  have "ds_byUser ?s = ds_byUser s" by (cases "ds_requests s dc") auto
  moreover have "map g_device ?gs = map g_device gs" "map g_user ?gs = map g_user gs"
    by (simp_all add: spec_decide_def map_sql_update)
  moreover have "ds_requests s (g_device g) \<noteq> None" if "g \<in> set ?gs" "t \<le> g_expires g" for g
    using that dev_simD(3) [OF sim] by (force simp: spec_decide_def split: if_splits)
  ultimately show ?thesis
    using dev_simD(1,4-6) [OF sim] in_gs by (auto simp: dev_sim_def req keys split: if_splits)
qed

lemma dev_sim_remove:
  assumes sim: "dev_sim s (now, gs)" and q: "ds_requests s dc = Some q"
    and gs': "gs' = gs \<and> da_ExpiresAt q < now \<or> gs' = sql_delete (\<lambda>g. g_device g = dc) gs"
  shows "dev_sim \<lparr>ds_requests = (ds_requests s)(dc := None), ds_byUser = (ds_byUser s)(da_UserCode q := None)\<rparr> (now, gs')"
proof -
  note simD = dev_simD [OF sim]
  have gq: "grant_of q \<in> set gs" "da_DeviceCode q = dc" using simD(1,2) q by auto
  have same_user: "x = dc" if "ds_requests s x = Some p" "da_UserCode p = da_UserCode q" for x p
    using that simD(1,2) [OF that(1)] gq distinct_key_eq [OF simD(6), of "grant_of p" "grant_of q"]
    by (metis grant_of_simps(1,2))
  have in_gs: "grant_of p \<in> set gs'" if "ds_requests s x = Some p" "x \<noteq> dc" for x p
    using that simD(1,2) [OF that(1)] gs' by auto
  have stored: "g_device g \<noteq> dc \<and> ds_requests s (g_device g) \<noteq> None" if "g \<in> set gs'" "now \<le> g_expires g" for g
  proof -
    from that gs' have "g \<in> set gs" by auto
    with simD(3) that have "ds_requests s (g_device g) \<noteq> None" by auto
    moreover have "g_device g \<noteq> dc"
      using gs' that distinct_key_eq [OF simD(5) \<open>g \<in> set gs\<close> gq(1)] gq(2) by auto
    ultimately show ?thesis by simp
  qed
  have "distinct (map g_device gs')" "distinct (map g_user gs')"
    using gs' simD(5,6) by (auto simp: distinct_map_sql_delete)
  with simD(1) in_gs stored same_user show ?thesis
    by (auto simp: dev_sim_def simD(4) q)
qed

lemma dev_sim_cleanup: "dev_sim s (now, gs) \<Longrightarrow> dev_sim (device_cleanup now codes s) (now, gs)"
proof (induction codes arbitrary: s)
  case (Cons code codes)
  then show ?case using dev_sim_remove [OF Cons.prems, of code _ gs]
    by (auto split: option.split)
qed simp

lemma dev_sim_take:
  assumes sim: "dev_sim s (now, gs)"
  shows "snd (spec_take now dc gs) = map_option grant_of (snd (device_consume now dc s))"
    and "dev_sim (fst (device_consume now dc s)) (now, fst (spec_take now dc gs))"
proof -
  note find = dev_sim_find [OF sim, of dc]
  have verdict: "g_verdict (grant_of q) = Pending \<longleftrightarrow> da_Status q = ''pending''" for q
    by (simp add: grant_of_def verdict_of_def)
  show "snd (spec_take now dc gs) = map_option grant_of (snd (device_consume now dc s))"
    using find by (auto simp: spec_take_def device_consume_def device_get_def split: option.splits if_splits)
  show "dev_sim (fst (device_consume now dc s)) (now, fst (spec_take now dc gs))"
    using find sim dev_sim_remove [OF sim, of dc]
    by (auto simp: spec_take_def device_consume_def device_get_def verdict split: option.splits if_splits)
qed

lemma dev_sim_create:
  assumes sim: "dev_sim s (now, gs)" and gen: "generateDeviceCode bytes = Some dc" "generateUserCode draws = Some uc"
    and fresh: "\<And>g. g \<in> set gs \<Longrightarrow> g_device g \<noteq> dc \<and> g_user g \<noteq> uc"
  shows "dev_sim (fst (device_create now bytes draws s)) (fst (spec_step (OpCreate now bytes draws) (now, gs)))"
proof -
  note simD = dev_simD [OF sim]
  have new: "da_UserCode q \<noteq> uc" "x \<noteq> dc" if "ds_requests s x = Some q" for x q
    using simD(1,2) [OF that] fresh [of "grant_of q"] by auto
  have free: "ds_requests s dc = None" using new(2) by fastforce
  have codes: "dc \<notin> g_device ` set gs" "uc \<notin> g_user ` set gs" using fresh by force+
  have "\<And>q. ds_requests s x = Some q \<Longrightarrow> grant_of q \<in> set gs" for x using simD(2) by blast
  moreover have "\<And>x. ds_byUser s uc \<noteq> Some x" using new(1) by (auto simp: simD(4))
  ultimately show ?thesis
    using simD(1,5,6) simD(3) new free codes
    by (auto simp: device_create_def gen dev_sim_def Let_def simD(4) grant_of_def verdict_of_def)
qed

lemma dev_sim_step:
  assumes "dev_sim c a" "op_legal e a"
  shows "snd (store_step e c) = snd (spec_step e a) \<and> dev_sim (fst (store_step e c)) (fst (spec_step e a))"
proof -
  obtain t gs where a: "a = (t, gs)" by fastforce
  note sim = assms(1) [unfolded a] and legal = assms(2) [unfolded a]
  note later = dev_sim_later [OF sim]
  show ?thesis
  proof (cases e)
    case (OpCreate now bytes draws)
    with legal later have now: "dev_sim c (now, gs)" by simp
    show ?thesis
    proof (cases "generateDeviceCode bytes = None \<or> generateUserCode draws = None")
      case True
      with now OpCreate show ?thesis by (auto simp: a device_create_def split: option.split)
    next
      case False
      then obtain dc uc where gen: "generateDeviceCode bytes = Some dc" "generateUserCode draws = Some uc" by auto
      moreover from legal OpCreate gen have "\<And>g. g \<in> set gs \<Longrightarrow> g_device g \<noteq> dc \<and> g_user g \<noteq> uc" by auto
      ultimately show ?thesis using dev_sim_create [OF now gen] OpCreate
        by (simp add: a device_create_def Let_def grant_of_def verdict_of_def)
    qed
  next
    case (OpApprove dc key)
    then show ?thesis
      using dev_sim_decide [OF sim, of "\<lambda>q. q\<lparr>da_Status := ''approved'', da_APIKey := key\<rparr>"] by (simp add: a device_approve_def grant_of_decided)
  next
    case (OpDeny dc)
    then show ?thesis
      using dev_sim_decide [OF sim, of "\<lambda>q. q\<lparr>da_Status := ''denied''\<rparr>"] by (simp add: a device_deny_def grant_of_decided)
  next
    case (OpConsume now dc)
    with legal later dev_sim_take [of c now gs dc] show ?thesis by (simp add: a case_prod_beta)
  qed (use legal later in \<open>simp_all add: a dev_sim_find [symmetric] dev_sim_find_user [symmetric] dev_sim_cleanup\<close>)
qed

interpretation device: simulation store_step spec_step dev_sim op_legal
  by standard (simp_all add: dev_sim_step)


section \<open>Where a key comes from\<close>

text \<open>
  The events of the flow: a start, a poll, a visit of the page with what it draws at random, a tick of
  the clean-up, the end of a flash entry's minute, and whatever else happens to the database.
\<close>

datatype dev_event =
    Start time "nat list option" "nat list option" http_request
  | Poll time http_request
  | Visit faults time "string \<times> string" "string option" string http_request
  | Tick time "string list"
  | FlashEnd string
  | Elsewhere "relay_db \<Rightarrow> relay_db"

record dev_state =
  dv_start :: ipRateLimiter
  dv_token :: ipRateLimiter
  dv_store :: deviceAuthStore
  dv_flash :: flash_keys
  dv_db :: relay_db

fun dev_step :: "web_env \<Rightarrow> dev_event \<Rightarrow> dev_state \<Rightarrow> dev_state \<times> reply option" where
  "dev_step h (Start now bytes draws r) st =
     (case handleDeviceAuthStart h now bytes draws r (dv_start st, dv_store st) of
        ((rl, s), rep) \<Rightarrow> (st\<lparr>dv_start := rl, dv_store := s\<rparr>, Some rep))"
| "dev_step h (Poll now r) st =
     (case handleDeviceAuthToken h now r (dv_token st, dv_store st) of
        ((rl, s), rep) \<Rightarrow> (st\<lparr>dv_token := rl, dv_store := s\<rparr>, Some rep))"
| "dev_step h (Visit io now key gen nxt r) st =
     (case handleDeviceAuthPage h io now key gen nxt r (dv_store st, dv_flash st, dv_db st) of
        ((s, flash, db), rep) \<Rightarrow> (st\<lparr>dv_store := s, dv_flash := flash, dv_db := db\<rparr>, Some rep))"
| "dev_step h (Tick now codes) st = (st\<lparr>dv_store := device_cleanup now codes (dv_store st)\<rparr>, None)"
| "dev_step h (FlashEnd key) st = (st\<lparr>dv_flash := (dv_flash st)(key := None)\<rparr>, None)"
| "dev_step h (Elsewhere f) st = (st\<lparr>dv_db := f (dv_db st)\<rparr>, None)"

text \<open>A visit that approves a device code: by the user of a session, with its CSRF token, and it stores a new key of that user.\<close>

fun approves :: "web_env \<Rightarrow> string \<Rightarrow> string \<Rightarrow> dev_event \<Rightarrow> dev_state \<Rightarrow> bool" where
  "approves h dc key (Visit io now k gen nxt r) st \<longleftrightarrow>
     hr_Method r = ''POST'' \<and> hr_Form r ''device_code'' = dc \<and> hr_Form r ''action'' \<noteq> ''deny'' \<and> fst k = key \<and>
     (case hr_Cookie r ''session'' of
        None \<Rightarrow> False
      | Some sid \<Rightarrow>
          validateCSRF h r sid \<and>
          (case SessionStore_Get io now sid (dv_db st) of
             None \<Rightarrow> False
           | Some (user, _) \<Rightarrow>
               sql_has (\<lambda>row. kr_key_hash row = sha256_hex (we_crypto h) key \<and> kr_user_id row = u_ID user \<and> \<not> kr_revoked row)
                 (db_api_keys (dv_db (fst (dev_step h (Visit io now k gen nxt r) st))))))"
| "approves h dc key _ st \<longleftrightarrow> False"

lemma device_cleanup_kept: "ds_requests (device_cleanup now codes s) dc = Some q \<Longrightarrow> ds_requests s dc = Some q"
proof (induction codes arbitrary: s)
  case (Cons code codes)
  from Cons.prems Cons.IH show ?case
    by (force split: option.splits if_splits)
qed simp

lemma store_after_start:
  assumes "handleDeviceAuthStart h now bytes draws r (rl, s) = ((rl', s'), rep)" "ds_requests s' dc = Some q"
  shows "ds_requests s dc = Some q \<or> da_Status q = ''pending''"
  using assms by (auto simp: handleDeviceAuthStart_def device_create_def Let_def split: prod.splits bool.splits if_splits option.splits)

lemma store_after_poll:
  assumes "handleDeviceAuthToken h now r (rl, s) = ((rl', s'), rep)"
  shows "ds_requests s' dc = Some q \<Longrightarrow> ds_requests s dc = Some q"
    and "(''api_key'', key) \<in> set (rp_fields rep) \<Longrightarrow>
       \<exists>dc q. body_string ''device_code'' (hr_Body r) = Some dc \<and> ds_requests s dc = Some q \<and> da_Status q = ''approved'' \<and> da_APIKey q = key"
  using assms
  by (auto simp: handleDeviceAuthToken_def device_consume_def Let_def poll_reply_def rateLimitResponse_def reply_defs
      split: prod.splits bool.splits if_splits option.splits)

lemma store_after_post:
  assumes "handleDeviceAuthPagePost h io now key gen user r (s, flash, db) = ((s', flash', db'), rep)" "ds_requests s' dc = Some q"
    "da_Status q = ''approved''"
  shows "ds_requests s dc = Some q \<or>
    hr_Form r ''device_code'' = dc \<and> hr_Form r ''action'' \<noteq> ''deny'' \<and> da_APIKey q = fst key \<and>
    sql_has (\<lambda>row. kr_key_hash row = sha256_hex (we_crypto h) (fst key) \<and> kr_user_id row = u_ID user \<and> \<not> kr_revoked row) (db_api_keys db')"
  using assms
  by (auto simp: handleDeviceAuthPagePost_def device_deny_def device_approve_def UserStore_CreateAPIKey_def insert_api_key_def sql_has_iff
      new_api_key_def row_of_key_def hashAPIKey_def stmt_def Let_def device_get_def split: prod.splits if_splits option.splits sum.splits)

lemma approved_after_step:
  assumes "dev_step h e st = (st', rep)" "ds_requests (dv_store st') dc = Some q" "da_Status q = ''approved''"
  shows "ds_requests (dv_store st) dc = Some q \<or> approves h dc (da_APIKey q) e st"
proof (cases e)
  case (Visit io now key gen nxt r)
  obtain s flash db page where run: "handleDeviceAuthPage h io now key gen nxt r (dv_store st, dv_flash st, dv_db st) = ((s, flash, db), page)"
    by (metis surj_pair)
  with assms(1) Visit have st': "dv_store st' = s" "dv_db st' = db" by auto
  show ?thesis
  proof (cases "ds_requests (dv_store st) dc = Some q")
    case False
    with run assms(2,3) st'(1) obtain sid user e' where
      sess: "hr_Cookie r ''session'' = Some sid" "SessionStore_Get io now sid (dv_db st) = Some (user, e')" "hr_Method r = ''POST''" "validateCSRF h r sid"
      and post: "handleDeviceAuthPagePost h (after_stmts 1 io) now key gen user r (dv_store st, dv_flash st, dv_db st) = ((s, flash, db), page)"
      by (auto simp: handleDeviceAuthPage_def split: option.splits if_splits prod.splits)
    have "ds_requests s dc = Some q" using assms(2) st'(1) by simp
    from store_after_post [OF post this assms(3)] False sess show ?thesis
      by (auto simp: Visit run)
  qed simp
next
  case (Start now bytes draws r)
  with assms store_after_start [of h now bytes draws r "dv_start st" "dv_store st"] show ?thesis
    by (fastforce split: prod.splits)
next
  case (Poll now r)
  with assms store_after_poll(1) [of h now r "dv_token st" "dv_store st"] show ?thesis
    by (fastforce split: prod.splits)
next
  case (Tick now codes)
  with assms show ?thesis by (auto dest: device_cleanup_kept)
qed (use assms in auto)

lemma approved_in_run:
  assumes "ds_requests (dv_store (fst (run_steps (dev_step h) es st))) dc = Some q" "da_Status q = ''approved''"
  shows "ds_requests (dv_store st) dc = Some q \<or>
    (\<exists>pre e post. es = pre @ e # post \<and> approves h dc (da_APIKey q) e (fst (run_steps (dev_step h) pre st)))"
  using assms(1)
proof (induction es arbitrary: st)
  case (Cons e es)
  obtain st' rep where step: "dev_step h e st = (st', rep)" by fastforce
  with Cons.prems have "ds_requests (dv_store (fst (run_steps (dev_step h) es st'))) dc = Some q" by (simp add: case_prod_beta)
  from Cons.IH [OF this] consider "ds_requests (dv_store st') dc = Some q"
    | pre e' post where "es = pre @ e' # post" "approves h dc (da_APIKey q) e' (fst (run_steps (dev_step h) pre st'))" by blast
  then show ?case
  proof cases
    case 1
    from approved_after_step [OF step 1 assms(2)] show ?thesis
    proof
      assume "approves h dc (da_APIKey q) e st"
      then show ?thesis by (intro disjI2 exI [of _ "[]"]) auto
    qed simp
  next
    case 2
    then show ?thesis using step by (intro disjI2 exI [of _ "e # pre"] exI [of _ e'] exI [of _ post]) (simp add: case_prod_beta)
  qed
qed simp

text \<open>
  A key reaches a polling client only through a user's approval: whatever starts, polls, page
  visits and other database activity happened before, when a poll is answered with an API key, then
  an earlier visit, with the cookie of a valid session and its CSRF token, posted the approval of that very
  device code, and stored the key as a key of that session's user.
\<close>

theorem device_key_was_approved:
  assumes "dv_store st = newDeviceAuthStore" "run_steps (dev_step h) es st = (st', reps)"
    and "dev_step h (Poll now r) st' = (st'', Some rep)" "(''api_key'', key) \<in> set (rp_fields rep)"
  shows "\<exists>dc pre e post. body_string ''device_code'' (hr_Body r) = Some dc \<and> es = pre @ e # post \<and>
    approves h dc key e (fst (run_steps (dev_step h) pre st))"
proof -
  obtain rl s where "handleDeviceAuthToken h now r (dv_token st', dv_store st') = ((rl, s), rep)"
    using assms(3) by (auto split: prod.splits)
  from store_after_poll(2) [OF this assms(4)] obtain dc q where q: "body_string ''device_code'' (hr_Body r) = Some dc"
    "ds_requests (dv_store st') dc = Some q" "da_Status q = ''approved''" "da_APIKey q = key" by blast
  from approved_in_run [of h es st dc q] assms(1,2) q(2,3) have
    "\<exists>pre e post. es = pre @ e # post \<and> approves h dc (da_APIKey q) e (fst (run_steps (dev_step h) pre st))"
    by (auto simp: newDeviceAuthStore_def)
  with q(1,4) show ?thesis by blast
qed

section \<open>A device code is answered once\<close>

definition poll_final :: "string \<Rightarrow> time \<Rightarrow> deviceAuthStore \<Rightarrow> deviceAuthStore \<times> deviceAuthRequest option" where
  "poll_final dc now s =
     (case device_consume now dc s of (s', q) \<Rightarrow> (s', case q of None \<Rightarrow> None | Some req \<Rightarrow> if da_Status req = ''pending'' then None else Some req))"

text \<open>The other operations; sixteen random bytes never give this code again.\<close>

inductive_set device_ops :: "string \<Rightarrow> (deviceAuthStore \<Rightarrow> deviceAuthStore) set" for dc where
  create: "generateDeviceCode bytes \<noteq> Some dc \<Longrightarrow> (\<lambda>s. fst (device_create now bytes draws s)) \<in> device_ops dc"
| approve: "device_approve dc' key \<in> device_ops dc"
| deny: "device_deny dc' \<in> device_ops dc"
| consume: "(\<lambda>s. fst (device_consume now dc' s)) \<in> device_ops dc"
| cleanup: "device_cleanup now codes \<in> device_ops dc"

interpretation device_code: one_shot "poll_final dc" "device_ops dc" "\<lambda>_. True" "\<lambda>s. ds_requests s dc \<noteq> None" for dc
proof
  fix f and s :: deviceAuthStore
  assume f: "f \<in> device_ops dc" and none: "\<not> ds_requests s dc \<noteq> None"
  have "ds_requests (f s) dc = None"
    using f
  proof cases
    case (cleanup now codes)
    then show ?thesis using none device_cleanup_kept [of now codes s dc] by (cases "ds_requests (f s) dc") auto
  qed (use none in \<open>auto simp: device_create_def device_approve_def device_deny_def device_consume_def Let_def split: option.splits\<close>)
  then show "\<not> ds_requests (f s) dc \<noteq> None" by simp
qed (auto simp: poll_final_def device_consume_def split: option.splits if_splits prod.splits)

text \<open>
  A device code gets one final answer (a key or a denial): over any sequence of polls, approvals, denials,
  new requests and clean-ups, at most one poll of it is answered with a decided request.
\<close>

theorem device_code_answered_once:
  assumes "\<And>f. Other f \<in> set us \<Longrightarrow> f \<in> device_ops dc"
  shows "length (handed_out (poll_final dc) us s) \<le> 1"
  by (rule device_code.used_at_most_once) (simp_all add: assms)

section \<open>Examples\<close>

definition demo_ops :: "dev_op list" where
  "demo_ops = [OpCreate 0 (Some [2]) (Some [2, 3, 4, 5, 6, 7, 8, 9]), OpGetUser 5 ''CDEF-GHJK'', OpApprove ''02'' ''key'', OpCleanup 6 [''02''],
     OpConsume 7 ''02'', OpConsume 8 ''02'']"

lemma demo_codes_generated:
  "generateDeviceCode (Some [2]) = Some ''02''" "generateUserCode (Some [2, 3, 4, 5, 6, 7, 8, 9]) = Some ''CDEF-GHJK''"
  by (simp_all add: generateDeviceCode_def generateUserCode_def code_hex_def user_code_chars_def Let_def)


theorem device_code_answered_once_witness:
  "length (handed_out (poll_final ''02'') [Other (device_approve ''02'' ''key''), Try 7, Try 8] newDeviceAuthStore) \<le> 1"
  by (rule device_code_answered_once) (auto intro: device_ops.approve)

definition demo_dev :: dev_state where
  "demo_dev = \<lparr>dv_start = newIPRateLimiter (15 * minute) 5, dv_token = newIPRateLimiter minute 30, dv_store = newDeviceAuthStore, dv_flash = (\<lambda>_. None),
     dv_db = demo_session_db\<rparr>"

definition demo_visit :: http_request where
  "demo_visit = demo_form ''POST'' ''/auth/device'' (\<lambda>f. if f = ''device_code'' then ''02'' else if f = ''csrf_token'' then ''mksid'' else []) (Some ''sid'')"

definition demo_poll :: http_request where
  "demo_poll = (demo_form ''POST'' ''/api/auth/device/token'' (\<lambda>_. []) None)\<lparr>hr_Body := Some ''{\"device_code\":\"02\"}''\<rparr>"

definition demo_flow :: "dev_event list" where
  "demo_flow = [Start 0 (Some [2]) (Some [2, 3, 4, 5, 6, 7, 8, 9]) (demo_form ''POST'' ''/api/auth/device'' (\<lambda>_. []) None),
     Visit no_faults 1 (''key'', ''kid'') None ''/login'' demo_visit]"

lemma demo_poll_code: "body_string ''device_code'' (hr_Body demo_poll) = Some ''02''"
  by code_simp

lemmas demo_dev_defs = demo_dev_def demo_flow_def demo_visit_def demo_form_def demo_web_def demo_session_db_def demo_db_defs
  demo_codes_generated newDeviceAuthStore_def newIPRateLimiter_def

lemma demo_flow_run:
  "ds_requests (dv_store (fst (run_steps (dev_step demo_web) demo_flow demo_dev))) ''02'' =
     Some \<lparr>da_DeviceCode = ''02'', da_UserCode = ''CDEF-GHJK'', da_CreatedAt = 0, da_ExpiresAt = 5 * minute, da_Status = ''approved'', da_APIKey = ''key''\<rparr>"
  "dv_token (fst (run_steps (dev_step demo_web) demo_flow demo_dev)) = newIPRateLimiter minute 30"
  by (simp_all add: demo_dev_defs handleDeviceAuthStart_def ip_allow_def ip_record_def Let_def device_create_def handleDeviceAuthPage_def
      SessionStore_Get_def session_user_def validateCSRF_def csrfToken_def handleDeviceAuthPagePost_def device_get_def UserStore_Get_def
      user_of_row_def UserStore_CreateAPIKey_def insert_api_key_def row_of_key_def new_api_key_def user_exists_def sql_has_def
      device_approve_def hashAPIKey_def duration_defs)

theorem device_key_was_approved_witness:
  "\<exists>pre e post. demo_flow = pre @ e # post \<and> approves demo_web ''02'' ''key'' e (fst (run_steps (dev_step demo_web) pre demo_dev))"
proof -
  obtain st reps where run: "run_steps (dev_step demo_web) demo_flow demo_dev = (st, reps)" by fastforce
  with demo_flow_run have st: "ds_requests (dv_store st) ''02'' =
      Some \<lparr>da_DeviceCode = ''02'', da_UserCode = ''CDEF-GHJK'', da_CreatedAt = 0, da_ExpiresAt = 5 * minute, da_Status = ''approved'', da_APIKey = ''key''\<rparr>"
    "dv_token st = newIPRateLimiter minute 30" by simp_all
  have meth: "hr_Method demo_poll = ''POST''" by (simp add: demo_poll_def demo_form_def)
  obtain st' rep where poll: "dev_step demo_web (Poll 2 demo_poll) st = (st', Some rep)" "(''api_key'', ''key'') \<in> set (rp_fields rep)"
    using demo_poll_code
    by (simp add: handleDeviceAuthToken_def st meth ip_allow_def newIPRateLimiter_def Let_def device_consume_def duration_defs poll_reply_def writeJSON_def)
  have "dv_store demo_dev = newDeviceAuthStore" by (simp add: demo_dev_def)
  from device_key_was_approved [OF this run poll] demo_poll_code show ?thesis by simp
qed

end
