(* ===== verification/Web_Invite.thy ===== *)
theory Web_Invite
  imports Device_Auth
begin

text \<open>
  Invites in the web interface (\<open>internal/web/handlers.go\<close>): an administrator creates an invite, a new
  user exchanges it for an account through the API or the browser.

  A redemption runs in one SQL transaction: the handler works on a copy of the database, which
  replaces it at the commit and is dropped on every early return. The statements of the transaction are
  counted by \<open>io\<close> (0 is \<open>BEGIN\<close>), those outside it by \<open>iop\<close>. The text of a store error is not
  modelled.
\<close>

section \<open>Creating an invite\<close>

definition form_role :: "http_request \<Rightarrow> string" where
  "form_role r = (if hr_Form r ''role'' \<noteq> ''admin'' then ''user'' else ''admin'')"

definition form_access_level :: "http_request \<Rightarrow> string" where
  "form_access_level r =
     (let al = hr_Form r ''access_level'' in if al \<noteq> ''read'' \<and> al \<noteq> ''write'' \<and> al \<noteq> ''admin'' then ''write'' else al)"

definition form_profile :: "string \<Rightarrow> http_request \<Rightarrow> string option" where
  "form_profile field r = (let pid = trim_space (hr_Form r field) in if pid \<noteq> [] then Some pid else None)"

text \<open>The list of accounts with its profiles and pending invites: statements 0 to 2, whose errors are dropped.\<close>

definition renderUsersList :: "faults \<Rightarrow> time \<Rightarrow> string \<Rightarrow> relay_db \<Rightarrow> reply" where
  "renderUsersList io now errMsg db =
     page ''users.html''
       (map (\<lambda>u. (''Users'', u_Username u)) (res_or [] (UserStore_List io db)) @
        map (\<lambda>p. (''Profiles'', ap_Name p)) (res_or [] (ProfileStore_List (after_stmts 1 io) db)) @
        map (\<lambda>(t, _, _). (''PendingInvites'', it_ID t)) (res_or [] (InviteStore_ListPending (after_stmts 2 io) now db)) @
        (if errMsg \<noteq> [] then [(''Error'', errMsg)] else []))"

definition handleUsers ::
    "faults \<Rightarrow> time \<Rightarrow> User option \<Rightarrow> http_request \<Rightarrow> flash_keys \<times> relay_db \<Rightarrow> (flash_keys \<times> relay_db) \<times> reply" where
  "handleUsers io now user r = (\<lambda>(flash, db).
     case requireAdmin user of
       Some err \<Rightarrow> ((flash, db), err)
     | None \<Rightarrow>
         let nonce = hr_Query r ''invite'' in
         if nonce \<noteq> [] then
           let rep = renderUsersList io now [] db;
               cmd = (case flash (''invite-cmd-'' @ nonce) of None \<Rightarrow> [] | Some c \<Rightarrow> [(''InviteCmd'', c)]);
               flash1 = flash(''invite-cmd-'' @ nonce := None);
               link = (case flash1 (''invite-link-'' @ nonce) of None \<Rightarrow> [] | Some l \<Rightarrow> [(''InviteLink'', l)]) in
           ((flash1(''invite-link-'' @ nonce := None), db), rep\<lparr>rp_fields := rp_fields rep @ cmd @ link\<rparr>)
         else ((flash, db), renderUsersList io now [] db))"

text \<open>\<open>raws\<close> are the raw token and the id drawn by the store.\<close>

definition handleCreateAccountInvite ::
    "web_env \<Rightarrow> faults \<Rightarrow> time \<Rightarrow> string \<times> string \<Rightarrow> string option \<Rightarrow> User option \<Rightarrow> http_request \<Rightarrow> flash_keys \<times> relay_db \<Rightarrow>
     (flash_keys \<times> relay_db) \<times> reply" where
  "handleCreateAccountInvite h io now raws gen admin r = (\<lambda>(flash, db).
     case admin of
       None \<Rightarrow> ((flash, db), http_error ''Admin access required'' 403)
     | Some a \<Rightarrow>
         if u_Role a \<noteq> ''admin'' then ((flash, db), http_error ''Admin access required'' 403)
         else (case InviteStore_CreateAccountInvite (we_crypto h) io (fst raws) (snd raws) (form_role r) (form_access_level r)
                (form_profile ''profile_id'' r) (u_ID a) (now + 48 * hour) db of
           (db1, Inl _) \<Rightarrow> ((flash, db1), renderUsersList (after_stmts 1 io) now ''Failed to create invite: '' db1)
         | (db1, Inr (rawToken, _)) \<Rightarrow>
             (case gen of
                None \<Rightarrow> ((flash, db1), redirect ''/users'' 302)
              | Some nonce \<Rightarrow>
                  ((flash(''invite-cmd-'' @ nonce \<mapsto> ''curl -fsSL '' @ we_baseURL h @ ''/install.sh | bash -s -- --token '' @ rawToken,
                          ''invite-link-'' @ nonce \<mapsto> we_baseURL h @ ''/invite/'' @ rawToken), db1),
                   redirect (''/users?invite='' @ nonce) 302))))"

section \<open>Redeeming an invite\<close>

text \<open>What both redemptions do first, inside the transaction: statements 1 to 4.\<close>

datatype redeem_outcome = RedeemFailed | NoInvite | UserFailed store_error | Redeemed InviteToken User

definition consume_and_create ::
    "crypto \<Rightarrow> faults \<Rightarrow> time \<Rightarrow> string \<Rightarrow> string \<Rightarrow> string \<Rightarrow> string \<Rightarrow> string \<Rightarrow> relay_db \<Rightarrow> relay_db \<times> redeem_outcome" where
  "consume_and_create cr io now salt uid token username password tx =
     (case InviteStore_ValidateAndConsumeTx cr (after_stmts 1 io) now token tx of
        (tx1, Inl _) \<Rightarrow> (tx1, RedeemFailed)
      | (tx1, Inr None) \<Rightarrow> (tx1, NoInvite)
      | (tx1, Inr (Some invite)) \<Rightarrow>
          (case UserStore_CreateWithAccessLevelTx cr (after_stmts 4 io) now salt uid username password (it_Role invite)
                  (it_AccessLevel invite) (it_ProfileID invite) tx1 of
             (tx2, Inl e) \<Rightarrow> (tx2, UserFailed e)
           | (tx2, Inr user) \<Rightarrow> (tx2, Redeemed invite user)))"

definition decode_invite :: "string option \<Rightarrow> (string \<times> string \<times> string) option" where
  "decode_invite body =
     (case body_members body of
        None \<Rightarrow> None
      | Some kvs \<Rightarrow>
          (let (token, ok1) = str_field [] (field_values ''token'' kvs);
               (username, ok2) = str_field [] (field_values ''username'' kvs);
               (password, ok3) = str_field [] (field_values ''password'' kvs) in
           if ok1 \<and> ok2 \<and> ok3 then Some (token, username, password) else None))"

text \<open>Random values: the salt and id of the account, the raw key and its id.\<close>

record redeem_draws =
  rd_salt :: string
  rd_uid :: string
  rd_key :: string
  rd_kid :: string

definition exchange_tx ::
    "crypto \<Rightarrow> faults \<Rightarrow> time \<Rightarrow> redeem_draws \<Rightarrow> string \<Rightarrow> string \<Rightarrow> string \<Rightarrow> relay_db \<Rightarrow> relay_db \<times> reply" where
  "exchange_tx cr io now rd token username password db =
     (if \<not> io 0 then (db, http_error ''{\"error\":\"internal error\"}'' 500)
      else (case consume_and_create cr io now (rd_salt rd) (rd_uid rd) token username password db of
        (_, RedeemFailed) \<Rightarrow> (db, http_error ''{\"error\":\"internal error\"}'' 500)
      | (_, NoInvite) \<Rightarrow> (db, writeJSON 401 [(''error'', ''invalid, expired, or already used token'')])
      | (_, UserFailed e) \<Rightarrow>
          (db, if e = UniqueViolation then writeJSON 409 [(''error'', ''username already taken'')]
               else http_error ''{\"error\":\"failed to create account\"}'' 500)
      | (tx, Redeemed invite user) \<Rightarrow>
          (case UserStore_CreateAPIKeyTx cr (after_stmts 5 io) now (rd_key rd) (rd_kid rd) (u_ID user) ''arc-sync invite'' (it_ProfileID invite) [] tx of
             (_, Inl _) \<Rightarrow> (db, http_error ''{\"error\":\"failed to create API key\"}'' 500)
           | (tx1, Inr (rawKey, _)) \<Rightarrow>
               let tx2 = fst (InviteStore_SetRedeemedUserTx (after_stmts 6 io) (it_ID invite) (u_ID user) tx1) in
               if \<not> io 7 then (db, http_error ''{\"error\":\"internal error\"}'' 500)
               else (tx2, writeJSON 200 [(''api_key'', rawKey)]))))"

definition handleInviteExchange ::
    "web_env \<Rightarrow> faults \<Rightarrow> time \<Rightarrow> redeem_draws \<Rightarrow> http_request \<Rightarrow> ipRateLimiter \<times> relay_db \<Rightarrow> (ipRateLimiter \<times> relay_db) \<times> reply" where
  "handleInviteExchange h io now rd r = (\<lambda>(rl, db).
     let ip = clientIP (we_split h) r in
     case ip_allow now ip rl of
       (rl1, False) \<Rightarrow> ((rl1, db), rateLimitResponse (15 * minute))
     | (rl1, True) \<Rightarrow>
         let rl2 = ip_record now ip rl1 in
         if hr_Method r \<noteq> ''POST'' then ((rl2, db), http_error ''{\"error\":\"method not allowed\"}'' 405)
         else (case decode_invite (hr_Body r) of
           None \<Rightarrow> ((rl2, db), http_error ''{\"error\":\"token is required\"}'' 400)
         | Some (token, username, password) \<Rightarrow>
             if token = [] then ((rl2, db), http_error ''{\"error\":\"token is required\"}'' 400)
             else if username = [] \<or> password = [] then ((rl2, db), writeJSON 400 [(''error'', ''username and password are required'')])
             else if length password < 8 then ((rl2, db), writeJSON 400 [(''error'', ''password must be at least 8 characters'')])
             else (case exchange_tx (we_crypto h) io now rd token username password db of (db1, rep) \<Rightarrow> ((rl2, db1), rep))))"

definition renderInviteRedeem :: "(string \<times> string) list \<Rightarrow> reply" where
  "renderInviteRedeem fs = page ''invite_redeem.html'' fs"

definition invite_state :: "InviteToken option \<Rightarrow> (string \<times> string) list" where
  "invite_state invite = (case invite of None \<Rightarrow> [(''Expired'', ''true'')] | Some t \<Rightarrow> [(''Role'', it_Role t)])"

definition redeem_error :: "web_env \<Rightarrow> faults \<Rightarrow> time \<Rightarrow> string \<Rightarrow> string \<Rightarrow> string \<Rightarrow> relay_db \<Rightarrow> reply" where
  "redeem_error h iop now rawToken username msg db =
     renderInviteRedeem ([(''Token'', rawToken), (''Error'', msg), (''Username'', username)] @
       invite_state (res_or None (InviteStore_Peek (we_crypto h) iop now rawToken db)))"

text \<open>The transaction of the browser form: the database after it, and the new account or the page of the failure.\<close>

definition redeem_tx ::
    "web_env \<Rightarrow> faults \<Rightarrow> faults \<Rightarrow> time \<Rightarrow> redeem_draws \<Rightarrow> string \<Rightarrow> string \<Rightarrow> string \<Rightarrow> relay_db \<Rightarrow> relay_db \<times> (reply + User)" where
  "redeem_tx h io iop now rd rawToken username password db =
     (if \<not> io 0 then (db, Inl (http_error ''Internal server error'' 500))
      else (case consume_and_create (we_crypto h) io now (rd_salt rd) (rd_uid rd) rawToken username password db of
        (_, RedeemFailed) \<Rightarrow> (db, Inl (http_error ''Internal server error'' 500))
      | (_, NoInvite) \<Rightarrow> (db, Inl (renderInviteRedeem [(''Token'', rawToken), (''Expired'', ''true'')]))
      | (_, UserFailed e) \<Rightarrow>
          (db, Inl (redeem_error h iop now rawToken username
             (if e = UniqueViolation then ''Username already taken'' else ''Failed to create account'') db))
      | (tx, Redeemed invite user) \<Rightarrow>
          let tx1 = fst (InviteStore_SetRedeemedUserTx (after_stmts 5 io) (it_ID invite) (u_ID user) tx) in
          if \<not> io 6 then (db, Inl (http_error ''Internal server error'' 500)) else (tx1, Inr user)))"

definition handleInviteRedeem ::
    "web_env \<Rightarrow> faults \<Rightarrow> faults \<Rightarrow> time \<Rightarrow> redeem_draws \<Rightarrow> string option \<Rightarrow> http_request \<Rightarrow> relay_db \<Rightarrow> relay_db \<times> reply" where
  "handleInviteRedeem h io iop now rd gen r db =
     (let rawToken = trim_prefix (hr_Path r) ''/invite/'' in
      if rawToken = [] then (db, http_error ''Missing invite token'' 400)
      else if hr_Method r = ''GET'' then
        (case InviteStore_Peek (we_crypto h) iop now rawToken db of
           Inl _ \<Rightarrow> (db, http_error ''Internal server error'' 500)
         | Inr invite \<Rightarrow> (db, renderInviteRedeem ([(''Token'', rawToken)] @ invite_state invite)))
      else if hr_Method r \<noteq> ''POST'' then (db, http_error ''Method not allowed'' 405)
      else
        let username = trim_space (hr_Form r ''username''); password = hr_Form r ''password''; confirm = hr_Form r ''confirm_password'' in
        if username = [] \<or> password = [] then (db, redeem_error h iop now rawToken username ''Username and password are required'' db)
        else if length password < 8 then (db, redeem_error h iop now rawToken username ''Password must be at least 8 characters'' db)
        else if password \<noteq> confirm then (db, redeem_error h iop now rawToken username ''Passwords do not match'' db)
        else (case redeem_tx h io iop now rd rawToken username password db of
          (db1, Inl rep) \<Rightarrow> (db1, rep)
        | (db1, Inr user) \<Rightarrow>
            (case gen of
               None \<Rightarrow> (db1, redirect ''/login'' 302)
             | Some sessionID \<Rightarrow>
                 (case SessionStore_Create iop sessionID (u_ID user) (now + 30 * 24 * hour) db1 of
                    (db2, Inl _) \<Rightarrow> (db2, redirect ''/login'' 302)
                  | (db2, Inr _) \<Rightarrow> (db2, (redirect ''/'' 302)\<lparr>rp_cookie := SessionSet sessionID\<rparr>)))))"

section \<open>A redemption is all or nothing\<close>

lemma consume_TxD:
  assumes wf: "db_wf db" and run: "InviteStore_ValidateAndConsumeTx cr io now token db = (tx, Inr (Some invite))"
  shows "\<exists>invs. tx = db\<lparr>db_invites := invs\<rparr>" "\<not> invite_live cr token tx"
    "\<exists>t \<in> set (db_invites db). redeemable (sha256_hex cr token) now t \<and> it_ID invite = it_ID t \<and> it_Role invite = it_Role t \<and>
       it_AccessLevel invite = it_AccessLevel t \<and> it_ProfileID invite = it_ProfileID t"
proof -
  let ?h = "hashInviteToken cr token"
  have consumed: "consume_invite cr token (io, now) db = (tx, Some invite)" by (simp add: consume_invite_def run)
  from consume_invite_result(2) [OF consumed] show "\<exists>invs. tx = db\<lparr>db_invites := invs\<rparr>" by blast
  from invite_spent(2) [OF wf consumed] show "\<not> invite_live cr token tx" .
  from run obtain u where "sql_row (\<lambda>t. it_TokenHash t = ?h) (sql_update (redeemable ?h now)
      (\<lambda>t. t\<lparr>it_Status := ''used'', it_UsedAt := Some now\<rparr>) (db_invites db)) = Some u"
      "invite = u\<lparr>it_TokenHash := [], it_RedeemedUserID := None\<rparr>"
    by (auto simp: InviteStore_ValidateAndConsumeTx_def Let_def split: if_splits option.splits)
  moreover have "sql_row (\<lambda>t. it_TokenHash t = ?h) (sql_update (redeemable ?h now)
      (\<lambda>t. t\<lparr>it_Status := ''used'', it_UsedAt := Some now\<rparr>) (db_invites db)) =
      map_option (\<lambda>t. if redeemable ?h now t then t\<lparr>it_Status := ''used'', it_UsedAt := Some now\<rparr> else t)
        (sql_row (\<lambda>t. it_TokenHash t = ?h) (db_invites db))"
    by (rule sql_row_update) simp
  ultimately obtain t where t: "sql_row (\<lambda>t. it_TokenHash t = ?h) (db_invites db) = Some t"
    and inv: "invite = (if redeemable ?h now t then t\<lparr>it_Status := ''used'', it_UsedAt := Some now\<rparr> else t)\<lparr>it_TokenHash := [], it_RedeemedUserID := None\<rparr>"
    by auto
  from consume_invite_result(1) [OF consumed] obtain r where r: "r \<in> set (db_invites db)" "redeemable ?h now r"
    by (auto simp: sql_count_def filter_empty_conv)
  from sql_row_SomeD [OF t] r wf tbl_ok_key_eq [of it_TokenHash "\<lambda>_. True" "db_invites db" t r] have "t = r"
    by (auto simp: db_wf_def redeemable_def)
  with r inv show "\<exists>t \<in> set (db_invites db). redeemable (sha256_hex cr token) now t \<and> it_ID invite = it_ID t \<and> it_Role invite = it_Role t \<and>
       it_AccessLevel invite = it_AccessLevel t \<and> it_ProfileID invite = it_ProfileID t"
    by (auto simp: hashInviteToken_def)
qed

text \<open>The account an invite stands for.\<close>

definition invited_account :: "InviteToken \<Rightarrow> string \<Rightarrow> string \<Rightarrow> string \<Rightarrow> time \<Rightarrow> user_row" where
  "invited_account t uid username hash now =
     \<lparr>ur_id = uid, ur_username = username, ur_password_hash = hash, ur_role = it_Role t,
      ur_access_level = (if it_Role t = ''admin'' then ''admin'' else if it_AccessLevel t = [] then ''write'' else it_AccessLevel t),
      ur_default_profile_id = it_ProfileID t, ur_must_change_password = False, ur_created_at = now\<rparr>"

lemma consume_and_create_Redeemed:
  assumes wf: "db_wf db" and run: "consume_and_create cr io now salt uid token username password db = (tx, Redeemed invite user)"
  shows "\<exists>t hash. t \<in> set (db_invites db) \<and> redeemable (sha256_hex cr token) now t \<and> it_ProfileID invite = it_ProfileID t \<and>
    bcrypt_gen cr salt password = Some hash \<and> u_ID user = uid \<and>
    (\<exists>invs. tx = db\<lparr>db_users := db_users db @ [invited_account t uid username hash now], db_invites := invs\<rparr>) \<and> \<not> invite_live cr token tx"
proof -
  from run obtain tx1 where c: "InviteStore_ValidateAndConsumeTx cr (after_stmts 1 io) now token db = (tx1, Inr (Some invite))"
    and u: "UserStore_CreateWithAccessLevelTx cr (after_stmts 4 io) now salt uid username password (it_Role invite)
      (it_AccessLevel invite) (it_ProfileID invite) tx1 = (tx, Inr user)"
    by (auto simp: consume_and_create_def split: prod.splits sum.splits option.splits)
  from consume_TxD(1) [OF wf c] obtain invs where tx1: "tx1 = db\<lparr>db_invites := invs\<rparr>" by blast
  from consume_TxD(2,3) [OF wf c] obtain t where dead: "\<not> invite_live cr token tx1"
    and t: "t \<in> set (db_invites db)" "redeemable (sha256_hex cr token) now t" "it_Role invite = it_Role t"
      "it_AccessLevel invite = it_AccessLevel t" "it_ProfileID invite = it_ProfileID t" by blast
  from u obtain hash where hash: "bcrypt_gen cr salt password = Some hash" "u_ID user = uid"
    and tx: "tx = tx1\<lparr>db_users := db_users tx1 @ [invited_account t uid username hash now]\<rparr>"
    by (auto simp: UserStore_CreateWithAccessLevelTx_def Let_def insert_user_def stmt_def new_user_def row_of_user_def
        effective_access_level_def invited_account_def t(3-5) split: option.splits sum.splits if_splits)
  have "tx = db\<lparr>db_users := db_users db @ [invited_account t uid username hash now], db_invites := invs\<rparr>"
    by (simp add: tx tx1)
  moreover have "\<not> invite_live cr token tx" using dead by (simp add: tx invite_live_def)
  ultimately show ?thesis using t hash by blast
qed

lemma set_redeemed_kept:
  "fst (InviteStore_SetRedeemedUserTx io i u tx) = tx\<lparr>db_invites := db_invites (fst (InviteStore_SetRedeemedUserTx io i u tx))\<rparr>"
  "\<not> invite_live cr token tx \<Longrightarrow> \<not> invite_live cr token (fst (InviteStore_SetRedeemedUserTx io i u tx))"
  by (auto simp: InviteStore_SetRedeemedUserTx_def exec_def stmt_def set_redeemed_user_def invite_live_def split: sum.split)

lemma exchange_tx_cases:
  assumes wf: "db_wf db" and run: "exchange_tx cr io now rd token username password db = (db', rep)"
  shows "db' = db \<and> (\<forall>k. (''api_key'', k) \<notin> set (rp_fields rep)) \<or>
    rep = writeJSON 200 [(''api_key'', rd_key rd)] \<and> \<not> invite_live cr token db' \<and>
    (\<exists>t hash. t \<in> set (db_invites db) \<and> redeemable (sha256_hex cr token) now t \<and> bcrypt_gen cr (rd_salt rd) password = Some hash \<and>
      (\<exists>invs. db' = db\<lparr>db_users := db_users db @ [invited_account t (rd_uid rd) username hash now],
        db_api_keys := db_api_keys db @ [row_of_key (new_api_key cr now (rd_key rd) (rd_kid rd) (rd_uid rd) ''arc-sync invite'' (it_ProfileID t) [])],
        db_invites := invs\<rparr>))"
proof (cases "\<exists>tx invite user. io 0 \<and> io 7 \<and>
    consume_and_create cr io now (rd_salt rd) (rd_uid rd) token username password db = (tx, Redeemed invite user) \<and>
    (\<exists>tx1 k. UserStore_CreateAPIKeyTx cr (after_stmts 5 io) now (rd_key rd) (rd_kid rd) (u_ID user) ''arc-sync invite'' (it_ProfileID invite) [] tx = (tx1, Inr k))")
  case False
  then have "db' = db \<and> (\<forall>k. (''api_key'', k) \<notin> set (rp_fields rep))"
    using run
    by (auto simp: exchange_tx_def Let_def reply_defs split: prod.splits if_splits redeem_outcome.splits sum.splits)
  then show ?thesis ..
next
  case True
  then obtain tx invite user tx1 k where io: "io 0" "io 7"
    and cc: "consume_and_create cr io now (rd_salt rd) (rd_uid rd) token username password db = (tx, Redeemed invite user)"
    and key: "UserStore_CreateAPIKeyTx cr (after_stmts 5 io) now (rd_key rd) (rd_kid rd) (u_ID user) ''arc-sync invite'' (it_ProfileID invite) [] tx = (tx1, Inr k)"
    by blast
  from consume_and_create_Redeemed [OF wf cc] obtain t hash where
    t: "t \<in> set (db_invites db)" "redeemable (sha256_hex cr token) now t" "it_ProfileID invite = it_ProfileID t"
      "bcrypt_gen cr (rd_salt rd) password = Some hash" "u_ID user = rd_uid rd"
    and tx: "\<exists>invs. tx = db\<lparr>db_users := db_users db @ [invited_account t (rd_uid rd) username hash now], db_invites := invs\<rparr>"
      "\<not> invite_live cr token tx" by blast
  from tx(1) obtain invs where tx': "tx = db\<lparr>db_users := db_users db @ [invited_account t (rd_uid rd) username hash now], db_invites := invs\<rparr>" by blast
  from key t have k: "fst k = rd_key rd" and tx1: "tx1 = tx\<lparr>db_api_keys := db_api_keys db @
      [row_of_key (new_api_key cr now (rd_key rd) (rd_kid rd) (rd_uid rd) ''arc-sync invite'' (it_ProfileID t) [])]\<rparr>"
    by (auto simp: UserStore_CreateAPIKeyTx_def Let_def stmt_def insert_api_key_def tx' split: sum.splits if_splits)
  have db': "db' = fst (InviteStore_SetRedeemedUserTx (after_stmts 6 io) (it_ID invite) (u_ID user) tx1)" "rep = writeJSON 200 [(''api_key'', rd_key rd)]"
    using run io key k by (auto simp: exchange_tx_def cc Let_def split: prod.splits)
  have "\<not> invite_live cr token db'" unfolding db'(1) by (rule set_redeemed_kept(2)) (use tx(2) in \<open>simp add: tx1 invite_live_def\<close>)
  moreover have "\<exists>invs. db' = tx1\<lparr>db_invites := invs\<rparr>" unfolding db'(1) using set_redeemed_kept(1) by blast
  then obtain invs' where "db' = db\<lparr>db_users := db_users db @ [invited_account t (rd_uid rd) username hash now],
        db_api_keys := db_api_keys db @ [row_of_key (new_api_key cr now (rd_key rd) (rd_kid rd) (rd_uid rd) ''arc-sync invite'' (it_ProfileID t) [])],
        db_invites := invs'\<rparr>"
    by (auto simp: tx1 tx')
  ultimately show ?thesis using t db'(2) by blast
qed

text \<open>
  C33. Exchanging an invite through the API is all or nothing. Either the database is as before and no key is
  given out, or the token is that of a pending, unexpired invite, which can no longer be redeemed, and the
  database has gained exactly one account, with the role, the access level and the profile the
  administrator put into the invite and the requested name and password, and one API key of that
  account, which is the key in the answer. This holds whichever statements fail.
\<close>

theorem invite_exchange_all_or_nothing:
  assumes "db_wf db" "handleInviteExchange h io now rd r (rl, db) = ((rl', db'), rep)"
  shows "db' = db \<and> (\<forall>k. (''api_key'', k) \<notin> set (rp_fields rep)) \<or>
    (\<exists>token username password t hash. decode_invite (hr_Body r) = Some (token, username, password) \<and> 8 \<le> length password \<and>
      t \<in> set (db_invites db) \<and> it_TokenHash t = sha256_hex (we_crypto h) token \<and> it_Status t = ''pending'' \<and> now < it_ExpiresAt t \<and>
      bcrypt_gen (we_crypto h) (rd_salt rd) password = Some hash \<and>
      (\<exists>invs. db' = db\<lparr>db_users := db_users db @ [invited_account t (rd_uid rd) username hash now],
        db_api_keys := db_api_keys db @ [row_of_key (new_api_key (we_crypto h) now (rd_key rd) (rd_kid rd) (rd_uid rd) ''arc-sync invite''
          (it_ProfileID t) [])], db_invites := invs\<rparr>) \<and>
      \<not> invite_live (we_crypto h) token db' \<and> rep = writeJSON 200 [(''api_key'', rd_key rd)])"
proof (cases "\<exists>token username password. decode_invite (hr_Body r) = Some (token, username, password) \<and> 8 \<le> length password \<and>
    exchange_tx (we_crypto h) io now rd token username password db = (db', rep)")
  case True
  then obtain token username password where body: "decode_invite (hr_Body r) = Some (token, username, password)" "8 \<le> length password"
    and run: "exchange_tx (we_crypto h) io now rd token username password db = (db', rep)" by blast
  from exchange_tx_cases [OF assms(1) run] body show ?thesis by (auto simp: redeemable_def)
next
  case False
  then have "db' = db \<and> (\<forall>k. (''api_key'', k) \<notin> set (rp_fields rep))"
    using assms(2)
    by (auto simp: handleInviteExchange_def Let_def rateLimitResponse_def reply_defs not_less
        split: prod.splits bool.splits if_splits option.splits)
  then show ?thesis ..
qed

lemma consume_and_create_wf:
  assumes wf: "db_wf db"
  shows "db_wf (fst (consume_and_create cr io now salt uid token username password db))"
proof -
  obtain tx1 res where c: "InviteStore_ValidateAndConsumeTx cr (after_stmts (Suc 0) io) now token db = (tx1, res)" by fastforce
  with InviteStore_ValidateAndConsumeTx_wf [OF wf] have "db_wf tx1" by (metis fst_conv)
  then have "db_wf (fst (UserStore_CreateWithAccessLevelTx cr (after_stmts 4 io) now salt uid username password ro al pr tx1))" for ro al pr
    by (simp add: UserStore_CreateTx_eq UserStore_CreateWithAccessLevel_wf)
  with \<open>db_wf tx1\<close> show ?thesis
    by (simp add: consume_and_create_def c case_prod_beta split: sum.split option.split)
qed

lemma invite_tx_wf:
  assumes wf: "db_wf db"
  shows "db_wf (fst (exchange_tx cr io now rd token username password db))" "db_wf (fst (redeem_tx h io iop now rd token username password db))"
proof -
  have tx: "db_wf tx" if "consume_and_create cr io now (rd_salt rd) (rd_uid rd) token username password db = (tx, res)" for tx res cr
    using consume_and_create_wf [OF wf] that by (metis fst_conv)
  have key: "db_wf tx1" if "db_wf tx" "UserStore_CreateAPIKeyTx cr (after_stmts 5 io) now a b c d e [] tx = (tx1, res)" for tx tx1 res a b c d e
    using UserStore_CreateAPIKey_wf [OF that(1)] that(2) by (metis UserStore_CreateTx_eq(2) fst_conv)
  show "db_wf (fst (exchange_tx cr io now rd token username password db))"
    using wf by (auto simp: exchange_tx_def Let_def split: prod.split redeem_outcome.split sum.split dest!: tx dest: key intro!: invite_store_wf)
  show "db_wf (fst (redeem_tx h io iop now rd token username password db))"
    using wf by (auto simp: redeem_tx_def Let_def split: prod.split redeem_outcome.split dest!: tx intro!: invite_store_wf)
qed

lemma web_invite_wf:
  assumes wf: "db_wf db"
  shows "db_wf (snd (fst (handleInviteExchange h io now rd r (rl, db))))" "db_wf (fst (handleInviteRedeem h io iop now rd gen r db))"
    "db_wf (snd (fst (handleCreateAccountInvite h io now raws gen admin r (flash, db))))"
proof -
  show "db_wf (snd (fst (handleInviteExchange h io now rd r (rl, db))))"
    using wf invite_tx_wf(1) [OF wf] by (auto simp: handleInviteExchange_def Let_def case_prod_beta split: bool.split option.split)
  show "db_wf (fst (handleInviteRedeem h io iop now rd gen r db))"
    using wf by (simp add: handleInviteRedeem_def Let_def case_prod_beta invite_tx_wf session_store_wf split: sum.split option.split)
  have "db_wf (fst (InviteStore_CreateAccountInvite cr io a b c d e f g db))" for cr a b c d e f g
    using wf by (rule invite_store_wf)
  with wf show "db_wf (snd (fst (handleCreateAccountInvite h io now raws gen admin r (flash, db))))"
    by (auto simp: handleCreateAccountInvite_def case_prod_beta split: option.split sum.split)
qed

section \<open>Examples\<close>

definition demo_invitee :: http_request where
  "demo_invitee = (demo_form ''POST'' ''/api/auth/invite'' (\<lambda>_. []) None)
     \<lparr>hr_Body := Some ''{\"token\":\"tok\",\"username\":\"bob\",\"password\":\"hunter22\"}''\<rparr>"

definition demo_draws :: redeem_draws where
  "demo_draws = \<lparr>rd_salt = ''x'', rd_uid = ''u2'', rd_key = ''key'', rd_kid = ''k2''\<rparr>"

lemma demo_invitee_body: "decode_invite (hr_Body demo_invitee) = Some (''tok'', ''bob'', ''hunter22'')"
  by code_simp

theorem invite_exchange_all_or_nothing_witness:
  "\<exists>rl' db' hash. handleInviteExchange demo_web no_faults 5 demo_draws demo_invitee (newIPRateLimiter minute 5, demo_invite_db) =
      ((rl', db'), writeJSON 200 [(''api_key'', ''key'')]) \<and>
    db_users db' = db_users demo_db @ [invited_account demo_invite ''u2'' ''bob'' hash 5] \<and> \<not> invite_live demo_crypto ''tok'' db'"
proof -
  have meth: "hr_Method demo_invitee = ''POST''" by (simp add: demo_invitee_def demo_form_def)
  obtain rl' db' where run: "handleInviteExchange demo_web no_faults 5 demo_draws demo_invitee (newIPRateLimiter minute 5, demo_invite_db) =
      ((rl', db'), writeJSON 200 [(''api_key'', ''key'')])"
    by (simp add: handleInviteExchange_def meth demo_invitee_body ip_allow_def newIPRateLimiter_def Let_def exchange_tx_def consume_and_create_def
        InviteStore_ValidateAndConsumeTx_def hashInviteToken_def demo_web_def demo_invite_db_def demo_invite_def redeemable_def sql_count_def
        sql_update_def UserStore_CreateWithAccessLevelTx_def insert_user_def new_user_def row_of_user_def effective_access_level_def
        valid_defs sql_has_def demo_db_defs demo_draws_def UserStore_CreateAPIKeyTx_def normalizeCapabilities_def insert_api_key_def row_of_key_def new_api_key_def
        hashAPIKey_def user_exists_def opt_ref_def)
  have cr: "we_crypto demo_web = demo_crypto" by (simp add: demo_web_def)
  from invite_exchange_all_or_nothing [OF demo_invite_db_wf run] demo_invitee_body obtain t hash invs keys where
    t: "t \<in> set (db_invites demo_invite_db)" and "\<not> invite_live demo_crypto ''tok'' db'"
      "db' = demo_invite_db\<lparr>db_users := db_users demo_invite_db @ [invited_account t ''u2'' ''bob'' hash 5], db_api_keys := keys, db_invites := invs\<rparr>"
    by (auto simp: cr writeJSON_def demo_draws_def)
  with run show ?thesis by (intro exI [of _ rl'] exI [of _ db'] exI [of _ hash]) (simp add: demo_invite_db_def)
qed

end
