(* ===== verification/Web_Account.thy ===== *)
theory Web_Account
  imports Web_Invite
begin

text \<open>
  Accounts, API keys and profiles in the web interface (\<open>internal/web/handlers.go\<close>). The handlers
  run behind the session gate; \<open>user\<close> is the account of the session. Errors of statements whose
  result the code discards are discarded here too. Random values (salts, ids, raw keys, session ids) are
  arguments; a list of rows on a page is given by the names of its rows.
\<close>

section \<open>Passwords\<close>

definition password_page :: "User \<Rightarrow> string \<Rightarrow> reply" where
  "password_page user msg =
     page ''change_password.html'' ([(''MustChange'', if u_MustChangePassword user then ''true'' else ''false'')] @
       (if msg \<noteq> [] then [(''Error'', msg)] else []))"

text \<open>Statements: 0 authenticates, 1 sets the password, 2 deletes the sessions, 3 creates the new one.\<close>

definition handleChangePassword ::
    "web_env \<Rightarrow> faults \<Rightarrow> time \<Rightarrow> string \<Rightarrow> string option \<Rightarrow> User \<Rightarrow> http_request \<Rightarrow> relay_db \<Rightarrow> relay_db \<times> reply" where
  "handleChangePassword h io now salt gen user r db =
     (if hr_Method r = ''GET'' then (db, password_page user [])
      else if hr_Method r \<noteq> ''POST'' then (db, http_error ''Method not allowed'' 405)
      else
        let cur = hr_Form r ''current_password''; newPassword = hr_Form r ''new_password''; confirm = hr_Form r ''confirm_password'' in
        if \<not> u_MustChangePassword user \<and>
           (case UserStore_Authenticate (we_crypto h) io (u_Username user) cur db of Inr (Some _) \<Rightarrow> False | _ \<Rightarrow> True) then
          (db, password_page user ''Current password is incorrect'')
        else if length newPassword < 8 then (db, password_page user ''New password must be at least 8 characters'')
        else if newPassword \<noteq> confirm then (db, password_page user ''Passwords do not match'')
        else (case UserStore_SetPassword (we_crypto h) (after_stmts 1 io) salt (u_ID user) newPassword db of
          (db1, Inl _) \<Rightarrow> (db1, password_page user ''Failed to update password: '')
        | (db1, Inr _) \<Rightarrow>
            let db2 = SessionStore_DeleteByUser (after_stmts 2 io) (u_ID user) db1 in
            (case gen of
               None \<Rightarrow> (db2, redirect ''/login'' 302)
             | Some sid \<Rightarrow>
                 (case SessionStore_Create (after_stmts 3 io) sid (u_ID user) (now + 30 * 24 * hour) db2 of
                    (db3, Inl _) \<Rightarrow> (db3, redirect ''/login'' 302)
                  | (db3, Inr _) \<Rightarrow> (db3, (redirect ''/'' 302)\<lparr>rp_cookie := SessionSet sid\<rparr>)))))"

section \<open>Accounts\<close>

definition handleUserUpdate :: "faults \<Rightarrow> http_request \<Rightarrow> string \<Rightarrow> relay_db \<Rightarrow> relay_db \<times> reply" where
  "handleUserUpdate io r userID db =
     (let role = hr_Form r ''role'';
          db1 = (if role = ''admin'' \<or> role = ''user'' then fst (UserStore_UpdateRole io userID role db) else db);
          db2 = fst (UserStore_UpdateProfile (after_stmts 2 io) userID (form_profile ''default_profile_id'' r) db1) in
      (db2, redirect ''/users'' 302))"

text \<open>Statements: 0 reads the account, 1 sets the password, 2 the flag, 3 deletes the sessions, then the lists.\<close>

definition handleUserResetPassword ::
    "web_env \<Rightarrow> faults \<Rightarrow> time \<Rightarrow> string \<Rightarrow> http_request \<Rightarrow> string \<Rightarrow> relay_db \<Rightarrow> relay_db \<times> reply" where
  "handleUserResetPassword h io now salt r userID db =
     (let newPassword = hr_Form r ''new_password''; ls = after_stmts 4 io in
      if newPassword = [] then (db, renderUsersList ls now ''New password is required'' db)
      else if length newPassword < 8 then (db, renderUsersList ls now ''Password must be at least 8 characters'' db)
      else (case UserStore_Get io userID db of
        Inr (Some target) \<Rightarrow>
          (case UserStore_SetPassword (we_crypto h) (after_stmts 1 io) salt userID newPassword db of
             (db1, Inl _) \<Rightarrow> (db1, renderUsersList ls now ''Failed to reset password: '' db1)
           | (db1, Inr _) \<Rightarrow>
               let db2 = fst (UserStore_SetMustChangePassword (after_stmts 2 io) userID True db1);
                   db3 = SessionStore_DeleteByUser (after_stmts 3 io) userID db2;
                   rep = renderUsersList ls now [] db3 in
               (db3, rep\<lparr>rp_fields := rp_fields rep @ [(''Flash'', ''Password reset for '' @ u_Username target @
                  ''. They will be required to change it on next login.'')]\<rparr>))
      | _ \<Rightarrow> (db, renderUsersList ls now ''User not found'' db)))"

definition handleUserCreate ::
    "web_env \<Rightarrow> faults \<Rightarrow> time \<Rightarrow> string \<Rightarrow> string \<Rightarrow> http_request \<Rightarrow> relay_db \<Rightarrow> relay_db \<times> reply" where
  "handleUserCreate h io now salt uid r db =
     (let username = trim_space (hr_Form r ''username''); password = hr_Form r ''password'' in
      if username = [] \<or> password = [] then (db, renderUsersList (after_stmts 1 io) now ''Username and password are required'' db)
      else (case UserStore_CreateWithAccessLevel (we_crypto h) io now salt uid username password (form_role r) (form_access_level r)
             (form_profile ''default_profile_id'' r) db of
        (db1, Inl _) \<Rightarrow> (db1, renderUsersList (after_stmts 1 io) now ''Failed to create user: '' db1)
      | (db1, Inr _) \<Rightarrow> (db1, redirect ''/users'' 302)))"

text \<open>What a request to the account routes draws at random.\<close>

record user_draws =
  ud_salt :: string
  ud_uid :: string
  ud_invite :: "string \<times> string"
  ud_nonce :: "string option"

definition not_found :: reply where
  "not_found = http_error ''404 page not found'' 404"

definition handleUserRoutes ::
    "web_env \<Rightarrow> faults \<Rightarrow> time \<Rightarrow> user_draws \<Rightarrow> User option \<Rightarrow> http_request \<Rightarrow> flash_keys \<times> relay_db \<Rightarrow> (flash_keys \<times> relay_db) \<times> reply" where
  "handleUserRoutes h io now ud user r = (\<lambda>(flash, db).
     case requireAdmin user of
       Some err \<Rightarrow> ((flash, db), err)
     | None \<Rightarrow>
         let parts = str_split2 (CHR ''/'') (trim_prefix (hr_Path r) ''/users/''); post = (hr_Method r = ''POST'') in
         if parts ! 0 = ''new'' \<and> post then
           (case handleUserCreate h io now (ud_salt ud) (ud_uid ud) r db of (db1, rep) \<Rightarrow> ((flash, db1), rep))
         else if parts ! 0 = ''invite-new'' \<and> post then handleCreateAccountInvite h io now (ud_invite ud) (ud_nonce ud) user r (flash, db)
         else if parts ! 0 = ''invite-revoke'' \<and> 1 < length parts \<and> post then
           ((flash, fst (InviteStore_Delete io (parts ! 1) db)), redirect ''/users'' 302)
         else if 1 < length parts \<and> post then
           (if parts ! 1 = ''delete'' then ((flash, fst (UserStore_Delete io (parts ! 0) db)), redirect ''/users'' 302)
            else if parts ! 1 = ''update'' then (case handleUserUpdate io r (parts ! 0) db of (db1, rep) \<Rightarrow> ((flash, db1), rep))
            else if parts ! 1 = ''reset-password'' then
              (case handleUserResetPassword h io now (ud_salt ud) r (parts ! 0) db of (db1, rep) \<Rightarrow> ((flash, db1), rep))
            else ((flash, db), not_found))
         else ((flash, db), not_found))"

section \<open>API keys\<close>

definition sanitizeCapabilities :: "string list \<Rightarrow> string list" where
  "sanitizeCapabilities values = filter (\<lambda>v. v \<in> set SupportedCapabilities) (map trim_space values)"

text \<open>
  Statements: 0 and 1 read the keys, 2 the profiles. \<open>Get\<close> with an unknown id is an error.
\<close>

definition handleAPIKeys :: "faults \<Rightarrow> User \<Rightarrow> http_request \<Rightarrow> flash_keys \<times> relay_db \<Rightarrow> (flash_keys \<times> relay_db) \<times> reply" where
  "handleAPIKeys io user r = (\<lambda>(flash, db).
     let isAdmin = (u_Role user = ''admin''); fleetMode = (hr_Query r ''all'' = ''1'') in
     if fleetMode \<and> \<not> isAdmin then ((flash, db), http_error ''Admin access required to view all API keys'' 403)
     else (case (if fleetMode then UserStore_ListAllAPIKeys io db else Inr []) of
       Inl _ \<Rightarrow> ((flash, db), http_error ''Internal error'' 500)
     | Inr fleetKeys \<Rightarrow>
         (case UserStore_ListAPIKeys (after_stmts 1 io) (u_ID user) db of
            Inl _ \<Rightarrow> ((flash, db), http_error ''Internal error'' 500)
          | Inr ownKeys \<Rightarrow>
              let profiles = (if isAdmin then res_or [] (ProfileStore_List (after_stmts 2 io) db)
                    else (case u_DefaultProfileID user of
                      None \<Rightarrow> []
                    | Some p \<Rightarrow> (case ProfileStore_Get (after_stmts 2 io) p db of Inl _ \<Rightarrow> [] | Inr q \<Rightarrow> [q])));
                  nonce = hr_Query r ''new'';
                  base = map (\<lambda>k. (''Keys'', k_ID k)) ownKeys @ map (\<lambda>(k, _). (''FleetKeys'', k_ID k)) fleetKeys @
                    map (\<lambda>p. (''Profiles'', ap_ID p)) profiles in
              if nonce = [] then ((flash, db), page ''api_keys.html'' base)
              else (case flash nonce of
                Some rawKey \<Rightarrow> ((flash(nonce := None), db), page ''api_keys.html'' (base @ [(''NewKey'', rawKey)]))
              | None \<Rightarrow> ((flash, db), page ''api_keys.html'' (base @ [(''Flash'', ''warning'')]))))))"

text \<open>
  The key form. \<open>caps\<close> are the posted capability values, \<open>None\<close> when the form does not parse.
  Statement 0 reads the account (or, for a revocation, the keys), 1 writes.
\<close>

definition key_profile :: "faults \<Rightarrow> User \<Rightarrow> http_request \<Rightarrow> relay_db \<Rightarrow> reply + string option" where
  "key_profile io user r db =
     (case form_profile ''profile_id'' r of
        Some pid \<Rightarrow>
          if u_Role user \<noteq> ''admin'' \<and> u_DefaultProfileID user \<noteq> Some pid then
            Inl (http_error ''You can only create keys with your assigned profile'' 403)
          else Inr (Some pid)
      | None \<Rightarrow> Inr (case UserStore_Get io (u_ID user) db of Inr (Some u) \<Rightarrow> u_DefaultProfileID u | _ \<Rightarrow> None))"

definition handleAPIKeyRoutes ::
    "web_env \<Rightarrow> faults \<Rightarrow> time \<Rightarrow> string \<times> string \<Rightarrow> string option \<Rightarrow> string list option \<Rightarrow> User \<Rightarrow> http_request \<Rightarrow> flash_keys \<times> relay_db \<Rightarrow>
     (flash_keys \<times> relay_db) \<times> reply" where
  "handleAPIKeyRoutes h io now key gen caps user r = (\<lambda>(flash, db).
     let parts = str_split2 (CHR ''/'') (trim_prefix (hr_Path r) ''/api-keys/''); post = (hr_Method r = ''POST'') in
     if parts ! 0 = ''new'' \<and> post then
       let name = (if trim_space (hr_Form r ''key_name'') = [] then ''unnamed'' else trim_space (hr_Form r ''key_name'')) in
       (case key_profile io user r db of
          Inl err \<Rightarrow> ((flash, db), err)
        | Inr profileID \<Rightarrow>
            let capabilities = (if u_Role user = ''admin'' then (case caps of None \<Rightarrow> [] | Some vs \<Rightarrow> sanitizeCapabilities vs) else []) in
            (case UserStore_CreateAPIKey (we_crypto h) (after_stmts 1 io) now (fst key) (snd key) (u_ID user) name profileID capabilities db of
               (db1, Inl _) \<Rightarrow> ((flash, db1), redirect ''/api-keys'' 302)
             | (db1, Inr (rawKey, _)) \<Rightarrow>
                 (case gen of
                    None \<Rightarrow> ((flash, db1), redirect ''/api-keys'' 302)
                  | Some nonce \<Rightarrow> ((flash(nonce \<mapsto> rawKey), db1), redirect (''/api-keys?new='' @ nonce) 302))))
     else if 1 < length parts \<and> parts ! 1 = ''revoke'' \<and> post then
       let keyID = parts ! 0; ownsKey = list_ex (\<lambda>k. k_ID k = keyID) (res_or [] (UserStore_ListAPIKeys io (u_ID user) db)) in
       if \<not> ownsKey \<and> u_Role user \<noteq> ''admin'' then ((flash, db), http_error ''You can only revoke your own API keys'' 403)
       else
         ((flash, fst (UserStore_RevokeAPIKey (after_stmts 1 io) keyID db)),
          redirect (if hr_Form r ''return_to'' = ''/api-keys?all=1'' then ''/api-keys?all=1'' else ''/api-keys'') 302)
     else ((flash, db), not_found))"

section \<open>Profiles\<close>

definition renderProfilesList :: "faults \<Rightarrow> string \<Rightarrow> relay_db \<Rightarrow> reply" where
  "renderProfilesList io flash db =
     page ''profiles.html'' (map (\<lambda>p. (''Profiles'', ap_Name p)) (res_or [] (ProfileStore_List io db)) @
       (if flash \<noteq> [] then [(''Flash'', flash)] else []))"

definition handleProfiles :: "faults \<Rightarrow> time \<Rightarrow> string \<Rightarrow> User \<Rightarrow> http_request \<Rightarrow> relay_db \<Rightarrow> relay_db \<times> reply" where
  "handleProfiles io now pid user r db =
     (if u_Role user \<noteq> ''admin'' then (db, http_error ''Admin access required'' 403)
      else if hr_Method r = ''POST'' then
        let name = trim_space (hr_Form r ''name''); desc = trim_space (hr_Form r ''description'') in
        if name = [] then (db, renderProfilesList io ''Profile name is required'' db)
        else (case ProfileStore_Create io now pid name desc db of
          (db1, Inl _) \<Rightarrow> (db1, renderProfilesList (after_stmts 1 io) ''Failed to create profile: '' db1)
        | (db1, Inr p) \<Rightarrow> (db1, redirect (''/profiles/'' @ ap_ID p) 302))
      else (db, renderProfilesList io [] db))"

text \<open>
  The page of a profile: for every server with endpoints, each endpoint with its tier and whether the profile
  grants it. Statements: 0 the profile, 1 the servers, 2 the permissions, then the tiers of each server. A row of
  the page is given as server id, endpoint type, name, tier and the flag.
\<close>

definition permission_key :: "string \<Rightarrow> string \<Rightarrow> string \<Rightarrow> string" where
  "permission_key sid etype name = sid @ '':'' @ etype @ '':'' @ name"

definition profile_sections :: "faults \<Rightarrow> Server list \<Rightarrow> ProfilePermission list \<Rightarrow> relay_db \<Rightarrow> (string \<times> string \<times> string \<times> string \<times> bool) list" where
  "profile_sections io servers perms db =
     (let permSet = map (\<lambda>p. permission_key (pp_ServerID p) (pp_EndpointType p) (pp_EndpointName p)) perms in
      concat (map (\<lambda>(i, srv).
        (case AccessStore_GetAllTiers (after_stmts (3 + i) io) (sv_ID srv) db of
           Inl _ \<Rightarrow> []
         | Inr tiers \<Rightarrow> map (\<lambda>t. (sv_ID srv, et_EndpointType t, et_EndpointName t, et_AccessTier t,
             permission_key (sv_ID srv) (et_EndpointType t) (et_EndpointName t) \<in> set permSet)) tiers)) (enumerate 0 servers)))"

definition handleProfileDetail ::
    "ConfigEncryptor \<Rightarrow> faults \<Rightarrow> string \<Rightarrow> relay_db \<Rightarrow> reply \<times> (string \<times> string \<times> string \<times> string \<times> bool) list" where
  "handleProfileDetail enc io profileID db =
     (case ProfileStore_Get io profileID db of
        Inl _ \<Rightarrow> (not_found, [])
      | Inr profile \<Rightarrow>
          (page ''profile_detail.html'' [(''Profile'', ap_ID profile)],
           profile_sections io (res_or [] (ServerStore_List enc (after_stmts 1 io) db))
             (res_or [] (ProfileStore_GetPermissions (after_stmts 2 io) profileID db)) db))"

definition handleProfileUpdate :: "faults \<Rightarrow> time \<Rightarrow> http_request \<Rightarrow> string \<Rightarrow> relay_db \<Rightarrow> relay_db \<times> reply" where
  "handleProfileUpdate io now r profileID db =
     (if hr_Method r \<noteq> ''POST'' then (db, http_error ''Method not allowed'' 405)
      else
        let name = trim_space (hr_Form r ''name''); desc = trim_space (hr_Form r ''description'') in
        if name = [] then (db, redirect (''/profiles/'' @ profileID) 302)
        else (fst (ProfileStore_Update io now profileID name desc db), redirect (''/profiles/'' @ profileID) 302))"

definition handleProfileDelete :: "faults \<Rightarrow> http_request \<Rightarrow> string \<Rightarrow> relay_db \<Rightarrow> relay_db \<times> reply" where
  "handleProfileDelete io r profileID db =
     (if hr_Method r \<noteq> ''POST'' then (db, http_error ''Method not allowed'' 405)
      else (fst (ProfileStore_Delete io profileID db), redirect ''/profiles'' 302))"

definition handleProfilePermission :: "faults \<Rightarrow> http_request \<Rightarrow> string \<Rightarrow> relay_db \<Rightarrow> relay_db \<times> reply" where
  "handleProfilePermission io r profileID db =
     (if hr_Method r \<noteq> ''POST'' then (db, http_error ''Method not allowed'' 405)
      else
        let serverID = hr_Form r ''server_id''; etype = hr_Form r ''endpoint_type''; name = hr_Form r ''endpoint_name'' in
        if serverID = [] \<or> etype = [] \<or> name = [] then (db, http_error ''Missing parameters'' 400)
        else if hr_Form r ''action'' = ''grant'' then
          (fst (ProfileStore_SetPermission io profileID serverID etype name db), writeJSON 200 [(''ok'', ''true'')])
        else (fst (ProfileStore_RemovePermission io profileID serverID etype name db), writeJSON 200 [(''ok'', ''true'')]))"

definition handleProfileSeed :: "faults \<Rightarrow> http_request \<Rightarrow> string \<Rightarrow> relay_db \<Rightarrow> relay_db \<times> reply" where
  "handleProfileSeed io r profileID db =
     (if hr_Method r \<noteq> ''POST'' then (db, http_error ''Method not allowed'' 405)
      else
        let serverID = hr_Form r ''server_id''; tier = hr_Form r ''tier''; json = (hr_Header r ''Accept'' = ''application/json'') in
        if serverID = [] \<or> tier = [] then (db, http_error ''Missing parameters'' 400)
        else (case ProfileStore_SeedFromTier io profileID serverID tier db of
          (db1, Inl _) \<Rightarrow> (db1, if json then writeJSON 500 [(''error'', [])] else redirect (''/profiles/'' @ profileID) 302)
        | (db1, Inr _) \<Rightarrow> (db1, if json then writeJSON 200 [(''ok'', ''true'')] else redirect (''/profiles/'' @ profileID) 302)))"

definition handleProfileRoutes ::
    "ConfigEncryptor \<Rightarrow> faults \<Rightarrow> time \<Rightarrow> User \<Rightarrow> http_request \<Rightarrow> relay_db \<Rightarrow> relay_db \<times> reply" where
  "handleProfileRoutes enc io now user r db =
     (if u_Role user \<noteq> ''admin'' then (db, http_error ''Admin access required'' 403)
      else
        let parts = str_split2 (CHR ''/'') (trim_prefix (hr_Path r) ''/profiles/'');
            profileID = parts ! 0; action = (if 1 < length parts then parts ! 1 else []) in
        if profileID = [] then (db, not_found)
        else if action = ''update'' then handleProfileUpdate io now r profileID db
        else if action = ''delete'' then handleProfileDelete io r profileID db
        else if action = ''permission'' then handleProfilePermission io r profileID db
        else if action = ''seed'' then handleProfileSeed io r profileID db
        else (db, fst (handleProfileDetail enc io profileID db)))"

section \<open>The handlers keep the database well-formed\<close>

lemma delete_by_user_wf: "db_wf db \<Longrightarrow> db_wf (SessionStore_DeleteByUser io u db)"
  by (simp add: session_store_wf)

lemma handleChangePassword_wf:
  assumes wf: "db_wf db"
  shows "db_wf (fst (handleChangePassword h io now salt gen user r db))"
proof -
  obtain db1 res where pw: "UserStore_SetPassword (we_crypto h) (after_stmts (Suc 0) io) salt (u_ID user) (hr_Form r ''confirm_password'') db = (db1, res)"
    by fastforce
  with UserStore_simple_wf(2) [OF wf] have "db_wf db1" by (metis fst_conv)
  with wf show ?thesis
    by (simp add: handleChangePassword_def Let_def pw case_prod_beta session_store_wf split: option.split sum.split)
qed

lemma web_users_wf:
  assumes wf: "db_wf db"
  shows "db_wf (fst (handleUserUpdate io r i db))" "db_wf (fst (handleUserResetPassword h io now salt r i db))"
    "db_wf (fst (handleUserCreate h io now salt uid r db))"
proof -
  show "db_wf (fst (handleUserUpdate io r i db))"
    using wf by (simp add: handleUserUpdate_def Let_def user_store_wf)
  obtain db1 res where pw: "UserStore_SetPassword (we_crypto h) (after_stmts (Suc 0) io) salt i (hr_Form r ''new_password'') db = (db1, res)"
    by fastforce
  with UserStore_simple_wf(2) [OF wf] have "db_wf db1" by (metis fst_conv)
  with wf show "db_wf (fst (handleUserResetPassword h io now salt r i db))"
    by (simp add: handleUserResetPassword_def Let_def pw delete_by_user_wf user_store_wf split: option.split sum.split)
  show "db_wf (fst (handleUserCreate h io now salt uid r db))"
    using UserStore_CreateWithAccessLevel_wf [OF wf] wf
    by (simp add: handleUserCreate_def Let_def case_prod_beta split: sum.split)
qed

lemma handleUserRoutes_wf:
  assumes wf: "db_wf db"
  shows "db_wf (snd (fst (handleUserRoutes h io now ud user r (flash, db))))"
proof -
  have "db_wf (fst (InviteStore_Delete io i db))" "db_wf (fst (UserStore_Delete io i db))" for i
    using wf by (simp_all add: invite_store_wf user_store_wf)
  with wf web_users_wf [OF wf] web_invite_wf(3) [OF wf] show ?thesis
    by (simp add: handleUserRoutes_def Let_def case_prod_beta split: option.split)
qed

lemma handleAPIKeyRoutes_wf:
  assumes wf: "db_wf db"
  shows "db_wf (snd (fst (handleAPIKeyRoutes h io now key gen caps user r (flash, db))))"
  using wf UserStore_CreateAPIKey_wf [OF wf]
  by (simp add: handleAPIKeyRoutes_def Let_def case_prod_beta user_store_wf split: sum.split option.split)

lemma web_profiles_wf:
  assumes wf: "db_wf db"
  shows "db_wf (fst (handleProfiles io now pid user r db))" "db_wf (fst (handleProfileRoutes enc io now user r db))"
  using wf
  by (simp_all add: handleProfiles_def handleProfileRoutes_def handleProfileUpdate_def handleProfileDelete_def handleProfilePermission_def
      handleProfileSeed_def Let_def case_prod_beta access_store_wf split: sum.split)

lemmas web_account_wf = handleChangePassword_wf web_users_wf handleUserRoutes_wf handleAPIKeyRoutes_wf web_profiles_wf

section \<open>Password changes\<close>

lemma gate_user:
  assumes "requireAuth h io now r db = Go u sid"
  shows "\<exists>s a. s \<in> set (db_sessions db) \<and> sr_id s = sid \<and> a \<in> set (db_users db) \<and> ur_id a = sr_user_id s \<and> u = session_user a \<and>
    (u_MustChangePassword u \<longrightarrow> hr_Path r = ''/account/password'' \<or> hr_Path r = ''/logout'')"
proof -
  from requireAuth_Go [OF assms] obtain e where "SessionStore_Get io now sid db = Some (u, e)"
    and path: "u_MustChangePassword u \<longrightarrow> hr_Path r = ''/account/password'' \<or> hr_Path r = ''/logout''" by blast
  then obtain s a where row: "sql_row (\<lambda>s. sr_id s = sid \<and> now < sr_expires_at s) (db_sessions db) = Some s"
    "sql_row (\<lambda>u. ur_id u = sr_user_id s) (db_users db) = Some a" "u = session_user a" unfolding session_get_Some by blast
  from sql_row_SomeD [OF row(1)] sql_row_SomeD [OF row(2)] row(3) path show ?thesis
    by (intro exI [of _ s] exI [of _ a]) simp
qed

lemma login_forced:
  assumes "handleLogin h io now gen r (lmt, db) = ((lmt', db'), rep)" "rp_cookie rep = SessionSet sid"
    and "sql_row (\<lambda>u. ur_username u = hr_Form r ''username'') (db_users db) = Some a" "ur_must_change_password a"
  shows "rp_location rep = Some ''/account/password''"
  using assms
  by (auto simp: handleLogin_def Let_def UserStore_Authenticate_def SessionStore_Create_def exec_def stmt_def reply_defs
      renderLogin_def user_of_row_def
      split: if_splits option.splits sum.splits prod.splits bool.splits)

lemma set_password_result:
  assumes "UserStore_SetPassword cr io salt i pw db = (db', Inr ok)"
  shows "\<exists>hash. bcrypt_gen cr salt pw = Some hash \<and>
    db' = db\<lparr>db_users := sql_update (\<lambda>u. ur_id u = i) (\<lambda>u. u\<lparr>ur_password_hash := hash, ur_must_change_password := False\<rparr>) (db_users db)\<rparr>"
  using assms by (auto simp: UserStore_SetPassword_def exec_def stmt_def update_users_def split: option.splits sum.splits if_splits)

lemma set_must_result:
  assumes "db_wf db" "io 0"
  shows "fst (UserStore_SetMustChangePassword io i must db) =
    db\<lparr>db_users := sql_update (\<lambda>u. ur_id u = i) (\<lambda>u. u\<lparr>ur_must_change_password := must\<rparr>) (db_users db)\<rparr>"
proof -
  have ok: "user_row_ok (profile_exists db) u" if "u \<in> set (db_users db)" for u
    using assms(1) that by (auto simp: db_wf_def dest: tbl_okD)
  then have "\<not> sql_has (\<lambda>u. ur_id u = i \<and> (valid_role (ur_role u) \<longrightarrow> \<not> valid_tier (ur_access_level u))) (db_users db)"
    "\<not> sql_has (\<lambda>u. ur_id u = i \<and> \<not> opt_ref (profile_exists db) (ur_default_profile_id u)) (db_users db)"
    by (auto simp: sql_has_iff user_row_ok_def)
  then show ?thesis using assms(2) by (simp add: UserStore_SetMustChangePassword_def exec_def update_users_def)
qed

lemma delete_by_user_result: "io 0 \<Longrightarrow> SessionStore_DeleteByUser io i db = db\<lparr>db_sessions := sql_delete (\<lambda>s. sr_user_id s = i) (db_sessions db)\<rparr>"
  by (simp add: SessionStore_DeleteByUser_def exec_ignore_def delete_sessions_def)

lemma reset_result:
  assumes wf: "db_wf db" and io: "io 2" "io 3"
    and run: "handleUserResetPassword h io now salt r i db = (db', rep)" "(''Flash'', m) \<in> set (rp_fields rep)"
  shows "\<exists>hash. bcrypt_gen (we_crypto h) salt (hr_Form r ''new_password'') = Some hash \<and>
    db' = db\<lparr>db_users := sql_update (\<lambda>u. ur_id u = i) (\<lambda>u. u\<lparr>ur_password_hash := hash, ur_must_change_password := True\<rparr>) (db_users db),
      db_sessions := sql_delete (\<lambda>s. sr_user_id s = i) (db_sessions db)\<rparr>"
proof -
  let ?pw = "hr_Form r ''new_password''"
  have no_flash: "(''Flash'', m) \<notin> set (rp_fields (renderUsersList a b c d))" for a b c d
    by (auto simp: renderUsersList_def page_def)
  obtain db1 res where pw: "UserStore_SetPassword (we_crypto h) (after_stmts (Suc 0) io) salt i ?pw db = (db1, res)" by fastforce
  obtain ok where res: "res = Inr ok"
    and db': "db' = SessionStore_DeleteByUser (after_stmts 3 io) i (fst (UserStore_SetMustChangePassword (after_stmts 2 io) i True db1))"
    using run no_flash
    by (auto simp: handleUserResetPassword_def Let_def pw split: if_splits sum.splits option.splits)
  from set_password_result [OF pw [unfolded res]] obtain hash where hash: "bcrypt_gen (we_crypto h) salt ?pw = Some hash"
    and db1: "db1 = db\<lparr>db_users := sql_update (\<lambda>u. ur_id u = i) (\<lambda>u. u\<lparr>ur_password_hash := hash, ur_must_change_password := False\<rparr>) (db_users db)\<rparr>"
    by blast
  from UserStore_simple_wf(2) [OF wf] pw have "db_wf db1" by (metis fst_conv)
  from set_must_result [OF this] io have "fst (UserStore_SetMustChangePassword (after_stmts 2 io) i True db1) =
      db1\<lparr>db_users := sql_update (\<lambda>u. ur_id u = i) (\<lambda>u. u\<lparr>ur_must_change_password := True\<rparr>) (db_users db1)\<rparr>" by simp
  moreover have "sql_update (\<lambda>u. ur_id u = i) (\<lambda>u. u\<lparr>ur_must_change_password := True\<rparr>) (db_users db1) =
      sql_update (\<lambda>u. ur_id u = i) (\<lambda>u. u\<lparr>ur_password_hash := hash, ur_must_change_password := True\<rparr>) (db_users db)"
    by (simp add: db1 sql_update_def)
  ultimately show ?thesis using hash io by (simp add: db' delete_by_user_result db1)
qed

text \<open>
  When an administrator has reset a password, every session of that account is dead, and the
  account is confined until the user picks a new password: a login with the new password is sent to the
  password page, and the session it opens passes the gate for that page and the logout only. The two
  statements whose errors the handler drops are assumed to go through.
\<close>

theorem reset_password_confines_account:
  assumes wf: "db_wf db" and io: "io 2" "io 3"
    and run: "handleUserResetPassword h io now salt r i db = (db', rep)" "(''Flash'', m) \<in> set (rp_fields rep)"
  shows "(\<forall>io' t q u sid. requireAuth h io' t q db' = Go u sid \<longrightarrow> u_ID u \<noteq> i) \<and>
    (\<forall>io' t gen q lmt lmt' db'' rep' sid a. a \<in> set (db_users db) \<and> ur_id a = i \<and> hr_Form q ''username'' = ur_username a \<and>
       handleLogin h io' t gen q (lmt, db') = ((lmt', db''), rep') \<and> rp_cookie rep' = SessionSet sid \<longrightarrow>
         rp_location rep' = Some ''/account/password'' \<and>
         (\<forall>io2 t2 q2 u. requireAuth h io2 t2 q2 db'' = Go u sid \<longrightarrow> hr_Path q2 \<in> {''/account/password'', ''/logout''}))"
proof -
  from reset_result [OF assms] obtain hash where
    db': "db' = db\<lparr>db_users := sql_update (\<lambda>u. ur_id u = i) (\<lambda>u. u\<lparr>ur_password_hash := hash, ur_must_change_password := True\<rparr>) (db_users db),
      db_sessions := sql_delete (\<lambda>s. sr_user_id s = i) (db_sessions db)\<rparr>" by blast
  have wf': "db_wf db'" using web_users_wf(2) [OF wf, of h io now salt r i] run(1) by simp
  have forced: "ur_must_change_password b" if "b \<in> set (db_users db')" "ur_id b = i" for b
  proof -
    have "b \<in> (\<lambda>c. if ur_id c = i then c\<lparr>ur_password_hash := hash, ur_must_change_password := True\<rparr> else c) ` set (db_users db)"
      using that(1) by (simp add: db' sql_update_def)
    then obtain c where "b = (if ur_id c = i then c\<lparr>ur_password_hash := hash, ur_must_change_password := True\<rparr> else c)" by blast
    with that(2) show ?thesis by (cases "ur_id c = i") simp_all
  qed
  have dead: "u_ID u \<noteq> i" if "requireAuth h io' t q db' = Go u sid" for io' t q u sid
  proof -
    from gate_user [OF that] obtain s a where s: "s \<in> set (db_sessions db')" and a: "ur_id a = sr_user_id s" "u = session_user a" by blast
    from s have "sr_user_id s \<noteq> i" by (simp add: db')
    with a show ?thesis by (simp add: session_user_def)
  qed
  have confined: "rp_location rep' = Some ''/account/password'' \<and>
      (\<forall>io2 t2 q2 u. requireAuth h io2 t2 q2 db'' = Go u sid \<longrightarrow> hr_Path q2 \<in> {''/account/password'', ''/logout''})"
    if a: "a \<in> set (db_users db)" "ur_id a = i" "hr_Form q ''username'' = ur_username a"
      and login: "handleLogin h io' t gen q (lmt, db') = ((lmt', db''), rep')" "rp_cookie rep' = SessionSet sid" for io' t gen q lmt lmt' db'' rep' sid a
  proof -
    from login_success [OF login] obtain b where b: "sql_row (\<lambda>u. ur_username u = ur_username a) (db_users db') = Some b"
      and ins: "insert_session \<lparr>sr_id = sid, sr_user_id = ur_id b, sr_expires_at = t + 30 * day\<rparr> db' = Inr db''"
      by (auto simp: a(3))
    have a': "a\<lparr>ur_password_hash := hash, ur_must_change_password := True\<rparr> \<in> set (db_users db')"
      using a(1,2) by (force simp: db')
    from sql_row_SomeD [OF b] wf' a' tbl_ok_key_eq [of ur_username "\<lambda>_. True" "db_users db'" b "a\<lparr>ur_password_hash := hash, ur_must_change_password := True\<rparr>"]
    have eq: "b = a\<lparr>ur_password_hash := hash, ur_must_change_password := True\<rparr>" by (simp add: db_wf_def)
    have "sql_row (\<lambda>u. ur_username u = hr_Form q ''username'') (db_users db') = Some b" using b by (simp add: a(3))
    moreover have "ur_must_change_password b" unfolding eq by simp
    ultimately have loc: "rp_location rep' = Some ''/account/password''" by (rule login_forced [OF login])
    have "hr_Path q2 \<in> {''/account/password'', ''/logout''}" if gate: "requireAuth h io2 t2 q2 db'' = Go u sid" for io2 t2 q2 u
    proof -
      from gate_user [OF gate] obtain s c where s: "s \<in> set (db_sessions db'')" "sr_id s = sid" "c \<in> set (db_users db'')" "ur_id c = sr_user_id s"
        "u = session_user c" "u_MustChangePassword u \<longrightarrow> hr_Path q2 = ''/account/password'' \<or> hr_Path q2 = ''/logout''" by blast
      from ins have new: "\<forall>x \<in> set (db_sessions db'). sr_id x \<noteq> sid" "set (db_sessions db'') =
          insert \<lparr>sr_id = sid, sr_user_id = i, sr_expires_at = t + 30 * day\<rparr> (set (db_sessions db'))"
        by (auto simp: insert_session_def sql_has_iff eq a(2) split: if_splits)
      with s(1,2) have "sr_user_id s = i" by (metis insert_iff session_row.select_convs(2))
      with ins s(3,4) forced [of c] have "ur_must_change_password c" by (auto simp: insert_session_def split: if_splits)
      with s(5,6) show ?thesis by (simp add: session_user_def)
    qed
    with loc show ?thesis by blast
  qed
  show ?thesis using dead confined by blast
qed

section \<open>Keys\<close>

lemma unprivileged_key:
  assumes "UserStore_CreateAPIKey cr io now raw kid uid name prof [] db = (db', Inr (k, ak))"
  shows "\<exists>row. db' = db\<lparr>db_api_keys := db_api_keys db @ [row]\<rparr> \<and> kr_user_id row = uid \<and> kr_profile_id row = prof \<and>
    kr_key_hash row = sha256_hex cr raw \<and> unmarshalCapabilities (kr_capabilities row) = []"
  using assms
  by (auto simp: UserStore_CreateAPIKey_def Let_def stmt_def insert_api_key_def row_of_key_def new_api_key_def hashAPIKey_def
      normalizeCapabilities_def marshalCapabilities_def unmarshalCapabilities_def split: sum.splits if_splits)

text \<open>What a user without the admin role can do to the stored keys.\<close>

datatype key_effect = Untouched | Added api_key_row | Revoked string

definition key_change :: "key_effect \<Rightarrow> relay_db \<Rightarrow> relay_db" where
  "key_change e db =
     (case e of
        Untouched \<Rightarrow> db
      | Added row \<Rightarrow> db\<lparr>db_api_keys := db_api_keys db @ [row]\<rparr>
      | Revoked i \<Rightarrow> db\<lparr>db_api_keys := sql_update (\<lambda>k. kr_id k = i) (\<lambda>k. k\<lparr>kr_revoked := True\<rparr>) (db_api_keys db)\<rparr>)"

definition own_effect :: "User \<Rightarrow> relay_db \<Rightarrow> key_effect \<Rightarrow> bool" where
  "own_effect user db e =
     (case e of
        Untouched \<Rightarrow> True
      | Added row \<Rightarrow> kr_user_id row = u_ID user \<and> unmarshalCapabilities (kr_capabilities row) = [] \<and>
          (kr_profile_id row = None \<or> kr_profile_id row = u_DefaultProfileID user \<or>
           sql_has (\<lambda>u. ur_id u = u_ID user \<and> ur_default_profile_id u = kr_profile_id row) (db_users db))
      | Revoked i \<Rightarrow> sql_has (\<lambda>k. kr_id k = i \<and> kr_user_id k = u_ID user) (db_api_keys db))"

lemma key_routes_cases:
  assumes "u_Role user \<noteq> ''admin''" "handleAPIKeyRoutes h io now key gen caps user r (flash, db) = ((flash', db'), rep)"
  shows "db' = db \<or>
    (\<exists>prof k ak. key_profile io user r db = Inr prof \<and> UserStore_CreateAPIKey (we_crypto h) (after_stmts 1 io) now (fst key) (snd key)
      (u_ID user) (if trim_space (hr_Form r ''key_name'') = [] then ''unnamed'' else trim_space (hr_Form r ''key_name'')) prof [] db = (db', Inr (k, ak))) \<or>
    (\<exists>i. (\<exists>k \<in> set (res_or [] (UserStore_ListAPIKeys io (u_ID user) db)). k_ID k = i) \<and> db' = fst (UserStore_RevokeAPIKey (after_stmts 1 io) i db))"
proof -
  let ?parts = "str_split2 (CHR ''/'') (trim_prefix (hr_Path r) ''/api-keys/'')"
  let ?name = "if trim_space (hr_Form r ''key_name'') = [] then ''unnamed'' else trim_space (hr_Form r ''key_name'')"
  have failed: "d = db" if "UserStore_CreateAPIKey cr io' now a b c n p q db = (d, Inl e)" for d cr io' a b c n p q e
    using that by (auto simp: UserStore_CreateAPIKey_def Let_def split: sum.splits)
  show ?thesis
  proof (cases "?parts ! 0 = ''new'' \<and> hr_Method r = ''POST''")
    case True
    show ?thesis
    proof (cases "key_profile io user r db")
      case (Inr prof)
      obtain d res where c: "UserStore_CreateAPIKey (we_crypto h) (after_stmts (Suc 0) io) now (fst key) (snd key) (u_ID user) ?name prof [] db = (d, res)"
        by fastforce
      have "db' = d" using assms True Inr c by (auto simp: handleAPIKeyRoutes_def Let_def split: sum.splits prod.splits option.splits)
      with c Inr show ?thesis by (cases res) (auto dest: failed)
    qed (use assms True in \<open>simp add: handleAPIKeyRoutes_def Let_def\<close>)
  next
    case False
    with assms show ?thesis
      by (auto simp: handleAPIKeyRoutes_def Let_def list_ex_iff split: if_splits)
  qed
qed

text \<open>
  A user who is no administrator cannot gain rights through the key pages, whatever is posted to them: the
  only effects on the database are nothing at all, one new key of that same user with no capability
  and with no profile but the user's own, or the revocation of one of the user's own keys.
\<close>

theorem key_routes_confined:
  assumes "u_Role user \<noteq> ''admin''" "handleAPIKeyRoutes h io now key gen caps user r (flash, db) = ((flash', db'), rep)"
  shows "\<exists>e. own_effect user db e \<and> db' = key_change e db"
proof -
  consider "db' = db"
    | prof k ak where "key_profile io user r db = Inr prof" "UserStore_CreateAPIKey (we_crypto h) (after_stmts 1 io) now (fst key) (snd key)
        (u_ID user) (if trim_space (hr_Form r ''key_name'') = [] then ''unnamed'' else trim_space (hr_Form r ''key_name'')) prof [] db = (db', Inr (k, ak))"
    | i where "\<exists>k \<in> set (res_or [] (UserStore_ListAPIKeys io (u_ID user) db)). k_ID k = i" "db' = fst (UserStore_RevokeAPIKey (after_stmts 1 io) i db)"
    using key_routes_cases [OF assms] by blast
  then show ?thesis
  proof cases
    case 1
    then show ?thesis by (intro exI [of _ Untouched]) (simp add: own_effect_def key_change_def)
  next
    case (2 prof k ak)
    from unprivileged_key [OF 2(2)] obtain row where row: "db' = db\<lparr>db_api_keys := db_api_keys db @ [row]\<rparr>" "kr_user_id row = u_ID user"
      "kr_profile_id row = prof" "unmarshalCapabilities (kr_capabilities row) = []" by blast
    from 2(1) assms(1) have "prof = None \<or> prof = u_DefaultProfileID user \<or>
        sql_has (\<lambda>u. ur_id u = u_ID user \<and> ur_default_profile_id u = prof) (db_users db)"
      by (auto simp: key_profile_def UserStore_Get_def stmt_def sql_has_iff user_of_row_def split: option.splits if_splits dest!: sql_row_SomeD)
    with row show ?thesis by (intro exI [of _ "Added row"]) (simp add: own_effect_def key_change_def)
  next
    case (3 i)
    from 3(1) have own: "own_effect user db (Revoked i)"
      by (auto simp: UserStore_ListAPIKeys_def stmt_def own_effect_def sql_has_iff key_of_row_def split: if_splits)
    show ?thesis
    proof (cases "io 1")
      case True
      with 3(2) own show ?thesis
        by (intro exI [of _ "Revoked i"]) (simp add: UserStore_RevokeAPIKey_def exec_def update_api_keys_def key_change_def)
    next
      case False
      with 3(2) show ?thesis
        by (intro exI [of _ Untouched]) (simp add: UserStore_RevokeAPIKey_def exec_def own_effect_def key_change_def)
    qed
  qed
qed

section \<open>Examples\<close>

definition demo_reset :: http_request where
  "demo_reset = demo_form ''POST'' ''/users/u1/reset-password'' (\<lambda>f. if f = ''new_password'' then ''changeit'' else []) (Some ''sid'')"

theorem reset_password_confines_account_witness:
  "\<forall>t q u sid. requireAuth demo_web no_faults t q (fst (handleUserResetPassword demo_web no_faults 1 ''x'' demo_reset ''u1'' demo_session_db)) \<noteq> Go u sid"
proof -
  obtain db' rep where run: "handleUserResetPassword demo_web no_faults 1 ''x'' demo_reset ''u1'' demo_session_db = (db', rep)"
    "(''Flash'', ''Password reset for alice. They will be required to change it on next login.'') \<in> set (rp_fields rep)"
    by (simp add: handleUserResetPassword_def demo_reset_def demo_form_def Let_def UserStore_Get_def demo_session_db_def demo_db_defs
        user_of_row_def UserStore_SetPassword_def demo_web_def exec_def update_users_def sql_has_def sql_update_def valid_defs opt_ref_def)
  have u1: "ur_id a = ''u1''" if "a \<in> set (db_users db')" for a
    using that run(1) reset_result [OF demo_session_db_wf _ _ run]
    by (auto simp: demo_session_db_def demo_db_defs sql_update_def)
  from reset_password_confines_account [OF demo_session_db_wf _ _ run] have
    "\<forall>t q u sid. requireAuth demo_web no_faults t q db' = Go u sid \<longrightarrow> u_ID u \<noteq> ''u1''" by blast
  moreover have "u_ID u = ''u1''" if "requireAuth demo_web no_faults t q db' = Go u sid" for t q u sid
    using gate_user [OF that] u1 by (auto simp: session_user_def)
  ultimately show ?thesis using run(1) by auto
qed

theorem key_routes_confined_witness:
  "\<exists>e flash' db' rep. handleAPIKeyRoutes demo_web no_faults 1 (''raw2'', ''k2'') None (Some [''skills:write'']) (session_user demo_user_row)
       (demo_form ''POST'' ''/api-keys/new'' (\<lambda>_. []) (Some ''sid'')) (\<lambda>_. None, demo_session_db) = ((flash', db'), rep) \<and>
     own_effect (session_user demo_user_row) demo_session_db e \<and> db' = key_change e demo_session_db"
proof -
  obtain flash' db' rep where run: "handleAPIKeyRoutes demo_web no_faults 1 (''raw2'', ''k2'') None (Some [''skills:write'']) (session_user demo_user_row)
       (demo_form ''POST'' ''/api-keys/new'' (\<lambda>_. []) (Some ''sid'')) (\<lambda>_. None, demo_session_db) = ((flash', db'), rep)"
    by (metis surj_pair)
  have "u_Role (session_user demo_user_row) \<noteq> ''admin''" by (simp add: session_user_def demo_user_row_def)
  from key_routes_confined [OF this run] run show ?thesis by blast
qed

end
