(* ===== verification/Web_Form.thy ===== *)
theory Web_Form
  imports Web_Session Json_Scan
begin

text \<open>
  The form helpers of \<open>internal/web/handlers.go\<close>: command lines and environment variables as text
  and back, URL checks and the redirect to the referring page.

  An environment (\<open>map[string]string\<close>) is an association list without repeated keys. \<open>net/url\<close>,
  the parser of \<open>net\<close> for addresses and the resolver are arguments; an address is the list of its 4
  or 16 bytes.
\<close>

section \<open>Command lines\<close>

fun command_loop :: "char option \<Rightarrow> string \<Rightarrow> string list \<Rightarrow> string \<Rightarrow> string list" where
  "command_loop inQuote current args [] = (if current \<noteq> [] then args @ [current] else args)"
| "command_loop inQuote current args (c # cs) =
     (case inQuote of
        Some q \<Rightarrow> if c = q then command_loop None current args cs else command_loop inQuote (current @ [c]) args cs
      | None \<Rightarrow>
          if c = CHR 0x22 \<or> c = CHR 0x27 then command_loop (Some c) current args cs
          else if c = CHR 0x20 \<or> c = CHR 0x09 then
            (if current \<noteq> [] then command_loop None [] (args @ [current]) cs else command_loop None current args cs)
          else command_loop None (current @ [c]) args cs)"

definition parseCommand :: "string \<Rightarrow> string list" where
  "parseCommand text = (let t = trim_space text in if t = [] then [] else command_loop None [] [] t)"

definition quote_arg :: "string \<Rightarrow> string" where
  "quote_arg a = (if CHR 0x20 \<in> set a \<or> CHR 0x09 \<in> set a then [CHR 0x22] @ a @ [CHR 0x22] else a)"

definition joinQuoted :: "string list \<Rightarrow> string" where
  "joinQuoted args = join_with '' '' (map quote_arg args)"

section \<open>Environment variables\<close>

type_synonym env_vars = "(string \<times> string) list"

definition env_set :: "string \<Rightarrow> string \<Rightarrow> env_vars \<Rightarrow> env_vars" where
  "env_set k v env = filter (\<lambda>kv. fst kv \<noteq> k) env @ [(k, v)]"

text \<open>\<open>strings.Cut\<close> at the first \<open>=\<close>.\<close>

definition env_line :: "string \<Rightarrow> env_vars \<Rightarrow> env_vars" where
  "env_line raw env =
     (let line = trim_space raw in
      if line = [] \<or> has_prefix line ''#'' then env
      else (case dropWhile (\<lambda>c. c \<noteq> CHR ''='') line of
        [] \<Rightarrow> env
      | _ # v \<Rightarrow> env_set (trim_space (takeWhile (\<lambda>c. c \<noteq> CHR ''='') line)) (trim_space v) env))"

definition parseEnvVars :: "string \<Rightarrow> env_vars" where
  "parseEnvVars text = fold env_line (str_split (CHR 0x0A) text) []"

definition envKeys :: "env_vars \<Rightarrow> string list" where
  "envKeys env = sort (map fst env)"

definition envToText :: "env_vars \<Rightarrow> string" where
  "envToText env = join_with [CHR 0x0A] (map (\<lambda>k. k @ ''='' @ (case map_of env k of None \<Rightarrow> [] | Some v \<Rightarrow> v)) (envKeys env))"

section \<open>Small formats\<close>

definition truncateImageID :: "string \<Rightarrow> string" where
  "truncateImageID i = (let t = trim_prefix i ''sha256:'' in if 12 < length t then take 12 t else t)"

function commaFormat :: "string \<Rightarrow> string" where
  "commaFormat s = (if length s \<le> 3 then s else commaFormat (take (length s - 3) s) @ '','' @ drop (length s - 3) s)"
  by pat_completeness auto

termination
  by (relation "measure length") auto

section \<open>Redirects\<close>

definition hasASCIIControl :: "string \<Rightarrow> bool" where
  "hasASCIIControl s = list_ex (\<lambda>c. let n = of_char c :: nat in n < 32 \<or> n = 127) s"

text \<open>What \<open>url.Parse\<close> gives: scheme, opaque part, user info, host, path, raw query.\<close>

record parsed_url =
  pu_Scheme :: string
  pu_Opaque :: string
  pu_User :: bool
  pu_Host :: string
  pu_Hostname :: string
  pu_Path :: string
  pu_RawQuery :: string

text \<open>\<open>render\<close> is \<open>URL.String\<close> of a URL with just a path and a query.\<close>

definition localRefererPath ::
    "(string \<Rightarrow> parsed_url option) \<Rightarrow> (string \<Rightarrow> string \<Rightarrow> string) \<Rightarrow> string \<Rightarrow> string \<Rightarrow> string option" where
  "localRefererPath parse render host ref =
     (if ref = [] \<or> hasASCIIControl ref \<or> trim_space ref \<noteq> ref then None
      else (case parse ref of
        None \<Rightarrow> None
      | Some u \<Rightarrow>
          if pu_Opaque u \<noteq> [] \<or> pu_User u then None
          else if to_lower (pu_Scheme u) \<noteq> ''http'' \<and> to_lower (pu_Scheme u) \<noteq> ''https'' then None
          else if pu_Host u = [] \<or> to_lower (pu_Host u) \<noteq> to_lower host then None
          else
            let dest = render (if pu_Path u = [] then ''/'' else pu_Path u) (pu_RawQuery u) in
            if \<not> has_prefix dest ''/'' \<or> has_prefix dest ''//'' \<or> str_contains dest [CHR 0x5C] then None else Some dest))"

definition redirectBack ::
    "(string \<Rightarrow> parsed_url option) \<Rightarrow> (string \<Rightarrow> string \<Rightarrow> string) \<Rightarrow> string \<Rightarrow> http_request \<Rightarrow> string \<Rightarrow> reply" where
  "redirectBack parse render host r fallback =
     (case localRefererPath parse render host (hr_Header r ''Referer'') of
        Some dest \<Rightarrow> redirect dest 302
      | None \<Rightarrow> redirect fallback 302)"

section \<open>URL checks\<close>

definition validateServerURL :: "(string \<Rightarrow> parsed_url option) \<Rightarrow> string \<Rightarrow> string option" where
  "validateServerURL parse rawURL =
     (case parse rawURL of
        None \<Rightarrow> Some ''invalid URL''
      | Some u \<Rightarrow>
          if pu_Scheme u \<noteq> ''http'' \<and> pu_Scheme u \<noteq> ''https'' then Some ''URL must use http or https scheme''
          else if pu_Host u = [] then Some ''URL must include a host''
          else None)"

text \<open>\<open>net.IP\<close>: the four bytes of an IPv4 address, also when it is written as a mapped IPv6 address.\<close>

definition to4 :: "nat list \<Rightarrow> nat list option" where
  "to4 ip = (if length ip = 4 then Some ip
     else if length ip = 16 \<and> take 12 ip = replicate 10 0 @ [255, 255] then Some (drop 12 ip) else None)"

definition isPrivateIP :: "nat list \<Rightarrow> bool" where
  "isPrivateIP ip =
     (case to4 ip of
        Some b \<Rightarrow>
          b ! 0 = 127 \<or>
          (b ! 0 = 10 \<or> b ! 0 = 172 \<and> b ! 1 div 16 = 1 \<or> b ! 0 = 192 \<and> b ! 1 = 168) \<or>
          b ! 0 = 169 \<and> b ! 1 = 254 \<or>
          b ! 0 = 224 \<and> b ! 1 = 0 \<and> b ! 2 = 0 \<or>
          b = [0, 0, 0, 0]
      | None \<Rightarrow>
          ip = replicate 15 0 @ [1] \<or>
          length ip = 16 \<and> ip ! 0 div 2 = 126 \<or>
          length ip = 16 \<and> ip ! 0 = 254 \<and> ip ! 1 div 64 = 2 \<or>
          length ip = 16 \<and> ip ! 0 = 255 \<and> ip ! 1 mod 16 = 2 \<or>
          ip = replicate 16 0)"

definition validateExternalURL ::
    "(string \<Rightarrow> parsed_url option) \<Rightarrow> (string \<Rightarrow> nat list option) \<Rightarrow> (string \<Rightarrow> string list option) \<Rightarrow> string \<Rightarrow> string option" where
  "validateExternalURL parse parseIP lookup rawURL =
     (case parse rawURL of
        None \<Rightarrow> Some ''invalid URL''
      | Some u \<Rightarrow>
          if pu_Scheme u \<noteq> ''https'' then Some ''only https URLs are allowed''
          else if pu_Host u = [] then Some ''invalid URL''
          else (case parseIP (pu_Hostname u) of
            Some ip \<Rightarrow> if isPrivateIP ip then Some ''private/loopback addresses are not allowed'' else None
          | None \<Rightarrow>
              (case lookup (pu_Hostname u) of
                 None \<Rightarrow> Some ''cannot resolve host''
               | Some ips \<Rightarrow>
                   if list_ex (\<lambda>s. case parseIP s of None \<Rightarrow> False | Some ip \<Rightarrow> isPrivateIP ip) ips
                   then Some ''host resolves to private/loopback address'' else None)))"

section \<open>Text and back: command lines\<close>

text \<open>Arguments the form can show: not empty, no quote character, no line break.\<close>

definition shown_arg :: "string \<Rightarrow> bool" where
  "shown_arg a \<longleftrightarrow> a \<noteq> [] \<and> CHR 0x22 \<notin> set a \<and> CHR 0x27 \<notin> set a \<and> (\<forall>c \<in> set a. is_space c \<longrightarrow> c = CHR 0x20 \<or> c = CHR 0x09)"

lemma command_loop_plain:
  "\<forall>c \<in> set a. c \<notin> {CHR 0x22, CHR 0x27, CHR 0x20, CHR 0x09} \<Longrightarrow> command_loop None cur args (a @ rest) = command_loop None (cur @ a) args rest"
  by (induction a arbitrary: cur) auto

lemma command_loop_quoted:
  "q \<notin> set a \<Longrightarrow> command_loop (Some q) cur args (a @ q # rest) = command_loop None (cur @ a) args rest"
  by (induction a arbitrary: cur) auto

lemma command_loop_arg: "shown_arg a \<Longrightarrow> command_loop None [] args (quote_arg a @ rest) = command_loop None a args rest"
proof (cases "CHR 0x20 \<in> set a \<or> CHR 0x09 \<in> set a")
  case True
  moreover assume "shown_arg a"
  ultimately show ?thesis
    using command_loop_quoted [of "CHR 0x22" a "[]" args rest] by (simp add: quote_arg_def shown_arg_def)
next
  case False
  moreover assume "shown_arg a"
  ultimately have "\<forall>c \<in> set a. c \<notin> {CHR 0x22, CHR 0x27, CHR 0x20, CHR 0x09}" unfolding shown_arg_def by blast
  from command_loop_plain [OF this, of "[]" args rest] False show ?thesis by (simp add: quote_arg_def)
qed

lemma command_loop_args:
  "list_all shown_arg (a # as) \<Longrightarrow> command_loop None [] acc (join_with '' '' (map quote_arg (a # as))) = acc @ a # as"
proof (induction as arbitrary: a acc)
  case Nil
  then show ?case using command_loop_arg [of a acc "[]"] by (simp add: shown_arg_def)
next
  case (Cons b bs)
  then have a: "shown_arg a" "a \<noteq> []" by (simp_all add: shown_arg_def)
  have "command_loop None [] acc (join_with '' '' (map quote_arg (a # b # bs))) =
      command_loop None a acc (CHR 0x20 # join_with '' '' (map quote_arg (b # bs)))"
    using command_loop_arg [OF a(1), of acc] by simp
  also have "\<dots> = command_loop None [] (acc @ [a]) (join_with '' '' (map quote_arg (b # bs)))" using a(2) by simp
  also have "\<dots> = acc @ a # b # bs" using Cons.IH [of b "acc @ [a]"] Cons.prems by simp
  finally show ?case .
qed

lemma dropWhile_hd: "s \<noteq> [] \<Longrightarrow> \<not> P (hd s) \<Longrightarrow> dropWhile P s = s"
  by (cases s) auto

lemma trim_space_tight: "s \<noteq> [] \<Longrightarrow> \<not> is_space (hd s) \<Longrightarrow> \<not> is_space (last s) \<Longrightarrow> trim_space s = s"
  by (simp add: trim_space_def dropWhile_hd hd_rev)

lemma trim_space_ends:
  assumes tight: "trim_space s = s" and ne: "s \<noteq> []"
  shows "\<not> is_space (hd s) \<and> \<not> is_space (last s)"
proof -
  let ?d = "dropWhile is_space s" and ?t = "dropWhile is_space (rev (dropWhile is_space s))"
  have t: "rev ?t = s" using tight by (simp add: trim_space_def)
  with ne have "?t \<noteq> []" by fastforce
  from hd_dropWhile [OF this] have "\<not> is_space (hd ?t)" .
  moreover from arg_cong [OF t, of last] \<open>?t \<noteq> []\<close> have "hd ?t = last s" by (simp add: last_rev)
  ultimately have last: "\<not> is_space (last s)" by simp
  from arg_cong [OF t, of length] length_dropWhile_le [of is_space "rev ?d"] have "length s \<le> length ?d" by simp
  moreover have "length (takeWhile is_space s) + length ?d = length s" by (metis length_append takeWhile_dropWhile_id)
  ultimately have "length (takeWhile is_space s) = 0" by linarith
  then have "takeWhile is_space s = []" by simp
  then have "\<not> is_space (hd s)" using ne by (cases s) (auto split: if_splits)
  with last show ?thesis by simp
qed

lemma quote_arg_ends:
  assumes "shown_arg a"
  shows "quote_arg a \<noteq> [] \<and> \<not> is_space (hd (quote_arg a)) \<and> \<not> is_space (last (quote_arg a))"
proof (cases "CHR 0x20 \<in> set a \<or> CHR 0x09 \<in> set a")
  case True
  then show ?thesis by (simp add: quote_arg_def is_space_def)
next
  case False
  with assms have "a \<noteq> []" "\<forall>c \<in> set a. \<not> is_space c" by (auto simp: shown_arg_def)
  with False show ?thesis by (simp add: quote_arg_def)
qed

lemma join_with_ends:
  "xs \<noteq> [] \<Longrightarrow> \<forall>x \<in> set xs. x \<noteq> [] \<Longrightarrow> join_with sep xs \<noteq> [] \<and> hd (join_with sep xs) = hd (hd xs) \<and> last (join_with sep xs) = last (last xs)"
  by (induction sep xs rule: join_with.induct) auto

lemma join_with_tight:
  assumes "xs \<noteq> []" "\<forall>x \<in> set xs. x \<noteq> [] \<and> \<not> is_space (hd x) \<and> \<not> is_space (last x)"
  shows "join_with sep xs \<noteq> [] \<and> \<not> is_space (hd (join_with sep xs)) \<and> \<not> is_space (last (join_with sep xs))"
  using join_with_ends [OF assms(1), of sep] assms hd_in_set [OF assms(1)] last_in_set [OF assms(1)] by auto

text \<open>
  The edit form gives a server's command back unchanged: splitting the text the form shows for a list of
  arguments gives these arguments, whatever blanks they contain, provided none is empty or contains a
  quote character or a line break.
\<close>

theorem command_form_roundtrip:
  assumes "list_all shown_arg args"
  shows "parseCommand (joinQuoted args) = args"
proof (cases args)
  case (Cons a as)
  have parts: "\<forall>x \<in> set (map quote_arg args). x \<noteq> [] \<and> \<not> is_space (hd x) \<and> \<not> is_space (last x)"
    using assms quote_arg_ends by (auto simp: list_all_iff)
  from join_with_tight [OF _ parts] Cons have "joinQuoted args \<noteq> []" "\<not> is_space (hd (joinQuoted args))" "\<not> is_space (last (joinQuoted args))"
    unfolding joinQuoted_def by blast+
  then have "trim_space (joinQuoted args) = joinQuoted args" "joinQuoted args \<noteq> []" by (auto intro: trim_space_tight)
  then show ?thesis using command_loop_args [of a as "[]"] assms Cons by (simp add: parseCommand_def joinQuoted_def)
qed (simp add: parseCommand_def joinQuoted_def)

theorem command_form_roundtrip_witness:
  "parseCommand (joinQuoted [''-c'', ''import a; a.run()'', ''x'']) = [''-c'', ''import a; a.run()'', ''x'']"
  by (rule command_form_roundtrip) (simp add: shown_arg_def is_space_def)

text \<open>
  The entrypoint is shown with its arguments joined by plain blanks, so an argument with a blank comes
  back as two.
\<close>

lemma entrypoint_form_splits: "parseCommand (join_with '' '' [''sh'', ''a b'']) = [''sh'', ''a'', ''b'']"
  by (simp add: parseCommand_def trim_space_def is_space_def)

section \<open>Text and back: environments\<close>

text \<open>Environments the form can show: keys and values without blanks around them or line breaks, keys that do not look like comments.\<close>

definition shown_var :: "string \<times> string \<Rightarrow> bool" where
  "shown_var kv \<longleftrightarrow> (case kv of (k, v) \<Rightarrow>
     k \<noteq> [] \<and> trim_space k = k \<and> CHR ''='' \<notin> set k \<and> CHR 0x0A \<notin> set k \<and> hd k \<noteq> CHR ''#'' \<and> trim_space v = v \<and> CHR 0x0A \<notin> set v)"

lemma str_split_line: "sep \<notin> set x \<Longrightarrow> str_split sep x = [x]"
  by (induction x) auto

lemma str_split_cons: "sep \<notin> set x \<Longrightarrow> str_split sep (x @ sep # rest) = x # str_split sep rest"
  by (induction x) auto

lemma str_split_join: "xs \<noteq> [] \<Longrightarrow> \<forall>x \<in> set xs. sep \<notin> set x \<Longrightarrow> str_split sep (join_with [sep] xs) = xs"
  by (induction "[sep]" xs rule: join_with.induct) (auto simp: str_split_line str_split_cons)

lemma shown_line_tight:
  assumes "shown_var (k, v)"
  shows "trim_space (k @ ''='' @ v) = k @ ''='' @ v"
proof (rule trim_space_tight)
  have k: "k \<noteq> []" "trim_space k = k" and v: "trim_space v = v" using assms by (auto simp: shown_var_def)
  show "\<not> is_space (hd (k @ ''='' @ v))" using trim_space_ends [OF k(2,1)] k(1) by simp
  show "\<not> is_space (last (k @ ''='' @ v))" using trim_space_ends [OF v] by (cases "v = []") (simp_all add: is_space_def)
qed simp

lemma env_line_shown:
  assumes "shown_var (k, v)"
  shows "env_line (k @ ''='' @ v) env = env_set k v env"
proof -
  have k: "k \<noteq> []" "trim_space k = k" "CHR ''='' \<notin> set k" "hd k \<noteq> CHR ''#''" and v: "trim_space v = v"
    using assms by (auto simp: shown_var_def)
  have "\<not> has_prefix (k @ ''='' @ v) ''#''" using k(1,4) by (cases k) (simp_all add: has_prefix_def)
  moreover have cut: "dropWhile (\<lambda>c. c \<noteq> CHR ''='') (k @ ''='' @ v) = ''='' @ v" "takeWhile (\<lambda>c. c \<noteq> CHR ''='') (k @ ''='' @ v) = k"
    using k(3) by (induction k) auto
  ultimately show ?thesis using k(2) v by (simp add: env_line_def shown_line_tight [OF assms, simplified] cut [simplified] Let_def)
qed

lemma env_fold_shown:
  "list_all shown_var kvs \<Longrightarrow> distinct (map fst kvs) \<Longrightarrow> fst ` set env \<inter> fst ` set kvs = {} \<Longrightarrow>
     fold env_line (map (\<lambda>(k, v). k @ ''='' @ v) kvs) env = env @ kvs"
proof (induction kvs arbitrary: env)
  case (Cons kv kvs)
  obtain k v where kv: "kv = (k, v)" by fastforce
  with Cons.prems have "env_line (k @ ''='' @ v) env = env_set k v env" by (intro env_line_shown) simp
  moreover have "env_set k v env = env @ [(k, v)]"
    using Cons.prems(3) by (auto simp: env_set_def kv filter_id_conv image_iff)
  ultimately show ?case using Cons.IH [of "env @ [(k, v)]"] Cons.prems by (auto simp: kv)
qed simp

text \<open>
  The edit form gives an environment back unchanged: parsing the text it shows, one line \<open>KEY=value\<close> for every
  variable in the order of the keys, gives the same map.
\<close>

theorem environment_form_roundtrip:
  assumes "list_all shown_var env" "distinct (map fst env)"
  shows "map_of (parseEnvVars (envToText env)) = map_of env"
proof (cases "env = []")
  case True
  then show ?thesis by (simp add: parseEnvVars_def envToText_def envKeys_def env_line_def)
next
  case False
  let ?kvs = "map (\<lambda>k. (k, the (map_of env k))) (envKeys env)"
  have keys: "set (envKeys env) = fst ` set env" "distinct (envKeys env)" using assms(2) by (simp_all add: envKeys_def)
  have val: "(k, the (map_of env k)) \<in> set env \<and> map_of env k \<noteq> None" if "k \<in> set (envKeys env)" for k
    using that keys(1) assms(2) by (auto simp: map_of_eq_Some_iff)
  then have shown: "list_all shown_var ?kvs" using assms(1) by (auto simp: list_all_iff)
  have lines: "envToText env = join_with [CHR 0x0A] (map (\<lambda>(k, v). k @ ''='' @ v) ?kvs)"
    unfolding envToText_def by (rule arg_cong [where f = "join_with _"]) (use val in \<open>fastforce split: option.split\<close>)
  have "str_split (CHR 0x0A) (envToText env) = map (\<lambda>(k, v). k @ ''='' @ v) ?kvs"
    unfolding lines using False shown keys(1) by (intro str_split_join) (auto simp: list_all_iff shown_var_def)
  moreover have "distinct (map fst ?kvs)" using keys(2) by (simp add: comp_def)
  ultimately have "parseEnvVars (envToText env) = ?kvs"
    using env_fold_shown [OF shown, of "[]"] by (simp add: parseEnvVars_def)
  moreover have "map_of ?kvs k = map_of env k" for k
    using keys(1) val [of k] map_of_eq_None_iff [of env k] by (auto simp: map_of_map_keys map_of_map_restrict restrict_map_def)
  ultimately show ?thesis by auto
qed

theorem environment_form_roundtrip_witness:
  "map_of (parseEnvVars (envToText [(''TOKEN'', ''a=b c''), (''HOME'', [])])) = map_of [(''TOKEN'', ''a=b c''), (''HOME'', [])]"
  by (rule environment_form_roundtrip) (simp_all add: shown_var_def trim_space_def is_space_def)

section \<open>Redirects stay on the host\<close>

lemma referer_redirect_is_local:
  assumes "localRefererPath parse render host ref = Some dest"
  shows "(\<exists>rest. dest = ''/'' @ rest \<and> \<not> has_prefix rest ''/'') \<and> CHR 0x5C \<notin> set dest"
proof -
  from assms have d: "has_prefix dest ''/''" "\<not> has_prefix dest ''//''" "\<not> str_contains dest [CHR 0x5C]"
    by (auto simp: localRefererPath_def Let_def split: if_splits option.splits)
  from d(1) obtain rest where rest: "dest = ''/'' @ rest" by (auto simp: has_prefix_iff)
  moreover have "\<not> has_prefix rest ''/''" using d(2) by (auto simp: rest has_prefix_def)
  moreover have "CHR 0x5C \<notin> set dest"
    using d(3) by (induction dest) (auto simp: str_contains_def has_prefix_def split: if_splits)
  ultimately show ?thesis by blast
qed

end
