(* ===== verification/Json_Fuel.thy ===== *)
theory Json_Fuel
  imports Json_Scan
begin

text \<open>
  The JSON scanner always has enough fuel: every value it reads consumes input, so a fuel of twice the
  length of the text gives the same result as any larger one. As a consequence the texts of the members
  and elements of a value are shorter than its own, which is the measure by which the functions that
  walk through nested values end.
\<close>

section \<open>Every scan consumes input\<close>

lemma length_skip_ws: "length (skip_ws s) \<le> length s"
  by (simp add: skip_ws_def length_dropWhile_le)

lemma skip_ws_Cons: "skip_ws s = c # cs \<Longrightarrow> length cs < length s"
  using length_skip_ws [of s] by simp

lemma skip_ws_shorter: "length r < length (skip_ws s) \<Longrightarrow> length r < length s"
  using length_skip_ws [of s] by simp

lemma scan_str_shorter: "scan_str s = Some (b, r) \<Longrightarrow> length r < length s"
proof (induction "length s" arbitrary: s b r rule: less_induct)
  case less
  have IH: "length q < length t" if "scan_str t = Some (a, q)" "length t < length s" for t a q using less.hyps that by blast
  from less.prems obtain c cs where s: "s = c # cs" by (cases s) auto
  consider "c = quote_ch" | "c \<noteq> quote_ch" "c \<noteq> backslash"
    | e es where "c = backslash" "c \<noteq> quote_ch" "cs = e # es" "e \<noteq> CHR ''u''" | es where "c = backslash" "c \<noteq> quote_ch" "cs = CHR ''u'' # es"
    using less.prems by (cases cs) (auto simp: s split: if_splits)
  then show ?case
  proof cases
    case 1
    with less.prems show ?thesis by (simp add: s)
  next
    case 2
    with less.prems show ?thesis by (auto simp: s split: if_splits dest!: IH)
  next
    case (3 e es)
    then obtain b' where "scan_str es = Some (b', r)" using less.prems by (auto simp: s split: if_splits)
    from IH [OF this] 3(3) show ?thesis by (simp add: s)
  next
    case (4 es)
    have "CHR ''u'' \<notin> {quote_ch, backslash, CHR ''/'', CHR ''b'', CHR ''f'', CHR ''n'', CHR ''r'', CHR ''t''}" by code_simp
    with 4 less.prems obtain v w x y t b' where "es = v # w # x # y # t" "scan_str t = Some (b', r)"
      by (simp add: s split: list.splits option.splits) blast
    with IH [OF this(2)] 4(3) show ?thesis by (simp add: s)
  qed
qed

lemma scan_digits_shorter: "scan_digits s = Some r \<Longrightarrow> length r < length s"
  by (auto simp: scan_digits_def split: list.splits if_splits intro: le_less_trans [OF length_dropWhile_le])

lemma scan_int_shorter: "scan_int s = Some r \<Longrightarrow> length r < length s"
  by (auto simp: scan_int_def split: list.splits if_splits intro: le_less_trans [OF length_dropWhile_le])

lemma scan_tail_shorter: "scan_frac s = Some r \<Longrightarrow> length r \<le> length s" "scan_exp s = Some r \<Longrightarrow> length r \<le> length s"
  by (auto simp: scan_frac_def scan_exp_def split: list.splits if_splits dest!: scan_digits_shorter)

lemma scan_num_shorter:
  assumes "scan_num s = Some r"
  shows "length r < length s"
proof -
  let ?s = "case s of [] \<Rightarrow> [] | c # cs \<Rightarrow> if c = CHR ''-'' then cs else s"
  from assms obtain a b where "scan_int ?s = Some a" "scan_frac a = Some b" "scan_exp b = Some r"
    by (auto simp: scan_num_def Let_def split: option.splits)
  then have "length r < length ?s" using scan_int_shorter scan_tail_shorter by (meson le_less_trans)
  also have "length ?s \<le> length s" by (cases s) auto
  finally show ?thesis .
qed

lemma has_prefix_length: "has_prefix s p \<Longrightarrow> length p \<le> length s"
  by (auto simp: has_prefix_iff)

lemma scan_shorter:
  "jvalue n s = Some (v, r) \<Longrightarrow> length r < length s"
  "jelems n s = Some (es, r) \<Longrightarrow> length r < length s"
  "jmembers n s = Some (ms, r) \<Longrightarrow> length r < length s"
proof (induction n arbitrary: s v r es ms)
  case (Suc n)
  {
    case 1
    then obtain c cs where s: "s = c # cs" by (auto split: list.splits)
    consider "c = quote_ch" | "c = CHR ''{''" "c \<noteq> quote_ch" | "c = CHR ''[''" "c \<noteq> quote_ch"
      | "c \<noteq> quote_ch" "c \<noteq> CHR ''{''" "c \<noteq> CHR ''[''" by blast
    then show ?case
    proof cases
      case 1
      with \<open>jvalue (Suc n) s = Some (v, r)\<close> show ?thesis by (auto simp: s dest!: scan_str_shorter)
    next
      case 2
      with \<open>jvalue (Suc n) s = Some (v, r)\<close> show ?thesis
        by (auto simp: s split: list.splits if_splits dest!: Suc.IH(3) dest: skip_ws_Cons)
    next
      case 3
      with \<open>jvalue (Suc n) s = Some (v, r)\<close> show ?thesis
        by (auto simp: s split: list.splits if_splits dest!: Suc.IH(2) dest: skip_ws_Cons)
    next
      case 4
      with \<open>jvalue (Suc n) s = Some (v, r)\<close> show ?thesis
        using has_prefix_length [of s]
        by (auto simp: s split: if_splits dest!: scan_num_shorter)
    qed
  next
    case 2
    then show ?case
      by (auto split: list.splits if_splits option.splits prod.splits dest!: Suc.IH skip_ws_Cons skip_ws_shorter)
  next
    case 3
    then show ?case
      by (auto simp: Let_def split: list.splits if_splits option.splits prod.splits dest!: Suc.IH skip_ws_Cons skip_ws_shorter scan_str_shorter)
  }
qed simp_all

section \<open>Fuel\<close>

lemma fuel_step:
  "2 * length s \<le> n \<Longrightarrow> jvalue (Suc n) s = jvalue n s"
  "2 * length s + 1 \<le> n \<Longrightarrow> jelems (Suc n) s = jelems n s"
  "2 * length s + 1 \<le> n \<Longrightarrow> jmembers (Suc n) s = jmembers n s"
proof (induction n arbitrary: s)
  case 0
  {
    case 1
    then show ?case by simp
  next
    case 2
    then show ?case by simp
  next
    case 3
    then show ?case by simp
  }
next
  case (Suc n)
  {
    case 1
    have inner: "jmembers (Suc n) (d # ds) = jmembers n (d # ds)" "jelems (Suc n) (d # ds) = jelems n (d # ds)"
      if "s = c # cs" "skip_ws cs = d # ds" for c cs d ds
    proof -
      have "2 * length (d # ds) + 1 \<le> n" using that 1 length_skip_ws [of cs] by simp
      then show "jmembers (Suc n) (d # ds) = jmembers n (d # ds)" "jelems (Suc n) (d # ds) = jelems n (d # ds)" by (rule Suc.IH)+
    qed
    show ?case
    proof (cases s)
      case (Cons c cs)
      show ?thesis
      proof (cases "skip_ws cs")
        case Nil
        then show ?thesis by (simp add: Cons)
      next
        case (Cons d ds)
        show ?thesis
          unfolding \<open>s = c # cs\<close> jvalue.simps(2) list.case(2) Cons inner [OF \<open>s = c # cs\<close> Cons] ..
      qed
    qed simp
  next
    case 2
    have v: "jvalue (Suc n) s = jvalue n s" using 2 by (intro Suc.IH) simp
    have inner: "jelems (Suc n) (skip_ws ds) = jelems n (skip_ws ds)" if "jvalue n s = Some (x, r)" "skip_ws r = d # ds" for x r d ds
    proof (rule Suc.IH)
      from scan_shorter(1) [OF that(1)] skip_ws_Cons [OF that(2)] length_skip_ws [of ds] 2
      show "2 * length (skip_ws ds) + 1 \<le> n" by simp
    qed
    show ?case
    proof (cases "jvalue n s")
      case (Some xr)
      obtain x r where xr: "jvalue n s = Some (x, r)" using Some by (cases xr) simp
      then show ?thesis
        by (cases "skip_ws r") (auto simp: jelems.simps(2) [of "Suc n" s] jelems.simps(2) [of n s] v inner [OF xr] simp del: jelems.simps jvalue.simps)
    qed (simp add: jelems.simps(2) [of "Suc n" s] jelems.simps(2) [of n s] v del: jelems.simps jvalue.simps)
  next
    case 3
    have v: "jvalue (Suc n) (skip_ws es) = jvalue n (skip_ws es)"
      if "s = c # cs" "scan_str cs = Some (k, r0)" "skip_ws r0 = e # es" for c cs k r0 e es
    proof (rule Suc.IH)
      from scan_str_shorter [OF that(2)] skip_ws_Cons [OF that(3)] length_skip_ws [of es] 3 that(1)
      show "2 * length (skip_ws es) \<le> n" by simp
    qed
    have inner: "jmembers (Suc n) (skip_ws ds) = jmembers n (skip_ws ds)"
      if "s = c # cs" "scan_str cs = Some (k, r0)" "skip_ws r0 = e # es" "jvalue n (skip_ws es) = Some (x, r)" "skip_ws r = d # ds"
      for c cs k r0 e es x r d ds
    proof (rule Suc.IH)
      from scan_str_shorter [OF that(2)] skip_ws_Cons [OF that(3)] length_skip_ws [of es] scan_shorter(1) [OF that(4)]
        skip_ws_Cons [OF that(5)] length_skip_ws [of ds] 3 that(1)
      show "2 * length (skip_ws ds) + 1 \<le> n" by simp
    qed
    show ?case
    proof (cases s)
      case (Cons c cs)
      show ?thesis
      proof (cases "\<exists>k r0 e es. scan_str cs = Some (k, r0) \<and> skip_ws r0 = e # es")
        case True
        then obtain k r0 e es where k: "scan_str cs = Some (k, r0)" "skip_ws r0 = e # es" by blast
        show ?thesis
          by (auto simp: jmembers.simps(2) [of "Suc n" "c # cs"] jmembers.simps(2) [of n "c # cs"] Cons k Let_def v [OF Cons k] inner [OF Cons k]
              simp del: jmembers.simps jvalue.simps split: option.split list.split)
      next
        case False
        then show ?thesis by (auto simp: Cons split: option.split list.split)
      qed
    qed simp
  }
qed

text \<open>
  Reading JSON ends with the whole answer: with a fuel of twice the length of a text, the scanner has the
  result that every larger fuel gives, so no text is rejected, cut short or misread for want of fuel, and
  \<open>shape\<close> is the unbounded scan.
\<close>

theorem json_scan_fuel_suffices:
  "jvalue (2 * length s + k) s = jvalue (2 * length s) s \<and>
   shape s = (case jvalue (2 * length s + 2 + k) (skip_ws s) of None \<Rightarrow> None | Some (v, r) \<Rightarrow> if skip_ws r = [] then Some v else None)"
proof -
  have more: "jvalue (n + k) t = jvalue n t" if "2 * length t \<le> n" for n t
  proof (induction k)
    case (Suc k)
    have "jvalue (Suc (n + k)) t = jvalue (n + k) t" using that by (intro fuel_step) simp
    with Suc show ?case by (simp del: jvalue.simps)
  qed simp
  have "2 * length (skip_ws s) \<le> 2 * length s + 2" using length_skip_ws [of s] by simp
  from more [OF this] show ?thesis using more [of s "2 * length s"] by (simp add: shape_def del: jvalue.simps)
qed

section \<open>Components are shorter\<close>

lemma length_raw_of: "length (raw_of s r) = length s - length r"
  by (simp add: raw_of_def)

lemma elems_shorter: "jelems n s = Some (es, r) \<Longrightarrow> e \<in> set es \<Longrightarrow> length e < length s"
proof (induction n arbitrary: s es r)
  case (Suc n)
  from Suc.prems(1) obtain v q d ds where v: "jvalue n s = Some (v, q)" and q: "skip_ws q = d # ds"
    by (auto split: option.splits list.splits)
  note len = scan_shorter(1) [OF v] skip_ws_Cons [OF q] length_skip_ws [of ds]
  from Suc.prems v q consider "e = raw_of s q" | es' where "jelems n (skip_ws ds) = Some (es', r)" "e \<in> set es'"
    by (auto split: if_splits)
  then show ?case
  proof cases
    case 1
    then show ?thesis using len by (simp add: length_raw_of)
  next
    case (2 es')
    from Suc.IH [OF 2] len show ?thesis by simp
  qed
qed simp

lemma members_shorter: "jmembers n s = Some (ms, r) \<Longrightarrow> (k, v) \<in> set ms \<Longrightarrow> length v < length s"
proof (induction n arbitrary: s ms r)
  case (Suc n)
  from Suc.prems(1) obtain c cs b r0 e es x q d ds where s: "s = c # cs" and b: "scan_str cs = Some (b, r0)" and e: "skip_ws r0 = e # es"
    and x: "jvalue n (skip_ws es) = Some (x, q)" and q: "skip_ws q = d # ds"
    by (auto simp: Let_def split: list.splits if_splits option.splits)
  note len = scan_str_shorter [OF b] skip_ws_Cons [OF e] length_skip_ws [of es] scan_shorter(1) [OF x] skip_ws_Cons [OF q] length_skip_ws [of ds]
  from Suc.prems s b e x q consider "v = raw_of (skip_ws es) q" | ms' where "jmembers n (skip_ws ds) = Some (ms', r)" "(k, v) \<in> set ms'"
    by (auto simp: Let_def split: if_splits)
  then show ?case
  proof cases
    case 1
    then show ?thesis using len by (simp add: length_raw_of s)
  next
    case (2 ms')
    from Suc.IH [OF 2] len show ?thesis by (simp add: s)
  qed
qed simp

lemma jvalue_compound:
  assumes "jvalue n s = Some (v, r)"
  shows "v = SObj kvs \<Longrightarrow> kvs \<noteq> [] \<Longrightarrow> \<exists>m c cs. s = c # cs \<and> jmembers m (skip_ws cs) = Some (kvs, r)"
    "v = SArr es \<Longrightarrow> es \<noteq> [] \<Longrightarrow> \<exists>m c cs. s = c # cs \<and> jelems m (skip_ws cs) = Some (es, r)"
proof -
  from assms obtain m c cs where n: "n = Suc m" and s: "s = c # cs" by (cases n; cases s) auto
  show "\<exists>m c cs. s = c # cs \<and> jmembers m (skip_ws cs) = Some (kvs, r)" if "v = SObj kvs" "kvs \<noteq> []"
  proof -
    have "jmembers m (skip_ws cs) = Some (kvs, r)" using assms that unfolding n s by (auto split: list.splits if_splits)
    then show ?thesis using s by blast
  qed
  show "\<exists>m c cs. s = c # cs \<and> jelems m (skip_ws cs) = Some (es, r)" if "v = SArr es" "es \<noteq> []"
  proof -
    have "jelems m (skip_ws cs) = Some (es, r)" using assms that unfolding n s by (auto split: list.splits if_splits)
    then show ?thesis using s by blast
  qed
qed

lemma shape_scan: "shape s = Some v \<Longrightarrow> \<exists>n r. jvalue n (skip_ws s) = Some (v, r)"
  unfolding shape_def by (cases "jvalue (2 * length s + 2) (skip_ws s)") (auto split: if_splits simp del: jvalue.simps, blast)

lemma shape_members_shorter:
  assumes "shape s = Some (SObj kvs)" "(k, v) \<in> set kvs"
  shows "length v < length s"
proof -
  from shape_scan [OF assms(1)] obtain n r where "jvalue n (skip_ws s) = Some (SObj kvs, r)" by blast
  from jvalue_compound(1) [OF this refl] assms(2) obtain m c cs where cs: "skip_ws s = c # cs" and ms: "jmembers m (skip_ws cs) = Some (kvs, r)" by force
  from members_shorter [OF ms assms(2)] length_skip_ws [of cs] skip_ws_Cons [OF cs] show ?thesis by simp
qed

lemma shape_elems_shorter:
  assumes "shape s = Some (SArr es)" "e \<in> set es"
  shows "length e < length s"
proof -
  from shape_scan [OF assms(1)] obtain n r where "jvalue n (skip_ws s) = Some (SArr es, r)" by blast
  from jvalue_compound(2) [OF this refl] assms(2) obtain m c cs where cs: "skip_ws s = c # cs" and es: "jelems m (skip_ws cs) = Some (es, r)" by force
  from elems_shorter [OF es assms(2)] length_skip_ws [of cs] skip_ws_Cons [OF cs] show ?thesis by simp
qed

end
