(* ===== verification/Tool_Optimizer.thy ===== *)
theory Tool_Optimizer
  imports Json_Fuel Mcp_Protocol Middleware_Pipeline Server_Store Access_Store
begin

text \<open>
  Shorter tool descriptions for models: \<open>internal/mcp/optimize.go\<close> (pruning of JSON schemas, batching, the
  checks on what a language model returns), \<open>internal/store/optimize.go\<close> (the stored results) and
  \<open>internal/middleware/optimizer.go\<close> (their use in \<open>tools/list\<close> answers).

  The language model is an argument: its answer to the prompt made of a batch of tools, \<open>None\<close> when the call
  fails. A schema is a raw JSON text, empty for a nil \<open>json.RawMessage\<close>. Go's sort is not
  stable; tools of equal names, which MCP forbids, are kept in order here. A result that repeats
  the member \<open>tools\<close> is read by its last occurrence.
\<close>

record Tool =
  tl_Name :: string
  tl_Description :: string
  tl_InputSchema :: string

definition tool_size :: "Tool \<Rightarrow> nat" where
  "tool_size t = length (tl_Description t) + length (tl_InputSchema t)"

section \<open>Decoding and encoding tools\<close>

definition decode_tool :: "string \<Rightarrow> Tool option" where
  "decode_tool s =
     (case decode_members s of
        None \<Rightarrow> None
      | Some kvs \<Rightarrow>
          (let (name, ok1) = str_field [] (field_values ''name'' kvs);
               (desc, ok2) = str_field [] (field_values ''description'' kvs) in
           if ok1 \<and> ok2 then
             Some \<lparr>tl_Name = name, tl_Description = desc,
               tl_InputSchema = (case raw_field (field_values ''inputSchema'' kvs) of None \<Rightarrow> [] | Some r \<Rightarrow> r)\<rparr>
           else None))"

fun all_some :: "'a option list \<Rightarrow> 'a list option" where
  "all_some [] = Some []"
| "all_some (x # xs) = (case x of None \<Rightarrow> None | Some y \<Rightarrow> map_option (Cons y) (all_some xs))"

definition decode_tools :: "string \<Rightarrow> Tool list option" where
  "decode_tools s = (case decode_arr s of None \<Rightarrow> None | Some xs \<Rightarrow> all_some (map decode_tool xs))"

definition decode_tools_list :: "string \<Rightarrow> Tool list option" where
  "decode_tools_list s =
     (case decode_members s of
        None \<Rightarrow> None
      | Some kvs \<Rightarrow> map_option (\<lambda>ts. if ts = [] then [] else last ts) (all_some (map decode_tools (field_values ''tools'' kvs))))"

definition encode_tool :: "Tool \<Rightarrow> string option" where
  "encode_tool t =
     map_option (\<lambda>sch. ''{'' @ join_with '','' ([marshal_str ''name'' @ '':'' @ marshal_str (tl_Name t)] @
         (if tl_Description t = [] then [] else [marshal_str ''description'' @ '':'' @ marshal_str (tl_Description t)]) @ sch) @ ''}'')
       (raw_member ''inputSchema'' (Some (tl_InputSchema t)))"

definition encode_tools :: "Tool list \<Rightarrow> string option" where
  "encode_tools ts = map_option (\<lambda>xs. ''['' @ join_with '','' xs @ '']'') (all_some (map encode_tool ts))"

section \<open>Size and identity of a tool list\<close>

record ToolStat =
  ts_Name :: string
  ts_DescChars :: nat
  ts_SchemaChar :: nat
  ts_TotalChars :: nat

definition AuditTools :: "Tool list \<Rightarrow> ToolStat list \<times> nat" where
  "AuditTools tools =
     (map (\<lambda>t. \<lparr>ts_Name = tl_Name t, ts_DescChars = length (tl_Description t), ts_SchemaChar = length (tl_InputSchema t),
        ts_TotalChars = tool_size t\<rparr>) tools, sum_list (map tool_size tools))"

definition HashTools :: "crypto \<Rightarrow> Tool list \<Rightarrow> string" where
  "HashTools cr tools =
     sha256_hex cr (concat (map (\<lambda>t. tl_Name t @ tl_Description t @ tl_InputSchema t) (sort_key tl_Name tools)))"

section \<open>Pruning of schemas\<close>

definition prune_removes :: "string \<Rightarrow> bool" where
  "prune_removes key \<longleftrightarrow>
     key \<in> {''$schema'', ''$id'', ''title'', ''examples'', ''example'', ''deprecated'', ''readOnly'', ''writeOnly'', ''contentMediaType'',
       ''contentEncoding''} \<or> has_prefix key ''x-''"

definition is_null :: "string \<Rightarrow> bool" where
  "is_null s \<longleftrightarrow> shape s = Some SNull"

lemma decode_map_members:
  assumes "decode_map s = Some m" "(k, v) \<in> set m"
  shows "length v < length s"
proof -
  have put: "(k, v) \<in> set (map_put a b m') \<Longrightarrow> (k, v) = (a, b) \<or> (k, v) \<in> set m'" for a b m'
    by (induction a b m' rule: map_put.induct) (auto split: if_splits)
  have fold: "(k, v) \<in> set (fold (\<lambda>(k, v). map_put k v) kvs m') \<Longrightarrow> (k, v) \<in> set kvs \<or> (k, v) \<in> set m'" for kvs m'
    by (induction kvs arbitrary: m') (auto dest: put)
  from assms show ?thesis
    by (auto simp: decode_map_def split: option.splits jshape.splits dest!: fold intro: shape_members_shorter)
qed

lemma decode_arr_elems: "decode_arr s = Some xs \<Longrightarrow> x \<in> set xs \<Longrightarrow> length x < length s"
  by (auto simp: decode_arr_def split: option.splits jshape.splits intro: shape_elems_shorter)

lemma nested_member:
  "decode_map s = Some m \<Longrightarrow> x \<in> set (filter P m) \<Longrightarrow> (k, v) = x \<Longrightarrow> decode_map v = Some m' \<Longrightarrow> x' \<in> set m' \<Longrightarrow> (k', v') = x' \<Longrightarrow>
     length v' < length s"
  using decode_map_members by (metis filter_is_subset less_trans subsetD)

lemma nested_elem:
  "decode_map s = Some m \<Longrightarrow> x \<in> set (filter P m) \<Longrightarrow> (k, v) = x \<Longrightarrow> decode_arr v = Some xs \<Longrightarrow> y \<in> set xs \<Longrightarrow> length y < length s"
  using decode_map_members decode_arr_elems by (metis filter_is_subset less_trans subsetD)

function PruneSchema :: "string \<Rightarrow> string" where
  "PruneSchema schema =
     (if schema = [] then schema
      else if is_null schema then ''null''
      else (case decode_map schema of
        None \<Rightarrow> schema
      | Some obj \<Rightarrow>
          marshal_map (map (\<lambda>(key, val). (key,
            if key = ''properties'' then
              (if is_null val then ''null''
               else (case decode_map val of
                 None \<Rightarrow> val
               | Some props \<Rightarrow> marshal_map (map (\<lambda>(k, v). (k, PruneSchema v)) props)))
            else if key \<in> {''items'', ''$defs'', ''definitions'', ''if'', ''then'', ''else'', ''not''} then
              (if is_null val then ''null''
               else (case decode_map val of
                 Some inner \<Rightarrow> marshal_map (map (\<lambda>(k, v). (k, PruneSchema v)) inner)
               | None \<Rightarrow>
                   (case decode_arr val of None \<Rightarrow> val | Some arr \<Rightarrow> marshal_arr (map (\<lambda>v. PruneSchema v) arr))))
            else if key \<in> {''anyOf'', ''oneOf'', ''allOf'', ''prefixItems''} then
              (if is_null val then ''null''
               else (case decode_arr val of None \<Rightarrow> val | Some arr \<Rightarrow> marshal_arr (map (\<lambda>v. PruneSchema v) arr)))
            else val)) (filter (\<lambda>(key, _). \<not> prune_removes key) obj))))"
  by pat_completeness auto

termination
  by (relation "measure length", simp, simp_all only: in_measure)
    ((erule (5) nested_member | erule (4) nested_elem)+)

declare PruneSchema.simps [simp del]

section \<open>Batches\<close>

fun batch_loop :: "nat \<Rightarrow> Tool list \<Rightarrow> nat \<Rightarrow> Tool list list \<Rightarrow> Tool list \<Rightarrow> Tool list list" where
  "batch_loop budget current currentSize batches [] = (if current \<noteq> [] then batches @ [current] else batches)"
| "batch_loop budget current currentSize batches (t # ts) =
     (if current \<noteq> [] \<and> budget < currentSize + tool_size t then batch_loop budget [t] (tool_size t) (batches @ [current]) ts
      else batch_loop budget (current @ [t]) (currentSize + tool_size t) batches ts)"

definition batchBySize :: "Tool list \<Rightarrow> nat \<Rightarrow> Tool list list" where
  "batchBySize tools budget = batch_loop budget [] 0 [] tools"

section \<open>The answer of the model\<close>

text \<open>
  The array in an answer: the whole text, the body of its first fenced block, or what stands between the first
  opening and the last closing bracket.
\<close>

definition last_index :: "char \<Rightarrow> string \<Rightarrow> nat option" where
  "last_index c s = (case dropWhile (\<lambda>x. x \<noteq> c) (rev s) of [] \<Rightarrow> None | _ # r \<Rightarrow> Some (length r))"

definition fenced :: "string \<Rightarrow> string option" where
  "fenced s =
     (case str_index s ''```'' of
        None \<Rightarrow> None
      | Some i \<Rightarrow>
          let rest = trim_prefix (drop (i + 3) s) ''json'' in
          (case str_index rest ''```'' of None \<Rightarrow> None | Some j \<Rightarrow> Some (trim_space (take j rest))))"

definition extractJSON :: "string \<Rightarrow> string" where
  "extractJSON raw =
     (let s = trim_space raw in
      if has_prefix s ''['' then s
      else (case fenced s of
        Some b \<Rightarrow> b
      | None \<Rightarrow>
          (case (str_index s ''['', last_index (CHR '']'') s) of
             (Some a, Some b) \<Rightarrow> if a < b then take (b + 1 - a) (drop a s) else s
           | _ \<Rightarrow> s)))"

definition optimizeBatch :: "(Tool list \<Rightarrow> string option) \<Rightarrow> Tool list \<Rightarrow> Tool list option" where
  "optimizeBatch complete tools = (case complete tools of None \<Rightarrow> None | Some answer \<Rightarrow> decode_tools (extractJSON answer))"

definition prune_tool :: "Tool \<Rightarrow> Tool" where
  "prune_tool t = t\<lparr>tl_InputSchema := PruneSchema (tl_InputSchema t)\<rparr>"

fun names_ok :: "string list \<Rightarrow> string list \<Rightarrow> string list \<Rightarrow> bool" where
  "names_ok expected seen [] = True"
| "names_ok expected seen (n # ns) = (n \<in> set expected \<and> n \<notin> set seen \<and> names_ok expected (n # seen) ns)"

text \<open>The entry of a Go map built by a loop over the list: the last tool of a name.\<close>

definition by_name :: "Tool list \<Rightarrow> string \<Rightarrow> Tool option" where
  "by_name ts n = List.find (\<lambda>t. tl_Name t = n) (rev ts)"

definition keep_smaller :: "Tool list \<Rightarrow> Tool \<Rightarrow> Tool" where
  "keep_smaller pruned opt =
     (case by_name pruned (tl_Name opt) of
        None \<Rightarrow> opt
      | Some orig \<Rightarrow> if tool_size orig \<le> tool_size opt then orig else opt)"

definition OptimizeTools :: "(Tool list \<Rightarrow> string option) option \<Rightarrow> Tool list \<Rightarrow> Tool list option" where
  "OptimizeTools client tools =
     (if tools = [] then Some tools
      else
        let pruned = map prune_tool tools in
        (case client of
           None \<Rightarrow> Some pruned
         | Some complete \<Rightarrow>
             (case all_some (map (optimizeBatch complete) (batchBySize pruned 30000)) of
                None \<Rightarrow> None
              | Some results \<Rightarrow>
                  let optimized = concat results in
                  if length optimized \<noteq> length tools then None
                  else if \<not> names_ok (map tl_Name tools) [] (map tl_Name optimized) then None
                  else Some (map (keep_smaller pruned) optimized))))"

section \<open>Stored optimisations\<close>

record ToolOptimization =
  to_ID :: string
  to_ServerID :: string
  to_ToolsHash :: string
  to_OriginalChars :: nat
  to_OptimizedChars :: nat
  to_OptimizedTools :: string
  to_PromptVersion :: string
  to_Model :: string
  to_Status :: string
  to_ErrorMsg :: string
  to_CreatedAt :: time
  to_UpdatedAt :: time

type_synonym opt_table = "ToolOptimization list"

definition valid_opt_status :: "string \<Rightarrow> bool" where
  "valid_opt_status s \<longleftrightarrow> s \<in> {''pending'', ''running'', ''ready'', ''stale'', ''error''}"

definition OptimizeStore_Get :: "faults \<Rightarrow> string \<Rightarrow> opt_table \<Rightarrow> ToolOptimization option res" where
  "OptimizeStore_Get io serverID t = stmt (io 0) (Inr (sql_row (\<lambda>x. to_ServerID x = serverID) t))"

definition upsert_opt :: "relay_db \<Rightarrow> ToolOptimization \<Rightarrow> opt_table \<Rightarrow> opt_table res" where
  "upsert_opt db opt t =
     (if \<not> valid_opt_status (to_Status opt) then Inl CheckViolation
      else if sql_has (\<lambda>x. to_ServerID x = to_ServerID opt) t then
        Inr (sql_update (\<lambda>x. to_ServerID x = to_ServerID opt) (\<lambda>x. opt\<lparr>to_ID := to_ID x, to_CreatedAt := to_CreatedAt x\<rparr>) t)
      else if sql_has (\<lambda>x. to_ID x = to_ID opt) t then Inl UniqueViolation
      else if \<not> server_exists db (to_ServerID opt) then Inl ForeignKeyViolation
      else Inr (t @ [opt]))"

text \<open>\<open>gen\<close> is a fresh id, \<open>None\<close> when the random source fails.\<close>

definition OptimizeStore_Upsert :: "faults \<Rightarrow> time \<Rightarrow> string option \<Rightarrow> relay_db \<Rightarrow> ToolOptimization \<Rightarrow> opt_table \<Rightarrow> opt_table \<times> unit res" where
  "OptimizeStore_Upsert io now gen db opt t =
     (if to_ID opt = [] \<and> gen = None then (t, Inl DriverError)
      else
        let i = (if to_ID opt = [] then the gen else to_ID opt) in
        exec (io 0) (upsert_opt db (opt\<lparr>to_ID := i, to_CreatedAt := now, to_UpdatedAt := now\<rparr>)) t)"

definition OptimizeStore_SetStatus :: "faults \<Rightarrow> time \<Rightarrow> string \<Rightarrow> string \<Rightarrow> string \<Rightarrow> opt_table \<Rightarrow> opt_table \<times> unit res" where
  "OptimizeStore_SetStatus io now serverID status errorMsg t =
     exec (io 0) (\<lambda>u. if sql_has (\<lambda>x. to_ServerID x = serverID) u \<and> \<not> valid_opt_status status then Inl CheckViolation
       else Inr (sql_update (\<lambda>x. to_ServerID x = serverID) (\<lambda>x. x\<lparr>to_Status := status, to_ErrorMsg := errorMsg, to_UpdatedAt := now\<rparr>) u)) t"

definition OptimizeStore_MarkStale :: "faults \<Rightarrow> time \<Rightarrow> string \<Rightarrow> string \<Rightarrow> opt_table \<Rightarrow> opt_table \<times> bool res" where
  "OptimizeStore_MarkStale io now serverID currentHash t =
     (case OptimizeStore_Get io serverID t of
        Inl e \<Rightarrow> (t, Inl e)
      | Inr None \<Rightarrow> (t, Inr False)
      | Inr (Some opt) \<Rightarrow>
          if to_ToolsHash opt \<noteq> currentHash \<and> to_Status opt = ''ready'' then
            (case OptimizeStore_SetStatus (after_stmts 1 io) now serverID ''stale'' [] t of (t', r) \<Rightarrow> (t', map_sum id (\<lambda>_. True) r))
          else (t, Inr False))"

definition OptimizeStore_Delete :: "faults \<Rightarrow> string \<Rightarrow> opt_table \<Rightarrow> opt_table \<times> unit res" where
  "OptimizeStore_Delete io serverID t = exec (io 0) (\<lambda>u. Inr (sql_delete (\<lambda>x. to_ServerID x = serverID) u)) t"

section \<open>Serving optimised tools\<close>

definition swap_tools :: "Tool list \<Rightarrow> Tool list \<Rightarrow> Tool list" where
  "swap_tools optimized original = map (\<lambda>t. case by_name optimized (tl_Name t) of Some x \<Rightarrow> x | None \<Rightarrow> t) original"

text \<open>
  Statements: 0 reads the server, 1 the optimisation. The second result says whether the background task that
  marks the optimisation stale is started, and with which hash.
\<close>

definition optimizer_ProcessResponse ::
    "crypto \<Rightarrow> ConfigEncryptor \<Rightarrow> faults \<Rightarrow> relay_db \<Rightarrow> opt_table \<Rightarrow> Response \<Rightarrow> RequestMeta \<Rightarrow> Response \<times> string option" where
  "optimizer_ProcessResponse cr enc io db t resp meta =
     (if rm_Method meta \<noteq> ''tools/list'' then (resp, None)
      else (case ServerStore_Get enc io (rm_ServerID meta) db of
        Inr (Some srv) \<Rightarrow>
          if \<not> sv_OptimizeEnabled srv then (resp, None)
          else (case OptimizeStore_Get (after_stmts 1 io) (rm_ServerID meta) t of
            Inr (Some opt) \<Rightarrow>
              if to_Status opt \<noteq> ''ready'' then (resp, None)
              else (case (rs_Error resp, rs_Result resp) of
                (None, Some result) \<Rightarrow>
                  (case decode_tools_list result of
                     None \<Rightarrow> (resp, None)
                   | Some original \<Rightarrow>
                       let liveHash = HashTools cr original in
                       if liveHash \<noteq> to_ToolsHash opt then (resp, Some liveHash)
                       else (case decode_tools (to_OptimizedTools opt) of
                         None \<Rightarrow> (resp, None)
                       | Some optimized \<Rightarrow>
                           (case (decode_map result, encode_tools (swap_tools optimized original)) of
                              (Some obj, Some toolsJSON) \<Rightarrow> (resp\<lparr>rs_Result := Some (marshal_map (map_put ''tools'' toolsJSON obj))\<rparr>, None)
                            | _ \<Rightarrow> (resp, None))))
              | _ \<Rightarrow> (resp, None))
          | _ \<Rightarrow> (resp, None))
      | _ \<Rightarrow> (resp, None)))"

section \<open>Batches: every tool once, in order, within the budget\<close>

definition batch_ok :: "nat \<Rightarrow> Tool list \<Rightarrow> bool" where
  "batch_ok budget b \<longleftrightarrow> length b = 1 \<or> b \<noteq> [] \<and> sum_list (map tool_size b) \<le> budget"

lemma batch_loop_props:
  assumes "currentSize = sum_list (map tool_size current)" "current = [] \<or> batch_ok budget current" "list_all (batch_ok budget) batches"
  shows "concat (batch_loop budget current currentSize batches ts) = concat batches @ current @ ts"
    "list_all (batch_ok budget) (batch_loop budget current currentSize batches ts)"
proof -
  have "concat (batch_loop budget current currentSize batches ts) = concat batches @ current @ ts \<and>
      list_all (batch_ok budget) (batch_loop budget current currentSize batches ts)"
    using assms
  proof (induction ts arbitrary: current currentSize batches)
    case (Cons t ts)
    have single: "batch_ok budget [t]" by (simp add: batch_ok_def)
    show ?case
    proof (cases "current \<noteq> [] \<and> budget < currentSize + tool_size t")
      case True
      with Cons.IH [of "tool_size t" "[t]" "batches @ [current]"] Cons.prems single show ?thesis by simp
    next
      case False
      then have "batch_ok budget (current @ [t])" using Cons.prems(1) by (cases "current = []") (auto simp: batch_ok_def)
      moreover have "currentSize + tool_size t = sum_list (map tool_size (current @ [t]))" using Cons.prems(1) by simp
      moreover have "batch_loop budget current currentSize batches (t # ts) = batch_loop budget (current @ [t]) (currentSize + tool_size t) batches ts"
        using False by auto
      ultimately show ?thesis
        using Cons.IH [of "currentSize + tool_size t" "current @ [t]" batches] Cons.prems(3) by simp
    qed
  qed auto
  then show "concat (batch_loop budget current currentSize batches ts) = concat batches @ current @ ts"
    "list_all (batch_ok budget) (batch_loop budget current currentSize batches ts)" by simp_all
qed

lemma batchBySize_spec:
  "concat (batchBySize tools budget) = tools"
  "b \<in> set (batchBySize tools budget) \<Longrightarrow> length b = 1 \<or> b \<noteq> [] \<and> sum_list (map tool_size b) \<le> budget"
  using batch_loop_props [of 0 "[]" budget "[]" tools] by (simp_all add: batchBySize_def list_all_iff batch_ok_def)

section \<open>Whatever the model answers\<close>

lemma names_ok_iff: "names_ok expected seen ns \<longleftrightarrow> set ns \<subseteq> set expected \<and> distinct ns \<and> set ns \<inter> set seen = {}"
  by (induction ns arbitrary: seen) auto

lemma by_name_Some: "by_name ts n = Some t \<Longrightarrow> t \<in> set ts \<and> tl_Name t = n"
  using sql_row_SomeD [of "\<lambda>t. tl_Name t = n" "rev ts" t] by (simp add: by_name_def sql_row_def)

lemma by_name_None: "by_name ts n = None \<longleftrightarrow> n \<notin> tl_Name ` set ts"
  by (auto simp: by_name_def find_None_iff)

lemma keep_smaller_props:
  assumes "tl_Name x \<in> tl_Name ` set pruned"
  shows "tl_Name (keep_smaller pruned x) = tl_Name x \<and>
    (\<exists>p \<in> set pruned. tl_Name p = tl_Name x \<and> tool_size (keep_smaller pruned x) \<le> tool_size p)"
proof -
  from assms obtain p where "by_name pruned (tl_Name x) = Some p" using by_name_None by (cases "by_name pruned (tl_Name x)") auto
  with by_name_Some [OF this] show ?thesis by (auto simp: keep_smaller_def)
qed

lemma same_names:
  assumes "set xs \<subseteq> set ys" "distinct xs" "length xs = length ys"
  shows "mset xs = mset ys"
proof -
  have c: "card (set xs) = length ys" using assms(2,3) distinct_card by metis
  have "card (set ys) = length ys" using c card_mono [OF finite_set assms(1)] card_length [of ys] by simp
  then have "distinct ys" by (rule card_distinct)
  moreover have "set xs = set ys" using assms(1) c \<open>card (set ys) = length ys\<close> by (intro card_subset_eq) auto
  ultimately show ?thesis using assms(2) set_eq_iff_mset_eq_distinct by blast
qed

text \<open>
  C12. Whatever the language model answers, an optimisation that is accepted describes the same tools: every name of
  the original list occurs exactly as often in the result, and the description of no tool is longer
  than that of its original with a pruned schema. Answers that drop, add, rename or repeat a tool are
  rejected as a whole.
\<close>

theorem optimize_tools_safe:
  assumes "OptimizeTools client tools = Some out"
  shows "mset (map tl_Name out) = mset (map tl_Name tools) \<and>
    (\<forall>x \<in> set out. \<exists>t \<in> set tools. tl_Name t = tl_Name x \<and> tool_size x \<le> tool_size (prune_tool t))"
proof (cases "tools = [] \<or> client = None")
  case True
  with assms have "out = map prune_tool tools" by (cases "tools = []") (simp_all add: OptimizeTools_def Let_def)
  then show ?thesis by (auto simp: prune_tool_def comp_def)
next
  case False
  then obtain complete where "client = Some complete" by auto
  with assms False obtain results where out: "out = map (keep_smaller (map prune_tool tools)) (concat results)"
    and len: "length (concat results) = length tools" and ok: "names_ok (map tl_Name tools) [] (map tl_Name (concat results))"
    by (auto simp: OptimizeTools_def Let_def split: option.splits if_splits)
  have names: "tl_Name ` set (map prune_tool tools) = tl_Name ` set tools" by (simp add: image_image prune_tool_def)
  have known: "tl_Name x \<in> tl_Name ` set (map prune_tool tools)" if "x \<in> set (concat results)" for x
    using ok that unfolding names_ok_iff names by auto
  have "map tl_Name out = map tl_Name (concat results)" using keep_smaller_props [OF known] by (auto simp: out)
  moreover have "mset (map tl_Name (concat results)) = mset (map tl_Name tools)"
    using ok len unfolding names_ok_iff by (intro same_names) auto
  moreover have "\<exists>t \<in> set tools. tl_Name t = tl_Name x \<and> tool_size x \<le> tool_size (prune_tool t)" if "x \<in> set out" for x
  proof -
    from that obtain y where y: "y \<in> set (concat results)" "x = keep_smaller (map prune_tool tools) y" by (auto simp: out)
    from keep_smaller_props [OF known [OF y(1)]] obtain t where "t \<in> set tools" "tl_Name (prune_tool t) = tl_Name y" "tl_Name x = tl_Name y"
      "tool_size x \<le> tool_size (prune_tool t)" by (auto simp: y(2))
    then show ?thesis by (auto simp: prune_tool_def)
  qed
  ultimately show ?thesis by simp
qed

section \<open>Whatever is stored\<close>

lemma swap_tools_names: "map tl_Name (swap_tools optimized original) = map tl_Name original"
  by (auto simp: swap_tools_def split: option.split dest: by_name_Some)

text \<open>
  Serving optimised tools never changes which tools a client sees. A \<open>tools/list\<close> answer is passed on as it
  is, or it has the tools of the backend in the backend's order and under their names, each as it was or as
  optimised, and every other member of the result is kept; the latter only for a server with the
  feature enabled, a finished optimisation, and a list of tools with the digest that was optimised.
\<close>

theorem optimizer_keeps_tools:
  assumes "optimizer_ProcessResponse cr enc io db t resp meta = (resp', stale)" "resp' \<noteq> resp"
  shows "\<exists>result original optimized tools' js obj opt. rs_Result resp = Some result \<and> decode_tools_list result = Some original \<and>
    opt \<in> set t \<and> to_ServerID opt = rm_ServerID meta \<and> to_Status opt = ''ready'' \<and> to_ToolsHash opt = HashTools cr original \<and>
    decode_tools (to_OptimizedTools opt) = Some optimized \<and>
    map tl_Name tools' = map tl_Name original \<and> (\<forall>x \<in> set tools'. x \<in> set original \<or> x \<in> set optimized) \<and>
    encode_tools tools' = Some js \<and> decode_map result = Some obj \<and>
    rs_Result resp' = Some (marshal_map (map_put ''tools'' js obj)) \<and> rs_ID resp' = rs_ID resp \<and> rs_Error resp' = None \<and> rm_Method meta = ''tools/list''"
proof -
  from assms obtain srv opt result original optimized js obj where
    "rm_Method meta = ''tools/list''" "OptimizeStore_Get (after_stmts 1 io) (rm_ServerID meta) t = Inr (Some opt)" "to_Status opt = ''ready''"
    and r: "rs_Error resp = None" "rs_Result resp = Some result" "decode_tools_list result = Some original" "HashTools cr original = to_ToolsHash opt"
      "decode_tools (to_OptimizedTools opt) = Some optimized" "decode_map result = Some obj"
      "encode_tools (swap_tools optimized original) = Some js"
      "resp' = resp\<lparr>rs_Result := Some (marshal_map (map_put ''tools'' js obj))\<rparr>"
    by (auto simp: optimizer_ProcessResponse_def Let_def split: if_splits sum.splits option.splits)
  moreover from this(2) have "opt \<in> set t" "to_ServerID opt = rm_ServerID meta"
    by (auto simp: OptimizeStore_Get_def stmt_def split: if_splits dest: sql_row_SomeD)
  moreover have "\<forall>x \<in> set (swap_tools optimized original). x \<in> set original \<or> x \<in> set optimized"
    by (auto simp: swap_tools_def split: option.split dest: by_name_Some)
  ultimately show ?thesis
    by (intro exI [of _ result] exI [of _ original] exI [of _ optimized] exI [of _ "swap_tools optimized original"] exI [of _ js] exI [of _ obj]
        exI [of _ opt]) (simp add: swap_tools_names)
qed

section \<open>Digests and pruning\<close>

lemma hash_tools_order: "mset a = mset b \<Longrightarrow> distinct (map tl_Name a) \<Longrightarrow> HashTools cr a = HashTools cr b"
proof -
  assume m: "mset a = mset b" and d: "distinct (map tl_Name a)"
  have "sort_key tl_Name a = sort_key tl_Name b"
  proof (rule properties_for_sort_key)
    show "mset (sort_key tl_Name b) = mset a" using m by simp
    show "sorted (map tl_Name (sort_key tl_Name b))" by simp
    show "filter (\<lambda>x. tl_Name k = tl_Name x) (sort_key tl_Name b) = filter (\<lambda>x. tl_Name k = tl_Name x) a" if "k \<in> set (sort_key tl_Name b)" for k
    proof -
      have k: "k \<in> set a" using that m by (metis set_mset_mset set_sort)
      have one: "filter (\<lambda>x. tl_Name k = tl_Name x) xs = [k]" if "mset xs = mset a" for xs
      proof -
        have "distinct (map tl_Name xs)" "k \<in> set xs" using that d k by (metis mset_map mset_eq_imp_distinct_iff, metis set_mset_mset)
        then show ?thesis by (induction xs) (auto simp: filter_empty_conv image_iff)
      qed
      show ?thesis using one [of "sort_key tl_Name b"] one [of a] m by simp
    qed
  qed
  then show ?thesis by (simp add: HashTools_def)
qed

text \<open>
  The digest runs over names, descriptions and schemas without separators, so text can move from one to the
  other without changing it.
\<close>

lemma hash_tools_ambiguous:
  "HashTools cr [\<lparr>tl_Name = n @ a, tl_Description = d, tl_InputSchema = s\<rparr>] = HashTools cr [\<lparr>tl_Name = n, tl_Description = a @ d, tl_InputSchema = s\<rparr>]"
  by (simp add: HashTools_def)

definition demo_props :: string where "demo_props = jtext ''{~title~:{},~n~:{}}''"
definition demo_required :: string where "demo_required = jtext ''[~title~]''"
definition demo_items :: string where "demo_items = jtext ''{~properties~:{~title~:{},~n~:{}},~required~:[~title~]}''"
definition demo_schema :: string where "demo_schema = jtext ''{~items~:{~properties~:{~title~:{},~n~:{}},~required~:[~title~]}}''"

lemma demo_schema_shapes:
  "decode_map demo_schema = Some [(''items'', demo_items)]" "\<not> is_null demo_schema" "demo_schema \<noteq> []"
  "decode_map demo_items = Some [(''properties'', demo_props), (''required'', demo_required)]" "\<not> is_null demo_items"
  by code_simp+

lemma demo_prune_parts:
  "PruneSchema demo_props = jtext ''{~n~:{}}''" "PruneSchema demo_required = demo_required"
  by code_simp+

lemma demo_marshal:
  "marshal_map [(''items'', marshal_map [(''properties'', jtext ''{~n~:{}}''), (''required'', demo_required)])] =
     jtext ''{~items~:{~properties~:{~n~:{}},~required~:[~title~]}}''"
  by code_simp

text \<open>
  Pruning is meant to remove metadata only, but inside \<open>items\<close> it takes the map of properties for a schema: a
  property that happens to be named \<open>title\<close> (or \<open>example\<close>, \<open>deprecated\<close>, \<open>x-...\<close>) is dropped from the schema of the
  array's elements, while it stays \<open>required\<close>.
\<close>

theorem prune_drops_nested_property:
  "PruneSchema (jtext ''{~items~:{~properties~:{~title~:{},~n~:{}},~required~:[~title~]}}'') =
   jtext ''{~items~:{~properties~:{~n~:{}},~required~:[~title~]}}''"
proof -
  have "PruneSchema demo_schema = marshal_map [(''items'', marshal_map [(''properties'', PruneSchema demo_props), (''required'', PruneSchema demo_required)])]"
    by (subst PruneSchema.simps) (simp add: demo_schema_shapes prune_removes_def has_prefix_def)
  then show ?thesis by (simp add: demo_prune_parts demo_marshal) (simp add: demo_schema_def)
qed

section \<open>Examples\<close>

definition demo_tool :: Tool where
  "demo_tool = \<lparr>tl_Name = ''t'', tl_Description = ''ab'', tl_InputSchema = []\<rparr>"

definition demo_answer :: string where "demo_answer = jtext ''[{~name~:~t~,~description~:~a~}]''"

definition demo_short :: Tool where
  "demo_short = \<lparr>tl_Name = ''t'', tl_Description = ''a'', tl_InputSchema = []\<rparr>"

lemma demo_answer_decodes: "decode_tools (extractJSON demo_answer) = Some [demo_short]" by code_simp

lemma demo_answer_tools: "decode_tools demo_answer = Some [demo_short]" by code_simp

lemma PruneSchema_nil: "PruneSchema [] = []" by (subst PruneSchema.simps) simp

theorem optimize_tools_safe_witness:
  "\<exists>out. OptimizeTools (Some (\<lambda>_. Some demo_answer)) [demo_tool] = Some out \<and> mset (map tl_Name out) = {#''t''#} \<and>
    (\<exists>x. out = [x] \<and> tool_size x = 1)"
proof -
  have run: "OptimizeTools (Some (\<lambda>_. Some demo_answer)) [demo_tool] = Some [demo_short]"
    by (simp add: OptimizeTools_def Let_def batchBySize_def optimizeBatch_def demo_answer_decodes demo_tool_def demo_short_def
        keep_smaller_def by_name_def prune_tool_def PruneSchema_nil tool_size_def)
  have "mset (map tl_Name [demo_short]) = {#''t''#}" using conjunct1 [OF optimize_tools_safe [OF run]] by (simp only: demo_tool_def list.map Tool.select_convs mset.simps)
  with run show ?thesis by (intro exI [of _ "[demo_short]"]) (simp add: tool_size_def demo_short_def)
qed

definition demo_result :: string where "demo_result = jtext ''{~tools~:[{~name~:~t~,~description~:~ab~}]}''"

definition demo_optimization :: ToolOptimization where
  "demo_optimization = \<lparr>to_ID = ''o1'', to_ServerID = ''s1'', to_ToolsHash = ''stab'', to_OriginalChars = 2, to_OptimizedChars = 1,
     to_OptimizedTools = demo_answer, to_PromptVersion = ''v1.1'', to_Model = ''m'', to_Status = ''ready'',
     to_ErrorMsg = [], to_CreatedAt = 0, to_UpdatedAt = 0\<rparr>"

lemma demo_result_tools: "decode_tools_list demo_result = Some [demo_tool]" by code_simp

lemma demo_result_map: "decode_map demo_result = Some [(''tools'', jtext ''[{~name~:~t~,~description~:~ab~}]'')]" by code_simp

lemma demo_short_text: "encode_tools [demo_short] = Some demo_answer" by code_simp

lemma demo_result_text: "marshal_map [(''tools'', demo_answer)] = jtext ''{~tools~:[{~name~:~t~,~description~:~a~}]}''" by code_simp

definition demo_list_meta :: RequestMeta where
  "demo_list_meta = \<lparr>rm_UserID = ''u'', rm_ServerID = ''s1'', rm_ServerName = ''files'', rm_Method = ''tools/list'', rm_ToolName = [],
     rm_ClientIP = [], rm_RequestID = []\<rparr>"

definition demo_list_response :: Response where
  "demo_list_response = \<lparr>rs_JSONRPC = ''2.0'', rs_ID = Some ''1'', rs_Result = Some demo_result, rs_Error = None\<rparr>"

lemma demo_list_served:
  "optimizer_ProcessResponse demo_crypto None no_faults (empty_db\<lparr>db_servers := [demo_server\<lparr>sv_OptimizeEnabled := True\<rparr>]\<rparr>) [demo_optimization]
     demo_list_response demo_list_meta =
   (demo_list_response\<lparr>rs_Result := Some (jtext ''{~tools~:[{~name~:~t~,~description~:~a~}]}'')\<rparr>, None)"
proof -
  have srv: "ServerStore_Get None no_faults ''s1'' (empty_db\<lparr>db_servers := [demo_server\<lparr>sv_OptimizeEnabled := True\<rparr>]\<rparr>) =
      Inr (Some (demo_server\<lparr>sv_OptimizeEnabled := True\<rparr>))"
    by (simp add: ServerStore_Get_def find_server_def open_config_def Decrypt_def demo_server_def stmt_def sql_row_def has_prefix_def encryptedPrefix_def)
  have row: "OptimizeStore_Get (after_stmts 1 no_faults) ''s1'' [demo_optimization] = Inr (Some demo_optimization)"
    by (simp add: OptimizeStore_Get_def stmt_def sql_row_def demo_optimization_def)
  have hash: "HashTools demo_crypto [demo_tool] = ''stab''" by (simp add: HashTools_def demo_crypto_def demo_tool_def)
  have swap: "swap_tools [demo_short] [demo_tool] = [demo_short]" by (simp add: swap_tools_def by_name_def demo_short_def demo_tool_def)
  have "decode_tools (to_OptimizedTools demo_optimization) = Some [demo_short]" "to_ToolsHash demo_optimization = ''stab''"
    "to_Status demo_optimization = ''ready''"
    by (simp_all add: demo_optimization_def demo_answer_tools)
  with srv row hash swap show ?thesis
    by (simp add: optimizer_ProcessResponse_def demo_list_meta_def demo_list_response_def demo_result_tools demo_result_map
        demo_short_text demo_result_text Let_def)
qed

theorem optimizer_keeps_tools_witness:
  "\<exists>original. decode_tools_list demo_result = Some original \<and> HashTools demo_crypto original = ''stab'' \<and> map tl_Name original = [''t'']"
proof -
  have "demo_list_response\<lparr>rs_Result := Some (jtext ''{~tools~:[{~name~:~t~,~description~:~a~}]}'')\<rparr> \<noteq> demo_list_response"
    by (simp add: demo_list_response_def demo_result_def jtext_def)
  from optimizer_keeps_tools [OF demo_list_served this] show ?thesis
    by (auto simp: demo_list_response_def demo_optimization_def demo_result_tools demo_tool_def HashTools_def demo_crypto_def)
qed

end
