(* ===== verification/Web_System.thy ===== *)
theory Web_System
  imports Web_Account
begin

text \<open>
  The routes for sessions, accounts, keys, profiles, invites, device approval and OAuth together
  (\<open>RegisterRoutes\<close> in \<open>internal/web/handlers.go\<close>): one step is one request, with the gate its route is registered behind, on the shared database. The
  other state a handler uses (rate limiters, codes, flash entries, random values, the clock,
  statement faults) is arbitrary in every step, so the steps allow every interleaving. The flag of a
  step says whether it was made with the session of an administrator.

  Two results: whatever is requested, the database stays well-formed; and requests made without an
  administrator's session cannot widen what anybody may do.
\<close>

section \<open>Requests\<close>

inductive web_step :: "oauth_env \<Rightarrow> bool \<Rightarrow> relay_db \<Rightarrow> relay_db \<Rightarrow> bool" for h where
  login: "web_step h False db (snd (fst (handleLogin (oe_web h) io now gen r (lmt, db))))"
| logout: "web_step h False db (fst (handleLogout io r db))"
| token: "web_step h False db (snd (fst (handleOAuthToken h io now raws r (codes, db))))"
| register: "web_step h False db (snd (fst (handleOAuthRegister h io now uuids r (rl, db))))"
| device: "web_step h False db (snd (snd (fst (handleDeviceAuthPage (oe_web h) io now key gen nxt r (s, flash, db)))))"
| exchange: "web_step h False db (snd (fst (handleInviteExchange (oe_web h) io now rd r (rl, db))))"
| redeem: "web_step h False db (fst (handleInviteRedeem (oe_web h) io iop now rd gen r db))"
| change_password: "requireAuth (oe_web h) gio now r db = Go u sid \<Longrightarrow>
    web_step h (u_Role u = ''admin'') db (fst (handleChangePassword (oe_web h) io now salt gen u r db))"
| users: "requireAuth (oe_web h) gio now r db = Go u sid \<Longrightarrow>
    web_step h (u_Role u = ''admin'') db (snd (fst (handleUsers io now (Some u) r (flash, db))))"
| user_routes: "requireAuth (oe_web h) gio now r db = Go u sid \<Longrightarrow>
    web_step h (u_Role u = ''admin'') db (snd (fst (handleUserRoutes (oe_web h) io now ud (Some u) r (flash, db))))"
| api_keys: "requireAuth (oe_web h) gio now r db = Go u sid \<Longrightarrow>
    web_step h (u_Role u = ''admin'') db (snd (fst (handleAPIKeys io u r (flash, db))))"
| api_key_routes: "requireAuth (oe_web h) gio now r db = Go u sid \<Longrightarrow>
    web_step h (u_Role u = ''admin'') db (snd (fst (handleAPIKeyRoutes (oe_web h) io now key gen caps u r (flash, db))))"
| profiles: "requireAuth (oe_web h) gio now r db = Go u sid \<Longrightarrow>
    web_step h (u_Role u = ''admin'') db (fst (handleProfiles io now pid u r db))"
| profile_routes: "requireAuth (oe_web h) gio now r db = Go u sid \<Longrightarrow>
    web_step h (u_Role u = ''admin'') db (fst (handleProfileRoutes (we_enc (oe_web h)) io now u r db))"

section \<open>The database stays well-formed\<close>

lemma handleLogin_wf: "db_wf db \<Longrightarrow> db_wf (snd (fst (handleLogin h io now gen r (lmt, db))))"
  by (simp add: handleLogin_def Let_def case_prod_beta session_store_wf split: option.split sum.split bool.split)

lemma handleLogout_wf: "db_wf db \<Longrightarrow> db_wf (fst (handleLogout io r db))"
  by (simp add: handleLogout_def session_store_wf split: option.split)

lemma handleOAuthToken_wf: "db_wf db \<Longrightarrow> db_wf (snd (fst (handleOAuthToken h io now raws r (codes, db))))"
  by (simp add: handleOAuthToken_def case_prod_beta oauth_provider_wf)

lemma device_page_wf: "db_wf db \<Longrightarrow> db_wf (snd (snd (fst (handleDeviceAuthPage h io now key gen nxt r (s, flash, db)))))"
  by (simp add: handleDeviceAuthPage_def handleDeviceAuthPagePost_def Let_def case_prod_beta user_store_wf split: option.split sum.split)

lemma reading_pages:
  "snd (fst (handleUsers io now user r (flash, db))) = db" "snd (fst (handleAPIKeys io u r (flash, db))) = db"
  by (auto simp: handleUsers_def handleAPIKeys_def Let_def split: option.split sum.split)

lemmas web_handlers_wf = handleLogin_wf handleLogout_wf handleOAuthToken_wf device_page_wf oauth_provider_wf web_invite_wf web_account_wf

lemma web_step_wf: "web_step h adm db db' \<Longrightarrow> db_wf db \<Longrightarrow> db_wf db'"
  by (induction rule: web_step.induct) (simp_all only: web_handlers_wf reading_pages)

section \<open>Without an administrator\<close>

text \<open>
  What an account may do, and what an open invite offers to whoever redeems it. \<open>confined db db'\<close>: the accounts of
  \<open>db\<close> are all there in \<open>db'\<close> with the rights they had, every account of \<open>db'\<close> is one of these or has what an
  invite of \<open>db\<close> offered, no invite and no key with capabilities has been added, and servers, their
  middleware, profiles, permissions and tiers are as before.
\<close>

definition rights :: "user_row \<Rightarrow> string \<times> string \<times> string option" where
  "rights u = (ur_role u, ur_access_level u, ur_default_profile_id u)"

definition offer :: "InviteToken \<Rightarrow> string \<times> string \<times> string option" where
  "offer t = (it_Role t, effective_access_level (it_Role t) (it_AccessLevel t), it_ProfileID t)"

definition accounts :: "relay_db \<Rightarrow> (string \<times> string \<times> string \<times> string option) set" where
  "accounts db = (\<lambda>u. (ur_id u, rights u)) ` set (db_users db)"

definition offers :: "relay_db \<Rightarrow> (string \<times> string \<times> string option) set" where
  "offers db = offer ` {t \<in> set (db_invites db). it_Status t = ''pending''}"

definition capable_keys :: "relay_db \<Rightarrow> (string \<times> string \<times> string \<times> string list) set" where
  "capable_keys db = {(i, u, h, caps). caps \<noteq> [] \<and>
     (i, u, h, caps) \<in> (\<lambda>k. (kr_id k, kr_user_id k, kr_key_hash k, unmarshalCapabilities (kr_capabilities k))) ` set (db_api_keys db)}"

definition policy :: "relay_db \<Rightarrow> Server list \<times> AgentProfile list \<times> ProfilePermission list \<times> EndpointTier list \<times> MiddlewareConfig list" where
  "policy db = (db_servers db, db_profiles db, db_permissions db, db_tiers db, db_mw_configs db)"

definition confined :: "relay_db \<Rightarrow> relay_db \<Rightarrow> bool" where
  "confined db db' \<longleftrightarrow> accounts db \<subseteq> accounts db' \<and> snd ` (accounts db' - accounts db) \<subseteq> offers db \<and> offers db' \<subseteq> offers db \<and>
     capable_keys db' \<subseteq> capable_keys db \<and> policy db' = policy db"

lemma confined_refl [simp]: "confined db db" by (simp add: confined_def)

lemma confined_trans:
  assumes "confined a b" "confined b c"
  shows "confined a c"
proof -
  have "accounts c - accounts a \<subseteq> (accounts c - accounts b) \<union> (accounts b - accounts a)" by blast
  then have "snd ` (accounts c - accounts a) \<subseteq> snd ` (accounts c - accounts b) \<union> snd ` (accounts b - accounts a)"
    by (metis image_Un image_mono)
  also have "\<dots> \<subseteq> offers a" using assms unfolding confined_def by (meson Un_least order_trans)
  finally show ?thesis using assms unfolding confined_def by (metis order_trans)
qed

text \<open>The tables that count.\<close>

definition guarded :: "relay_db \<Rightarrow> user_row list \<times> InviteToken list \<times> api_key_row list \<times>
    Server list \<times> AgentProfile list \<times> ProfilePermission list \<times> EndpointTier list \<times> MiddlewareConfig list" where
  "guarded db = (db_users db, db_invites db, db_api_keys db, policy db)"

lemma confined_guarded: "guarded db' = guarded db \<Longrightarrow> confined db db'"
  by (simp add: guarded_def confined_def accounts_def offers_def capable_keys_def)

lemma guarded_sessions:
  "guarded (fst (SessionStore_Create io i u x db)) = guarded db" "guarded (SessionStore_Delete io i db) = guarded db"
  "guarded (SessionStore_DeleteByUser io i db) = guarded db"
  by (auto simp: SessionStore_Create_def SessionStore_Delete_def SessionStore_DeleteByUser_def exec_def exec_ignore_def stmt_def
      insert_session_def delete_sessions_def guarded_def policy_def split: sum.split)

lemma guarded_tokens:
  "guarded (fst (mintAccessToken cr io now raw u c sc rs db)) = guarded db" "guarded (fst (mintRefreshToken cr io now raw u c sc rs db)) = guarded db"
  "guarded (fst (OAuthRefreshTokenStore_Consume cr io now raw db)) = guarded db"
  "guarded (fst (OAuthClientStore_Create io cid sh cn am uris db)) = guarded db"
  by (auto simp: mintAccessToken_def mintRefreshToken_def OAuthTokenStore_Create_def OAuthRefreshTokenStore_Create_def
      OAuthRefreshTokenStore_Consume_def OAuthClientStore_Create_def Let_def exec_def exec_ignore_def stmt_def insert_oauth_token_def
      insert_refresh_token_def insert_oauth_client_def delete_refresh_token_def guarded_def policy_def split: sum.split option.split)

lemma guarded_mint: "guarded (fst (mint_both cr io now raws u c sc rs db)) = guarded db"
  by (simp add: mint_both_def case_prod_beta guarded_tokens split: sum.split)

lemma guarded_handlers:
  "guarded (snd (fst (handleLogin hw io now gen r (lmt, db)))) = guarded db"
  "guarded (fst (handleLogout io r db)) = guarded db"
  "guarded (snd (fst (handleOAuthToken h io now raws r (codes, db)))) = guarded db"
  "guarded (snd (fst (handleOAuthRegister h io now uuids r (rl, db)))) = guarded db"
  by (simp_all add: handleLogin_def handleLogout_def handleOAuthToken_def handleTokenAuthorizationCode_def handleTokenRefresh_def
      handleOAuthRegister_def Let_def case_prod_beta guarded_sessions guarded_mint guarded_tokens split: option.split sum.split bool.split)

subsection \<open>Keys and passwords\<close>

lemma image_sql_update: "(\<And>r. k (f r) = k r) \<Longrightarrow> k ` set (sql_update p f t) = k ` set t"
  by (metis map_sql_update set_map)

lemma confined_key: "unmarshalCapabilities (kr_capabilities row) = [] \<Longrightarrow> confined db (db\<lparr>db_api_keys := db_api_keys db @ [row]\<rparr>)"
  by (auto simp: confined_def accounts_def offers_def capable_keys_def policy_def)

lemma confined_create_key:
  assumes "UserStore_CreateAPIKey cr io now raw kid uid name prof [] db = (db', res)"
  shows "confined db db'"
proof (cases res)
  case (Inl e)
  with assms show ?thesis by (auto simp: UserStore_CreateAPIKey_def Let_def split: sum.splits)
next
  case (Inr k)
  with assms unprivileged_key [of cr io now raw kid uid name prof db db' "fst k" "snd k"] show ?thesis
    by (auto intro: confined_key)
qed

lemma confined_revoke: "confined db (fst (UserStore_RevokeAPIKey io i db))"
proof -
  have "capable_keys (db\<lparr>db_api_keys := sql_update p (\<lambda>k. k\<lparr>kr_revoked := True\<rparr>) (db_api_keys db)\<rparr>) = capable_keys db" for p
    unfolding capable_keys_def by (simp add: image_sql_update del: set_sql_update)
  then show ?thesis
    by (simp add: UserStore_RevokeAPIKey_def exec_def update_api_keys_def stmt_def confined_def accounts_def offers_def policy_def)
qed

lemma confined_password:
  assumes "UserStore_SetPassword cr io salt i pw db = (db', res)"
  shows "confined db db'"
proof (cases res)
  case (Inl e)
  with assms show ?thesis by (auto simp: UserStore_SetPassword_def exec_def split: option.splits sum.splits)
next
  case (Inr ok)
  from set_password_result [OF assms [unfolded Inr]] obtain hash where
    "db' = db\<lparr>db_users := sql_update (\<lambda>u. ur_id u = i) (\<lambda>u. u\<lparr>ur_password_hash := hash, ur_must_change_password := False\<rparr>) (db_users db)\<rparr>" by blast
  moreover from this have "accounts db' = accounts db" by (simp add: accounts_def rights_def image_sql_update del: set_sql_update)
  ultimately show ?thesis by (simp add: confined_def offers_def capable_keys_def policy_def)
qed

lemma confined_guarded_trans: "confined db db1 \<Longrightarrow> guarded db' = guarded db1 \<Longrightarrow> confined db db'"
  using confined_trans confined_guarded by blast

lemma confined_change_password: "confined db (fst (handleChangePassword h io now salt gen user r db))"
proof -
  obtain db1 res where pw: "UserStore_SetPassword (we_crypto h) (after_stmts (Suc 0) io) salt (u_ID user) (hr_Form r ''confirm_password'') db = (db1, res)"
    by fastforce
  from confined_guarded_trans [OF confined_password [OF pw]] confined_password [OF pw] show ?thesis
    by (simp add: handleChangePassword_def Let_def pw case_prod_beta guarded_sessions split: option.split sum.split)
qed

lemma confined_device: "confined db (snd (snd (fst (handleDeviceAuthPage h io now key gen nxt r (s, flash, db)))))"
proof -
  have "confined db (fst (UserStore_CreateAPIKey cr io now a b c d e [] db))" for cr io a b c d e
    by (rule confined_create_key [OF prod.collapse [symmetric]])
  then show ?thesis
    by (simp add: handleDeviceAuthPage_def handleDeviceAuthPagePost_def Let_def case_prod_beta split: option.split sum.split)
qed

lemma confined_key_routes:
  assumes "u_Role user \<noteq> ''admin''"
  shows "confined db (snd (fst (handleAPIKeyRoutes h io now key gen caps user r (flash, db))))"
proof -
  obtain flash' db' rep where run: "handleAPIKeyRoutes h io now key gen caps user r (flash, db) = ((flash', db'), rep)" by (metis surj_pair)
  from key_routes_cases [OF assms run] have "confined db db'" by (auto intro: confined_create_key confined_revoke)
  with run show ?thesis by simp
qed

lemma admin_pages_refuse:
  assumes "u_Role user \<noteq> ''admin''"
  shows "snd (fst (handleUserRoutes h io now ud (Some user) r (flash, db))) = db" "fst (handleProfiles io now pid user r db) = db"
    "fst (handleProfileRoutes enc io now user r db) = db"
  using assms by (simp_all add: handleUserRoutes_def requireAdmin_def handleProfiles_def handleProfileRoutes_def)

subsection \<open>Invites\<close>

lemma offers_cong: "db_invites a = db_invites b \<Longrightarrow> offers a = offers b"
  by (simp add: offers_def)

lemma offers_consume: "offers (fst (InviteStore_ValidateAndConsumeTx cr io now raw db)) \<subseteq> offers db"
  by (auto simp: InviteStore_ValidateAndConsumeTx_def Let_def offers_def offer_def split: option.split)

lemma offers_redeemed: "offers (fst (InviteStore_SetRedeemedUserTx io t u db)) \<subseteq> offers db"
  by (auto simp: InviteStore_SetRedeemedUserTx_def exec_def stmt_def set_redeemed_user_def offers_def offer_def)

lemma offers_create: "offers (fst (UserStore_CreateWithAccessLevelTx cr io now salt uid n pw ro al pr db)) = offers db"
  "offers (fst (UserStore_CreateAPIKeyTx cr io now raw kid uid name prof caps db)) = offers db"
  by (auto simp: UserStore_CreateWithAccessLevelTx_def UserStore_CreateAPIKeyTx_def Let_def stmt_def insert_user_def insert_api_key_def
      split: option.split sum.split intro!: offers_cong)

lemma offers_consume_and_create:
  "offers (fst (consume_and_create cr io now salt uid token username password db)) \<subseteq> offers db"
proof -
  obtain tx1 res where c: "InviteStore_ValidateAndConsumeTx cr (after_stmts (Suc 0) io) now token db = (tx1, res)" by fastforce
  with offers_consume [of cr "after_stmts (Suc 0) io" now token db] show ?thesis
    by (simp add: consume_and_create_def c case_prod_beta offers_create split: sum.split option.split)
qed

lemma confined_invited:
  assumes "t \<in> set (db_invites db)" "redeemable h now t" "offers db' \<subseteq> offers db" "policy db' = policy db"
    and "db_users db' = db_users db @ [invited_account t uid username hash now]" "capable_keys db' = capable_keys db"
  shows "confined db db'"
proof -
  have "offer t \<in> offers db" using assms(1,2) by (auto simp: offers_def redeemable_def)
  moreover have "rights (invited_account t uid username hash now) = offer t"
    by (simp add: rights_def invited_account_def offer_def effective_access_level_def)
  ultimately show ?thesis using assms(3-6) by (auto simp: confined_def accounts_def)
qed

lemma capable_new_key: "capable_keys (db\<lparr>db_users := us, db_api_keys := db_api_keys db @ [row_of_key (new_api_key cr now raw kid uid n p [])], db_invites := is\<rparr>) = capable_keys db"
proof -
  have "unmarshalCapabilities (kr_capabilities (row_of_key (new_api_key cr now raw kid uid n p []))) = []"
    by (simp add: row_of_key_def new_api_key_def normalizeCapabilities_def marshalCapabilities_def unmarshalCapabilities_def)
  then show ?thesis by (auto simp: capable_keys_def)
qed

lemma offers_exchange: "offers (fst (exchange_tx cr io now rd token username password db)) \<subseteq> offers db"
proof -
  obtain tx out where c: "consume_and_create cr io now (rd_salt rd) (rd_uid rd) token username password db = (tx, out)" by fastforce
  have tx: "offers tx \<subseteq> offers db" using offers_consume_and_create [of cr io now "rd_salt rd" "rd_uid rd" token username password db] c by simp
  have "offers (fst (InviteStore_SetRedeemedUserTx io1 a b (fst (UserStore_CreateAPIKeyTx cr' io2 n c d e f g caps tx)))) \<subseteq> offers db"
    for io1 a b cr' io2 n c d e f g caps
    using offers_redeemed tx offers_create(2) by (metis order_trans)
  then show ?thesis by (simp add: exchange_tx_def c Let_def case_prod_beta split: redeem_outcome.split sum.split)
qed

lemma confined_exchange:
  assumes wf: "db_wf db"
  shows "confined db (snd (fst (handleInviteExchange h io now rd r (rl, db))))"
proof -
  have "confined db (fst (exchange_tx (we_crypto h) io now rd token username password db))" for token username password
  proof -
    obtain db' rep where run: "exchange_tx (we_crypto h) io now rd token username password db = (db', rep)" by fastforce
    with offers_exchange [of "we_crypto h" io now rd token username password db] have off: "offers db' \<subseteq> offers db" by simp
    from exchange_tx_cases [OF wf run] show ?thesis
    proof
      assume "db' = db \<and> (\<forall>k. (''api_key'', k) \<notin> set (rp_fields rep))"
      with run show ?thesis by simp
    next
      assume "rep = writeJSON 200 [(''api_key'', rd_key rd)] \<and> \<not> invite_live (we_crypto h) token db' \<and>
        (\<exists>t hash. t \<in> set (db_invites db) \<and> redeemable (sha256_hex (we_crypto h) token) now t \<and>
          bcrypt_gen (we_crypto h) (rd_salt rd) password = Some hash \<and>
          (\<exists>invs. db' = db\<lparr>db_users := db_users db @ [invited_account t (rd_uid rd) username hash now],
            db_api_keys := db_api_keys db @ [row_of_key (new_api_key (we_crypto h) now (rd_key rd) (rd_kid rd) (rd_uid rd) ''arc-sync invite'' (it_ProfileID t) [])],
            db_invites := invs\<rparr>))"
      then obtain t hash invs where t: "t \<in> set (db_invites db)" "redeemable (sha256_hex (we_crypto h) token) now t"
        and db': "db' = db\<lparr>db_users := db_users db @ [invited_account t (rd_uid rd) username hash now],
            db_api_keys := db_api_keys db @ [row_of_key (new_api_key (we_crypto h) now (rd_key rd) (rd_kid rd) (rd_uid rd) ''arc-sync invite'' (it_ProfileID t) [])],
            db_invites := invs\<rparr>" by blast
      have "confined db db'"
        by (rule confined_invited [OF t off, where uid = "rd_uid rd" and username = username and hash = hash])
          (simp_all only: db' capable_new_key, simp_all add: policy_def)
      with run show ?thesis by simp
    qed
  qed
  then show ?thesis by (auto simp: handleInviteExchange_def Let_def case_prod_beta split: bool.split option.split)
qed

lemma confined_redeem:
  assumes wf: "db_wf db"
  shows "confined db (fst (handleInviteRedeem h io iop now rd gen r db))"
proof -
  have tx: "confined db db1" if run: "redeem_tx h io iop now rd token username password db = (db1, res)" for token username password db1 res
  proof -
    obtain tx out where c: "consume_and_create (we_crypto h) io now (rd_salt rd) (rd_uid rd) token username password db = (tx, out)" by fastforce
    show ?thesis
    proof (cases "db1 = db")
      case False
      with run c obtain invite user where out: "out = Redeemed invite user"
        and db1: "db1 = fst (InviteStore_SetRedeemedUserTx (after_stmts 5 io) (it_ID invite) (u_ID user) tx)"
        by (auto simp: redeem_tx_def Let_def split: if_splits redeem_outcome.splits)
      from consume_and_create_Redeemed [OF wf c [unfolded out]] obtain t hash invs where
        t: "t \<in> set (db_invites db)" "redeemable (sha256_hex (we_crypto h) token) now t"
        and txe: "tx = db\<lparr>db_users := db_users db @ [invited_account t (rd_uid rd) username hash now], db_invites := invs\<rparr>" by blast
      have "offers tx \<subseteq> offers db"
        using offers_consume_and_create [of "we_crypto h" io now "rd_salt rd" "rd_uid rd" token username password db] c by simp
      with offers_redeemed have off: "offers db1 \<subseteq> offers db" unfolding db1 by (metis order_trans)
      have "\<exists>invs. db1 = tx\<lparr>db_invites := invs\<rparr>" unfolding db1 using set_redeemed_kept(1) by blast
      then obtain invs' where "db1 = db\<lparr>db_users := db_users db @ [invited_account t (rd_uid rd) username hash now], db_invites := invs'\<rparr>"
        by (auto simp: txe)
      with off show ?thesis
        by (intro confined_invited [OF t off, where uid = "rd_uid rd" and username = username and hash = hash])
          (simp_all add: policy_def capable_keys_def)
    qed simp
  qed
  have "confined db (fst (redeem_tx h io iop now rd token username password db))" for token username password
    by (rule tx [OF prod.collapse [symmetric]])
  moreover from this have "confined db (fst (SessionStore_Create iop sid u x (fst (redeem_tx h io iop now rd token username password db))))"
    for token username password sid u x using confined_guarded_trans guarded_sessions(1) by metis
  ultimately show ?thesis by (simp add: handleInviteRedeem_def Let_def case_prod_beta split: sum.split option.split)
qed

subsection \<open>All requests\<close>

lemma web_step_confined: "web_step h adm db db' \<Longrightarrow> \<not> adm \<Longrightarrow> db_wf db \<Longrightarrow> confined db db'"
  by (induction rule: web_step.induct)
    (simp_all add: confined_guarded guarded_handlers confined_device confined_exchange confined_redeem confined_change_password
      confined_key_routes admin_pages_refuse reading_pages)



section \<open>Examples\<close>

definition demo_logout :: http_request where
  "demo_logout = demo_form ''GET'' ''/logout'' (\<lambda>_. []) (Some ''sid'')"



end
