(* ===== verification/Stdio_Bridge.thy ===== *)
theory Stdio_Bridge
  imports Mcp_Protocol
begin

text \<open>
  The bridge to a server on standard input and output (\<open>internal/proxy/stdio_bridge.go\<close>), with its
  concurrency: any number of calls of \<open>Send\<close>, the loop that reads the answers, and \<open>Close\<close> run interleaved. An
  event is one step of one of them between two uses of the mutex or of a channel, so a list of events is
  an interleaving. Calls are numbered; a call's number also stands for the channel it makes.

  An answer line carries the number of the call whose request the server is answering. The code cannot see
  it; it is kept beside the delivered response so that the theorems can say whose answer a call got.
\<close>

section \<open>Decoding a response\<close>

definition no_error :: RPCError where
  "no_error = \<lparr>er_Code = 0, er_Message = [], er_Data = None\<rparr>"

definition set_error :: "RPCError \<Rightarrow> (string \<times> string) list \<Rightarrow> RPCError \<times> bool" where
  "set_error e kvs =
     (let (c, ok1) = int_field (er_Code e) (field_values ''code'' kvs);
          (m, ok2) = str_field (er_Message e) (field_values ''message'' kvs) in
      (\<lparr>er_Code = c, er_Message = m,
        er_Data = (case raw_field (field_values ''data'' kvs) of None \<Rightarrow> er_Data e | Some d \<Rightarrow> Some d)\<rparr>, ok1 \<and> ok2))"

fun error_field :: "RPCError option \<Rightarrow> string list \<Rightarrow> RPCError option \<times> bool" where
  "error_field cur [] = (cur, True)"
| "error_field cur (v # vs) =
     (case shape v of
        Some (SObj kvs) \<Rightarrow>
          (let (e, ok) = set_error (case cur of None \<Rightarrow> no_error | Some e \<Rightarrow> e) kvs; (r, ok') = error_field (Some e) vs in (r, ok \<and> ok'))
      | Some SNull \<Rightarrow> error_field None vs
      | _ \<Rightarrow> (fst (error_field cur vs), False))"

definition decode_response :: "string \<Rightarrow> Response option" where
  "decode_response s =
     (case decode_members s of
        None \<Rightarrow> None
      | Some kvs \<Rightarrow>
          (let (v, ok1) = str_field [] (field_values ''jsonrpc'' kvs);
               (e, ok2) = error_field None (field_values ''error'' kvs) in
           if ok1 \<and> ok2 then
             Some \<lparr>rs_JSONRPC = v, rs_ID = raw_field (field_values ''id'' kvs), rs_Result = raw_field (field_values ''result'' kvs),
                   rs_Error = e\<rparr>
           else None))"

section \<open>The bridge\<close>

text \<open>Where a call is: it has passed the check, it is registered, its request is written, or it has returned.\<close>

datatype call_phase = Started | Registered | Written | Returned

text \<open>A value in a channel: an answer with the call it answers, or \<open>None\<close> for a closed channel, which reads as \<open>nil\<close>.\<close>

type_synonym delivery = "(nat \<times> Response) option"

record StdioBridge =
  sb_pending :: "string \<Rightarrow> nat option"
  sb_closed :: bool
  sb_chan :: "nat \<Rightarrow> delivery option"
  sb_phase :: "nat \<Rightarrow> call_phase option"
  sb_result :: "nat \<Rightarrow> (string + delivery) option"
  sb_stdin :: "string list"

definition NewStdioBridge :: StdioBridge where
  "NewStdioBridge = \<lparr>sb_pending = Map.empty, sb_closed = False, sb_chan = Map.empty, sb_phase = Map.empty, sb_result = Map.empty, sb_stdin = []\<rparr>"

definition idKey :: "string option \<Rightarrow> string" where
  "idKey i = (case i of None \<Rightarrow> [] | Some t \<Rightarrow> t)"

definition finish :: "nat \<Rightarrow> string + delivery \<Rightarrow> StdioBridge \<Rightarrow> StdioBridge" where
  "finish c r b = b\<lparr>sb_phase := (sb_phase b)(c \<mapsto> Returned), sb_result := (sb_result b)(c \<mapsto> r)\<rparr>"

definition forget :: "Request \<Rightarrow> StdioBridge \<Rightarrow> StdioBridge" where
  "forget req b = b\<lparr>sb_pending := (sb_pending b)(idKey (rq_ID req) := None)\<rparr>"

text \<open>The steps of \<open>Send\<close>.\<close>

definition send_start :: "nat \<Rightarrow> StdioBridge \<Rightarrow> StdioBridge" where
  "send_start c b =
     (if sb_closed b then finish c (Inl ''bridge is closed'') b
      else b\<lparr>sb_phase := (sb_phase b)(c \<mapsto> Started)\<rparr>)"

definition send_register :: "nat \<Rightarrow> Request \<Rightarrow> StdioBridge \<Rightarrow> StdioBridge" where
  "send_register c req b =
     b\<lparr>sb_pending := (sb_pending b)(idKey (rq_ID req) \<mapsto> c), sb_phase := (sb_phase b)(c \<mapsto> Registered)\<rparr>"

definition send_write :: "nat \<Rightarrow> Request \<Rightarrow> bool \<Rightarrow> StdioBridge \<Rightarrow> StdioBridge" where
  "send_write c req ok b =
     (case encode_request req of
        None \<Rightarrow> finish c (Inl ''marshaling request'') (forget req b)
      | Some data \<Rightarrow>
          if \<not> ok then finish c (Inl ''writing to stdin'') (forget req b)
          else b\<lparr>sb_stdin := sb_stdin b @ [data @ [byte 10]], sb_phase := (sb_phase b)(c \<mapsto> Written)\<rparr>)"

definition send_receive :: "nat \<Rightarrow> StdioBridge \<Rightarrow> StdioBridge" where
  "send_receive c b = (case sb_chan b c of None \<Rightarrow> b | Some v \<Rightarrow> finish c (Inr v) b)"

definition send_cancel :: "nat \<Rightarrow> Request \<Rightarrow> StdioBridge \<Rightarrow> StdioBridge" where
  "send_cancel c req b = finish c (Inl ''context canceled'') (forget req b)"

text \<open>A notification is written whether or not the bridge is closed; \<open>ok\<close> is the outcome of the write.\<close>

definition bridge_SendNotification :: "string \<Rightarrow> bool \<Rightarrow> StdioBridge \<Rightarrow> StdioBridge" where
  "bridge_SendNotification data ok b = (if ok then b\<lparr>sb_stdin := sb_stdin b @ [data @ [byte 10]]\<rparr> else b)"

text \<open>One line of the server's output in \<open>readLoop\<close>; \<open>src\<close> is the call the server answers with it.\<close>

definition readLoop :: "nat \<Rightarrow> string \<Rightarrow> StdioBridge \<Rightarrow> StdioBridge" where
  "readLoop src line b =
     (if line = [] then b
      else (case decode_response line of
        None \<Rightarrow> b
      | Some resp \<Rightarrow>
          (case rs_ID resp of
             None \<Rightarrow> b
           | Some i \<Rightarrow>
               (case sb_pending b i of
                  None \<Rightarrow> b
                | Some ch \<Rightarrow> b\<lparr>sb_pending := (sb_pending b)(i := None), sb_chan := (sb_chan b)(ch \<mapsto> Some (src, resp))\<rparr>))))"

definition Close :: "StdioBridge \<Rightarrow> StdioBridge" where
  "Close b =
     (if sb_closed b then b
      else b\<lparr>sb_closed := True, sb_pending := Map.empty,
             sb_chan := (\<lambda>c. if c \<in> ran (sb_pending b) then Some None else sb_chan b c)\<rparr>)"

section \<open>Interleavings\<close>

text \<open>\<open>reqs c\<close> is the request of call \<open>c\<close>. A step of a call that is not where the step belongs does nothing.\<close>

datatype bridge_event = SendStart nat | SendRegister nat | SendWrite nat bool | SendReceive nat | SendCancel nat | Notify string bool | Answer nat string | CloseBridge

fun bridge_step :: "(nat \<Rightarrow> Request) \<Rightarrow> bridge_event \<Rightarrow> StdioBridge \<Rightarrow> StdioBridge" where
  "bridge_step reqs (SendStart c) b = (if sb_phase b c = None then send_start c b else b)"
| "bridge_step reqs (SendRegister c) b = (if sb_phase b c = Some Started then send_register c (reqs c) b else b)"
| "bridge_step reqs (SendWrite c ok) b = (if sb_phase b c = Some Registered then send_write c (reqs c) ok b else b)"
| "bridge_step reqs (SendReceive c) b = (if sb_phase b c = Some Written then send_receive c b else b)"
| "bridge_step reqs (SendCancel c) b = (if sb_phase b c = Some Written then send_cancel c (reqs c) b else b)"
| "bridge_step reqs (Notify data ok) b = bridge_SendNotification data ok b"
| "bridge_step reqs (Answer src line) b = readLoop src line b"
| "bridge_step reqs CloseBridge b = Close b"

definition bridge_run :: "(nat \<Rightarrow> Request) \<Rightarrow> bridge_event list \<Rightarrow> StdioBridge" where
  "bridge_run reqs es = fold (bridge_step reqs) es NewStdioBridge"

text \<open>A server that follows the protocol: a line that answers a request carries its id.\<close>

definition answers_carry_id :: "(nat \<Rightarrow> Request) \<Rightarrow> bridge_event list \<Rightarrow> bool" where
  "answers_carry_id reqs es \<longleftrightarrow>
     (\<forall>src line resp. Answer src line \<in> set es \<and> decode_response line = Some resp \<longrightarrow>
        (case rs_ID resp of None \<Rightarrow> True | Some i \<Rightarrow> i = idKey (rq_ID (reqs src))))"

section \<open>Whose answer a call gets\<close>

text \<open>The invariant: registered ids belong to the calls, and a delivered answer has the id of the call that gets it.\<close>

definition fits :: "(nat \<Rightarrow> Request) \<Rightarrow> nat \<Rightarrow> nat \<Rightarrow> Response \<Rightarrow> bool" where
  "fits reqs c src r \<longleftrightarrow> idKey (rq_ID (reqs c)) = idKey (rq_ID (reqs src)) \<and> rs_ID r = Some (idKey (rq_ID (reqs c)))"

definition bridge_inv :: "(nat \<Rightarrow> Request) \<Rightarrow> StdioBridge \<Rightarrow> bool" where
  "bridge_inv reqs b \<longleftrightarrow>
     (\<forall>i c. sb_pending b i = Some c \<longrightarrow> idKey (rq_ID (reqs c)) = i) \<and>
     (\<forall>c src r. sb_chan b c = Some (Some (src, r)) \<longrightarrow> fits reqs c src r) \<and>
     (\<forall>c src r. sb_result b c = Some (Inr (Some (src, r))) \<longrightarrow> fits reqs c src r)"

lemma bridge_inv_finish_error: "bridge_inv reqs b \<Longrightarrow> bridge_inv reqs (finish c (Inl e) b)"
  by (auto simp: bridge_inv_def finish_def)

lemma bridge_inv_forget: "bridge_inv reqs b \<Longrightarrow> bridge_inv reqs (forget req b)"
  by (auto simp: bridge_inv_def forget_def)

lemmas bridge_inv_end = bridge_inv_finish_error bridge_inv_finish_error [OF bridge_inv_forget]

lemma bridge_inv_readLoop:
  assumes inv: "bridge_inv reqs b" and own: "answers_carry_id reqs [Answer src line]"
  shows "bridge_inv reqs (readLoop src line b)"
proof -
  have "bridge_inv reqs (b\<lparr>sb_pending := (sb_pending b)(i := None), sb_chan := (sb_chan b)(ch \<mapsto> Some (src, resp))\<rparr>)"
    if d: "decode_response line = Some resp" "rs_ID resp = Some i" "sb_pending b i = Some ch" for resp i ch
  proof -
    from own d have "i = idKey (rq_ID (reqs src))" by (auto simp: answers_carry_id_def split: option.splits)
    moreover from inv d(3) have "idKey (rq_ID (reqs ch)) = i" by (simp add: bridge_inv_def)
    ultimately have "fits reqs ch src resp" using d(2) by (simp add: fits_def)
    then show ?thesis using inv by (simp add: bridge_inv_def)
  qed
  with inv show ?thesis by (auto simp: readLoop_def split: option.split)
qed

lemma bridge_inv_step:
  assumes inv: "bridge_inv reqs b" and own: "answers_carry_id reqs [e]"
  shows "bridge_inv reqs (bridge_step reqs e b)"
proof (cases e)
  case (SendReceive c)
  with inv show ?thesis
    by (auto simp: bridge_inv_def send_receive_def finish_def split: option.splits)
next
  case (Answer src line)
  with bridge_inv_readLoop [OF inv] own show ?thesis by simp
next
  case CloseBridge
  with inv show ?thesis by (auto simp: bridge_inv_def Close_def)
qed (use inv in \<open>auto simp: send_start_def send_write_def send_cancel_def bridge_inv_end split: option.split,
      auto simp: bridge_inv_def send_register_def bridge_SendNotification_def\<close>)

lemma bridge_inv_fold: "answers_carry_id reqs es \<Longrightarrow> bridge_inv reqs b \<Longrightarrow> bridge_inv reqs (fold (bridge_step reqs) es b)"
proof (induction es arbitrary: b)
  case (Cons e es)
  have "answers_carry_id reqs [e]" "answers_carry_id reqs es" using Cons.prems(1) by (auto simp: answers_carry_id_def)
  with Cons show ?case by (simp add: bridge_inv_step)
qed simp

lemma bridge_inv_run: "answers_carry_id reqs es \<Longrightarrow> bridge_inv reqs (bridge_run reqs es)"
  unfolding bridge_run_def by (rule bridge_inv_fold) (simp_all add: bridge_inv_def NewStdioBridge_def)

text \<open>
  C18. On a bridge whose calls use different ids, every call gets the answer to its own request: whatever the
  interleaving of calls, answers, failed writes, cancellations and the shutdown, a response that \<open>Send\<close>
  returns is one the server gave to that very request. The bridge does not make ids different; it passes on
  those the clients chose.
\<close>

theorem bridge_answers_own_request:
  assumes "answers_carry_id reqs es" "inj (\<lambda>c. idKey (rq_ID (reqs c)))"
    and "sb_result (bridge_run reqs es) c = Some (Inr (Some (src, r)))"
  shows "src = c \<and> rs_ID r = Some (idKey (rq_ID (reqs c)))"
proof -
  from bridge_inv_run [OF assms(1)] assms(3) have "fits reqs c src r" by (auto simp: bridge_inv_def)
  with assms(2) show ?thesis by (auto simp: fits_def dest: injD)
qed

text \<open>
  C36. When two calls of different users carry the same id, as clients that count from one do, the later call
  gets the answer to the earlier one's request: the pending table is keyed by the client's id alone, and
  although a comment calls the requests serialised, no lock is held while a call waits.
\<close>

theorem bridge_crosses_answers:
  assumes "rq_ID (reqs 1) = Some i" "rq_ID (reqs 2) = Some i" "encode_request (reqs 1) \<noteq> None" "encode_request (reqs 2) \<noteq> None"
    and "decode_response line = Some resp" "rs_ID resp = Some i"
  shows "sb_result (bridge_run reqs [SendStart 1, SendRegister 1, SendWrite 1 True, SendStart 2, SendRegister 2, SendWrite 2 True,
      Answer 1 line, SendReceive 2]) 2 = Some (Inr (Some (1, resp)))"
proof -
  have "line \<noteq> []" using assms(5) by (auto simp: decode_response_def decode_members_def shape_def skip_ws_def)
  with assms show ?thesis
    by (auto simp: bridge_run_def NewStdioBridge_def send_start_def send_register_def send_write_def readLoop_def send_receive_def
        finish_def idKey_def)
qed

text \<open>A call that waits while the bridge is closed returns \<open>nil\<close> without an error.\<close>

lemma closed_call_returns_nil:
  assumes "sb_pending b i = Some c" "sb_phase b c = Some Written" "\<not> sb_closed b"
  shows "sb_result (bridge_step reqs (SendReceive c) (bridge_step reqs CloseBridge b)) c = Some (Inr None)"
  using assms by (auto simp: Close_def send_receive_def finish_def ran_def)

section \<open>Examples\<close>

definition demo_call :: "string \<Rightarrow> Request" where
  "demo_call i = \<lparr>rq_JSONRPC = ''2.0'', rq_ID = Some i, rq_Method = ''m'', rq_Params = None\<rparr>"

definition demo_line :: "string \<Rightarrow> string" where
  "demo_line i = jtext ''{~id~:'' @ i @ jtext '',~result~:1}''"

lemma demo_line_response:
  "decode_response (demo_line ''1'') = Some \<lparr>rs_JSONRPC = [], rs_ID = Some ''1'', rs_Result = Some ''1'', rs_Error = None\<rparr>"
  by code_simp

lemma demo_call_encodes: "encode_request (demo_call ''1'') \<noteq> None" by code_simp

theorem bridge_answers_own_request_witness:
  "\<exists>r. sb_result (bridge_run (\<lambda>c. demo_call (replicate c (CHR ''1''))) [SendStart 1, SendRegister 1, SendWrite 1 True,
      Answer 1 (demo_line ''1''), SendReceive 1]) 1 = Some (Inr (Some (1, r))) \<and> rs_ID r = Some ''1''"
proof -
  let ?reqs = "\<lambda>c. demo_call (replicate c (CHR ''1''))"
  let ?es = "[SendStart 1, SendRegister 1, SendWrite 1 True, Answer 1 (demo_line ''1''), SendReceive 1]"
  have "demo_line ''1'' \<noteq> []" by (simp add: demo_line_def jtext_def)
  moreover obtain data where "encode_request (demo_call ''1'') = Some data" using demo_call_encodes by blast
  ultimately obtain src r where res: "sb_result (bridge_run ?reqs ?es) 1 = Some (Inr (Some (src, r)))"
    using demo_line_response(1)
    by (simp add: bridge_run_def NewStdioBridge_def send_start_def send_register_def send_write_def readLoop_def send_receive_def
        finish_def idKey_def demo_call_def)
  have "answers_carry_id ?reqs ?es"
    using demo_line_response(1) by (auto simp: answers_carry_id_def demo_call_def idKey_def)
  moreover have "inj (\<lambda>c. idKey (rq_ID (?reqs c)))" by (rule injI) (simp add: demo_call_def idKey_def)
  ultimately have "src = 1 \<and> rs_ID r = Some (idKey (rq_ID (?reqs 1)))" using res by (rule bridge_answers_own_request)
  with res show ?thesis by (simp add: demo_call_def idKey_def)
qed

theorem bridge_crosses_answers_witness:
  "\<exists>r. sb_result (bridge_run (\<lambda>_. demo_call ''1'') [SendStart 1, SendRegister 1, SendWrite 1 True, SendStart 2, SendRegister 2,
      SendWrite 2 True, Answer 1 (demo_line ''1''), SendReceive 2]) 2 = Some (Inr (Some (1, r)))"
  using bridge_crosses_answers [of "\<lambda>_. demo_call ''1''" "''1''" "demo_line ''1''", OF _ _ demo_call_encodes demo_call_encodes demo_line_response(1)]
  by (simp add: demo_call_def)

end
