(* ===== verification/Server_Config.thy ===== *)
theory Server_Config
  imports Server_Store Json_Scan
begin

text \<open>
  The configurations of the three kinds of servers (\<open>internal/store/servers.go\<close>): the records, their
  decoding from the stored JSON text with the struct tags, the encoding of a stdio configuration after an image was
  built, and the tag of a built image. Decoding fails when any member has the wrong type; repeated members are
  merged in order, as \<open>encoding/json\<close> does.
\<close>

record StdioBuildConfig =
  bc_Runtime :: string
  bc_Package :: string
  bc_Version :: string
  bc_GitURL :: string
  bc_GitRef :: string
  bc_Dockerfile :: string

type_synonym string_map = "(string \<times> string) list"

record StdioConfig =
  sc_Image :: string
  sc_Build :: "StdioBuildConfig option"
  sc_Entrypoint :: "string list"
  sc_Command :: "string list"
  sc_Env :: string_map

record HTTPConfig =
  hc_Image :: string
  hc_Port :: int
  hc_Env :: string_map
  hc_HealthCheck :: string
  hc_URL :: string

record RemoteAuth =
  ra_Type :: string
  ra_Token :: string
  ra_HeaderName :: string
  ra_ClientID :: string
  ra_ClientSecret :: string
  ra_AuthURL :: string
  ra_TokenURL :: string
  ra_Scopes :: string
  ra_AccessToken :: string
  ra_RefreshToken :: string
  ra_TokenExpiry :: string
  ra_RegisteredRedirectURI :: string
  ra_RegistrationEndpoint :: string

record RemoteConfig =
  rc_URL :: string
  rc_Auth :: RemoteAuth

section \<open>Decoding\<close>

text \<open>A \<open>map[string]string\<close> field keeps the entries it has.\<close>

fun strmap_field :: "string_map \<Rightarrow> string list \<Rightarrow> string_map \<times> bool" where
  "strmap_field cur [] = (cur, True)"
| "strmap_field cur (v # vs) =
     (case shape v of
        Some (SObj kvs) \<Rightarrow>
          (if list_all (\<lambda>(_, r). decode_str r \<noteq> None) kvs
           then strmap_field (fold (\<lambda>(k, r). map_put k (the (decode_str r))) kvs cur) vs
           else (fst (strmap_field cur vs), False))
      | Some SNull \<Rightarrow> strmap_field [] vs
      | _ \<Rightarrow> (fst (strmap_field cur vs), False))"

definition no_build :: StdioBuildConfig where
  "no_build = \<lparr>bc_Runtime = [], bc_Package = [], bc_Version = [], bc_GitURL = [], bc_GitRef = [], bc_Dockerfile = []\<rparr>"

definition set_build :: "StdioBuildConfig \<Rightarrow> (string \<times> string) list \<Rightarrow> StdioBuildConfig \<times> bool" where
  "set_build b kvs =
     (let (rt, ok1) = str_field (bc_Runtime b) (field_values ''runtime'' kvs);
          (pk, ok2) = str_field (bc_Package b) (field_values ''package'' kvs);
          (ve, ok3) = str_field (bc_Version b) (field_values ''version'' kvs);
          (gu, ok4) = str_field (bc_GitURL b) (field_values ''git_url'' kvs);
          (gr, ok5) = str_field (bc_GitRef b) (field_values ''git_ref'' kvs);
          (df, ok6) = str_field (bc_Dockerfile b) (field_values ''dockerfile'' kvs) in
      (\<lparr>bc_Runtime = rt, bc_Package = pk, bc_Version = ve, bc_GitURL = gu, bc_GitRef = gr, bc_Dockerfile = df\<rparr>,
       ok1 \<and> ok2 \<and> ok3 \<and> ok4 \<and> ok5 \<and> ok6))"

fun build_field :: "StdioBuildConfig option \<Rightarrow> string list \<Rightarrow> StdioBuildConfig option \<times> bool" where
  "build_field cur [] = (cur, True)"
| "build_field cur (v # vs) =
     (case shape v of
        Some (SObj kvs) \<Rightarrow>
          (let (b, ok) = set_build (case cur of None \<Rightarrow> no_build | Some b \<Rightarrow> b) kvs; (r, ok') = build_field (Some b) vs in (r, ok \<and> ok'))
      | Some SNull \<Rightarrow> build_field None vs
      | _ \<Rightarrow> (fst (build_field cur vs), False))"

definition decode_stdio :: "string \<Rightarrow> StdioConfig option" where
  "decode_stdio s =
     (case decode_members s of
        None \<Rightarrow> None
      | Some kvs \<Rightarrow>
          (let (image, ok1) = str_field [] (field_values ''image'' kvs);
               (build, ok2) = build_field None (field_values ''build'' kvs);
               (entry, ok3) = strs_field [] (field_values ''entrypoint'' kvs);
               (command, ok4) = strs_field [] (field_values ''command'' kvs);
               (env, ok5) = strmap_field [] (field_values ''env'' kvs) in
           if ok1 \<and> ok2 \<and> ok3 \<and> ok4 \<and> ok5 then
             Some \<lparr>sc_Image = image, sc_Build = build, sc_Entrypoint = entry, sc_Command = command, sc_Env = env\<rparr>
           else None))"

definition decode_http :: "string \<Rightarrow> HTTPConfig option" where
  "decode_http s =
     (case decode_members s of
        None \<Rightarrow> None
      | Some kvs \<Rightarrow>
          (let (image, ok1) = str_field [] (field_values ''image'' kvs);
               (port, ok2) = int_field 0 (field_values ''port'' kvs);
               (env, ok3) = strmap_field [] (field_values ''env'' kvs);
               (health, ok4) = str_field [] (field_values ''health_check'' kvs);
               (u, ok5) = str_field [] (field_values ''url'' kvs) in
           if ok1 \<and> ok2 \<and> ok3 \<and> ok4 \<and> ok5 then
             Some \<lparr>hc_Image = image, hc_Port = port, hc_Env = env, hc_HealthCheck = health, hc_URL = u\<rparr>
           else None))"

text \<open>The nested \<open>auth\<close> struct: the members of all its occurrences, one after the other.\<close>

fun struct_members :: "string list \<Rightarrow> (string \<times> string) list \<times> bool" where
  "struct_members [] = ([], True)"
| "struct_members (v # vs) =
     (let (rest, ok) = struct_members vs in
      case decode_members v of None \<Rightarrow> (rest, False) | Some kvs \<Rightarrow> (kvs @ rest, ok))"

definition decode_auth :: "(string \<times> string) list \<Rightarrow> RemoteAuth \<times> bool" where
  "decode_auth kvs =
     (let f = (\<lambda>n. str_field [] (field_values n kvs)) in
      (\<lparr>ra_Type = fst (f ''type''), ra_Token = fst (f ''token''), ra_HeaderName = fst (f ''header_name''),
        ra_ClientID = fst (f ''client_id''), ra_ClientSecret = fst (f ''client_secret''), ra_AuthURL = fst (f ''auth_url''),
        ra_TokenURL = fst (f ''token_url''), ra_Scopes = fst (f ''scopes''), ra_AccessToken = fst (f ''access_token''),
        ra_RefreshToken = fst (f ''refresh_token''), ra_TokenExpiry = fst (f ''token_expiry''),
        ra_RegisteredRedirectURI = fst (f ''registered_redirect_uri''), ra_RegistrationEndpoint = fst (f ''registration_endpoint'')\<rparr>,
       list_all (\<lambda>n. snd (f n)) [''type'', ''token'', ''header_name'', ''client_id'', ''client_secret'', ''auth_url'', ''token_url'',
         ''scopes'', ''access_token'', ''refresh_token'', ''token_expiry'', ''registered_redirect_uri'', ''registration_endpoint'']))"

definition decode_remote :: "string \<Rightarrow> RemoteConfig option" where
  "decode_remote s =
     (case decode_members s of
        None \<Rightarrow> None
      | Some kvs \<Rightarrow>
          (let (u, ok1) = str_field [] (field_values ''url'' kvs);
               (akvs, ok2) = struct_members (field_values ''auth'' kvs);
               (auth, ok3) = decode_auth akvs in
           if ok1 \<and> ok2 \<and> ok3 then Some \<lparr>rc_URL = u, rc_Auth = auth\<rparr> else None))"

section \<open>Encoding\<close>

definition str_member :: "string \<Rightarrow> string \<Rightarrow> string" where
  "str_member name v = marshal_str name @ '':'' @ marshal_str v"

text \<open>A string field with \<open>omitempty\<close>.\<close>

definition opt_str_member :: "string \<Rightarrow> string \<Rightarrow> string list" where
  "opt_str_member name v = (if v = [] then [] else [str_member name v])"

definition encode_build :: "StdioBuildConfig \<Rightarrow> string" where
  "encode_build b =
     ''{'' @ join_with '','' ([str_member ''runtime'' (bc_Runtime b), str_member ''package'' (bc_Package b)] @
       opt_str_member ''version'' (bc_Version b) @ opt_str_member ''git_url'' (bc_GitURL b) @ opt_str_member ''git_ref'' (bc_GitRef b) @
       opt_str_member ''dockerfile'' (bc_Dockerfile b)) @ ''}''"

definition encode_strs :: "string list \<Rightarrow> string" where
  "encode_strs xs = ''['' @ join_with '','' (map marshal_str xs) @ '']''"

definition encode_strmap :: "string_map \<Rightarrow> string" where
  "encode_strmap m = ''{'' @ join_with '','' (map (\<lambda>(k, v). str_member k v) (sort_key fst m)) @ ''}''"

definition encode_stdio :: "StdioConfig \<Rightarrow> string" where
  "encode_stdio c =
     ''{'' @ join_with '','' ([str_member ''image'' (sc_Image c)] @
       (case sc_Build c of None \<Rightarrow> [] | Some b \<Rightarrow> [marshal_str ''build'' @ '':'' @ encode_build b]) @
       (if sc_Entrypoint c = [] then [] else [marshal_str ''entrypoint'' @ '':'' @ encode_strs (sc_Entrypoint c)]) @
       (if sc_Command c = [] then [] else [marshal_str ''command'' @ '':'' @ encode_strs (sc_Command c)]) @
       (if sc_Env c = [] then [] else [marshal_str ''env'' @ '':'' @ encode_strmap (sc_Env c)])) @ ''}''"

section \<open>Image tags\<close>

definition after_last :: "char \<Rightarrow> string \<Rightarrow> string" where
  "after_last c s = rev (takeWhile (\<lambda>x. x \<noteq> c) (rev s))"

definition trim_suffix :: "string \<Rightarrow> string \<Rightarrow> string" where
  "trim_suffix s p = (if has_prefix (rev s) (rev p) then take (length s - length p) s else s)"

definition repoNameFromURL :: "string \<Rightarrow> string" where
  "repoNameFromURL u =
     (let u1 = (if CHR '':'' \<in> set (tl u) \<and> \<not> str_contains u ''://'' then after_last (CHR '':'') u else u);
          u2 = trim_suffix u1 ''.git'';
          u3 = after_last (CHR ''/'') u2 in
      if u3 = [] then ''unknown'' else u3)"

text \<open>\<open>strings.Map\<close> with the cleaning function: a sequence of several bytes is one rune, as is a byte of invalid UTF-8.\<close>

definition tag_char :: "char \<Rightarrow> char" where
  "tag_char c =
     (let n = ord c in
      if (97 \<le> n \<and> n \<le> 122) \<or> (48 \<le> n \<and> n \<le> 57) \<or> c = CHR ''-'' \<or> c = CHR ''.'' \<or> c = CHR ''/'' then c
      else if 65 \<le> n \<and> n \<le> 90 then byte (n + 32)
      else CHR ''-'')"

function tag_map :: "string \<Rightarrow> string" where
  "tag_map [] = []"
| "tag_map (c # cs) = tag_char c # tag_map (drop (utf8_len (c # cs) - 1) cs)"
  by pat_completeness auto

termination by (relation "measure length") simp_all

definition trim_dashes :: "string \<Rightarrow> string" where
  "trim_dashes s = rev (dropWhile (\<lambda>c. c = CHR ''-'') (rev (dropWhile (\<lambda>c. c = CHR ''-'') s)))"

definition BuildImageTag :: "StdioBuildConfig \<Rightarrow> string" where
  "BuildImageTag b =
     (let source = (if bc_Package b = [] \<and> bc_GitURL b \<noteq> [] then repoNameFromURL (bc_GitURL b) else bc_Package b);
          name = trim_dashes (tag_map source);
          v1 = (if bc_Version b = [] \<and> bc_GitRef b \<noteq> [] then map (\<lambda>c. if c = CHR ''/'' then CHR ''-'' else c) (bc_GitRef b)
                else bc_Version b);
          v2 = (if v1 = [] then ''latest'' else v1) in
      ''arc-relay-build/'' @ name @ '':'' @ v2)"

text \<open>The name part of a tag holds only what Docker allows in it, whatever the package or the repository is called.\<close>

definition tag_name_char :: "char \<Rightarrow> bool" where
  "tag_name_char c \<longleftrightarrow> (97 \<le> ord c \<and> ord c \<le> 122) \<or> (48 \<le> ord c \<and> ord c \<le> 57) \<or> c \<in> {CHR ''-'', CHR ''.'', CHR ''/''}"

lemma tag_char_ok: "tag_name_char (tag_char c)"
proof -
  have "ord c < 256" by (simp add: ord_def)
  then show ?thesis by (auto simp: tag_char_def tag_name_char_def Let_def ord_def byte_def take_bit_nat_eq_self)
qed

lemma tag_map_ok: "\<forall>c \<in> set (tag_map s). tag_name_char c"
  by (induction s rule: tag_map.induct) (auto simp: tag_char_ok)

lemma image_tag_name_clean: "\<forall>c \<in> set (trim_dashes (tag_map s)). tag_name_char c"
  using tag_map_ok [of s] by (auto simp: trim_dashes_def dest!: set_dropWhileD)

end
