(* ===== verification/Http_Backend.thy ===== *)
theory Http_Backend
  imports Stdio_Bridge Server_Config
begin

text \<open>
  Backends over HTTP: \<open>internal/proxy/sse.go\<close> (plain and event-stream answers), \<open>internal/proxy/http_proxy.go\<close>
  and \<open>internal/proxy/remote_proxy.go\<close> (sessions, credentials, token refresh). The network is an argument: the
  answer to the \<open>n\<close>-th request the proxy sends. So are the access tokens and the outcome of a forced
  refresh, which the OAuth client of the relay supplies. What a proxy has sent is kept in its state.
\<close>

section \<open>Answers\<close>

record http_answer =
  ha_Status :: nat
  ha_Session :: string
  ha_ContentType :: string
  ha_Body :: "string option"

text \<open>
  \<open>bufio.Scanner\<close> with lines of at most ten mebibytes: the lines of the stream without their ends, and whether it
  stopped at a line that is too long.
\<close>

definition sse_max_line :: nat where
  "sse_max_line = 10 * 1024 * 1024"

definition drop_cr :: "string \<Rightarrow> string" where
  "drop_cr l = (if l \<noteq> [] \<and> last l = byte 13 then butlast l else l)"

fun scan_lines :: "string list \<Rightarrow> string list \<times> bool" where
  "scan_lines [] = ([], False)"
| "scan_lines [l] = (if sse_max_line \<le> length l then ([], True) else if l = [] then ([], False) else ([drop_cr l], False))"
| "scan_lines (l # ls) =
     (if sse_max_line \<le> length l then ([], True) else (case scan_lines ls of (rest, err) \<Rightarrow> (drop_cr l # rest, err)))"

definition decode_answer :: "string \<Rightarrow> string \<Rightarrow> string + Response" where
  "decode_answer msg s = (case decode_response s of None \<Rightarrow> Inl msg | Some r \<Rightarrow> Inr r)"

fun sse_loop :: "string list \<Rightarrow> string \<Rightarrow> string list \<Rightarrow> (string + Response) option \<times> string list" where
  "sse_loop dataLines eventType [] = (None, dataLines)"
| "sse_loop dataLines eventType (line # ls) =
     (if has_prefix line ''event:'' then sse_loop dataLines (trim_space (trim_prefix line ''event:'')) ls
      else if has_prefix line ''data:'' then sse_loop (dataLines @ [trim_space (trim_prefix line ''data:'')]) eventType ls
      else if line = [] \<and> dataLines \<noteq> [] then
        (if eventType = ''message'' \<or> eventType = [] then
           (Some (decode_answer ''parsing SSE data as JSON-RPC'' (join_with [byte 10] dataLines)), dataLines)
         else sse_loop [] [] ls)
      else sse_loop dataLines eventType ls)"

definition parseSSEResponse :: "string \<Rightarrow> string + Response" where
  "parseSSEResponse body =
     (let (lines, tooLong) = scan_lines (str_split (byte 10) body) in
      case sse_loop [] [] lines of
        (Some r, _) \<Rightarrow> r
      | (None, dataLines) \<Rightarrow>
          if tooLong then Inl ''reading SSE stream''
          else if dataLines \<noteq> [] then decode_answer ''parsing final SSE data'' (join_with [byte 10] dataLines)
          else Inl ''no message event found in SSE stream'')"

definition parseHTTPResponse :: "http_answer \<Rightarrow> string + Response" where
  "parseHTTPResponse a =
     (if has_prefix (ha_ContentType a) ''text/event-stream'' then
        (case ha_Body a of None \<Rightarrow> Inl ''reading SSE stream'' | Some b \<Rightarrow> parseSSEResponse b)
      else (case ha_Body a of None \<Rightarrow> Inl ''reading response body'' | Some b \<Rightarrow> decode_answer ''parsing JSON response'' b))"

section \<open>The plain HTTP proxy\<close>

record http_call =
  hx_URL :: string
  hx_Session :: string
  hx_Auth :: "(string \<times> string) option"
  hx_Body :: string

type_synonym network = "nat \<Rightarrow> http_call \<Rightarrow> string + http_answer"

record HTTPProxy =
  hp_targetURL :: string
  hp_sessionID :: string
  hp_sent :: "http_call list"

definition NewHTTPProxy :: "string \<Rightarrow> HTTPProxy" where
  "NewHTTPProxy u = \<lparr>hp_targetURL = u, hp_sessionID = [], hp_sent = []\<rparr>"

text \<open>\<open>url_ok\<close>: whether \<open>http.NewRequest\<close> accepts the address.\<close>

definition HTTPProxy_Send :: "(string \<Rightarrow> bool) \<Rightarrow> network \<Rightarrow> Request \<Rightarrow> HTTPProxy \<Rightarrow> HTTPProxy \<times> (string + Response)" where
  "HTTPProxy_Send url_ok net req p =
     (case encode_request req of
        None \<Rightarrow> (p, Inl ''marshaling request'')
      | Some body \<Rightarrow>
          if \<not> url_ok (hp_targetURL p) then (p, Inl ''creating http request'')
          else
            let call = \<lparr>hx_URL = hp_targetURL p, hx_Session = hp_sessionID p, hx_Auth = None, hx_Body = body\<rparr>;
                p1 = p\<lparr>hp_sent := hp_sent p @ [call]\<rparr> in
            (case net (length (hp_sent p)) call of
               Inl e \<Rightarrow> (p1, Inl e)
             | Inr a \<Rightarrow>
                 if ha_Status a \<noteq> 200 then (p1, Inl ''backend returned status'')
                 else ((if ha_Session a \<noteq> [] then p1\<lparr>hp_sessionID := ha_Session a\<rparr> else p1), parseHTTPResponse a)))"

text \<open>A notification; its body cannot fail to encode where it comes from a decoded message, and the answer is dropped.\<close>

definition HTTPProxy_SendNotification :: "(string \<Rightarrow> bool) \<Rightarrow> network \<Rightarrow> string \<Rightarrow> HTTPProxy \<Rightarrow> HTTPProxy \<times> string option" where
  "HTTPProxy_SendNotification url_ok net body p =
     (if \<not> url_ok (hp_targetURL p) then (p, Some ''creating http request'')
      else
        let call = \<lparr>hx_URL = hp_targetURL p, hx_Session = hp_sessionID p, hx_Auth = None, hx_Body = body\<rparr>;
            p1 = p\<lparr>hp_sent := hp_sent p @ [call]\<rparr> in
        (case net (length (hp_sent p)) call of Inl e \<Rightarrow> (p1, Some e) | Inr _ \<Rightarrow> (p1, None)))"

section \<open>The proxy to a remote server\<close>

text \<open>\<open>ro_token\<close> is \<open>GetAccessToken\<close> at its \<open>n\<close>-th call, \<open>ro_refresh\<close> the error of a forced refresh.\<close>

record remote_oauth =
  ro_token :: "nat \<Rightarrow> string + string"
  ro_refresh :: "nat \<Rightarrow> string option"

record remote_env =
  re_url_ok :: "string \<Rightarrow> bool"
  re_net :: network
  re_oauth :: "remote_oauth option"

record RemoteProxy =
  rp_config :: RemoteConfig
  rp_sessionID :: string
  rp_lastOAuthToken :: string
  rp_sent :: "http_call list"
  rp_tokens :: nat
  rp_refreshes :: nat

definition NewRemoteProxy :: "RemoteConfig \<Rightarrow> RemoteProxy" where
  "NewRemoteProxy cfg = \<lparr>rp_config = cfg, rp_sessionID = [], rp_lastOAuthToken = [], rp_sent = [], rp_tokens = 0, rp_refreshes = 0\<rparr>"

text \<open>The header to set and whether the token changed since the last request.\<close>

definition applyAuth :: "remote_env \<Rightarrow> RemoteProxy \<Rightarrow> RemoteProxy \<times> (string + (string \<times> string) option \<times> bool)" where
  "applyAuth e p =
     (let a = rc_Auth (rp_config p) in
      if ra_Type a = ''bearer'' then (p, Inr (Some (''Authorization'', ''Bearer '' @ ra_Token a), False))
      else if ra_Type a = ''api_key'' then
        (p, Inr (Some ((if ra_HeaderName a = [] then ''X-API-Key'' else ra_HeaderName a), ra_Token a), False))
      else if ra_Type a = ''oauth'' then
        (case re_oauth e of
           None \<Rightarrow> (p, Inl ''OAuth manager not configured'')
         | Some m \<Rightarrow>
             (case ro_token m (rp_tokens p) of
                Inl err \<Rightarrow> (p\<lparr>rp_tokens := rp_tokens p + 1\<rparr>, Inl ''getting OAuth token'')
              | Inr token \<Rightarrow>
                  (p\<lparr>rp_tokens := rp_tokens p + 1, rp_lastOAuthToken := token\<rparr>,
                   Inr (Some (''Authorization'', ''Bearer '' @ token), rp_lastOAuthToken p \<noteq> [] \<and> rp_lastOAuthToken p \<noteq> token))))
      else (p, Inr (None, False)))"

definition reinit_request :: Request where
  "reinit_request = \<lparr>rq_JSONRPC = ''2.0'', rq_ID = Some ''0'', rq_Method = ''initialize'',
     rq_Params = Some (jtext ''{~capabilities~:{},~clientInfo~:{~name~:~arc-relay~,~version~:~0.1.0~},~protocolVersion~:~2024-11-05~}'')\<rparr>"

text \<open>The last part of \<open>doSend\<close>: the session id, the exchange, the answer.\<close>

definition send_with_session ::
    "remote_env \<Rightarrow> Request \<Rightarrow> string \<Rightarrow> (string \<times> string) option \<Rightarrow> RemoteProxy \<Rightarrow> RemoteProxy \<times> nat \<times> (string + Response)" where
  "send_with_session e req body auth p =
     (let p1 = (if rq_Method req = ''initialize'' then p\<lparr>rp_sessionID := []\<rparr> else p);
          call = \<lparr>hx_URL = rc_URL (rp_config p1), hx_Session = rp_sessionID p1, hx_Auth = auth, hx_Body = body\<rparr>;
          p2 = p1\<lparr>rp_sent := rp_sent p1 @ [call]\<rparr> in
      case re_net e (length (rp_sent p1)) call of
        Inl err \<Rightarrow> (p2, 0, Inl err)
      | Inr a \<Rightarrow>
          if ha_Status a = 401 then (p2, 401, Inl ''remote server returned status 401'')
          else if ha_Status a \<noteq> 200 then (p2, ha_Status a, Inl ''remote server returned status'')
          else ((if ha_Session a \<noteq> [] then p2\<lparr>rp_sessionID := ha_Session a\<rparr> else p2), 200, parseHTTPResponse a))"

lemma applyAuth_session: "rp_sessionID (fst (applyAuth e p)) = rp_sessionID p"
  by (auto simp: applyAuth_def Let_def split: option.split sum.split)

lemma applyAuth_sessionD: "applyAuth e p = (p1, x) \<Longrightarrow> rp_sessionID p1 = rp_sessionID p"
  using applyAuth_session [of e p] by simp

text \<open>\<open>reinitialize\<close> sends an \<open>initialize\<close> request through \<open>doSend\<close> again; the session id is cleared by then, so this happens once.\<close>

function doSend :: "remote_env \<Rightarrow> Request \<Rightarrow> RemoteProxy \<Rightarrow> RemoteProxy \<times> nat \<times> (string + Response)" where
  "doSend e req p =
     (case encode_request req of
        None \<Rightarrow> (p, 0, Inl ''marshaling request'')
      | Some body \<Rightarrow>
          if \<not> re_url_ok e (rc_URL (rp_config p)) then (p, 0, Inl ''creating http request'')
          else (case applyAuth e p of
            (p1, Inl err) \<Rightarrow> (p1, 0, Inl ''applying auth'')
          | (p1, Inr (auth, tokenRefreshed)) \<Rightarrow>
              if tokenRefreshed \<and> rp_sessionID p1 \<noteq> [] then
                send_with_session e req body auth (fst (doSend e reinit_request (p1\<lparr>rp_sessionID := []\<rparr>)))
              else send_with_session e req body auth (if tokenRefreshed then p1\<lparr>rp_sessionID := []\<rparr> else p1)))"
  by pat_completeness auto

termination
  by (relation "measure (\<lambda>(e, req, p). if rp_sessionID p \<noteq> [] then 1 else 0)") (auto dest: applyAuth_sessionD dest!: sym [of _ "applyAuth _ _"])

declare doSend.simps [simp del]

definition reinitialize :: "remote_env \<Rightarrow> RemoteProxy \<Rightarrow> RemoteProxy" where
  "reinitialize e p = fst (doSend e reinit_request p)"

definition RemoteProxy_Send :: "remote_env \<Rightarrow> Request \<Rightarrow> RemoteProxy \<Rightarrow> RemoteProxy \<times> (string + Response)" where
  "RemoteProxy_Send e req p =
     (case doSend e req p of
        (p1, status, res) \<Rightarrow>
          (case re_oauth e of
             Some m \<Rightarrow>
               if status = 401 \<and> ra_Type (rc_Auth (rp_config p1)) = ''oauth'' then
                 (case ro_refresh m (rp_refreshes p1) of
                    Some err \<Rightarrow> (p1\<lparr>rp_refreshes := rp_refreshes p1 + 1\<rparr>, Inl ''token refresh after 401 failed'')
                  | None \<Rightarrow>
                      let p2 = p1\<lparr>rp_refreshes := rp_refreshes p1 + 1, rp_sessionID := [], rp_lastOAuthToken := []\<rparr> in
                      (case doSend e req (reinitialize e p2) of (p3, _, res2) \<Rightarrow> (p3, res2)))
               else (p1, res)
           | None \<Rightarrow> (p1, res)))"

definition RemoteProxy_SendNotification :: "remote_env \<Rightarrow> string \<Rightarrow> RemoteProxy \<Rightarrow> RemoteProxy \<times> string option" where
  "RemoteProxy_SendNotification e body p =
     (if \<not> re_url_ok e (rc_URL (rp_config p)) then (p, Some ''creating http request'')
      else (case applyAuth e p of
        (p1, Inl err) \<Rightarrow> (p1, Some err)
      | (p1, Inr (auth, _)) \<Rightarrow>
          let call = \<lparr>hx_URL = rc_URL (rp_config p), hx_Session = rp_sessionID p, hx_Auth = auth, hx_Body = body\<rparr>;
              p2 = p1\<lparr>rp_sent := rp_sent p1 @ [call]\<rparr> in
          (case re_net e (length (rp_sent p1)) call of Inl err \<Rightarrow> (p2, Some err) | Inr _ \<Rightarrow> (p2, None))))"

section \<open>What goes to a remote server\<close>

text \<open>The header a server's configuration allows.\<close>

definition credential :: "remote_env \<Rightarrow> RemoteAuth \<Rightarrow> (string \<times> string) option \<Rightarrow> bool" where
  "credential e a h \<longleftrightarrow>
     (if ra_Type a = ''bearer'' then h = Some (''Authorization'', ''Bearer '' @ ra_Token a)
      else if ra_Type a = ''api_key'' then h = Some ((if ra_HeaderName a = [] then ''X-API-Key'' else ra_HeaderName a), ra_Token a)
      else if ra_Type a = ''oauth'' then (\<exists>m n token. re_oauth e = Some m \<and> ro_token m n = Inr token \<and> h = Some (''Authorization'', ''Bearer '' @ token))
      else h = None)"

definition call_ok :: "remote_env \<Rightarrow> RemoteConfig \<Rightarrow> Request set \<Rightarrow> http_call \<Rightarrow> bool" where
  "call_ok e cfg qs c \<longleftrightarrow> hx_URL c = rc_URL cfg \<and> credential e (rc_Auth cfg) (hx_Auth c) \<and>
     (\<exists>q \<in> qs. encode_request q = Some (hx_Body c) \<and> (rq_Method q = ''initialize'' \<longrightarrow> hx_Session c = []))"

text \<open>\<open>sends e qs n p p'\<close>: from \<open>p\<close> to \<open>p'\<close> at most \<open>n\<close> requests were sent, all of them in order.\<close>

definition sends :: "remote_env \<Rightarrow> Request set \<Rightarrow> nat \<Rightarrow> RemoteProxy \<Rightarrow> RemoteProxy \<Rightarrow> bool" where
  "sends e qs n p p' \<longleftrightarrow> rp_config p' = rp_config p \<and>
     (\<exists>cs. rp_sent p' = rp_sent p @ cs \<and> length cs \<le> n \<and> (\<forall>c \<in> set cs. call_ok e (rp_config p) qs c))"

lemma sends_same: "rp_config p' = rp_config p \<Longrightarrow> rp_sent p' = rp_sent p \<Longrightarrow> sends e qs n p p'"
  by (simp add: sends_def)

lemma sends_trans: "sends e qs m p q \<Longrightarrow> sends e qs n q r \<Longrightarrow> sends e qs (m + n) p r"
  unfolding sends_def by (elim conjE exE, intro conjI) (simp, rule_tac x = "cs @ csa" in exI, auto)

lemma sends_mono: "sends e qs m p q \<Longrightarrow> m \<le> n \<Longrightarrow> qs \<subseteq> qs' \<Longrightarrow> sends e qs' n p q"
  unfolding sends_def call_ok_def by (meson order_trans subsetD)

lemma applyAuth_kept:
  assumes "applyAuth e p = (p1, x)"
  shows "rp_config p1 = rp_config p" "rp_sent p1 = rp_sent p" "rp_refreshes p1 = rp_refreshes p" "rp_sessionID p1 = rp_sessionID p"
    "x = Inr (auth, b) \<Longrightarrow> credential e (rc_Auth (rp_config p)) auth"
  using assms by (auto simp: applyAuth_def Let_def credential_def split: if_splits option.splits sum.splits)

lemma send_with_session_sends:
  assumes "encode_request req = Some body" "credential e (rc_Auth (rp_config p)) auth"
  shows "sends e {req} 1 p (fst (send_with_session e req body auth p))"
    "rp_refreshes (fst (send_with_session e req body auth p)) = rp_refreshes p"
  using assms by (auto simp: send_with_session_def Let_def sends_def call_ok_def split: sum.split)

lemma doSend_sends:
  "sends e {req, reinit_request} (if rp_sessionID p = [] then 1 else 2) p (fst (doSend e req p)) \<and> rp_refreshes (fst (doSend e req p)) = rp_refreshes p"
proof (induction e req p rule: doSend.induct)
  case (1 e req p)
  obtain p1 x where auth: "applyAuth e p = (p1, x)" by fastforce
  note kept = applyAuth_kept [OF auth]
  have first: "sends e qs 0 p p1" for qs using kept by (simp add: sends_same)
  show ?case
  proof (cases "\<exists>body a b. encode_request req = Some body \<and> re_url_ok e (rc_URL (rp_config p)) \<and> x = Inr (a, b)")
    case False
    then have "fst (doSend e req p) \<in> {p, p1}"
      by (subst doSend.simps) (auto simp: auth split: option.split sum.split)
    with kept show ?thesis by (auto simp: sends_same)
  next
    case True
    then obtain body a b where b: "encode_request req = Some body" "re_url_ok e (rc_URL (rp_config p))" "x = Inr (a, b)" by blast
    show ?thesis
    proof (cases "b \<and> rp_sessionID p1 \<noteq> []")
      case again: True
      let ?q = "fst (doSend e reinit_request (p1\<lparr>rp_sessionID := []\<rparr>))"
      have run: "fst (doSend e req p) = fst (send_with_session e req body a ?q)"
        by (subst doSend.simps) (simp add: auth b again)
      from "1.IH" [OF b(1)] b auth again have ih: "sends e {reinit_request} 1 (p1\<lparr>rp_sessionID := []\<rparr>) ?q" "rp_refreshes ?q = rp_refreshes p1" by auto
      then have "sends e {reinit_request} 1 p ?q" using kept by (simp add: sends_def)
      moreover from this kept(5) [OF b(3)] have "sends e {req} 1 ?q (fst (send_with_session e req body a ?q))"
        by (intro send_with_session_sends b) (simp add: sends_def)
      ultimately have "sends e {req, reinit_request} (1 + 1) p (fst (send_with_session e req body a ?q))"
        by (intro sends_trans [where q = ?q]) (auto elim: sends_mono)
      moreover have "credential e (rc_Auth (rp_config ?q)) a" using \<open>sends e {reinit_request} 1 p ?q\<close> kept(5) [OF b(3)] by (simp add: sends_def)
      ultimately show ?thesis using again kept ih(2) by (simp add: run send_with_session_sends(2) [OF b(1)] numeral_2_eq_2)
    next
      case False
      let ?q = "if b then p1\<lparr>rp_sessionID := []\<rparr> else p1"
      have run: "fst (doSend e req p) = fst (send_with_session e req body a ?q)"
        by (subst doSend.simps) (use False in \<open>auto simp: auth b\<close>)
      have q: "rp_config ?q = rp_config p" "rp_sent ?q = rp_sent p" "rp_refreshes ?q = rp_refreshes p" using kept by simp_all
      from send_with_session_sends [OF b(1), of e ?q a] kept(5) [OF b(3)] q have "sends e {req} 1 p (fst (doSend e req p))"
        "rp_refreshes (fst (doSend e req p)) = rp_refreshes p" unfolding run by (simp_all add: sends_def)
      then show ?thesis by (auto elim: sends_mono)
    qed
  qed
qed

text \<open>
  What one request of a client can make the relay send to a remote server, whatever the server answers: at most
  five HTTP requests, all of them to the configured address and with the configured credential and no
  other, each carrying the client's request or an \<open>initialize\<close> of the relay, and no \<open>initialize\<close> with the
  id of an old session; and at most one forced refresh of the access token.
\<close>

theorem remote_send_bounded:
  assumes "RemoteProxy_Send e req p = (p', res)"
  shows "sends e {req, reinit_request} 5 p p' \<and> rp_refreshes p' \<le> rp_refreshes p + 1"
proof -
  let ?qs = "{req, reinit_request}"
  obtain p1 st r1 where 1: "doSend e req p = (p1, st, r1)" by (metis prod_cases3)
  from doSend_sends [of e req p] 1 have s1: "sends e ?qs 2 p p1" "rp_refreshes p1 = rp_refreshes p" by (auto split: if_splits elim: sends_mono)
  let ?p2 = "p1\<lparr>rp_refreshes := rp_refreshes p1 + 1, rp_sessionID := [], rp_lastOAuthToken := []\<rparr>"
  obtain p3 st3 r3 where 3: "doSend e req (reinitialize e ?p2) = (p3, st3, r3)" by (metis prod_cases3)
  have "sends e ?qs 1 ?p2 (reinitialize e ?p2)" "rp_refreshes (reinitialize e ?p2) = rp_refreshes p + 1"
    using doSend_sends [of e reinit_request ?p2] s1(2) by (auto simp: reinitialize_def elim: sends_mono)
  moreover from doSend_sends [of e req "reinitialize e ?p2"] 3 have "sends e ?qs 2 (reinitialize e ?p2) p3" "rp_refreshes p3 = rp_refreshes (reinitialize e ?p2)"
    by (auto split: if_splits elim: sends_mono)
  moreover have "sends e ?qs 0 p1 ?p2" by (simp add: sends_same)
  ultimately have s3: "sends e ?qs 5 p p3" "rp_refreshes p3 = rp_refreshes p + 1"
    using sends_trans [OF s1(1), of 0 ?p2] sends_trans [of e ?qs 2 p ?p2 1 "reinitialize e ?p2"] sends_trans [of e ?qs 3 p "reinitialize e ?p2" 2 p3] by simp_all
  have p': "p' = p1 \<or> p' = p1\<lparr>rp_refreshes := rp_refreshes p1 + 1\<rparr> \<or> p' = p3"
    using assms 3 by (auto simp: RemoteProxy_Send_def 1 Let_def split: option.splits if_splits)
  from s1 have "sends e ?qs 5 p p1" "sends e ?qs 5 p (p1\<lparr>rp_refreshes := rp_refreshes p1 + 1\<rparr>)"
    by (auto elim: sends_mono simp: sends_def)
  with p' s1(2) s3 show ?thesis by auto
qed

section \<open>Event streams\<close>

definition sse_text :: "string list \<Rightarrow> string" where
  "sse_text ls = concat (map (\<lambda>l. l @ [byte 10]) ls)"

definition plain_line :: "string \<Rightarrow> bool" where
  "plain_line l \<longleftrightarrow> byte 10 \<notin> set l \<and> byte 13 \<notin> set l \<and> length l < sse_max_line"

lemma split_line: "byte 10 \<notin> set l \<Longrightarrow> str_split (byte 10) (l @ byte 10 # rest) = l # str_split (byte 10) rest"
  by (induction l) auto

lemma scan_sse_text: "\<forall>l \<in> set ls. plain_line l \<Longrightarrow> scan_lines (str_split (byte 10) (sse_text ls)) = (ls, False)"
proof (induction ls)
  case Nil
  then show ?case by (simp add: sse_text_def sse_max_line_def)
next
  case (Cons l ls)
  have ne: "str_split (byte 10) s \<noteq> []" for s by (induction s) (auto split: list.split)
  then obtain a as where rest: "str_split (byte 10) (sse_text ls) = a # as" by (metis neq_Nil_conv)
  from Cons.prems have "byte 13 \<notin> set l" by (simp add: plain_line_def)
  then have "drop_cr l = l" unfolding drop_cr_def by (metis last_in_set)
  with Cons rest show ?case by (simp add: split_line sse_text_def plain_line_def)
qed

text \<open>Events of other kinds than messages.\<close>

definition event_lines :: "string \<Rightarrow> string list \<Rightarrow> string list" where
  "event_lines kind ds = [''event: '' @ kind] @ map (\<lambda>d. ''data: '' @ d) ds @ [[]]"

lemma trim_space_blank: "trim_space (CHR '' '' # s) = trim_space s"
  by (simp add: trim_space_def is_space_def)

lemma sse_data_lines:
  "\<forall>d \<in> set ds. trim_space d = d \<Longrightarrow>
     sse_loop acc ty (map (\<lambda>d. ''data: '' @ d) ds @ rest) = sse_loop (acc @ ds) ty rest"
  by (induction ds arbitrary: acc) (auto simp: has_prefix_def trim_prefix_def trim_space_blank)

lemma sse_event:
  assumes "\<forall>d \<in> set ds. trim_space d = d" "ds \<noteq> []" "trim_space kind = kind"
  shows "sse_loop [] ty (event_lines kind ds @ rest) =
    (if kind = ''message'' \<or> kind = [] then (Some (decode_answer ''parsing SSE data as JSON-RPC'' (join_with [byte 10] ds)), ds)
     else sse_loop [] [] rest)"
proof -
  have "sse_loop [] ty (event_lines kind ds @ rest) = sse_loop [] kind (map (\<lambda>d. ''data: '' @ d) ds @ [] # rest)"
    using assms(3) by (simp add: event_lines_def has_prefix_def trim_prefix_def trim_space_blank)
  also have "\<dots> = sse_loop ds kind ([] # rest)" using sse_data_lines [OF assms(1), of "[]" kind "[] # rest"] by simp
  finally show ?thesis using assms(2) by (simp add: has_prefix_def)
qed

lemma sse_events:
  "\<forall>(kind, ds) \<in> set evs. (\<forall>d \<in> set ds. trim_space d = d) \<and> ds \<noteq> [] \<and> trim_space kind = kind \<and> kind \<noteq> ''message'' \<and> kind \<noteq> [] \<Longrightarrow>
     sse_loop [] [] (concat (map (\<lambda>(kind, ds). event_lines kind ds) evs) @ rest) = sse_loop [] [] rest"
  by (induction evs) (auto simp: sse_event)

text \<open>
  A conforming server that answers with an event stream is understood: after any number of other events, the
  first message event is the answer, its data lines joined by line breaks, and what follows it is not read.
\<close>

theorem sse_first_message:
  assumes "\<forall>(kind, ds) \<in> set evs. (\<forall>d \<in> set ds. trim_space d = d) \<and> ds \<noteq> [] \<and> trim_space kind = kind \<and> kind \<noteq> ''message'' \<and> kind \<noteq> []"
    and "\<forall>d \<in> set ds. trim_space d = d" "ds \<noteq> []" "decode_response (join_with [byte 10] ds) = Some r"
    and "\<forall>l \<in> set (concat (map (\<lambda>(kind, ds). event_lines kind ds) evs) @ event_lines ''message'' ds @ rest). plain_line l"
  shows "parseSSEResponse (sse_text (concat (map (\<lambda>(kind, ds). event_lines kind ds) evs) @ event_lines ''message'' ds @ rest)) = Inr r"
proof -
  have "trim_space ''message'' = ''message''" by code_simp
  then have "sse_loop [] [] (concat (map (\<lambda>(kind, ds). event_lines kind ds) evs) @ event_lines ''message'' ds @ rest) =
      (Some (Inr r), ds)"
    using assms(4) by (simp only: sse_events [OF assms(1)] sse_event [OF assms(2,3)] decode_answer_def option.case simp_thms if_True)
  then show ?thesis by (simp only: parseSSEResponse_def scan_sse_text [OF assms(5)] Let_def prod.case option.case)
qed

section \<open>Examples\<close>

theorem sse_first_message_witness:
  "parseSSEResponse (sse_text (event_lines ''ping'' [''x''] @ event_lines ''message'' [demo_line ''1''] @ [])) =
     Inr \<lparr>rs_JSONRPC = [], rs_ID = Some ''1'', rs_Result = Some ''1'', rs_Error = None\<rparr>"
proof -
  have trims: "trim_space ''x'' = ''x''" "trim_space (demo_line ''1'') = demo_line ''1''" "trim_space ''ping'' = ''ping''" by code_simp+
  have chars: "byte 10 \<notin> set (concat [''event: ping'', ''data: x'', ''event: message'', ''data: '' @ demo_line ''1''])"
    "byte 13 \<notin> set (concat [''event: ping'', ''data: x'', ''event: message'', ''data: '' @ demo_line ''1''])" by code_simp+
  have len: "length (demo_line ''1'') < 100" by (simp add: demo_line_def jtext_def)
  have "parseSSEResponse (sse_text (concat (map (\<lambda>(kind, ds). event_lines kind ds) [(''ping'', [''x''])]) @ event_lines ''message'' [demo_line ''1''] @ [])) =
     Inr \<lparr>rs_JSONRPC = [], rs_ID = Some ''1'', rs_Result = Some ''1'', rs_Error = None\<rparr>"
    by (rule sse_first_message) (use trims chars len demo_line_response in
      \<open>simp_all add: event_lines_def plain_line_def sse_max_line_def\<close>)
  then show ?thesis by simp
qed

definition demo_remote :: RemoteConfig where
  "demo_remote = \<lparr>rc_URL = ''https://r'', rc_Auth = \<lparr>ra_Type = ''bearer'', ra_Token = ''t'', ra_HeaderName = [], ra_ClientID = [],
     ra_ClientSecret = [], ra_AuthURL = [], ra_TokenURL = [], ra_Scopes = [], ra_AccessToken = [], ra_RefreshToken = [],
     ra_TokenExpiry = [], ra_RegisteredRedirectURI = [], ra_RegistrationEndpoint = []\<rparr>\<rparr>"

theorem remote_send_bounded_witness:
  "length (rp_sent (fst (RemoteProxy_Send \<lparr>re_url_ok = \<lambda>_. True, re_net = \<lambda>_ _. Inl ''down'', re_oauth = None\<rparr> (demo_call ''1'')
     (NewRemoteProxy demo_remote)))) \<le> 5"
proof -
  let ?e = "\<lparr>re_url_ok = \<lambda>_. True, re_net = \<lambda>_ _. Inl ''down'', re_oauth = None\<rparr>"
  obtain p' res where run: "RemoteProxy_Send ?e (demo_call ''1'') (NewRemoteProxy demo_remote) = (p', res)" by fastforce
  from remote_send_bounded [OF run] have "length (rp_sent p') \<le> 5" by (auto simp: sends_def NewRemoteProxy_def)
  then show ?thesis by (simp add: run)
qed

end
