(* ===== verification/Proxy_Manager.thy ===== *)
theory Proxy_Manager
  imports Http_Backend Tool_Optimizer Mcp_Classify Web_Form
begin

text \<open>
  Running servers: \<open>internal/mcp/enumerate.go\<close> (discovery of tools, resources and prompts, the endpoint cache) and
  \<open>internal/proxy/proxy.go\<close> (starting and stopping servers, images, containers, enumeration).

  Docker, git and the backends are arguments with their outcomes. A backend answers a request with an error, a
  response, or \<open>None\<close> for the \<open>nil\<close> response a closed stdio bridge returns. Started and stopped containers are
  logged in the manager's state. Operations hold the manager's lock and are one step; the
  enumeration a start triggers in the background is a later step of its own. Errors of the statements
  that record a status are dropped, as in the code; statement numbers name statements.
\<close>

section \<open>Discovery\<close>

record ServerInfo =
  si_Name :: string
  si_Version :: string

record Resource =
  re_URI :: string
  re_Name :: string
  re_Description :: string
  re_MimeType :: string

record PromptArgument =
  pa_Name :: string
  pa_Description :: string
  pa_Required :: bool

record Prompt =
  pt_Name :: string
  pt_Description :: string
  pt_Arguments :: "PromptArgument list"

record ServerEndpoints =
  se_ServerInfo :: ServerInfo
  se_Tools :: "Tool list"
  se_Resources :: "Resource list"
  se_Prompts :: "Prompt list"
  se_Initialized :: bool
  se_Error :: string

definition no_endpoints :: ServerEndpoints where
  "no_endpoints = \<lparr>se_ServerInfo = \<lparr>si_Name = [], si_Version = []\<rparr>, se_Tools = [], se_Resources = [], se_Prompts = [], se_Initialized = False, se_Error = []\<rparr>"

fun bool_field :: "bool \<Rightarrow> string list \<Rightarrow> bool \<times> bool" where
  "bool_field cur [] = (cur, True)"
| "bool_field cur (v # vs) =
     (case shape v of
        Some (SBool b) \<Rightarrow> bool_field b vs
      | Some SNull \<Rightarrow> bool_field cur vs
      | _ \<Rightarrow> (fst (bool_field cur vs), False))"

text \<open>A member that is an array of structs; as for tools, its last occurrence counts.\<close>

definition decode_objs :: "(string \<Rightarrow> 'a option) \<Rightarrow> string \<Rightarrow> (string \<times> string) list \<Rightarrow> 'a list option" where
  "decode_objs dec name kvs =
     map_option (\<lambda>ts. if ts = [] then [] else last ts)
       (all_some (map (\<lambda>v. case decode_arr v of None \<Rightarrow> None | Some xs \<Rightarrow> all_some (map dec xs)) (field_values name kvs)))"

definition decode_resource :: "string \<Rightarrow> Resource option" where
  "decode_resource s =
     (case decode_members s of
        None \<Rightarrow> None
      | Some kvs \<Rightarrow>
          (let (u, ok1) = str_field [] (field_values ''uri'' kvs); (n, ok2) = str_field [] (field_values ''name'' kvs);
               (d, ok3) = str_field [] (field_values ''description'' kvs); (m, ok4) = str_field [] (field_values ''mimeType'' kvs) in
           if ok1 \<and> ok2 \<and> ok3 \<and> ok4 then Some \<lparr>re_URI = u, re_Name = n, re_Description = d, re_MimeType = m\<rparr> else None))"

definition decode_argument :: "string \<Rightarrow> PromptArgument option" where
  "decode_argument s =
     (case decode_members s of
        None \<Rightarrow> None
      | Some kvs \<Rightarrow>
          (let (n, ok1) = str_field [] (field_values ''name'' kvs); (d, ok2) = str_field [] (field_values ''description'' kvs);
               (b, ok3) = bool_field False (field_values ''required'' kvs) in
           if ok1 \<and> ok2 \<and> ok3 then Some \<lparr>pa_Name = n, pa_Description = d, pa_Required = b\<rparr> else None))"

definition decode_prompt :: "string \<Rightarrow> Prompt option" where
  "decode_prompt s =
     (case decode_members s of
        None \<Rightarrow> None
      | Some kvs \<Rightarrow>
          (let (n, ok1) = str_field [] (field_values ''name'' kvs); (d, ok2) = str_field [] (field_values ''description'' kvs) in
           (case decode_objs decode_argument ''arguments'' kvs of
              None \<Rightarrow> None
            | Some as \<Rightarrow> if ok1 \<and> ok2 then Some \<lparr>pt_Name = n, pt_Description = d, pt_Arguments = as\<rparr> else None)))"

definition decode_result :: "(string \<Rightarrow> 'a option) \<Rightarrow> string \<Rightarrow> string \<Rightarrow> 'a list option" where
  "decode_result dec name s = (case decode_members s of None \<Rightarrow> None | Some kvs \<Rightarrow> decode_objs dec name kvs)"

text \<open>What \<open>initialize\<close> returns: the names of the capabilities, and the server's name and version.\<close>

fun capability_keys :: "string list \<Rightarrow> string list \<Rightarrow> string list \<times> bool" where
  "capability_keys cur [] = (cur, True)"
| "capability_keys cur (v # vs) =
     (case shape v of
        Some (SObj kvs) \<Rightarrow> capability_keys (cur @ map fst kvs) vs
      | Some SNull \<Rightarrow> capability_keys [] vs
      | _ \<Rightarrow> (fst (capability_keys cur vs), False))"

definition decode_init :: "string \<Rightarrow> (string list \<times> ServerInfo) option" where
  "decode_init s =
     (case decode_members s of
        None \<Rightarrow> None
      | Some kvs \<Rightarrow>
          (let (_, ok1) = str_field [] (field_values ''protocolVersion'' kvs);
               (caps, ok2) = capability_keys [] (field_values ''capabilities'' kvs);
               (ikvs, ok3) = struct_members (field_values ''serverInfo'' kvs);
               (n, ok4) = str_field [] (field_values ''name'' ikvs);
               (v, ok5) = str_field [] (field_values ''version'' ikvs) in
           if ok1 \<and> ok2 \<and> ok3 \<and> ok4 \<and> ok5 then Some (caps, \<lparr>si_Name = n, si_Version = v\<rparr>) else None))"

type_synonym sender = "Request \<Rightarrow> string + Response option"

datatype 'a outcome = Done 'a | Failed string | Panic

text \<open>The common part of \<open>doInitialize\<close> and the \<open>doList\<close> functions: a \<open>nil\<close> response is dereferenced.\<close>

definition ask :: "sender \<Rightarrow> Request \<Rightarrow> (string \<Rightarrow> 'a option) \<Rightarrow> 'a outcome" where
  "ask send req dec =
     (case send req of
        Inl e \<Rightarrow> Failed e
      | Inr None \<Rightarrow> Panic
      | Inr (Some resp) \<Rightarrow>
          (case rs_Error resp of
             Some e \<Rightarrow> Failed (''error '' @ show_int (er_Code e) @ '': '' @ er_Message e)
           | None \<Rightarrow>
               (case rs_Result resp of
                  None \<Rightarrow> Failed ''parsing''
                | Some r \<Rightarrow> (case dec r of None \<Rightarrow> Failed ''parsing'' | Some x \<Rightarrow> Done x))))"

definition init_params :: string where
  "init_params = jtext ''{~protocolVersion~:~2024-11-05~,~capabilities~:{},~clientInfo~:{~name~:~arc-relay~,~version~:~0.1.0~}}''"

definition doInitialize :: "sender \<Rightarrow> (string list \<times> ServerInfo) outcome" where
  "doInitialize send = ask send (NewRequest (Some ''1'') ''initialize'' (Some init_params)) decode_init"

definition doListTools :: "sender \<Rightarrow> Tool list outcome" where
  "doListTools send = ask send (NewRequest (Some ''2'') ''tools/list'' None) decode_tools_list"

definition doListResources :: "sender \<Rightarrow> Resource list outcome" where
  "doListResources send = ask send (NewRequest (Some ''3'') ''resources/list'' None) (decode_result decode_resource ''resources'')"

definition doListPrompts :: "sender \<Rightarrow> Prompt list outcome" where
  "doListPrompts send = ask send (NewRequest (Some ''4'') ''prompts/list'' None) (decode_result decode_prompt ''prompts'')"

text \<open>\<open>None\<close>: the goroutine panics. The second component is the error returned beside the endpoints.\<close>

definition list_tools :: "sender \<Rightarrow> string list \<Rightarrow> ServerEndpoints \<Rightarrow> ServerEndpoints option" where
  "list_tools send caps e =
     (if ''tools'' \<notin> set caps then Some e
      else case doListTools send of
        Panic \<Rightarrow> None | Failed m \<Rightarrow> Some (e\<lparr>se_Error := ''tools/list failed: '' @ m\<rparr>) | Done ts \<Rightarrow> Some (e\<lparr>se_Tools := ts\<rparr>))"

definition list_resources :: "sender \<Rightarrow> string list \<Rightarrow> ServerEndpoints \<Rightarrow> ServerEndpoints option" where
  "list_resources send caps e =
     (if ''resources'' \<notin> set caps then Some e
      else case doListResources send of
        Panic \<Rightarrow> None | Failed m \<Rightarrow> Some (e\<lparr>se_Error := ''resources/list failed: '' @ m\<rparr>) | Done rs \<Rightarrow> Some (e\<lparr>se_Resources := rs\<rparr>))"

definition list_prompts :: "sender \<Rightarrow> string list \<Rightarrow> ServerEndpoints \<Rightarrow> ServerEndpoints option" where
  "list_prompts send caps e =
     (if ''prompts'' \<notin> set caps then Some e
      else case doListPrompts send of Panic \<Rightarrow> None | Failed m \<Rightarrow> Some e | Done ps \<Rightarrow> Some (e\<lparr>se_Prompts := ps\<rparr>))"

definition Enumerate :: "sender \<Rightarrow> (ServerEndpoints \<times> string option) option" where
  "Enumerate send =
     (case doInitialize send of
        Panic \<Rightarrow> None
      | Failed m \<Rightarrow> Some (no_endpoints\<lparr>se_Error := ''initialize failed: '' @ m\<rparr>, Some m)
      | Done (caps, info) \<Rightarrow>
          (case list_tools send caps (no_endpoints\<lparr>se_ServerInfo := info, se_Initialized := True\<rparr>) of
             None \<Rightarrow> None
           | Some e1 \<Rightarrow>
               (case list_resources send caps e1 of
                  None \<Rightarrow> None
                | Some e2 \<Rightarrow> (case list_prompts send caps e2 of None \<Rightarrow> None | Some e3 \<Rightarrow> Some (e3, None)))))"

section \<open>The manager\<close>

datatype backend = StdioBackend string | HTTPBackend string | RemoteBackend string RemoteConfig

type_synonym endpoint_cache = "string \<Rightarrow> ServerEndpoints option"

definition cache_get :: "string \<Rightarrow> endpoint_cache \<Rightarrow> ServerEndpoints option" where
  "cache_get sid c = c sid"

definition cache_set :: "string \<Rightarrow> ServerEndpoints \<Rightarrow> endpoint_cache \<Rightarrow> endpoint_cache" where
  "cache_set sid e c = c(sid \<mapsto> e)"

definition cache_remove :: "string \<Rightarrow> endpoint_cache \<Rightarrow> endpoint_cache" where
  "cache_remove sid c = c(sid := None)"

record Manager =
  mg_backends :: "string \<Rightarrow> backend option"
  mg_containers :: "string \<Rightarrow> string option"
  mg_endpoints :: endpoint_cache
  mg_started :: "string list"
  mg_stopped :: "string list"

definition NewManager :: Manager where
  "NewManager = \<lparr>mg_backends = Map.empty, mg_containers = Map.empty, mg_endpoints = Map.empty, mg_started = [], mg_stopped = []\<rparr>"

record ContainerConfig =
  cc_Name :: string
  cc_Image :: string
  cc_Entrypoint :: "string list"
  cc_Command :: "string list"
  cc_Env :: string_map
  cc_Port :: int

text \<open>
  Docker, the builder and the OAuth client. An operation that can only fail gives \<open>None\<close> when it succeeds. \<open>dk_repo\<close>
  is the clone of a git repository: an error, or whether the checkout has a Dockerfile.
\<close>

record docker =
  dk_ImageExists :: "string \<Rightarrow> bool"
  dk_EnsureImage :: "string \<Rightarrow> string option"
  dk_PullImage :: "string \<Rightarrow> string option"
  dk_StartContainer :: "ContainerConfig \<Rightarrow> string + string"
  dk_AttachStdio :: "string \<Rightarrow> string option"
  dk_GetHostPort :: "string \<Rightarrow> int \<Rightarrow> string + string"
  dk_GenerateDockerfile :: "string \<Rightarrow> string \<Rightarrow> string \<Rightarrow> string \<Rightarrow> string \<Rightarrow> string + string"
  dk_BuildImage :: "string \<Rightarrow> string \<Rightarrow> bool \<Rightarrow> string option"
  dk_BuildContext :: "string \<Rightarrow> bool \<Rightarrow> string option"
  dk_tempdir :: "string option"
  dk_repo :: "string list \<Rightarrow> string + bool"
  dk_HasTokens :: "string \<Rightarrow> bool"
  dk_parse :: "string \<Rightarrow> parsed_url option"

text \<open>The database with its encryption, clock and faults.\<close>

record store_env =
  st_enc :: ConfigEncryptor
  st_io :: faults
  st_now :: time
  st_nonce :: "string option"

definition set_status :: "store_env \<Rightarrow> nat \<Rightarrow> string \<Rightarrow> string \<Rightarrow> string \<Rightarrow> relay_db \<Rightarrow> relay_db" where
  "set_status st n sid status err db = fst (ServerStore_UpdateStatus (after_stmts n (st_io st)) (st_now st) sid status err db)"

definition set_health :: "store_env \<Rightarrow> nat \<Rightarrow> string \<Rightarrow> string \<Rightarrow> string \<Rightarrow> relay_db \<Rightarrow> relay_db" where
  "set_health st n sid health err db = fst (ServerStore_UpdateHealth (after_stmts n (st_io st)) (st_now st) sid health err db)"

definition set_config :: "store_env \<Rightarrow> nat \<Rightarrow> string \<Rightarrow> string \<Rightarrow> relay_db \<Rightarrow> relay_db" where
  "set_config st n sid config db = fst (ServerStore_UpdateConfig (st_enc st) (after_stmts n (st_io st)) (st_now st) (st_nonce st) sid config db)"

section \<open>Images\<close>

definition validateGitURL :: "docker \<Rightarrow> string \<Rightarrow> string option" where
  "validateGitURL d rawURL =
     (case dk_parse d rawURL of
        None \<Rightarrow> Some ''malformed URL''
      | Some u \<Rightarrow>
          if pu_Scheme u \<noteq> ''https'' then Some ''only https:// git URLs are allowed''
          else if pu_Host u = [] then Some ''git URL must include a host''
          else None)"

definition clone_args :: "StdioBuildConfig \<Rightarrow> string list" where
  "clone_args b =
     [''clone'', ''--depth'', ''1''] @ (if bc_GitRef b \<noteq> [] then [''--branch'', bc_GitRef b] else []) @ [''--'', bc_GitURL b]"

definition built :: "store_env \<Rightarrow> Server \<Rightarrow> StdioConfig \<Rightarrow> string \<Rightarrow> relay_db \<Rightarrow> relay_db \<times> (string + StdioConfig)" where
  "built st srv cfg tag db =
     (let cfg1 = cfg\<lparr>sc_Image := tag\<rparr> in (set_config st 2 (sv_ID srv) (encode_stdio cfg1) db, Inr cfg1))"

definition build_failed :: "store_env \<Rightarrow> Server \<Rightarrow> string \<Rightarrow> string \<Rightarrow> relay_db \<Rightarrow> relay_db \<times> (string + StdioConfig)" where
  "build_failed st srv shown err db = (set_status st 1 (sv_ID srv) ''error'' shown db, Inl err)"

definition buildFromGitRepo ::
    "docker \<Rightarrow> store_env \<Rightarrow> Server \<Rightarrow> StdioConfig \<Rightarrow> StdioBuildConfig \<Rightarrow> string \<Rightarrow> bool \<Rightarrow> relay_db \<Rightarrow> relay_db \<times> (string + StdioConfig)" where
  "buildFromGitRepo d st srv cfg b tag noCache db =
     (case validateGitURL d (bc_GitURL b) of
        Some e \<Rightarrow> build_failed st srv (''Invalid git URL: '' @ e) ''invalid git URL'' db
      | None \<Rightarrow>
          (case dk_tempdir d of
             Some e \<Rightarrow> (db, Inl ''creating temp dir'')
           | None \<Rightarrow>
               (case dk_repo d (clone_args b) of
                  Inl output \<Rightarrow> build_failed st srv (''git clone failed: '' @ trim_space output) ''git clone failed'' db
                | Inr True \<Rightarrow>
                    (case dk_BuildContext d tag noCache of
                       Some e \<Rightarrow> build_failed st srv (''Image build failed: '' @ e) ''building image from context'' db
                     | None \<Rightarrow> built st srv cfg tag db)
                | Inr False \<Rightarrow>
                    (case dk_GenerateDockerfile d (bc_Runtime b) [] [] (bc_GitURL b) [] of
                       Inl e \<Rightarrow> build_failed st srv (''Dockerfile generation failed: '' @ e) ''generating Dockerfile'' db
                     | Inr dockerfile \<Rightarrow>
                         (case dk_BuildImage d dockerfile tag noCache of
                            Some e \<Rightarrow> build_failed st srv (''Image build failed: '' @ e) ''building image'' db
                          | None \<Rightarrow> built st srv cfg tag db)))))"

definition buildImageIfNeeded ::
    "docker \<Rightarrow> store_env \<Rightarrow> Server \<Rightarrow> StdioConfig \<Rightarrow> StdioBuildConfig \<Rightarrow> string \<Rightarrow> bool \<Rightarrow> relay_db \<Rightarrow> relay_db \<times> (string + StdioConfig)" where
  "buildImageIfNeeded d st srv cfg b tag force db =
     (if \<not> force \<and> dk_ImageExists d tag then (db, Inr cfg)
      else if bc_GitURL b \<noteq> [] \<and> bc_Package b = [] \<and> bc_Dockerfile b = [] then buildFromGitRepo d st srv cfg b tag force db
      else (case dk_GenerateDockerfile d (bc_Runtime b) (bc_Package b) (bc_Version b) (bc_GitURL b) (bc_Dockerfile b) of
        Inl e \<Rightarrow> build_failed st srv (''Dockerfile generation failed: '' @ e) ''generating Dockerfile'' db
      | Inr dockerfile \<Rightarrow>
          (case dk_BuildImage d dockerfile tag force of
             Some e \<Rightarrow> build_failed st srv (''Image build failed: '' @ e) ''building image'' db
           | None \<Rightarrow> built st srv cfg tag db)))"

definition RebuildImage :: "docker \<Rightarrow> store_env \<Rightarrow> Server \<Rightarrow> relay_db \<Rightarrow> relay_db \<times> string option" where
  "RebuildImage d st srv db =
     (if sv_ServerType srv \<noteq> ''stdio'' then (db, Some ''rebuild is only supported for stdio servers'')
      else (case decode_stdio (sv_Config srv) of
        None \<Rightarrow> (db, Some ''parsing stdio config'')
      | Some cfg \<Rightarrow>
          (case sc_Build cfg of
             None \<Rightarrow> (db, Some ''server has no build config'')
           | Some b \<Rightarrow>
               (case buildImageIfNeeded d st srv cfg b (BuildImageTag b) True db of
                  (db1, Inl e) \<Rightarrow> (db1, Some e)
                | (db1, Inr _) \<Rightarrow> (db1, None)))))"

section \<open>Starting and stopping\<close>

text \<open>
  The state an operation works on: the manager and the database. Statements: 0 records \<open>starting\<close>, 1 and 2 are those of the build,
  3 records the outcome; stopping uses 4 and 5, reading the server again 6.
\<close>

type_synonym servers_state = "Manager \<times> relay_db"

definition fail_start :: "store_env \<Rightarrow> string \<Rightarrow> string \<Rightarrow> string \<Rightarrow> servers_state \<Rightarrow> servers_state \<times> string option" where
  "fail_start st sid shown err = (\<lambda>(m, db). ((m, set_status st 3 sid ''error'' shown db), Some err))"

definition running :: "store_env \<Rightarrow> string \<Rightarrow> backend \<Rightarrow> servers_state \<Rightarrow> servers_state \<times> string option" where
  "running st sid b = (\<lambda>(m, db). ((m\<lparr>mg_backends := (mg_backends m)(sid \<mapsto> b)\<rparr>, set_status st 3 sid ''running'' [] db), None))"

definition start_container :: "docker \<Rightarrow> ContainerConfig \<Rightarrow> Manager \<Rightarrow> Manager \<times> (string + string)" where
  "start_container d c m =
     (case dk_StartContainer d c of Inl e \<Rightarrow> (m, Inl e) | Inr cid \<Rightarrow> (m\<lparr>mg_started := mg_started m @ [cid]\<rparr>, Inr cid))"

definition stop_container :: "string \<Rightarrow> Manager \<Rightarrow> Manager" where
  "stop_container cid m = m\<lparr>mg_stopped := mg_stopped m @ [cid]\<rparr>"

definition startStdio :: "docker \<Rightarrow> store_env \<Rightarrow> Server \<Rightarrow> servers_state \<Rightarrow> servers_state \<times> string option" where
  "startStdio d st srv = (\<lambda>(m, db).
     case decode_stdio (sv_Config srv) of
       None \<Rightarrow> ((m, db), Some ''parsing stdio config'')
     | Some cfg \<Rightarrow>
         let sid = sv_ID srv; db1 = set_status st 0 sid ''starting'' [] db in
         (case (case sc_Build cfg of
                  None \<Rightarrow> (db1, Inr cfg)
                | Some b \<Rightarrow>
                    let tag = BuildImageTag b in
                    buildImageIfNeeded d st srv (if sc_Image cfg = [] then cfg\<lparr>sc_Image := tag\<rparr> else cfg) b tag False db1) of
            (db2, Inl e) \<Rightarrow> ((m, db2), Some e)
          | (db2, Inr cfg1) \<Rightarrow>
              (case dk_EnsureImage d (sc_Image cfg1) of
                 Some e \<Rightarrow> fail_start st sid e ''pulling image'' (m, db2)
               | None \<Rightarrow>
                   (case start_container d \<lparr>cc_Name = sv_Name srv, cc_Image = sc_Image cfg1, cc_Entrypoint = sc_Entrypoint cfg1,
                           cc_Command = sc_Command cfg1, cc_Env = sc_Env cfg1, cc_Port = 0\<rparr> m of
                      (m1, Inl e) \<Rightarrow> fail_start st sid e ''starting container'' (m1, db2)
                    | (m1, Inr cid) \<Rightarrow>
                        (case dk_AttachStdio d cid of
                           Some e \<Rightarrow> fail_start st sid e ''attaching to container'' (stop_container cid m1, db2)
                         | None \<Rightarrow>
                             running st sid (StdioBackend cid) (m1\<lparr>mg_containers := (mg_containers m1)(sid \<mapsto> cid)\<rparr>, db2))))))"

definition startHTTP :: "docker \<Rightarrow> store_env \<Rightarrow> Server \<Rightarrow> servers_state \<Rightarrow> servers_state \<times> string option" where
  "startHTTP d st srv = (\<lambda>(m, db).
     case decode_http (sv_Config srv) of
       None \<Rightarrow> ((m, db), Some ''parsing http config'')
     | Some cfg \<Rightarrow>
         let sid = sv_ID srv in
         if hc_URL cfg \<noteq> [] then running st sid (HTTPBackend (hc_URL cfg)) (m, db)
         else
           let db1 = set_status st 0 sid ''starting'' [] db in
           (case dk_EnsureImage d (hc_Image cfg) of
              Some e \<Rightarrow> fail_start st sid e ''pulling image'' (m, db1)
            | None \<Rightarrow>
                (case start_container d \<lparr>cc_Name = sv_Name srv, cc_Image = hc_Image cfg, cc_Entrypoint = [], cc_Command = [],
                        cc_Env = hc_Env cfg, cc_Port = hc_Port cfg\<rparr> m of
                   (m1, Inl e) \<Rightarrow> fail_start st sid e ''starting container'' (m1, db1)
                 | (m1, Inr cid) \<Rightarrow>
                     (case dk_GetHostPort d cid (hc_Port cfg) of
                        Inl e \<Rightarrow> fail_start st sid e ''getting host port'' (stop_container cid m1, db1)
                      | Inr port \<Rightarrow>
                          running st sid (HTTPBackend (''http://127.0.0.1:'' @ port))
                            (m1\<lparr>mg_containers := (mg_containers m1)(sid \<mapsto> cid)\<rparr>, db1)))))"

definition startRemote :: "docker \<Rightarrow> store_env \<Rightarrow> Server \<Rightarrow> servers_state \<Rightarrow> servers_state \<times> string option" where
  "startRemote d st srv = (\<lambda>(m, db).
     case decode_remote (sv_Config srv) of
       None \<Rightarrow> ((m, db), Some ''parsing remote config'')
     | Some cfg \<Rightarrow>
         if ra_Type (rc_Auth cfg) = ''oauth'' \<and> ra_AccessToken (rc_Auth cfg) = [] \<and> \<not> dk_HasTokens d (sv_ID srv) then
           fail_start st (sv_ID srv) ''OAuth not yet authorized'' ''OAuth not yet authorized for server'' (m, db)
         else running st (sv_ID srv) (RemoteBackend (sv_ID srv) cfg) (m, db))"

definition StartServer :: "docker \<Rightarrow> store_env \<Rightarrow> Server \<Rightarrow> servers_state \<Rightarrow> servers_state \<times> string option" where
  "StartServer d st srv = (\<lambda>(m, db).
     if mg_backends m (sv_ID srv) \<noteq> None then ((m, db), Some ''server is already running'')
     else if sv_ServerType srv = ''stdio'' then startStdio d st srv (m, db)
     else if sv_ServerType srv = ''http'' then startHTTP d st srv (m, db)
     else if sv_ServerType srv = ''remote'' then startRemote d st srv (m, db)
     else ((m, db), Some ''unknown server type''))"

definition RetryServer :: "docker \<Rightarrow> store_env \<Rightarrow> Server \<Rightarrow> servers_state \<Rightarrow> servers_state \<times> string option" where
  "RetryServer d st srv = (\<lambda>(m, db). StartServer d st srv (m\<lparr>mg_backends := (mg_backends m)(sv_ID srv := None)\<rparr>, db))"

definition StopServer :: "store_env \<Rightarrow> string \<Rightarrow> servers_state \<Rightarrow> servers_state" where
  "StopServer st sid = (\<lambda>(m, db).
     let m1 = m\<lparr>mg_backends := (mg_backends m)(sid := None), mg_endpoints := cache_remove sid (mg_endpoints m)\<rparr>;
         m2 = (case mg_containers m1 sid of
                 None \<Rightarrow> m1
               | Some cid \<Rightarrow> (stop_container cid m1)\<lparr>mg_containers := (mg_containers m1)(sid := None)\<rparr>) in
     (m2, set_health st 5 sid ''unknown'' [] (set_status st 4 sid ''stopped'' [] db)))"

definition restart_updated :: "docker \<Rightarrow> store_env \<Rightarrow> string \<Rightarrow> servers_state \<Rightarrow> servers_state \<times> string option" where
  "restart_updated d st sid s =
     (let (m, db) = StopServer st sid s in
      case ServerStore_Get (st_enc st) (after_stmts 6 (st_io st)) sid db of
        Inr (Some updated) \<Rightarrow> StartServer d st updated (m, db)
      | _ \<Rightarrow> ((m, db), Some ''failed to refresh server''))"

definition RecreateContainer :: "docker \<Rightarrow> store_env \<Rightarrow> Server \<Rightarrow> servers_state \<Rightarrow> servers_state \<times> string option" where
  "RecreateContainer d st srv s = restart_updated d st (sv_ID srv) s"

definition RebuildAndRestart :: "docker \<Rightarrow> store_env \<Rightarrow> Server \<Rightarrow> servers_state \<Rightarrow> servers_state \<times> string option" where
  "RebuildAndRestart d st srv = (\<lambda>(m, db).
     case RebuildImage d st srv db of
       (db1, Some e) \<Rightarrow> ((m, db1), Some ''rebuild failed'')
     | (db1, None) \<Rightarrow> restart_updated d st (sv_ID srv) (m, db1))"

definition serverImageRef :: "Server \<Rightarrow> string" where
  "serverImageRef srv =
     (if sv_ServerType srv = ''stdio'' then (case decode_stdio (sv_Config srv) of Some c \<Rightarrow> sc_Image c | None \<Rightarrow> [])
      else if sv_ServerType srv = ''http'' then
        (case decode_http (sv_Config srv) of Some c \<Rightarrow> if hc_URL c = [] then hc_Image c else [] | None \<Rightarrow> [])
      else [])"

definition PullAndRecreateContainer :: "docker \<Rightarrow> store_env \<Rightarrow> Server \<Rightarrow> servers_state \<Rightarrow> servers_state \<times> string option" where
  "PullAndRecreateContainer d st srv s =
     (if serverImageRef srv = [] then (s, Some ''server has no Docker image configured'')
      else (case dk_PullImage d (serverImageRef srv) of
        Some e \<Rightarrow> (s, Some ''pulling image'')
      | None \<Rightarrow> RecreateContainer d st srv s))"

text \<open>The variant that reports its progress; the messages are the third result.\<close>

definition RecreateWithProgress ::
    "docker \<Rightarrow> store_env \<Rightarrow> Server \<Rightarrow> bool \<Rightarrow> servers_state \<Rightarrow> servers_state \<times> string option \<times> string list" where
  "RecreateWithProgress d st srv pull s =
     (let image = serverImageRef srv in
      if pull \<and> image = [] then (s, Some ''server has no Docker image configured'', [])
      else if pull \<and> dk_PullImage d image \<noteq> None then (s, Some ''pulling image'', [''Pulling latest image: '' @ image])
      else
        let msgs = (if pull then [''Pulling latest image: '' @ image, ''Image pulled successfully''] else []) @ [''Stopping container...''];
            (m, db) = StopServer st (sv_ID srv) s in
        (case ServerStore_Get (st_enc st) (after_stmts 6 (st_io st)) (sv_ID srv) db of
           Inr (Some updated) \<Rightarrow>
             (case StartServer d st updated (m, db) of (s1, err) \<Rightarrow> (s1, err, msgs @ [''Starting new container...'']))
         | _ \<Rightarrow> ((m, db), Some ''failed to refresh server'', msgs)))"

text \<open>\<open>ids\<close> are the keys of the backends in the order the runtime visits them.\<close>

definition StopAll :: "store_env \<Rightarrow> string list \<Rightarrow> servers_state \<Rightarrow> servers_state" where
  "StopAll st ids s = fold (StopServer st) ids s"

section \<open>Enumeration\<close>

definition endpoint_infos :: "ServerEndpoints \<Rightarrow> EndpointInfo list" where
  "endpoint_infos e =
     map (\<lambda>t. \<lparr>ei_Type = ''tool'', ei_Name = tl_Name t, ei_Description = tl_Description t\<rparr>) (se_Tools e) @
     map (\<lambda>r. \<lparr>ei_Type = ''resource'', ei_Name = re_URI r, ei_Description = re_Description r\<rparr>) (se_Resources e) @
     map (\<lambda>p. \<lparr>ei_Type = ''prompt'', ei_Name = pt_Name p, ei_Description = pt_Description p\<rparr>) (se_Prompts e)"

definition syncAccessTiers :: "faults \<Rightarrow> string \<Rightarrow> ServerEndpoints \<Rightarrow> relay_db \<Rightarrow> relay_db" where
  "syncAccessTiers io sid e db = AccessStore_SyncAfterEnumerate ClassifyEndpoint io sid (endpoint_infos e) db"

text \<open>
  \<open>send\<close> is the way to a backend, \<open>io\<close> the faults of the tier synchronisation, \<open>iop\<close> those of the staleness check.
  \<open>Panic\<close>: the handler or the goroutine of a background enumeration dies with a nil dereference.
\<close>

definition EnumerateServer ::
    "(backend \<Rightarrow> sender) \<Rightarrow> crypto \<Rightarrow> faults \<Rightarrow> faults \<Rightarrow> time \<Rightarrow> string \<Rightarrow> servers_state \<times> opt_table \<Rightarrow>
     (servers_state \<times> opt_table) \<times> (ServerEndpoints \<times> string option) outcome" where
  "EnumerateServer send cr io iop now sid = (\<lambda>((m, db), opts).
     case mg_backends m sid of
       None \<Rightarrow> (((m, db), opts), Failed ''server not running'')
     | Some b \<Rightarrow>
         (case Enumerate (send b) of
            None \<Rightarrow> (((m, db), opts), Panic)
          | Some (e, err) \<Rightarrow>
              let m1 = m\<lparr>mg_endpoints := cache_set sid e (mg_endpoints m)\<rparr>;
                  db1 = syncAccessTiers io sid e db;
                  opts1 = (if se_Tools e \<noteq> [] then fst (OptimizeStore_MarkStale iop now sid (HashTools cr (se_Tools e)) opts) else opts) in
              (((m1, db1), opts1), Done (e, err))))"

section \<open>Containers\<close>

text \<open>
  Every container that was started is tracked or was told to stop, and tracked containers belong to running backends.
\<close>

definition leak_free :: "Manager \<Rightarrow> bool" where
  "leak_free m \<longleftrightarrow> (\<forall>cid \<in> set (mg_started m). cid \<in> set (mg_stopped m) \<or> (\<exists>sid. mg_containers m sid = Some cid)) \<and>
     (\<forall>sid. mg_backends m sid = None \<longrightarrow> mg_containers m sid = None)"

text \<open>What a start can do to the manager: nothing, a container that is stopped again, a backend without or with a container.\<close>

inductive start_effect :: "string \<Rightarrow> Manager \<Rightarrow> Manager \<Rightarrow> bool" for sid m where
  nothing: "start_effect sid m m"
| stopped_again: "start_effect sid m (stop_container cid (m\<lparr>mg_started := mg_started m @ [cid]\<rparr>))"
| connected: "start_effect sid m (m\<lparr>mg_backends := (mg_backends m)(sid \<mapsto> b)\<rparr>)"
| contained: "start_effect sid m (m\<lparr>mg_started := mg_started m @ [cid], mg_containers := (mg_containers m)(sid \<mapsto> cid),
    mg_backends := (mg_backends m)(sid \<mapsto> b)\<rparr>)"

lemma startStdio_effect: "start_effect (sv_ID srv) m (fst (fst (startStdio d st srv (m, db))))"
  by (simp add: startStdio_def fail_start_def running_def start_container_def Let_def start_effect.intros
      split: option.split sum.split prod.split)

lemma startHTTP_effect: "start_effect (sv_ID srv) m (fst (fst (startHTTP d st srv (m, db))))"
  by (simp add: startHTTP_def fail_start_def running_def start_container_def Let_def start_effect.intros
      split: option.split sum.split prod.split)

lemma startRemote_effect: "start_effect (sv_ID srv) m (fst (fst (startRemote d st srv (m, db))))"
  by (simp add: startRemote_def fail_start_def running_def Let_def start_effect.intros split: option.split)

lemma StartServer_effect:
  "start_effect (sv_ID srv) m (fst (fst (StartServer d st srv (m, db))))"
  "mg_backends m (sv_ID srv) \<noteq> None \<Longrightarrow> fst (fst (StartServer d st srv (m, db))) = m"
  by (simp_all add: StartServer_def startStdio_effect startHTTP_effect startRemote_effect start_effect.nothing)

lemma start_effect_leak_free:
  assumes "start_effect sid m m'" "leak_free m" "mg_containers m sid = None"
  shows "leak_free m'"
  using assms
proof (induction rule: start_effect.induct)
  case (contained b cid)
  have "\<exists>sid'. ((mg_containers m)(sid \<mapsto> cid)) sid' = Some c" if "mg_containers m sid' = Some c" for sid' c
    using that contained(2) by (intro exI [of _ sid']) auto
  moreover have "\<exists>sid'. ((mg_containers m)(sid \<mapsto> cid)) sid' = Some cid" by (intro exI [of _ sid]) simp
  moreover from contained(1) have "c \<in> set (mg_stopped m) \<or> (\<exists>sid. mg_containers m sid = Some c)" if "c \<in> set (mg_started m)" for c
    using that by (simp add: leak_free_def)
  ultimately have "\<forall>c \<in> set (mg_started m @ [cid]). c \<in> set (mg_stopped m) \<or> (\<exists>sid'. ((mg_containers m)(sid \<mapsto> cid)) sid' = Some c)"
    by (metis Un_iff empty_iff insert_iff list.set set_append)
  moreover from contained(1) have "\<forall>i. ((mg_backends m)(sid \<mapsto> b)) i = None \<longrightarrow> ((mg_containers m)(sid \<mapsto> cid)) i = None"
    by (simp add: leak_free_def)
  ultimately show ?case unfolding leak_free_def by (simp del: fun_upd_apply)
qed (simp_all add: leak_free_def stop_container_def)

lemma StartServer_leak_free: "leak_free m \<Longrightarrow> leak_free (fst (fst (StartServer d st srv (m, db))))"
proof (cases "mg_backends m (sv_ID srv)")
  case None
  assume lf: "leak_free m"
  with None have "mg_containers m (sv_ID srv) = None" by (simp add: leak_free_def)
  with lf StartServer_effect(1) show ?thesis by (blast intro: start_effect_leak_free)
qed (simp add: StartServer_effect)

lemma StopServer_leak_free: "leak_free m \<Longrightarrow> leak_free (fst (StopServer st sid (m, db)))"
  by (auto simp: StopServer_def Let_def leak_free_def stop_container_def split: option.split) (metis option.inject)+

lemma restart_leak_free: "leak_free (fst s) \<Longrightarrow> leak_free (fst (fst (restart_updated d st sid s)))"
proof -
  assume lf: "leak_free (fst s)"
  obtain m db where stop: "StopServer st sid s = (m, db)" by fastforce
  with lf have "leak_free m" using StopServer_leak_free [of "fst s" st sid "snd s"] by simp
  then show ?thesis by (simp add: restart_updated_def stop StartServer_leak_free split: sum.split option.split)
qed

text \<open>
  Any mix of operations on the manager, with any change of the database in between. A retry is made for servers without
  containers; the way a backend answers, docker, the clock and the faults may differ from step to step.
\<close>

inductive manager_step :: "servers_state \<Rightarrow> servers_state \<Rightarrow> bool" where
  store: "manager_step (m, db) (m, db')"
| start: "manager_step s (fst (StartServer d st srv s))"
| stop: "manager_step s (StopServer st sid s)"
| retry: "mg_containers (fst s) (sv_ID srv) = None \<Longrightarrow> manager_step s (fst (RetryServer d st srv s))"
| recreate: "manager_step s (fst (RecreateContainer d st srv s))"
| pull: "manager_step s (fst (PullAndRecreateContainer d st srv s))"
| progress: "manager_step s (fst (RecreateWithProgress d st srv b s))"
| rebuild: "manager_step s (fst (RebuildAndRestart d st srv s))"
| enumerate_step: "manager_step s (fst (fst (EnumerateServer send cr io iop now sid (s, opts))))"

lemma progress_recreates: "fst (RecreateWithProgress d st srv b s) \<in> {s, fst (RecreateContainer d st srv s)}"
  by (auto simp: RecreateWithProgress_def RecreateContainer_def restart_updated_def Let_def split: prod.split sum.split option.split)

lemma manager_step_leak_free:
  assumes "manager_step s s'" "leak_free (fst s)"
  shows "leak_free (fst s')"
  using assms
proof (induction rule: manager_step.induct)
  case (start s d st srv)
  then show ?case using StartServer_leak_free [of "fst s" d st srv "snd s"] by simp
next
  case (stop s st sid)
  then show ?case using StopServer_leak_free [of "fst s" st sid "snd s"] by simp
next
  case (retry s srv d st)
  then have "leak_free ((fst s)\<lparr>mg_backends := (mg_backends (fst s))(sv_ID srv := None)\<rparr>)" by (simp add: leak_free_def)
  then show ?case using StartServer_leak_free by (simp add: RetryServer_def case_prod_beta)
next
  case (progress s d st srv b)
  with progress_recreates [of d st srv b s] restart_leak_free [of s d st "sv_ID srv"] show ?case by (auto simp: RecreateContainer_def)
next
  case (rebuild s d st srv)
  then show ?case by (simp add: RebuildAndRestart_def case_prod_beta restart_leak_free split: option.split)
next
  case (enumerate_step s send cr io iop now sid opts)
  then show ?case by (simp add: EnumerateServer_def case_prod_beta Let_def leak_free_def split: option.split)
qed (simp_all add: RecreateContainer_def PullAndRecreateContainer_def restart_leak_free split: option.split)

lemma manager_steps_leak_free: "manager_step\<^sup>*\<^sup>* (NewManager, db0) s \<Longrightarrow> leak_free (fst s)"
  by (induction rule: rtranclp_induct) (simp add: leak_free_def NewManager_def, blast intro: manager_step_leak_free)

lemma StopAll_stops:
  "mg_started (fst (StopAll st ids (m, db))) = mg_started m \<and> set (mg_stopped m) \<subseteq> set (mg_stopped (fst (StopAll st ids (m, db)))) \<and>
   (\<forall>sid cid. mg_containers m sid = Some cid \<longrightarrow> sid \<in> set ids \<longrightarrow> cid \<in> set (mg_stopped (fst (StopAll st ids (m, db)))))"
proof (induction ids arbitrary: m db)
  case (Cons i ids)
  obtain m1 db1 where s: "StopServer st i (m, db) = (m1, db1)" by fastforce
  have m1: "mg_started m1 = mg_started m" "set (mg_stopped m) \<subseteq> set (mg_stopped m1)"
    "\<forall>cid. mg_containers m i = Some cid \<longrightarrow> cid \<in> set (mg_stopped m1)" "\<forall>sid. sid \<noteq> i \<longrightarrow> mg_containers m1 sid = mg_containers m sid"
    using s by (auto simp: StopServer_def Let_def stop_container_def split: option.splits)
  have run: "StopAll st (i # ids) (m, db) = StopAll st ids (m1, db1)" by (simp add: StopAll_def s)
  show ?case unfolding run
  proof (intro conjI allI impI)
    fix sid cid assume c: "mg_containers m sid = Some cid" "sid \<in> set (i # ids)"
    show "cid \<in> set (mg_stopped (fst (StopAll st ids (m1, db1))))"
      using Cons.IH [of m1 db1] m1 c by (cases "sid = i") auto
  qed (use Cons.IH [of m1 db1] m1 in auto)
qed (simp add: StopAll_def)

text \<open>The shutdown tells every container that was ever started and not stopped before to stop.\<close>

lemma leak_free_StopAll:
  assumes lf: "leak_free m" and ids: "set ids = dom (mg_backends m)"
  shows "set (mg_started (fst (StopAll st ids (m, db)))) \<subseteq> set (mg_stopped (fst (StopAll st ids (m, db))))"
proof
  fix cid assume "cid \<in> set (mg_started (fst (StopAll st ids (m, db))))"
  with StopAll_stops [of st ids m db] have "cid \<in> set (mg_started m)" by simp
  with lf consider "cid \<in> set (mg_stopped m)" | sid where "mg_containers m sid = Some cid"
    by (auto simp: leak_free_def)
  then show "cid \<in> set (mg_stopped (fst (StopAll st ids (m, db))))"
  proof cases
    case 2
    with lf ids have "sid \<in> set ids" by (metis domIff leak_free_def option.distinct(1))
    with StopAll_stops [of st ids m db] 2 show ?thesis by blast
  qed (use StopAll_stops [of st ids m db] in blast)
qed

section \<open>Failing enumerations\<close>

lemma sync_nothing: "tier_of (AccessStore_SyncAfterEnumerate classify no_faults sid [] db) sid ty nm = None"
proof -
  have ns: "after_stmts n no_faults = no_faults" for n by (simp add: after_stmts_def)
  show ?thesis
  proof (cases "tier_of db sid ty nm")
    case None
    then show ?thesis
      by (simp add: AccessStore_SyncAfterEnumerate_def Let_def ns AccessStore_GetAllTiers_def sync_deletes_row)
  next
    case (Some t)
    from sql_row_SomeD [OF this] have "\<exists>t \<in> set (db_tiers db). et_ServerID t = sid \<and> et_EndpointType t = ty \<and> et_EndpointName t = nm"
      by (auto simp: tier_key_def)
    then show ?thesis
      by (auto simp: AccessStore_SyncAfterEnumerate_def Let_def ns AccessStore_GetAllTiers_def sync_deletes_row)
  qed
qed

text \<open>
  C37. A server that does not answer \<open>initialize\<close> once loses every tier of its endpoints, those set by an administrator
  included: the error is only logged, and the tiers are synchronised with the empty list of endpoints it
  left. From then on each endpoint counts as \<open>write\<close>, and the next enumeration classifies it by its name.
\<close>

theorem failed_enumeration_wipes_tiers:
  assumes "mg_backends m sid = Some b" "send b (NewRequest (Some ''1'') ''initialize'' (Some init_params)) = Inl err"
  shows "\<exists>m' db' opts' e. EnumerateServer send cr no_faults iop now sid ((m, db), opts) = (((m', db'), opts'), Done (e, Some err)) \<and>
    (\<forall>ty nm. AccessStore_GetTier no_faults sid ty nm db' = ''write'')"
proof -
  have "Enumerate (send b) = Some (no_endpoints\<lparr>se_Error := ''initialize failed: '' @ err\<rparr>, Some err)"
    by (simp add: Enumerate_def doInitialize_def ask_def assms(2))
  moreover have "endpoint_infos (no_endpoints\<lparr>se_Error := x\<rparr>) = []" for x by (simp add: endpoint_infos_def no_endpoints_def)
  moreover have "AccessStore_GetTier no_faults sid ty nm (AccessStore_SyncAfterEnumerate ClassifyEndpoint no_faults sid [] db) = ''write''" for ty nm
    using sync_nothing [where classify = ClassifyEndpoint and sid = sid and db = db and ty = ty and nm = nm] by (simp add: AccessStore_GetTier_def tier_matches_eta)
  ultimately show ?thesis using assms(1) by (simp add: EnumerateServer_def Let_def syncAccessTiers_def)
qed

text \<open>
  A stdio server that is stopped while it is being enumerated kills the enumerating goroutine: the closed bridge
  returns a nil response (\<open>closed_call_returns_nil\<close>), which is dereferenced.
\<close>

lemma enumerate_panics_on_nil: "send (NewRequest (Some ''1'') ''initialize'' (Some init_params)) = Inr None \<Longrightarrow> Enumerate send = None"
  by (simp add: Enumerate_def doInitialize_def ask_def)

section \<open>Examples\<close>

definition demo_docker :: docker where
  "demo_docker = \<lparr>dk_ImageExists = (\<lambda>_. True), dk_EnsureImage = (\<lambda>_. None), dk_PullImage = (\<lambda>_. None), dk_StartContainer = (\<lambda>_. Inr ''c1''),
     dk_AttachStdio = (\<lambda>_. None), dk_GetHostPort = (\<lambda>_ _. Inr ''80''), dk_GenerateDockerfile = (\<lambda>_ _ _ _ _. Inl []),
     dk_BuildImage = (\<lambda>_ _ _. None), dk_BuildContext = (\<lambda>_ _. None), dk_tempdir = None, dk_repo = (\<lambda>_. Inr True),
     dk_HasTokens = (\<lambda>_. False), dk_parse = (\<lambda>_. None)\<rparr>"

definition demo_store :: store_env where
  "demo_store = \<lparr>st_enc = None, st_io = no_faults, st_now = 1, st_nonce = None\<rparr>"

lemma demo_http_config: "decode_http ''{}'' = Some \<lparr>hc_Image = [], hc_Port = 0, hc_Env = [], hc_HealthCheck = [], hc_URL = []\<rparr>"
  by code_simp

theorem failed_enumeration_wipes_tiers_witness:
  "AccessStore_GetTier no_faults ''s1'' ''tool'' ''wipe'' demo_tier_db = ''admin'' \<and>
   (\<exists>s r. EnumerateServer (\<lambda>_ _. Inl ''down'') demo_crypto no_faults no_faults 1 ''s1''
      ((NewManager\<lparr>mg_backends := [''s1'' \<mapsto> HTTPBackend ''u'']\<rparr>, demo_tier_db), []) = (s, r) \<and>
      AccessStore_GetTier no_faults ''s1'' ''tool'' ''wipe'' (snd (fst s)) = ''write'')"
proof -
  have "AccessStore_GetTier no_faults ''s1'' ''tool'' ''wipe'' demo_tier_db = ''admin''"
    by (simp add: AccessStore_GetTier_def demo_tier_db_def demo_tier_def sql_row_def tier_matches_def tier_key_def empty_db_def)
  with failed_enumeration_wipes_tiers [of "NewManager\<lparr>mg_backends := [''s1'' \<mapsto> HTTPBackend ''u'']\<rparr>" "''s1''" "HTTPBackend ''u''"
      "\<lambda>_ _. Inl ''down''" "''down''" demo_crypto no_faults 1 demo_tier_db "[]"]
  show ?thesis by auto
qed

end
