(* ===== verification/Health_Monitor.thy ===== *)
theory Health_Monitor
  imports Proxy_Manager
begin

text \<open>
  The health monitor (\<open>internal/proxy/health.go\<close>): a tick probes every running server, marks it as failed after three
  probes in a row, and tries to recover failed servers. Recovery of a server without a container runs within the
  tick; that of a container runs in the background and is a step of its own that ends with its outcome. The
  clock of a tick is the one of its store environment.
\<close>

definition failThreshold :: nat where "failThreshold = 3"
definition recoveryCooldown :: time where "recoveryCooldown = 5 * minute"
definition maxRecoverAttempts :: nat where "maxRecoverAttempts = 3"

record HealthMonitor =
  hm_failCounts :: "string \<Rightarrow> nat"
  hm_lastRecover :: "string \<Rightarrow> time option"
  hm_recoverAttempts :: "string \<Rightarrow> nat"
  hm_recovering :: "string \<Rightarrow> bool"

definition NewHealthMonitor :: HealthMonitor where
  "NewHealthMonitor = \<lparr>hm_failCounts = (\<lambda>_. 0), hm_lastRecover = Map.empty, hm_recoverAttempts = (\<lambda>_. 0), hm_recovering = (\<lambda>_. False)\<rparr>"

definition resetFailCount :: "string \<Rightarrow> HealthMonitor \<Rightarrow> HealthMonitor" where
  "resetFailCount sid hm = hm\<lparr>hm_failCounts := (hm_failCounts hm)(sid := 0)\<rparr>"

definition ResetRecoveryState :: "string \<Rightarrow> HealthMonitor \<Rightarrow> HealthMonitor" where
  "ResetRecoveryState sid hm =
     hm\<lparr>hm_failCounts := (hm_failCounts hm)(sid := 0), hm_recoverAttempts := (hm_recoverAttempts hm)(sid := 0),
        hm_lastRecover := (hm_lastRecover hm)(sid := None)\<rparr>"

definition isStatelessServer :: "Server \<Rightarrow> bool" where
  "isStatelessServer srv =
     (if sv_ServerType srv = ''remote'' then True
      else if sv_ServerType srv = ''http'' then
        (case decode_http (sv_Config srv) of None \<Rightarrow> False | Some c \<Rightarrow> hc_URL c \<noteq> [])
      else False)"

text \<open>Any JSON-RPC answer counts, an error too; \<open>None\<close> is a probe that succeeds.\<close>

definition pingServer :: "sender \<Rightarrow> string option" where
  "pingServer send =
     (case send \<lparr>rq_JSONRPC = ''2.0'', rq_ID = Some ''999999'', rq_Method = ''ping'', rq_Params = None\<rparr> of
        Inl e \<Rightarrow> Some (''ping failed: '' @ e)
      | Inr None \<Rightarrow> Some ''no response to ping''
      | Inr (Some _) \<Rightarrow> None)"

definition CheckHealth :: "(backend \<Rightarrow> sender) \<Rightarrow> store_env \<Rightarrow> string \<Rightarrow> servers_state \<Rightarrow> servers_state \<times> string \<times> string" where
  "CheckHealth send st sid = (\<lambda>(m, db).
     case mg_backends m sid of
       None \<Rightarrow> ((m, db), ''unknown'', ''no backend available'')
     | Some b \<Rightarrow>
         (case pingServer (send b) of
            Some e \<Rightarrow> ((m, set_health st 0 sid ''unhealthy'' e db), ''unhealthy'', e)
          | None \<Rightarrow> ((m, set_health st 0 sid ''healthy'' [] db), ''healthy'', [])))"

definition checkRunning ::
    "(backend \<Rightarrow> sender) \<Rightarrow> store_env \<Rightarrow> Server \<Rightarrow> HealthMonitor \<times> servers_state \<Rightarrow> HealthMonitor \<times> servers_state" where
  "checkRunning send st srv = (\<lambda>(hm, m, db).
     let sid = sv_ID srv in
     case mg_backends m sid of
       None \<Rightarrow>
         (resetFailCount sid hm, m, set_health st 1 sid ''unknown'' [] (set_status st 0 sid ''stopped'' ''backend not found'' db))
     | Some b \<Rightarrow>
         (case pingServer (send b) of
            Some e \<Rightarrow>
              let count = hm_failCounts hm sid + 1;
                  hm1 = hm\<lparr>hm_failCounts := (hm_failCounts hm)(sid := count)\<rparr>;
                  db1 = set_health st 0 sid ''unhealthy'' e db in
              (hm1, m, if failThreshold \<le> count then set_status st 1 sid ''error'' e db1 else db1)
          | None \<Rightarrow> (resetFailCount sid hm, m, set_health st 0 sid ''healthy'' [] db)))"

text \<open>The guards of a recovery; \<open>None\<close>: no attempt is made.\<close>

definition claim_recovery :: "time \<Rightarrow> string \<Rightarrow> HealthMonitor \<Rightarrow> HealthMonitor option" where
  "claim_recovery now sid hm =
     (if hm_recovering hm sid then None
      else if (case hm_lastRecover hm sid of None \<Rightarrow> False | Some prev \<Rightarrow> now - prev < recoveryCooldown) then None
      else if maxRecoverAttempts \<le> hm_recoverAttempts hm sid then None
      else Some (hm\<lparr>hm_lastRecover := (hm_lastRecover hm)(sid \<mapsto> now),
                    hm_recoverAttempts := (hm_recoverAttempts hm)(sid := hm_recoverAttempts hm sid + 1)\<rparr>))"

text \<open>The third result says that a recovery of this server was started in the background.\<close>

definition tryRecover ::
    "docker \<Rightarrow> store_env \<Rightarrow> Server \<Rightarrow> HealthMonitor \<times> servers_state \<Rightarrow> (HealthMonitor \<times> servers_state) \<times> bool" where
  "tryRecover d st srv = (\<lambda>(hm, s).
     let sid = sv_ID srv in
     case claim_recovery (st_now st) sid hm of
       None \<Rightarrow> ((hm, s), False)
     | Some hm1 \<Rightarrow>
         if isStatelessServer srv then
           (case RetryServer d st srv s of
              (s1, Some _) \<Rightarrow> ((hm1, s1), False)
            | (s1, None) \<Rightarrow> ((ResetRecoveryState sid hm1, s1), False))
         else ((hm1\<lparr>hm_recovering := (hm_recovering hm1)(sid := True)\<rparr>, s), True))"

definition recover_container ::
    "docker \<Rightarrow> store_env \<Rightarrow> Server \<Rightarrow> HealthMonitor \<times> servers_state \<Rightarrow> HealthMonitor \<times> servers_state" where
  "recover_container d st srv = (\<lambda>(hm, s).
     case RecreateContainer d st srv s of
       (s1, err) \<Rightarrow>
         let hm1 = (if err = None then ResetRecoveryState (sv_ID srv) hm else hm) in
         (hm1\<lparr>hm_recovering := (hm_recovering hm1)(sv_ID srv := False)\<rparr>, s1))"

definition shift_store :: "nat \<Rightarrow> store_env \<Rightarrow> store_env" where
  "shift_store n st = st\<lparr>st_io := after_stmts n (st_io st)\<rparr>"

definition check_server ::
    "(backend \<Rightarrow> sender) \<Rightarrow> docker \<Rightarrow> store_env \<Rightarrow> Server \<Rightarrow> HealthMonitor \<times> servers_state \<Rightarrow> (HealthMonitor \<times> servers_state) \<times> bool" where
  "check_server send d st srv = (\<lambda>(hm, m, db).
     if sv_Status srv = ''running'' then (checkRunning send st srv (hm, m, db), False)
     else if sv_Status srv = ''error'' then tryRecover d st srv (hm, m, db)
     else if sv_Status srv = ''stopped'' \<and> sv_Health srv \<noteq> ''unknown'' then
       ((hm, m, set_health st 0 (sv_ID srv) ''unknown'' [] db), False)
     else ((hm, m, db), False))"

fun check_servers ::
    "(backend \<Rightarrow> sender) \<Rightarrow> docker \<Rightarrow> store_env \<Rightarrow> Server list \<Rightarrow> HealthMonitor \<times> servers_state \<Rightarrow> (HealthMonitor \<times> servers_state) \<times> Server list" where
  "check_servers send d st [] x = (x, [])"
| "check_servers send d st (srv # srvs) x =
     (let (x1, b) = check_server send d st srv x;
          (x2, rest) = check_servers send d (shift_store 10 st) srvs x1 in
      (x2, if b then srv # rest else rest))"

text \<open>One tick; the servers are those of one query at its start. The second result lists the recoveries it started.\<close>

definition checkAll ::
    "(backend \<Rightarrow> sender) \<Rightarrow> docker \<Rightarrow> store_env \<Rightarrow> HealthMonitor \<times> servers_state \<Rightarrow> (HealthMonitor \<times> servers_state) \<times> Server list" where
  "checkAll send d st x =
     (case ServerStore_List (st_enc st) (st_io st) (snd (snd x)) of
        Inl _ \<Rightarrow> (x, [])
      | Inr servers \<Rightarrow> check_servers send d (shift_store 1 st) servers x)"

section \<open>Restart storms\<close>

text \<open>What the monitor remembers of a server's recoveries.\<close>

definition recovery :: "string \<Rightarrow> HealthMonitor \<Rightarrow> nat \<times> time option \<times> bool" where
  "recovery sid hm = (hm_recoverAttempts hm sid, hm_lastRecover hm sid, hm_recovering hm sid)"

lemma claim_recovery_Some:
  "claim_recovery now i hm = Some hm1 \<longleftrightarrow>
     \<not> hm_recovering hm i \<and> (\<forall>l. hm_lastRecover hm i = Some l \<longrightarrow> l + recoveryCooldown \<le> now) \<and> hm_recoverAttempts hm i < maxRecoverAttempts \<and>
     hm1 = hm\<lparr>hm_lastRecover := (hm_lastRecover hm)(i \<mapsto> now), hm_recoverAttempts := (hm_recoverAttempts hm)(i := hm_recoverAttempts hm i + 1)\<rparr>"
  by (auto simp: claim_recovery_def split: option.splits)

lemma checkRunning_recovery: "recovery sid (fst (checkRunning send st srv x)) = recovery sid (fst x)"
  by (auto simp: checkRunning_def Let_def recovery_def resetFailCount_def split: prod.split option.split)

lemma tryRecover_other: "sv_ID srv \<noteq> sid \<Longrightarrow> recovery sid (fst (fst (tryRecover d st srv x))) = recovery sid (fst x)"
  by (auto simp: tryRecover_def Let_def recovery_def claim_recovery_Some ResetRecoveryState_def split: prod.split option.split)

text \<open>A tick starts at most one recovery of a server with a container, and only when the guards allow it.\<close>

definition claimed :: "time \<Rightarrow> string \<Rightarrow> HealthMonitor \<Rightarrow> HealthMonitor \<Rightarrow> bool" where
  "claimed now sid hm hm' \<longleftrightarrow> (\<exists>hm1. claim_recovery now sid hm = Some hm1) \<and> recovery sid hm' = (hm_recoverAttempts hm sid + 1, Some now, True)"

lemma tryRecover_container:
  assumes "\<not> isStatelessServer srv" "tryRecover d st srv (hm, s) = ((hm', s'), b)"
  shows "if b then claimed (st_now st) (sv_ID srv) hm hm' else recovery (sv_ID srv) hm' = recovery (sv_ID srv) hm"
  using assms by (auto simp: tryRecover_def Let_def claimed_def recovery_def claim_recovery_Some split: option.splits)

lemma tryRecover_blocked:
  assumes "hm_recovering hm (sv_ID srv)"
  shows "tryRecover d st srv (hm, s) = ((hm, s), False)"
  using assms by (simp add: tryRecover_def claim_recovery_def)

lemma shift_store_now [simp]: "st_now (shift_store n st) = st_now st" by (simp add: shift_store_def)

lemma check_server_container:
  assumes "sv_ID srv = sid \<longrightarrow> \<not> isStatelessServer srv" "check_server send d st srv (hm, s) = ((hm', s'), b)"
  shows "if sv_ID srv = sid \<and> b then claimed (st_now st) sid hm hm' else recovery sid hm' = recovery sid hm"
  using assms tryRecover_container [of srv d st hm s hm' s' b] tryRecover_other [of srv sid d st "(hm, s)"]
    checkRunning_recovery [of sid send st srv "(hm, s)"]
  by (cases "sv_ID srv = sid") (auto simp: check_server_def split: prod.splits if_splits)

lemma claimed_cong: "recovery sid hm = recovery sid hm1 \<Longrightarrow> claimed now sid hm hm' = claimed now sid hm1 hm'"
  by (simp add: claimed_def recovery_def claim_recovery_Some)

lemma claimed_blocks: "claimed now sid hm hm1 \<Longrightarrow> \<not> claimed now' sid hm1 hm'"
  by (simp add: claimed_def recovery_def claim_recovery_Some)

lemma claimed_then: "claimed now sid hm hm1 \<Longrightarrow> recovery sid hm' = recovery sid hm1 \<Longrightarrow> claimed now sid hm hm'"
  by (simp add: claimed_def)

lemma check_servers_container:
  assumes "\<forall>srv \<in> set srvs. sv_ID srv = sid \<longrightarrow> \<not> isStatelessServer srv" "check_servers send d st srvs (hm, s) = ((hm', s'), started)"
  shows "if sid \<in> sv_ID ` set started then claimed (st_now st) sid hm hm' else recovery sid hm' = recovery sid hm"
  using assms
proof (induction srvs arbitrary: st hm s started)
  case (Cons srv srvs)
  obtain hm1 s1 b where first: "check_server send d st srv (hm, s) = ((hm1, s1), b)" by (metis surj_pair)
  obtain rest where rest: "check_servers send d (shift_store 10 st) srvs (hm1, s1) = ((hm', s'), rest)"
    and started: "started = (if b then srv # rest else rest)"
    using Cons.prems(2) first by (auto split: prod.splits)
  have ih: "if sid \<in> sv_ID ` set rest then claimed (st_now st) sid hm1 hm' else recovery sid hm' = recovery sid hm1"
    using Cons.IH [OF _ rest] Cons.prems(1) unfolding shift_store_now by simp
  have one: "if sv_ID srv = sid \<and> b then claimed (st_now st) sid hm hm1 else recovery sid hm1 = recovery sid hm"
    using check_server_container [OF _ first] Cons.prems(1) by simp
  show ?case
  proof (cases "sv_ID srv = sid \<and> b")
    case True
    with one have c: "claimed (st_now st) sid hm hm1" by simp
    with ih claimed_blocks [OF c] have "recovery sid hm' = recovery sid hm1" by (simp split: if_splits)
    with c True started show ?thesis by (simp add: claimed_then)
  next
    case False
    with one have same: "recovery sid hm1 = recovery sid hm" by (simp only: if_False)
    from False have "sid \<in> sv_ID ` set started \<longleftrightarrow> sid \<in> sv_ID ` set rest" by (auto simp: started)
    with same ih claimed_cong [OF same] show ?thesis by (simp split: if_splits)
  qed
qed simp

text \<open>
  A server with a container between two successes: ticks at any clock and over any store, interleaved with recoveries that
  fail, and with recoveries of other servers. The log has the starts of its recoveries, the newest first.
\<close>

inductive container_run :: "string \<Rightarrow> HealthMonitor \<Rightarrow> time list \<Rightarrow> bool" for sid where
  new: "container_run sid NewHealthMonitor []"
| tick: "container_run sid hm starts \<Longrightarrow> ServerStore_List (st_enc st) (st_io st) (snd s) = Inr srvs \<Longrightarrow>
    \<forall>srv \<in> set srvs. sv_ID srv = sid \<longrightarrow> \<not> isStatelessServer srv \<Longrightarrow> checkAll send d st (hm, s) = ((hm', s'), started) \<Longrightarrow>
    container_run sid hm' (if sid \<in> sv_ID ` set started then st_now st # starts else starts)"
| failed: "container_run sid hm starts \<Longrightarrow> snd (RecreateContainer d st srv s) \<noteq> None \<Longrightarrow>
    container_run sid (fst (recover_container d st srv (hm, s))) starts"
| other: "container_run sid hm starts \<Longrightarrow> sv_ID srv \<noteq> sid \<Longrightarrow>
    container_run sid (fst (recover_container d st srv (hm, s))) starts"

definition starts_ok :: "string \<Rightarrow> HealthMonitor \<Rightarrow> time list \<Rightarrow> bool" where
  "starts_ok sid hm starts \<longleftrightarrow>
     hm_recoverAttempts hm sid = length starts \<and> hm_lastRecover hm sid = (if starts = [] then None else Some (hd starts)) \<and>
     length starts \<le> maxRecoverAttempts \<and> successively (\<lambda>b a. a + recoveryCooldown \<le> b) starts"

lemma starts_ok_claim:
  assumes "starts_ok sid hm starts" "claimed now sid hm hm'"
  shows "starts_ok sid hm' (now # starts)"
  using assms by (cases starts) (auto simp: starts_ok_def claimed_def recovery_def claim_recovery_Some)

lemma starts_ok_recovery:
  assumes "starts_ok sid hm starts" "hm_recoverAttempts hm' sid = hm_recoverAttempts hm sid" "hm_lastRecover hm' sid = hm_lastRecover hm sid"
  shows "starts_ok sid hm' starts"
  using assms by (simp add: starts_ok_def)

lemma container_run_starts_ok: "container_run sid hm starts \<Longrightarrow> starts_ok sid hm starts"
proof (induction rule: container_run.induct)
  case new
  show ?case by (simp add: starts_ok_def NewHealthMonitor_def)
next
  case (tick hm starts st s srvs send d hm' s' started)
  then have "check_servers send d (shift_store 1 st) srvs (hm, s) = ((hm', s'), started)" by (simp add: checkAll_def)
  from check_servers_container [OF tick.hyps(3) this] tick.IH show ?case
    by (auto simp: recovery_def intro: starts_ok_claim starts_ok_recovery)
next
  case (failed hm starts d st srv s)
  then show ?case
    by (intro starts_ok_recovery [OF failed.IH]) (auto simp: recover_container_def Let_def split: prod.split)
next
  case (other hm starts srv d st s)
  then show ?case
    by (intro starts_ok_recovery [OF other.IH]) (auto simp: recover_container_def Let_def ResetRecoveryState_def split: prod.split)
qed

text \<open>
  C19. However the ticks and the failing recoveries of a container server interleave, and whatever the database says in
  between, the monitor starts at most three recoveries of it, each at least five minutes after the one before.
\<close>

theorem recovery_starts_bounded:
  assumes "container_run sid hm starts"
  shows "length starts \<le> 3 \<and> successively (\<lambda>b a. a + 5 * minute \<le> b) starts"
  using container_run_starts_ok [OF assms] by (simp add: starts_ok_def maxRecoverAttempts_def recoveryCooldown_def)

text \<open>
  Recovery of a remote server that needs no OAuth token contacts nothing: whenever the guards let it start, it succeeds,
  writes the server back to running, and erases the attempt and the cooldown it was just charged. So the next attempt
  is free again however soon it comes, and the limit of three attempts is never reached.
\<close>

theorem stateless_recovery_resets:
  assumes "sv_ServerType srv = ''remote''" "decode_remote (sv_Config srv) = Some cfg" "ra_Type (rc_Auth cfg) \<noteq> ''oauth''"
    "claim_recovery (st_now st) (sv_ID srv) hm \<noteq> None"
  shows "\<exists>hm' s'. tryRecover d st srv (hm, s) = ((hm', s'), False) \<and>
           hm_recoverAttempts hm' (sv_ID srv) = 0 \<and> hm_lastRecover hm' (sv_ID srv) = None \<and>
           (\<forall>now. claim_recovery now (sv_ID srv) hm' \<noteq> None)"
proof -
  from assms(4) obtain hm1 where claim: "claim_recovery (st_now st) (sv_ID srv) hm = Some hm1" by blast
  then have idle: "\<not> hm_recovering hm1 (sv_ID srv)" by (auto simp: claim_recovery_Some)
  obtain s' where "RetryServer d st srv s = (s', None)"
    using assms(1-3) by (cases s) (auto simp: RetryServer_def StartServer_def startRemote_def running_def Let_def)
  with claim assms(1) have "tryRecover d st srv (hm, s) = ((ResetRecoveryState (sv_ID srv) hm1, s'), False)"
    by (simp add: tryRecover_def isStatelessServer_def)
  with idle show ?thesis
    by (auto simp: ResetRecoveryState_def claim_recovery_def maxRecoverAttempts_def intro!: exI [of _ "ResetRecoveryState (sv_ID srv) hm1"])
qed


definition failing_server :: Server where
  "failing_server = demo_server\<lparr>sv_ServerType := ''stdio'', sv_Status := ''error''\<rparr>"

theorem recovery_starts_bounded_witness:
  "\<exists>hm. container_run ''s1'' hm [1] \<and> length [1 :: time] \<le> 3"
proof -
  let ?db = "empty_db\<lparr>db_servers := [failing_server]\<rparr>"
  let ?hm = "fst (fst (tryRecover demo_docker demo_store failing_server (NewHealthMonitor, NewManager, ?db)))"
  have listed: "ServerStore_List (st_enc demo_store) (st_io demo_store) (snd (NewManager, ?db)) = Inr [failing_server]"
    by (simp add: ServerStore_List_def demo_store_def open_config_def Decrypt_def encryptedPrefix_def has_prefix_def failing_server_def
        demo_server_def sql_order_def)
  have r: "sv_ID failing_server = ''s1''" "sv_Status failing_server = ''error''" "\<not> isStatelessServer failing_server"
    by (simp_all add: failing_server_def demo_server_def isStatelessServer_def)
  have run: "tryRecover demo_docker (shift_store 1 demo_store) failing_server (NewHealthMonitor, NewManager, ?db) = ((?hm, NewManager, ?db), True)"
    unfolding tryRecover_def using r by (simp add: Let_def claim_recovery_def NewHealthMonitor_def maxRecoverAttempts_def)
  have "checkAll (\<lambda>_ _. Inl []) demo_docker demo_store (NewHealthMonitor, NewManager, ?db) = ((?hm, NewManager, ?db), [failing_server])"
    unfolding checkAll_def using listed run r by (simp add: check_server_def)
  from container_run.tick [OF container_run.new listed _ this, of "''s1''"] r
  have "container_run ''s1'' ?hm [1]" by (simp add: demo_store_def)
  with recovery_starts_bounded [OF this] show ?thesis by blast
qed

definition remote_server :: Server where
  "remote_server = demo_server\<lparr>sv_ServerType := ''remote'', sv_Status := ''error''\<rparr>"

lemma demo_remote_config: "\<exists>cfg. decode_remote ''{}'' = Some cfg \<and> ra_Type (rc_Auth cfg) \<noteq> ''oauth''"
  by (rule exI [of _ "the (decode_remote ''{}'')"]) code_simp

theorem stateless_recovery_resets_witness:
  "\<exists>hm' s'. tryRecover demo_docker demo_store remote_server (NewHealthMonitor, NewManager, empty_db) = ((hm', s'), False) \<and>
     (\<forall>now. claim_recovery now ''s1'' hm' \<noteq> None)"
proof -
  obtain cfg where cfg: "decode_remote ''{}'' = Some cfg" "ra_Type (rc_Auth cfg) \<noteq> ''oauth''" using demo_remote_config by blast
  have r: "sv_ServerType remote_server = ''remote''" "sv_Config remote_server = ''{}''" "sv_ID remote_server = ''s1''"
    by (simp_all add: remote_server_def demo_server_def)
  have "claim_recovery (st_now demo_store) (sv_ID remote_server) NewHealthMonitor \<noteq> None"
    by (simp add: claim_recovery_def NewHealthMonitor_def maxRecoverAttempts_def)
  from stateless_recovery_resets [OF r(1) cfg(1) [folded r(2)] cfg(2) this, of demo_docker "(NewManager, empty_db)"]
  show ?thesis unfolding r(3) by blast
qed

end
