(* ===== verification/Server_API.thy ===== *)
theory Server_API
  imports Health_Monitor OAuth_Provider
begin

text \<open>
  The REST interface to the servers (\<open>handleServers\<close> and \<open>handleServerByID\<close> of \<open>internal/server/http.go\<close> with the
  handlers they dispatch to). A handler takes the authenticated caller and the request and gives the new state and a
  reply: a status and the value that is encoded as its body. The stores that may be nil in tests are present. The
  background task of an optimisation is part of the reply that starts it, and a step of its own.
\<close>

section \<open>Replies\<close>

record ToolAudit =
  ta_ServerID :: string
  ta_ServerName :: string
  ta_ToolCount :: nat
  ta_OriginalChars :: nat
  ta_OptimizedChars :: nat
  ta_EstTokens :: nat
  ta_SavingsPercent :: rat
  ta_ToolsHash :: string
  ta_HasOptimized :: bool
  ta_IsStale :: bool
  ta_Status :: string
  ta_Tools :: "ToolStat list"

datatype api_body =
    ApiError string
  | ApiServers "Server list"
  | ApiServer Server
  | ApiEndpoints string ServerEndpoints
  | ApiHealth string string string time string
  | ApiAudit ToolAudit
  | ApiStatus string
  | ApiEnabled bool
  | ApiEmpty
  | ApiPanic

record api_reply =
  ar_Status :: nat
  ar_Body :: api_body
  ar_Task :: "(string \<times> Tool list) option"

definition reply_with :: "nat \<Rightarrow> api_body \<Rightarrow> api_reply" where
  "reply_with status body = \<lparr>ar_Status = status, ar_Body = body, ar_Task = None\<rparr>"

definition api_error :: "string \<Rightarrow> nat \<Rightarrow> api_reply" where
  "api_error msg status = reply_with status (ApiError msg)"

definition deny :: "denial \<Rightarrow> api_reply" where
  "deny d = api_error (snd d) (fst d)"

text \<open>
  \<open>ae_llm\<close>: the language model with its name, \<open>None\<close> when it is not configured. \<open>ae_time\<close> parses the JSON text
  of a time. \<open>ae_uuid\<close> and \<open>ae_gen\<close> are fresh identifiers.
\<close>

record api_env =
  ae_store :: store_env
  ae_docker :: docker
  ae_send :: "backend \<Rightarrow> sender"
  ae_crypto :: crypto
  ae_llm :: "(string \<times> (Tool list \<Rightarrow> string option)) option"
  ae_time :: "string \<Rightarrow> time option"
  ae_uuid :: string
  ae_gen :: "string option"

type_synonym api_state = "servers_state \<times> opt_table"

section \<open>Bodies\<close>

text \<open>A member of type \<open>time.Time\<close>; \<open>null\<close> changes nothing.\<close>

fun time_field :: "(string \<Rightarrow> time option) \<Rightarrow> time option \<Rightarrow> string list \<Rightarrow> time option \<times> bool" where
  "time_field ptime cur [] = (cur, True)"
| "time_field ptime cur (v # vs) =
     (if is_null v then time_field ptime cur vs
      else case ptime v of None \<Rightarrow> (cur, False) | Some t \<Rightarrow> time_field ptime (Some t) vs)"

text \<open>The pointer member is reset by \<open>null\<close>.\<close>

fun time_ptr_field :: "(string \<Rightarrow> time option) \<Rightarrow> time option \<Rightarrow> string list \<Rightarrow> time option \<times> bool" where
  "time_ptr_field ptime cur [] = (cur, True)"
| "time_ptr_field ptime cur (v # vs) =
     (if is_null v then time_ptr_field ptime None vs
      else case ptime v of None \<Rightarrow> (cur, False) | Some t \<Rightarrow> time_ptr_field ptime (Some t) vs)"

definition zero_time :: time where
  "zero_time = - 62135596800 * second"

definition or_zero :: "time option \<Rightarrow> time" where
  "or_zero t = (case t of None \<Rightarrow> zero_time | Some v \<Rightarrow> v)"

text \<open>A body without a configuration has the empty text there.\<close>

definition decode_server :: "(string \<Rightarrow> time option) \<Rightarrow> string option \<Rightarrow> Server option" where
  "decode_server ptime body =
     (case body_members body of
        None \<Rightarrow> None
      | Some kvs \<Rightarrow>
          (let str = (\<lambda>k. str_field [] (field_values k kvs));
               (opt, okb) = bool_field False (field_values ''optimize_enabled'' kvs);
               (checked, ok1) = time_ptr_field ptime None (field_values ''health_check_at'' kvs);
               (created, ok2) = time_field ptime None (field_values ''created_at'' kvs);
               (updated, ok3) = time_field ptime None (field_values ''updated_at'' kvs) in
           if okb \<and> ok1 \<and> ok2 \<and> ok3 \<and>
              list_all (\<lambda>k. snd (str k)) [''id'', ''name'', ''display_name'', ''server_type'', ''status'', ''error_msg'', ''health'', ''health_error'']
           then Some \<lparr>sv_ID = fst (str ''id''), sv_Name = fst (str ''name''), sv_DisplayName = fst (str ''display_name''),
             sv_ServerType = fst (str ''server_type''),
             sv_Config = (case raw_field (field_values ''config'' kvs) of None \<Rightarrow> [] | Some c \<Rightarrow> c), sv_Status = fst (str ''status''),
             sv_ErrorMsg = fst (str ''error_msg''), sv_Health = fst (str ''health''), sv_HealthCheckAt = checked,
             sv_HealthError = fst (str ''health_error''), sv_OptimizeEnabled = opt, sv_CreatedAt = or_zero created,
             sv_UpdatedAt = or_zero updated\<rparr>
           else None))"

definition decode_enabled :: "string option \<Rightarrow> bool option" where
  "decode_enabled body =
     (case body_members body of
        None \<Rightarrow> None
      | Some kvs \<Rightarrow> (let (b, ok) = bool_field False (field_values ''enabled'' kvs) in if ok then Some b else None))"

section \<open>Servers as a collection\<close>

definition listServers :: "api_env \<Rightarrow> auth_ctx \<Rightarrow> api_state \<Rightarrow> api_state \<times> api_reply" where
  "listServers env ctx = (\<lambda>((m, db), opts).
     let st = ae_store env in
     (((m, db), opts),
      (case ServerStore_List (st_enc st) (st_io st) db of
         Inl _ \<Rightarrow> api_error ''failed to list servers'' 500
       | Inr allServers \<Rightarrow>
           reply_with 200 (ApiServers
             (case cx_User ctx of
                None \<Rightarrow> allServers
              | Some user \<Rightarrow>
                  if u_Role user = ''admin'' then allServers
                  else (case u_ProfileID user of
                    None \<Rightarrow> []
                  | Some p \<Rightarrow>
                      (case ProfileStore_ServerIDsForProfile (after_stmts 1 (st_io st)) p db of
                         Inl _ \<Rightarrow> []
                       | Inr allowed \<Rightarrow> filter (\<lambda>s. sv_ID s \<in> allowed) allServers)))))))"

definition createServer :: "api_env \<Rightarrow> auth_ctx \<Rightarrow> http_request \<Rightarrow> api_state \<Rightarrow> api_state \<times> api_reply" where
  "createServer env ctx r = (\<lambda>((m, db), opts).
     let st = ae_store env; same = (\<lambda>rep. (((m, db), opts), rep)) in
     case requireAdminAccess ctx of
       Some d \<Rightarrow> same (deny d)
     | None \<Rightarrow>
         (case decode_server (ae_time env) (hr_Body r) of
            None \<Rightarrow> same (api_error ''invalid request body'' 400)
          | Some srv \<Rightarrow>
              if sv_Name srv = [] \<or> sv_DisplayName srv = [] \<or> sv_ServerType srv = [] then
                same (api_error ''name, display_name, and server_type are required'' 400)
              else if (case ServerStore_GetByName (st_enc st) (st_io st) (sv_Name srv) db of Inr (Some _) \<Rightarrow> True | _ \<Rightarrow> False) then
                same (api_error ''server name already exists'' 409)
              else (case ServerStore_Create (st_enc st) (after_stmts 1 (st_io st)) (st_now st) (st_nonce st) (ae_uuid env) srv db of
                      (db', Inl _) \<Rightarrow> (((m, db'), opts), api_error ''failed to create server'' 500)
                    | (db', Inr srv') \<Rightarrow> (((m, db'), opts), reply_with 201 (ApiServer srv')))))"

definition handleServers :: "api_env \<Rightarrow> auth_ctx \<Rightarrow> http_request \<Rightarrow> api_state \<Rightarrow> api_state \<times> api_reply" where
  "handleServers env ctx r s =
     (if hr_Method r = ''GET'' then listServers env ctx s
      else if hr_Method r = ''POST'' then createServer env ctx r s
      else (s, api_error ''method not allowed'' 405))"

section \<open>One server\<close>

definition canAccessServerAPI :: "faults \<Rightarrow> auth_ctx \<Rightarrow> string \<Rightarrow> relay_db \<Rightarrow> bool" where
  "canAccessServerAPI io ctx serverID db =
     (case cx_User ctx of
        None \<Rightarrow> False
      | Some user \<Rightarrow>
          if u_Role user = ''admin'' then True
          else (case u_ProfileID user of
            None \<Rightarrow> False
          | Some p \<Rightarrow>
              (case ProfileStore_ServerIDsForProfile io p db of Inl _ \<Rightarrow> False | Inr allowed \<Rightarrow> serverID \<in> allowed)))"

definition getServer :: "api_env \<Rightarrow> string \<Rightarrow> api_state \<Rightarrow> api_state \<times> api_reply" where
  "getServer env i s =
     (s, (case ServerStore_Get (st_enc (ae_store env)) (after_stmts 1 (st_io (ae_store env))) i (snd (fst s)) of
            Inl _ \<Rightarrow> api_error ''internal error'' 500
          | Inr None \<Rightarrow> api_error ''server not found'' 404
          | Inr (Some srv) \<Rightarrow> reply_with 200 (ApiServer srv)))"

definition updateServer :: "api_env \<Rightarrow> auth_ctx \<Rightarrow> http_request \<Rightarrow> string \<Rightarrow> api_state \<Rightarrow> api_state \<times> api_reply" where
  "updateServer env ctx r i = (\<lambda>((m, db), opts).
     let st = ae_store env; same = (\<lambda>rep. (((m, db), opts), rep)) in
     case requireWriteAccess ctx of
       Some d \<Rightarrow> same (deny d)
     | None \<Rightarrow>
         (case ServerStore_Get (st_enc st) (st_io st) i db of
            Inr (Some existing) \<Rightarrow>
              (case decode_server (ae_time env) (hr_Body r) of
                 None \<Rightarrow> same (api_error ''invalid request body'' 400)
               | Some body \<Rightarrow>
                   let srv = body\<lparr>sv_ID := i\<rparr> in
                   (case ValidateSlug (sv_Name srv) of
                      Inl _ \<Rightarrow> same (api_error ''invalid slug'' 400)
                    | Inr _ \<Rightarrow>
                        (case ServerStore_Update (st_enc st) (after_stmts 1 (st_io st)) (st_now st) (st_nonce st) srv db of
                           (db', Inl e) \<Rightarrow>
                             (((m, db'), opts), if e = UniqueViolation then api_error ''server slug already exists'' 409 else api_error ''failed to update server'' 500)
                         | (db', Inr _) \<Rightarrow> (((m, db'), opts), reply_with 200 (ApiServer (srv\<lparr>sv_UpdatedAt := st_now st\<rparr>))))))
          | _ \<Rightarrow> same (api_error ''server not found'' 404)))"

text \<open>The rows of the optimisation go with the server (\<open>ON DELETE CASCADE\<close>).\<close>

definition deleteServer :: "api_env \<Rightarrow> auth_ctx \<Rightarrow> string \<Rightarrow> api_state \<Rightarrow> api_state \<times> api_reply" where
  "deleteServer env ctx i = (\<lambda>(s, opts).
     let st = ae_store env in
     case requireAdminAccess ctx of
       Some d \<Rightarrow> ((s, opts), deny d)
     | None \<Rightarrow>
         let (m, db) = StopServer st i s in
         (case ServerStore_Delete (after_stmts 6 (st_io st)) i db of
            (db', Inl _) \<Rightarrow> (((m, db'), opts), api_error ''failed to delete server'' 500)
          | (db', Inr _) \<Rightarrow> (((m, db'), sql_delete (\<lambda>x. to_ServerID x = i) opts), reply_with 204 ApiEmpty)))"

definition startServer_api :: "api_env \<Rightarrow> auth_ctx \<Rightarrow> http_request \<Rightarrow> string \<Rightarrow> api_state \<Rightarrow> api_state \<times> api_reply" where
  "startServer_api env ctx r i = (\<lambda>(s, opts).
     let st = ae_store env in
     if hr_Method r \<noteq> ''POST'' then ((s, opts), api_error ''method not allowed'' 405)
     else (case requireWriteAccess ctx of
       Some d \<Rightarrow> ((s, opts), deny d)
     | None \<Rightarrow>
         (case ServerStore_Get (st_enc st) (st_io st) i (snd s) of
            Inr (Some srv) \<Rightarrow>
              (case StartServer (ae_docker env) (shift_store 1 st) srv s of
                 (s', Some e) \<Rightarrow> ((s', opts), api_error (''failed to start server: '' @ e) 500)
               | (s', None) \<Rightarrow> ((s', opts), reply_with 200 (ApiStatus ''started'')))
          | _ \<Rightarrow> ((s, opts), api_error ''server not found'' 404))))"

definition stopServer_api :: "api_env \<Rightarrow> auth_ctx \<Rightarrow> http_request \<Rightarrow> string \<Rightarrow> api_state \<Rightarrow> api_state \<times> api_reply" where
  "stopServer_api env ctx r i = (\<lambda>(s, opts).
     if hr_Method r \<noteq> ''POST'' then ((s, opts), api_error ''method not allowed'' 405)
     else (case requireWriteAccess ctx of
       Some d \<Rightarrow> ((s, opts), deny d)
     | None \<Rightarrow> ((StopServer (ae_store env) i s, opts), reply_with 200 (ApiStatus ''stopped''))))"

definition enumerateServer_api :: "api_env \<Rightarrow> http_request \<Rightarrow> string \<Rightarrow> api_state \<Rightarrow> api_state \<times> api_reply" where
  "enumerateServer_api env r i s =
     (if hr_Method r \<noteq> ''POST'' then (s, api_error ''method not allowed'' 405)
      else (case EnumerateServer (ae_send env) (ae_crypto env) (st_io (ae_store env)) (after_stmts 100 (st_io (ae_store env))) (st_now (ae_store env)) i s of
              (s', Done (e, None)) \<Rightarrow> (s', reply_with 200 (ApiEndpoints i e))
            | (s', Done (e, Some err)) \<Rightarrow> (s', api_error (''enumeration failed: '' @ err) 500)
            | (s', Failed err) \<Rightarrow> (s', api_error (''enumeration failed: '' @ err) 500)
            | (s', Panic) \<Rightarrow> (s', reply_with 0 ApiPanic)))"

definition checkServerHealth :: "api_env \<Rightarrow> http_request \<Rightarrow> string \<Rightarrow> api_state \<Rightarrow> api_state \<times> api_reply" where
  "checkServerHealth env r i = (\<lambda>(s, opts).
     let st = ae_store env in
     if hr_Method r \<noteq> ''POST'' then ((s, opts), api_error ''method not allowed'' 405)
     else (case ServerStore_Get (st_enc st) (after_stmts 1 (st_io st)) i (snd s) of
       Inr (Some srv) \<Rightarrow>
         (case CheckHealth (ae_send env) (shift_store 2 st) i s of
            (s', health, herr) \<Rightarrow> ((s', opts), reply_with 200 (ApiHealth i (sv_Status srv) health (st_now st) herr)))
     | _ \<Rightarrow> ((s, opts), api_error ''server not found'' 404)))"

definition getEndpoints :: "http_request \<Rightarrow> string \<Rightarrow> api_state \<Rightarrow> api_state \<times> api_reply" where
  "getEndpoints r i s =
     (s, if hr_Method r \<noteq> ''GET'' then api_error ''method not allowed'' 405
         else (case cache_get i (mg_endpoints (fst (fst s))) of
                 None \<Rightarrow> api_error ''no endpoints cached for this server'' 404
               | Some e \<Rightarrow> reply_with 200 (ApiEndpoints i e)))"

section \<open>Tool context\<close>

definition audit_base :: "crypto \<Rightarrow> string \<Rightarrow> Server \<Rightarrow> Tool list \<Rightarrow> ToolAudit" where
  "audit_base cr i srv tools =
     (let (stats, totalChars) = AuditTools tools in
      \<lparr>ta_ServerID = i, ta_ServerName = sv_Name srv, ta_ToolCount = length tools, ta_OriginalChars = totalChars, ta_OptimizedChars = 0,
       ta_EstTokens = totalChars div 4, ta_SavingsPercent = 0, ta_ToolsHash = HashTools cr tools, ta_HasOptimized = False, ta_IsStale = False,
       ta_Status = ''none'', ta_Tools = stats\<rparr>)"

definition audit_opt :: "ToolOptimization \<Rightarrow> ToolAudit \<Rightarrow> ToolAudit" where
  "audit_opt opt a =
     (let a1 = a\<lparr>ta_HasOptimized := True, ta_Status := to_Status opt, ta_IsStale := (to_Status opt = ''stale'')\<rparr>;
          total = ta_OriginalChars a in
      if to_Status opt = ''ready'' \<or> to_Status opt = ''stale'' then
        a1\<lparr>ta_OptimizedChars := to_OptimizedChars opt,
           ta_SavingsPercent := (if total > 0 then (of_nat total - of_nat (to_OptimizedChars opt)) / of_nat total * 100 else 0)\<rparr>
      else a1)"

definition getToolAudit :: "api_env \<Rightarrow> http_request \<Rightarrow> string \<Rightarrow> api_state \<Rightarrow> api_state \<times> api_reply" where
  "getToolAudit env r i = (\<lambda>((m, db), opts).
     let st = ae_store env in
     (((m, db), opts),
      if hr_Method r \<noteq> ''GET'' then api_error ''method not allowed'' 405
      else (case ServerStore_Get (st_enc st) (after_stmts 1 (st_io st)) i db of
        Inr (Some srv) \<Rightarrow>
          reply_with 200 (ApiAudit
            (case cache_get i (mg_endpoints m) of
               None \<Rightarrow>
                 \<lparr>ta_ServerID = i, ta_ServerName = sv_Name srv, ta_ToolCount = 0, ta_OriginalChars = 0, ta_OptimizedChars = 0, ta_EstTokens = 0,
                  ta_SavingsPercent = 0, ta_ToolsHash = [], ta_HasOptimized = False, ta_IsStale = False, ta_Status = ''no_endpoints'', ta_Tools = []\<rparr>
             | Some e \<Rightarrow>
                 (let a = audit_base (ae_crypto env) i srv (se_Tools e) in
                  case OptimizeStore_Get (after_stmts 2 (st_io st)) i opts of Inr (Some opt) \<Rightarrow> audit_opt opt a | _ \<Rightarrow> a)))
      | _ \<Rightarrow> api_error ''server not found'' 404)))"

definition PromptVersion :: string where
  "PromptVersion = ''v1.1''"

definition opt_row :: "crypto \<Rightarrow> string \<Rightarrow> string \<Rightarrow> Tool list \<Rightarrow> ToolOptimization" where
  "opt_row cr model i tools =
     \<lparr>to_ID = [], to_ServerID = i, to_ToolsHash = HashTools cr tools, to_OriginalChars = snd (AuditTools tools), to_OptimizedChars = 0,
      to_OptimizedTools = [], to_PromptVersion = PromptVersion, to_Model = model, to_Status = ''running'', to_ErrorMsg = [],
      to_CreatedAt = 0, to_UpdatedAt = 0\<rparr>"

definition runOptimize :: "api_env \<Rightarrow> http_request \<Rightarrow> string \<Rightarrow> api_state \<Rightarrow> api_state \<times> api_reply" where
  "runOptimize env r i = (\<lambda>((m, db), opts).
     let st = ae_store env; same = (\<lambda>rep. (((m, db), opts), rep)) in
     if hr_Method r \<noteq> ''POST'' then same (api_error ''method not allowed'' 405)
     else (case ae_llm env of
       None \<Rightarrow> same (api_error ''LLM client not configured'' 503)
     | Some (model, _) \<Rightarrow>
         (case ServerStore_Get (st_enc st) (st_io st) i db of
            Inr (Some srv) \<Rightarrow>
              (case cache_get i (mg_endpoints m) of
                 None \<Rightarrow> same (api_error ''no tools cached'' 400)
               | Some e \<Rightarrow>
                   if se_Tools e = [] then same (api_error ''no tools cached'' 400)
                   else if (case OptimizeStore_Get (after_stmts 1 (st_io st)) i opts of Inr (Some x) \<Rightarrow> to_Status x = ''running'' | _ \<Rightarrow> False) then
                     same (api_error ''optimization already in progress'' 409)
                   else (case OptimizeStore_Upsert (after_stmts 2 (st_io st)) (st_now st) (ae_gen env) db
                                (opt_row (ae_crypto env) model i (se_Tools e)) opts of
                           (opts', Inl _) \<Rightarrow> (((m, db), opts'), api_error ''internal error'' 500)
                         | (opts', Inr _) \<Rightarrow>
                             (((m, db), opts'), (reply_with 200 (ApiStatus ''running''))\<lparr>ar_Task := Some (i, se_Tools e)\<rparr>)))
          | _ \<Rightarrow> same (api_error ''server not found'' 404))))"

text \<open>The background task; \<open>complete\<close> is the language model.\<close>

definition optimize_task :: "api_env \<Rightarrow> string \<times> (Tool list \<Rightarrow> string option) \<Rightarrow> string \<times> Tool list \<Rightarrow> relay_db \<Rightarrow> opt_table \<Rightarrow> opt_table" where
  "optimize_task env llm task db opts =
     (let st = ae_store env; i = fst task; tools = snd task in
      case OptimizeTools (Some (snd llm)) tools of
        None \<Rightarrow> fst (OptimizeStore_SetStatus (st_io st) (st_now st) i ''error'' ''optimization failed'' opts)
      | Some optimized \<Rightarrow>
          (case encode_tools optimized of
             None \<Rightarrow> fst (OptimizeStore_SetStatus (st_io st) (st_now st) i ''error'' ''marshal error'' opts)
           | Some optimizedJSON \<Rightarrow>
               fst (OptimizeStore_Upsert (st_io st) (st_now st) (ae_gen env) db
                 ((opt_row (ae_crypto env) (fst llm) i tools)\<lparr>to_OptimizedChars := sum_list (map tool_size optimized),
                    to_OptimizedTools := optimizedJSON, to_Status := ''ready''\<rparr>) opts)))"

definition toggleOptimize :: "api_env \<Rightarrow> http_request \<Rightarrow> string \<Rightarrow> api_state \<Rightarrow> api_state \<times> api_reply" where
  "toggleOptimize env r i = (\<lambda>((m, db), opts).
     if hr_Method r \<noteq> ''POST'' then (((m, db), opts), api_error ''method not allowed'' 405)
     else (case decode_enabled (hr_Body r) of
       None \<Rightarrow> (((m, db), opts), api_error ''invalid request body'' 400)
     | Some enabled \<Rightarrow>
         (case ServerStore_SetOptimizeEnabled (st_io (ae_store env)) (st_now (ae_store env)) i enabled db of
            (db', Inl _) \<Rightarrow> (((m, db'), opts), api_error ''internal error'' 500)
          | (db', Inr _) \<Rightarrow> (((m, db'), opts), reply_with 200 (ApiEnabled enabled)))))"

section \<open>Dispatch\<close>

definition management_action :: "string \<Rightarrow> bool" where
  "management_action a \<longleftrightarrow> a \<in> {''start'', ''stop'', ''enumerate'', ''optimize'', ''optimize-toggle''}"

definition run_management :: "api_env \<Rightarrow> auth_ctx \<Rightarrow> http_request \<Rightarrow> string \<Rightarrow> string \<Rightarrow> api_state \<Rightarrow> api_state \<times> api_reply" where
  "run_management env ctx r action i s =
     (if action = ''start'' then startServer_api env ctx r i s
      else if action = ''stop'' then stopServer_api env ctx r i s
      else if action = ''enumerate'' then enumerateServer_api env r i s
      else if action = ''optimize'' then runOptimize env r i s
      else toggleOptimize env r i s)"

definition run_reading :: "api_env \<Rightarrow> http_request \<Rightarrow> string \<Rightarrow> string \<Rightarrow> api_state \<Rightarrow> api_state \<times> api_reply" where
  "run_reading env r action i s =
     (if action = ''endpoints'' then getEndpoints r i s
      else if action = ''health'' then checkServerHealth env r i s
      else if action = ''tool-audit'' then getToolAudit env r i s
      else (s, api_error ''unknown action'' 404))"

definition path_id :: "http_request \<Rightarrow> string" where
  "path_id r = hd (str_split (CHR ''/'') (trim_prefix (hr_Path r) ''/api/servers/''))"

definition handleServerByID :: "api_env \<Rightarrow> auth_ctx \<Rightarrow> http_request \<Rightarrow> api_state \<Rightarrow> api_state \<times> api_reply" where
  "handleServerByID env ctx r s =
     (let parts = str_split (CHR ''/'') (trim_prefix (hr_Path r) ''/api/servers/''); i = hd parts; io = st_io (ae_store env);
          admin = (\<lambda>act. case requireAdminAccess ctx of Some d \<Rightarrow> (s, deny d) | None \<Rightarrow> act);
          visible = (\<lambda>act. if canAccessServerAPI io ctx i (snd (fst s)) then act else (s, api_error ''server not found'' 404)) in
      if i = [] then (s, api_error ''missing server id'' 400)
      else if 1 < length parts then
        if management_action (parts ! 1) then admin (run_management env ctx r (parts ! 1) i s)
        else visible (run_reading env r (parts ! 1) i s)
      else if hr_Method r = ''GET'' then visible (getServer env i s)
      else if hr_Method r = ''PUT'' then admin (updateServer env ctx r i s)
      else if hr_Method r = ''DELETE'' then admin (deleteServer env ctx i s)
      else (s, api_error ''method not allowed'' 405))"

text \<open>The two registered routes, behind the API key check of their registration.\<close>

definition api_request :: "api_env \<Rightarrow> auth_ctx \<Rightarrow> http_request \<Rightarrow> api_state \<Rightarrow> api_state \<times> api_reply" where
  "api_request env ctx r s = (if hr_Path r = ''/api/servers'' then handleServers env ctx r s else handleServerByID env ctx r s)"

definition serve_api :: "api_env \<Rightarrow> http_request \<Rightarrow> api_state \<Rightarrow> api_state \<times> api_reply" where
  "serve_api env r = (\<lambda>((m, db), opts).
     case APIKeyAuth (ae_crypto env) (st_io (ae_store env)) (st_now (ae_store env)) r db of
       (db', Rejected d) \<Rightarrow> (((m, db'), opts), deny d)
     | (db', RejectedWithChallenge d) \<Rightarrow> (((m, db'), opts), deny d)
     | (db', Authenticated ctx) \<Rightarrow> api_request (env\<lparr>ae_store := shift_store 3 (ae_store env)\<rparr>) ctx r ((m, db'), opts))"

text \<open>The servers a reply tells something about, beyond an error text.\<close>

fun servers_shown :: "api_body \<Rightarrow> string set" where
  "servers_shown (ApiServers ss) = sv_ID ` set ss"
| "servers_shown (ApiServer s) = {sv_ID s}"
| "servers_shown (ApiEndpoints i e) = {i}"
| "servers_shown (ApiHealth i a b c d) = {i}"
| "servers_shown (ApiAudit a) = {ta_ServerID a}"
| "servers_shown b = {}"

text \<open>Where a request ends up.\<close>

lemma byID_cases:
  assumes run: "handleServerByID env ctx r s = (s', rep)"
  obtains (refused) "s' = s" "servers_shown (ar_Body rep) = {}" "ar_Task rep = None"
  | (reading) action where "canAccessServerAPI (st_io (ae_store env)) ctx (path_id r) (snd (fst s))" "run_reading env r action (path_id r) s = (s', rep)"
  | (get) "canAccessServerAPI (st_io (ae_store env)) ctx (path_id r) (snd (fst s))" "getServer env (path_id r) s = (s', rep)"
  | (management) action where "requireAdminAccess ctx = None" "run_management env ctx r action (path_id r) s = (s', rep)"
  | (update) "requireAdminAccess ctx = None" "updateServer env ctx r (path_id r) s = (s', rep)"
  | (delete) "requireAdminAccess ctx = None" "hr_Method r = ''DELETE''" "deleteServer env ctx (path_id r) s = (s', rep)"
proof -
  have err: "servers_shown (ar_Body (api_error m n)) = {}" "ar_Task (api_error m n) = None" for m n
    by (simp_all add: api_error_def reply_with_def)
  consider "s' = s \<and> (\<exists>m n. rep = api_error m n)"
    | "canAccessServerAPI (st_io (ae_store env)) ctx (path_id r) (snd (fst s)) \<and> (\<exists>action. run_reading env r action (path_id r) s = (s', rep))"
    | "canAccessServerAPI (st_io (ae_store env)) ctx (path_id r) (snd (fst s)) \<and> getServer env (path_id r) s = (s', rep)"
    | "requireAdminAccess ctx = None \<and> (\<exists>action. run_management env ctx r action (path_id r) s = (s', rep))"
    | "requireAdminAccess ctx = None \<and> updateServer env ctx r (path_id r) s = (s', rep)"
    | "requireAdminAccess ctx = None \<and> hr_Method r = ''DELETE'' \<and> deleteServer env ctx (path_id r) s = (s', rep)"
    using run unfolding handleServerByID_def Let_def path_id_def deny_def by (auto split: if_splits option.splits)
  then show thesis by cases (use refused err reading get management update delete in auto)
qed

section \<open>Callers without the admin level\<close>

definition granted :: "relay_db \<Rightarrow> User \<Rightarrow> string \<Rightarrow> bool" where
  "granted db u sid \<longleftrightarrow>
     (\<exists>p. u_ProfileID u = Some p \<and> (\<exists>x \<in> set (db_permissions db). pp_ProfileID x = p \<and> pp_ServerID x = sid))"

definition no_health :: "Server \<Rightarrow> Server" where
  "no_health s = s\<lparr>sv_Health := [], sv_HealthCheckAt := None, sv_HealthError := [], sv_UpdatedAt := 0\<rparr>"

text \<open>What such a caller leaves of the state: only the health columns of granted servers may differ.\<close>

definition only_health :: "(string \<Rightarrow> bool) \<Rightarrow> api_state \<Rightarrow> api_state \<Rightarrow> bool" where
  "only_health may s s' \<longleftrightarrow>
     fst (fst s') = fst (fst s) \<and> snd s' = snd s \<and>
     (\<exists>rows. snd (fst s') = (snd (fst s))\<lparr>db_servers := rows\<rparr> \<and>
        list_all2 (\<lambda>a b. b = a \<or> may (sv_ID a) \<and> no_health b = no_health a) (db_servers (snd (fst s))) rows)"

lemma only_health_refl [simp]: "only_health may s s"
  by (auto simp: only_health_def list.rel_refl intro!: exI [of _ "db_servers (snd (fst s))"])

lemma set_health_only: "may sid \<Longrightarrow> only_health may ((m, db), opts) ((m, set_health st n sid h e db), opts)"
proof -
  assume may: "may sid"
  have rows: "list_all2 (\<lambda>a b. b = a \<or> may (sv_ID a) \<and> no_health b = no_health a) t
      (sql_update (\<lambda>s. sv_ID s = sid) (\<lambda>s. s\<lparr>sv_Health := h, sv_HealthCheckAt := Some now, sv_HealthError := e, sv_UpdatedAt := now\<rparr>) t)" for t now
    by (auto simp: sql_update_def list_all2_map2 no_health_def may list_all2_same)
  then have "only_health may ((m, db), opts) ((m, db\<lparr>db_servers := sql_update (\<lambda>s. sv_ID s = sid)
      (\<lambda>s. s\<lparr>sv_Health := h, sv_HealthCheckAt := Some now, sv_HealthError := e, sv_UpdatedAt := now\<rparr>) (db_servers db)\<rparr>), opts)" for now
    by (auto simp: only_health_def)
  then show ?thesis
    by (simp add: set_health_def ServerStore_UpdateHealth_def exec_def update_server_def stmt_def split: sum.split)
qed

lemma CheckHealth_only: "may sid \<Longrightarrow> CheckHealth send st sid s = (s', h, e) \<Longrightarrow> only_health may (s, opts) (s', opts)"
  by (auto simp: CheckHealth_def set_health_only split: prod.splits option.splits)

lemma profile_servers_granted:
  "ProfileStore_ServerIDsForProfile io p db = Inr allowed \<Longrightarrow> u_ProfileID u = Some p \<Longrightarrow> sid \<in> allowed \<Longrightarrow> granted db u sid"
  by (fastforce simp: granted_def ProfileStore_ServerIDsForProfile_def stmt_def split: if_splits)

lemma canAccess_granted:
  assumes "cx_User ctx = Some u" "u_Role u \<noteq> ''admin''" "canAccessServerAPI io ctx sid db"
  shows "granted db u sid"
  using assms by (auto simp: canAccessServerAPI_def profile_servers_granted split: option.splits sum.splits if_splits)

lemma reading_confined:
  assumes "may i" "run_reading env r action i s = (s', rep)"
  shows "only_health may s s' \<and> servers_shown (ar_Body rep) \<subseteq> {i}"
proof (cases "action = ''health''")
  case True
  with assms show ?thesis
    by (auto simp: run_reading_def checkServerHealth_def Let_def api_error_def reply_with_def split: prod.splits if_splits sum.splits option.splits
        elim: CheckHealth_only)
next
  case False
  with assms(2) show ?thesis
    by (auto simp: run_reading_def getEndpoints_def getToolAudit_def Let_def api_error_def reply_with_def audit_base_def audit_opt_def
        split: prod.splits if_splits sum.splits option.splits)
qed

lemma getServer_confined: "getServer env i s = (s', rep) \<Longrightarrow> s' = s \<and> servers_shown (ar_Body rep) \<subseteq> {i}"
  by (auto simp: getServer_def api_error_def reply_with_def ServerStore_Get_def find_server_def open_config_def stmt_def res_bind_def
      split: sum.splits option.splits if_splits dest!: sql_row_SomeD)

lemma listServers_confined:
  assumes "cx_User ctx = Some u" "u_Role u \<noteq> ''admin''" "listServers env ctx s = (s', rep)"
  shows "s' = s \<and> (\<forall>sid \<in> servers_shown (ar_Body rep). granted (snd (fst s)) u sid)"
  using assms by (auto simp: listServers_def Let_def api_error_def reply_with_def profile_servers_granted
      split: prod.splits sum.splits option.splits if_splits)

lemma byID_confined:
  assumes u: "cx_User ctx = Some u" "u_Role u \<noteq> ''admin''" "u_AccessLevel u \<noteq> ''admin''" and run: "handleServerByID env ctx r s = (s', rep)"
  shows "only_health (granted (snd (fst s)) u) s s' \<and> (\<forall>sid \<in> servers_shown (ar_Body rep). granted (snd (fst s)) u sid)"
  using run
proof (cases rule: byID_cases)
  case (reading action)
  from canAccess_granted [OF u(1,2) reading(1)] have g: "granted (snd (fst s)) u (path_id r)" .
  with reading_confined [of "granted (snd (fst s)) u", OF g reading(2)] show ?thesis by auto
next
  case get
  with canAccess_granted [OF u(1,2) get(1)] getServer_confined [OF get(2)] show ?thesis by auto
qed (use u in \<open>simp_all add: requireAdminAccess_def\<close>)

text \<open>
  C6. A caller with neither the admin role nor the admin level gets nothing out of the server interface but servers its
  profile has a permission for, and leaves nothing behind but health columns of such servers: whatever the
  method, path and body, the running backends, the containers, the stored optimisations and every other part of
  the database stay as they are.
\<close>

theorem api_callers_confined:
  assumes "cx_User ctx = Some u" "u_Role u \<noteq> ''admin''" "u_AccessLevel u \<noteq> ''admin''" "api_request env ctx r s = (s', rep)"
  shows "only_health (granted (snd (fst s)) u) s s' \<and> (\<forall>sid \<in> servers_shown (ar_Body rep). granted (snd (fst s)) u sid)"
proof (cases "hr_Path r = ''/api/servers''")
  case True
  have "requireAdminAccess ctx = Some (403, ''admin access required'')" using assms(1-3) by (simp add: requireAdminAccess_def)
  with True assms listServers_confined [OF assms(1,2)] show ?thesis
    by (fastforce simp: api_request_def handleServers_def createServer_def api_error_def reply_with_def deny_def Let_def split: if_splits prod.splits)
next
  case False
  with byID_confined [OF assms(1-3)] assms(4) show ?thesis by (simp add: api_request_def)
qed

section \<open>Containers\<close>

lemma store_steps: "fst a = fst b \<Longrightarrow> manager_step\<^sup>*\<^sup>* a b"
  by (metis manager_step.store prod.collapse r_into_rtranclp)

lemmas one_step = r_into_rtranclp [of manager_step]

lemma management_steps:
  assumes "run_management env ctx r action i s = (s', rep)"
  shows "manager_step\<^sup>*\<^sup>* (fst s) (fst s')"
proof -
  have "manager_step\<^sup>*\<^sup>* (fst s) (fst (fst (startServer_api env ctx r i s)))"
    using one_step [OF manager_step.start]
    by (auto simp: startServer_api_def Let_def split: prod.splits option.splits sum.splits) (metis fst_conv)+
  moreover have "manager_step\<^sup>*\<^sup>* (fst s) (fst (fst (stopServer_api env ctx r i s)))"
    using one_step [OF manager_step.stop] by (auto simp: stopServer_api_def split: prod.splits option.splits)
  moreover have "manager_step\<^sup>*\<^sup>* (fst s) (fst (fst (enumerateServer_api env r i s)))"
  proof -
    obtain s1 res where e: "EnumerateServer (ae_send env) (ae_crypto env) (st_io (ae_store env)) (after_stmts 100 (st_io (ae_store env)))
        (st_now (ae_store env)) i s = (s1, res)" by fastforce
    then have "manager_step\<^sup>*\<^sup>* (fst s) (fst s1)"
      using one_step [OF manager_step.enumerate_step [of "fst s" "ae_send env" "ae_crypto env" "st_io (ae_store env)"
        "after_stmts 100 (st_io (ae_store env))" "st_now (ae_store env)" i "snd s"]] by simp
    then show ?thesis by (auto simp: enumerateServer_api_def e split: outcome.splits prod.splits option.splits)
  qed
  moreover have "manager_step\<^sup>*\<^sup>* (fst s) (fst (fst (runOptimize env r i s)))"
    by (rule store_steps) (auto simp: runOptimize_def Let_def split: prod.splits option.splits sum.splits)
  moreover have "manager_step\<^sup>*\<^sup>* (fst s) (fst (fst (toggleOptimize env r i s)))"
    by (rule store_steps) (auto simp: toggleOptimize_def split: prod.splits option.splits sum.splits)
  ultimately show ?thesis using assms by (auto simp: run_management_def split: if_splits)
qed

lemma deleteServer_steps: "deleteServer env ctx i s = (s', rep) \<Longrightarrow> manager_step\<^sup>*\<^sup>* (fst s) (fst s')"
proof -
  assume run: "deleteServer env ctx i s = (s', rep)"
  show ?thesis
  proof (cases "requireAdminAccess ctx")
    case None
    with run have "fst (fst s') = fst (StopServer (ae_store env) i (fst s))"
      by (auto simp: deleteServer_def Let_def split: prod.splits sum.splits)
    then have "manager_step\<^sup>*\<^sup>* (StopServer (ae_store env) i (fst s)) (fst s')" by (intro store_steps) simp
    with manager_step.stop show ?thesis by (rule converse_rtranclp_into_rtranclp)
  qed (use run in \<open>auto simp: deleteServer_def split: prod.splits\<close>)
qed

lemma api_request_steps:
  assumes "api_request env ctx r s = (s', rep)"
  shows "manager_step\<^sup>*\<^sup>* (fst s) (fst s')"
proof (cases "hr_Path r = ''/api/servers''")
  case True
  with assms show ?thesis
    by (intro store_steps) (auto simp: api_request_def handleServers_def listServers_def createServer_def Let_def
        split: if_splits prod.splits option.splits sum.splits)
next
  case False
  with assms have "handleServerByID env ctx r s = (s', rep)" by (simp add: api_request_def)
  then show ?thesis
  proof (cases rule: byID_cases)
    case (reading action)
    with reading_confined [of "\<lambda>_. True"] show ?thesis by (intro store_steps) (simp add: only_health_def)
  next
    case update
    then show ?thesis
      by (intro store_steps) (auto simp: updateServer_def Let_def split: if_splits prod.splits option.splits sum.splits)
  next
    case get
    with getServer_confined [OF get(2)] show ?thesis by simp
  qed (use management_steps deleteServer_steps in auto)
qed

lemma stateless_retry:
  assumes "isStatelessServer srv"
  shows "mg_containers (fst (fst (RetryServer d st srv s))) = mg_containers (fst s)"
  using assms by (auto simp: isStatelessServer_def RetryServer_def StartServer_def startRemote_def startHTTP_def running_def fail_start_def Let_def
      split: if_splits option.splits prod.splits)

lemma check_server_steps:
  assumes "isStatelessServer srv \<longrightarrow> mg_containers (fst s) (sv_ID srv) = None" "check_server send d st srv (hm, s) = ((hm', s'), b)"
  shows "manager_step\<^sup>*\<^sup>* s s' \<and> mg_containers (fst s') = mg_containers (fst s)"
proof (cases "sv_Status srv = ''error'' \<and> isStatelessServer srv \<and> claim_recovery (st_now st) (sv_ID srv) hm \<noteq> None")
  case True
  then have "s' = fst (RetryServer d st srv s)"
    using assms(2) by (auto simp: check_server_def tryRecover_def Let_def split: prod.splits option.splits)
  with True assms(1) one_step [OF manager_step.retry] stateless_retry show ?thesis by simp
next
  case False
  then have "fst s' = fst s"
    using assms(2) by (auto simp: check_server_def tryRecover_def checkRunning_def Let_def split: prod.splits option.splits if_splits)
  with store_steps show ?thesis by metis
qed

lemma check_servers_steps:
  "\<forall>srv \<in> set srvs. isStatelessServer srv \<longrightarrow> mg_containers (fst s) (sv_ID srv) = None \<Longrightarrow>
   check_servers send d st srvs (hm, s) = ((hm', s'), started) \<Longrightarrow> manager_step\<^sup>*\<^sup>* s s'"
proof (induction srvs arbitrary: st hm s started)
  case (Cons srv srvs)
  obtain hm1 s1 b where first: "check_server send d st srv (hm, s) = ((hm1, s1), b)" by (metis surj_pair)
  obtain rest where rest: "check_servers send d (shift_store 10 st) srvs (hm1, s1) = ((hm', s'), rest)"
    using Cons.prems(2) first by (auto split: prod.splits)
  from check_server_steps [OF _ first] Cons.prems(1) have "manager_step\<^sup>*\<^sup>* s s1" "mg_containers (fst s1) = mg_containers (fst s)" by auto
  with Cons.IH [OF _ rest] Cons.prems(1) show ?case by (auto intro: rtranclp_trans)
qed simp

text \<open>
  The relay between start and shutdown: requests of any callers, ticks of the monitor, recoveries and optimisations in the
  background, and any other change of the database (the web pages). A tick finds no container with a server that is
  configured to have none; see \<open>RetryServer\<close>, which forgets the backend of such a server without stopping anything.
\<close>

inductive relay_step :: "HealthMonitor \<times> api_state \<Rightarrow> HealthMonitor \<times> api_state \<Rightarrow> bool" where
  request: "api_request env ctx r s = (s', rep) \<Longrightarrow> relay_step (hm, s) (hm, s')"
| tick: "checkAll send d st (hm, s) = ((hm', s'), started) \<Longrightarrow>
    \<forall>srvs srv. ServerStore_List (st_enc st) (st_io st) (snd s) = Inr srvs \<longrightarrow> srv \<in> set srvs \<longrightarrow> isStatelessServer srv \<longrightarrow>
      mg_containers (fst s) (sv_ID srv) = None \<Longrightarrow> relay_step (hm, s, opts) (hm', s', opts)"
| recover: "recover_container d st srv (hm, s) = (hm', s') \<Longrightarrow> relay_step (hm, s, opts) (hm', s', opts)"
| optimized: "relay_step (hm, (m, db), opts) (hm, (m, db), optimize_task env llm task db opts)"
| other: "relay_step (hm, (m, db), opts) (hm, (m, db'), opts)"

lemma relay_step_manager:
  assumes "relay_step x y"
  shows "manager_step\<^sup>*\<^sup>* (fst (snd x)) (fst (snd y))"
  using assms
proof (cases rule: relay_step.cases)
  case (request env ctx r s s' rep hm)
  then show ?thesis by (auto intro: api_request_steps)
next
  case (tick send d st hm s hm' s' started opts)
  then show ?thesis
    by (cases "ServerStore_List (st_enc st) (st_io st) (snd s)") (auto simp: checkAll_def intro: check_servers_steps)
next
  case (recover d st srv hm s hm' s' opts)
  then have "s' = fst (RecreateContainer d st srv s)" by (auto simp: recover_container_def Let_def split: prod.splits)
  with recover one_step [OF manager_step.recreate] show ?thesis by simp
qed (auto intro: one_step [OF manager_step.store])

lemma relay_run_manager: "relay_step\<^sup>*\<^sup>* x y \<Longrightarrow> manager_step\<^sup>*\<^sup>* (fst (snd x)) (fst (snd y))"
  by (induction rule: rtranclp_induct) (auto intro: relay_step_manager rtranclp_trans)


section \<open>Interrupted optimisations\<close>

definition running_row :: "string \<Rightarrow> opt_table \<Rightarrow> bool" where
  "running_row sid opts \<longleftrightarrow> (case sql_row (\<lambda>x. to_ServerID x = sid) opts of None \<Rightarrow> False | Some x \<Rightarrow> to_Status x = ''running'')"

lemma running_row_update:
  assumes "\<And>x. to_ServerID (f x) = to_ServerID x" "\<And>x. to_Status x = ''running'' \<Longrightarrow> to_ServerID x = sid \<Longrightarrow> p x \<Longrightarrow> to_Status (f x) = ''running''"
  shows "running_row sid opts \<Longrightarrow> running_row sid (sql_update p f opts)"
  using assms sql_row_SomeD [of "\<lambda>x. to_ServerID x = sid" opts]
  by (auto simp: running_row_def sql_row_update split: option.splits)

lemma markStale_running: "running_row sid opts \<Longrightarrow> running_row sid (fst (OptimizeStore_MarkStale io now i h opts))"
proof (cases "\<exists>x. OptimizeStore_Get io i opts = Inr (Some x) \<and> to_Status x = ''ready''")
  case True
  then obtain x where x: "sql_row (\<lambda>x. to_ServerID x = i) opts = Some x" "to_Status x = ''ready''"
    by (auto simp: OptimizeStore_Get_def stmt_def split: if_splits)
  assume run: "running_row sid opts"
  with x have "i \<noteq> sid" by (auto simp: running_row_def)
  with run show ?thesis
    by (auto simp: OptimizeStore_MarkStale_def OptimizeStore_SetStatus_def exec_def stmt_def split: sum.split option.split intro!: running_row_update)
qed (auto simp: OptimizeStore_MarkStale_def split: sum.split option.split)

lemma upsert_running:
  assumes "running_row sid opts" "to_ServerID opt \<noteq> sid"
  shows "running_row sid (fst (OptimizeStore_Upsert io now gen db opt opts))"
proof -
  have "running_row sid (opts @ [x])" for x using assms(1) by (auto simp: running_row_def sql_row_append split: option.splits)
  moreover have "running_row sid (sql_update (\<lambda>x. to_ServerID x = to_ServerID opt) f opts)" if "\<And>x. to_ServerID (f x) = to_ServerID opt" for f
  proof -
    have "sql_row (\<lambda>x. to_ServerID x = sid) (sql_update (\<lambda>x. to_ServerID x = to_ServerID opt) f opts) = sql_row (\<lambda>x. to_ServerID x = sid) opts"
      using assms(2) that by (induction opts) (auto simp: sql_update_def)
    with assms(1) show ?thesis by (simp add: running_row_def)
  qed
  ultimately show ?thesis using assms(1)
    by (simp add: OptimizeStore_Upsert_def Let_def exec_def stmt_def upsert_opt_def)
qed

lemma EnumerateServer_running: "running_row sid (snd s) \<Longrightarrow> running_row sid (snd (fst (EnumerateServer send cr io iop now i s)))"
  by (cases s, cases "fst s") (simp add: EnumerateServer_def Let_def markStale_running split: option.split)

lemma management_running:
  assumes run: "run_management env ctx r action i s = (s', rep)" and row: "running_row sid (snd s)" and io: "st_io (ae_store env) = no_faults"
  shows "running_row sid (snd s') \<and> (\<forall>tools. ar_Task rep \<noteq> Some (sid, tools))"
proof -
  have err: "ar_Task (api_error m n) = None" "ar_Task (reply_with k b) = None" "ar_Task (deny d) = None" for m n d k b
    by (simp_all add: api_error_def reply_with_def deny_def)
  let ?ok = "\<lambda>x. running_row sid (snd (fst x)) \<and> (\<forall>tools. ar_Task (snd x) \<noteq> Some (sid, tools))"
  have "?ok (startServer_api env ctx r i s)" using row
    by (cases s) (simp add: startServer_api_def Let_def err split: prod.split option.split sum.split)
  moreover have "?ok (stopServer_api env ctx r i s)" using row by (cases s) (simp add: stopServer_api_def err split: option.split)
  moreover have "?ok (toggleOptimize env r i s)" using row
    by (cases s) (simp add: toggleOptimize_def err split: prod.split option.split sum.split)
  moreover have "?ok (enumerateServer_api env r i s)"
  proof -
    have "running_row sid (snd (fst (EnumerateServer (ae_send env) (ae_crypto env) (st_io (ae_store env)) (after_stmts 100 (st_io (ae_store env)))
        (st_now (ae_store env)) i s)))" by (rule EnumerateServer_running [OF row])
    with row show ?thesis by (auto simp: enumerateServer_api_def err split: outcome.splits prod.splits option.splits)
  qed
  moreover have "?ok (runOptimize env r i s)"
  proof (cases "i = sid")
    case True
    from row have "\<exists>x. OptimizeStore_Get (after_stmts 1 (st_io (ae_store env))) i (snd s) = Inr (Some x) \<and> to_Status x = ''running''"
      by (auto simp: True running_row_def OptimizeStore_Get_def io stmt_def split: option.splits)
    with row show ?thesis by (auto simp: runOptimize_def Let_def err split: prod.splits option.splits sum.splits)
  next
    case False
    have opts: "OptimizeStore_Upsert a b c d (opt_row (ae_crypto env) e i f) (snd s) = (x, y) \<Longrightarrow> running_row sid x" for a b c d e f x y
      using upsert_running [OF row, of "opt_row (ae_crypto env) e i f" a b c d] False by (simp add: opt_row_def)
    obtain m db opts' where s: "s = ((m, db), opts')" by (metis surj_pair)
    show ?thesis using row opts False unfolding s
      by (simp add: runOptimize_def Let_def err split: prod.split option.split sum.split)
  qed
  ultimately show ?thesis using run by (auto simp: run_management_def split: if_splits)
qed

lemma api_request_running:
  assumes run: "api_request env ctx r s = (s', rep)" and row: "running_row sid (snd s)" and io: "st_io (ae_store env) = no_faults"
    and keep: "\<not> (hr_Method r = ''DELETE'' \<and> path_id r = sid)"
  shows "running_row sid (snd s') \<and> (\<forall>tools. ar_Task rep \<noteq> Some (sid, tools))"
proof (cases "hr_Path r = ''/api/servers''")
  case True
  with run row show ?thesis
    by (auto simp: api_request_def handleServers_def listServers_def createServer_def Let_def deny_def api_error_def reply_with_def
        split: if_splits prod.splits option.splits sum.splits)
next
  case False
  with run have "handleServerByID env ctx r s = (s', rep)" by (simp add: api_request_def)
  then show ?thesis
  proof (cases rule: byID_cases)
    case (reading action)
    from reading_confined [OF _ reading(2), of "\<lambda>_. True"] have "snd s' = snd s" by (simp add: only_health_def)
    moreover from reading(2) have "ar_Task rep = None"
      by (auto simp: run_reading_def getEndpoints_def checkServerHealth_def getToolAudit_def Let_def api_error_def reply_with_def
          split: if_splits prod.splits option.splits sum.splits)
    ultimately show ?thesis using row by simp
  next
    case get
    with row show ?thesis by (auto simp: getServer_def api_error_def reply_with_def split: sum.splits option.splits)
  next
    case update
    with row show ?thesis
      by (auto simp: updateServer_def Let_def deny_def api_error_def reply_with_def split: if_splits prod.splits option.splits sum.splits)
  next
    case delete
    with keep have "sql_row (\<lambda>x. to_ServerID x = sid) (sql_delete (\<lambda>x. to_ServerID x = path_id r) (snd s)) = sql_row (\<lambda>x. to_ServerID x = sid) (snd s)"
      by (intro sql_row_delete_other) auto
    with row have "running_row sid (sql_delete (\<lambda>x. to_ServerID x = path_id r) (snd s))" by (simp add: running_row_def)
    with delete row show ?thesis
      by (auto simp: deleteServer_def Let_def deny_def api_error_def reply_with_def split: prod.splits option.splits sum.splits)
  qed (use row management_running [OF _ row io] in auto)
qed

text \<open>A relay that was restarted while an optimisation ran: the row says running, and no task is left to change it.\<close>

inductive restarted_step :: "string \<Rightarrow> api_state \<Rightarrow> api_state \<Rightarrow> bool" for sid where
  request: "api_request env ctx r s = (s', rep) \<Longrightarrow> st_io (ae_store env) = no_faults \<Longrightarrow> \<not> (hr_Method r = ''DELETE'' \<and> path_id r = sid) \<Longrightarrow>
    restarted_step sid s s'"
| served: "restarted_step sid (s, opts) (s, fst (OptimizeStore_MarkStale io now i h opts))"
| servers: "restarted_step sid (s, opts) (s', opts)"

lemma restarted_run_running: "(restarted_step sid)\<^sup>*\<^sup>* s s' \<Longrightarrow> running_row sid (snd s) \<Longrightarrow> running_row sid (snd s')"
proof (induction rule: rtranclp_induct)
  case (step y z)
  then show ?case by (auto elim!: restarted_step.cases intro: markStale_running dest: api_request_running)
qed

text \<open>
  An optimisation that was running when the relay stopped is never run again: nothing resets its row, neither restarting,
  enumerating nor changing the server, and while it says running every request to optimise that server is refused as
  already in progress. Only deleting the server helps.
\<close>

theorem interrupted_optimization_blocks:
  assumes "(restarted_step sid)\<^sup>*\<^sup>* s s'" "running_row sid (snd s)"
    and "api_request env ctx r s' = (s'', rep)" "st_io (ae_store env) = no_faults" "hr_Method r = ''POST''"
  shows "ar_Task rep \<noteq> Some (sid, tools) \<and> running_row sid (snd s'')"
  using api_request_running [OF assms(3) restarted_run_running [OF assms(1,2)] assms(4)] assms(5) by simp

section \<open>Examples\<close>

definition demo_api :: api_env where
  "demo_api = \<lparr>ae_store = demo_store, ae_docker = demo_docker, ae_send = (\<lambda>_ _. Inl ''down''), ae_crypto = demo_crypto,
     ae_llm = Some (''m'', \<lambda>_. None), ae_time = (\<lambda>_. None), ae_uuid = ''i'', ae_gen = Some ''o''\<rparr>"

definition demo_caller :: "string \<Rightarrow> auth_ctx" where
  "demo_caller level = \<lparr>cx_User = Some ((user_of_row demo_user_row)\<lparr>u_AccessLevel := level, u_ProfileID := Some ''p1''\<rparr>), cx_APIKey = None\<rparr>"

definition demo_api_request :: "string \<Rightarrow> string \<Rightarrow> http_request" where
  "demo_api_request meth path = \<lparr>hr_Method = meth, hr_Path = path, hr_Header = (\<lambda>_. []), hr_Query = (\<lambda>_. []), hr_Form = (\<lambda>_. []),
     hr_Cookie = (\<lambda>_. None), hr_Body = None, hr_RemoteAddr = []\<rparr>"

definition demo_api_db :: relay_db where
  "demo_api_db = empty_db\<lparr>db_servers := [demo_server],
     db_permissions := [\<lparr>pp_ProfileID = ''p1'', pp_ServerID = ''s1'', pp_EndpointType = ''tool'', pp_EndpointName = ''t''\<rparr>]\<rparr>"

lemma demo_api_get: "ServerStore_Get (st_enc demo_store) io ''s1'' demo_api_db = (if io 0 then Inr (Some demo_server) else Inl DriverError)"
  by (simp add: ServerStore_Get_def find_server_def demo_store_def demo_api_db_def demo_server_def open_config_def Decrypt_def encryptedPrefix_def
      has_prefix_def stmt_def res_bind_def)

lemma demo_io: "st_io demo_store = no_faults" by (simp add: demo_store_def)

lemma demo_paths:
  "str_split (CHR ''/'') (trim_prefix ''/api/servers/s1'' ''/api/servers/'') = [''s1'']"
  "str_split (CHR ''/'') (trim_prefix ''/api/servers/s1/start'' ''/api/servers/'') = [''s1'', ''start'']"
  "str_split (CHR ''/'') (trim_prefix ''/api/servers/s1/optimize'' ''/api/servers/'') = [''s1'', ''optimize'']"
  by code_simp+

theorem api_callers_confined_witness:
  "\<exists>s' rep. api_request demo_api (demo_caller ''write'') (demo_api_request ''GET'' ''/api/servers/s1'') ((NewManager, demo_api_db), []) = (s', rep) \<and>
     servers_shown (ar_Body rep) = {''s1''} \<and> granted demo_api_db (the (cx_User (demo_caller ''write''))) ''s1''"
proof -
  let ?r = "demo_api_request ''GET'' ''/api/servers/s1''" and ?u = "the (cx_User (demo_caller ''write''))"
  obtain s' rep where run: "api_request demo_api (demo_caller ''write'') ?r ((NewManager, demo_api_db), []) = (s', rep)" by fastforce
  have u: "cx_User (demo_caller ''write'') = Some ?u" "u_Role ?u \<noteq> ''admin''" "u_AccessLevel ?u \<noteq> ''admin''"
    by (simp_all add: demo_caller_def user_of_row_def demo_user_row_def)
  have vis: "canAccessServerAPI (st_io demo_store) (demo_caller ''write'') ''s1'' demo_api_db"
    by (simp add: canAccessServerAPI_def demo_caller_def user_of_row_def demo_user_row_def ProfileStore_ServerIDsForProfile_def stmt_def
        demo_store_def demo_api_db_def demo_server_def server_exists_def sql_has_def sql_select_def)
  have "rep = reply_with 200 (ApiServer demo_server)"
    using run vis by (simp add: api_request_def handleServerByID_def Let_def demo_api_request_def demo_paths demo_api_def getServer_def demo_api_get demo_io)
  then have shown: "servers_shown (ar_Body rep) = {''s1''}" by (simp add: reply_with_def demo_server_def)
  with api_callers_confined [OF u run] run show ?thesis by auto
qed


theorem interrupted_optimization_blocks_witness:
  "\<exists>s'' rep. api_request demo_api (demo_caller ''admin'') (demo_api_request ''POST'' ''/api/servers/s1/optimize'')
       ((NewManager\<lparr>mg_endpoints := [''s1'' \<mapsto> no_endpoints\<lparr>se_Tools := [demo_tool]\<rparr>]\<rparr>, demo_api_db), [demo_optimization\<lparr>to_Status := ''running''\<rparr>]) = (s'', rep) \<and>
     ar_Status rep = 409 \<and> ar_Task rep \<noteq> Some (''s1'', [demo_tool])"
proof -
  let ?r = "demo_api_request ''POST'' ''/api/servers/s1/optimize''"
  let ?s = "((NewManager\<lparr>mg_endpoints := [''s1'' \<mapsto> no_endpoints\<lparr>se_Tools := [demo_tool]\<rparr>]\<rparr>, demo_api_db), [demo_optimization\<lparr>to_Status := ''running''\<rparr>])"
  obtain s'' rep where run: "api_request demo_api (demo_caller ''admin'') ?r ?s = (s'', rep)" by fastforce
  have row: "running_row ''s1'' (snd ?s)" by (simp add: running_row_def demo_optimization_def)
  have io: "st_io (ae_store demo_api) = no_faults" by (simp add: demo_api_def demo_store_def)
  have "rep = api_error ''optimization already in progress'' 409"
    using run by (simp add: api_request_def handleServerByID_def Let_def demo_api_request_def demo_paths demo_api_def management_action_def
        run_management_def runOptimize_def requireAdminAccess_def demo_caller_def demo_api_get cache_get_def OptimizeStore_Get_def stmt_def
        demo_optimization_def demo_io)
  then have "ar_Status rep = 409" by (simp add: api_error_def reply_with_def)
  moreover have "hr_Method ?r = ''POST''" by (simp add: demo_api_request_def)
  from interrupted_optimization_blocks [OF rtranclp.rtrancl_refl row run io this] have "ar_Task rep \<noteq> Some (''s1'', [demo_tool])" by blast
  ultimately show ?thesis using run by blast
qed

end
