(* ===== verification/Skill_Store.thy ===== *)
theory Skill_Store
  imports Server_Store
begin

text \<open>
  The skill repository's tables (\<open>internal/store/skills.go\<close>, \<open>migrations/015_skills.sql\<close>,
  \<open>migrations/017_skill_upstreams.sql\<close>): skills, their published versions, the grants of restricted skills to
  users, and the git repository a skill follows with the latest report of its drift. The tables refer to accounts of
  the relay's database, which the operations take as an argument.
\<close>

section \<open>Rows\<close>

record Skill =
  sk_ID :: string
  sk_Slug :: string
  sk_DisplayName :: string
  sk_Description :: string
  sk_Visibility :: string
  sk_LatestVersion :: string
  sk_YankedAt :: "time option"
  sk_CreatedBy :: "string option"
  sk_CreatedAt :: time
  sk_UpdatedAt :: time
  sk_Outdated :: int

record SkillVersion =
  vn_SkillID :: string
  vn_Version :: string
  vn_ArchivePath :: string
  vn_ArchiveSize :: nat
  vn_ArchiveSHA256 :: string
  vn_Manifest :: string
  vn_YankedAt :: "time option"
  vn_UploadedBy :: "string option"
  vn_UploadedAt :: time

record SkillAssignment =
  ag_SkillID :: string
  ag_UserID :: string
  ag_Version :: "string option"
  ag_AssignedBy :: "string option"
  ag_AssignedAt :: time

record DriftReport =
  dr_RelayVersion :: string
  dr_RelayHash :: string
  dr_UpstreamSHA :: string
  dr_UpstreamHash :: string
  dr_CommitsAhead :: int
  dr_Severity :: string
  dr_Summary :: string
  dr_RecommendedAction :: string
  dr_LLMModel :: string
  dr_DetectedAt :: time

text \<open>The ten \<open>drift_\<close> columns are written together and cleared together: one optional report.\<close>

record SkillUpstream =
  su_SkillID :: string
  su_UpstreamType :: string
  su_GitURL :: string
  su_GitSubpath :: string
  su_GitRef :: string
  su_LastCheckedAt :: "time option"
  su_LastSeenSHA :: "string option"
  su_LastSeenHash :: "string option"
  su_Drift :: "DriftReport option"
  su_CreatedAt :: time
  su_UpdatedAt :: time

record skill_db =
  kd_skills :: "Skill list"
  kd_versions :: "SkillVersion list"
  kd_assignments :: "SkillAssignment list"
  kd_upstreams :: "SkillUpstream list"

datatype skill_error =
    SkillSQL store_error
  | SkillInput string
  | ErrSkillSlugConflict
  | ErrSkillVersionConflict
  | ErrUnsupportedGitURL
  | ErrInvalidArchive string
  | ErrSkillNotFound
  | SkillIO string

type_synonym 'a skill_res = "skill_error + 'a"

definition valid_visibility :: "string \<Rightarrow> bool" where
  "valid_visibility v \<longleftrightarrow> v \<in> {''public'', ''restricted''}"

definition valid_severity :: "string \<Rightarrow> bool" where
  "valid_severity s \<longleftrightarrow> s \<in> {''cosmetic'', ''minor'', ''major'', ''security'', ''unknown''}"

definition skill_exists :: "skill_db \<Rightarrow> string \<Rightarrow> bool" where
  "skill_exists k i = sql_has (\<lambda>s. sk_ID s = i) (kd_skills k)"

definition opt_user :: "relay_db \<Rightarrow> string option \<Rightarrow> bool" where
  "opt_user db u = (case u of None \<Rightarrow> True | Some i \<Rightarrow> user_exists db i)"

text \<open>One statement and its outcome in the terms of the store.\<close>

definition kexec :: "bool \<Rightarrow> (skill_db \<Rightarrow> skill_db res) \<Rightarrow> skill_db \<Rightarrow> skill_db \<times> unit skill_res" where
  "kexec ok f k = (case stmt ok (f k) of Inl e \<Rightarrow> (k, Inl (SkillSQL e)) | Inr k' \<Rightarrow> (k', Inr ()))"

text \<open>Two statements in one transaction: \<open>io 0\<close> begins it and \<open>io 3\<close> commits it.\<close>

definition ktx2 :: "faults \<Rightarrow> (skill_db \<Rightarrow> skill_db res) \<Rightarrow> (skill_db \<Rightarrow> skill_db res) \<Rightarrow> skill_db \<Rightarrow> skill_db \<times> unit skill_res" where
  "ktx2 io f g k =
     (case stmt (io 0) (res_bind (stmt (io 1) (f k)) (\<lambda>k1. res_bind (stmt (io 2) (g k1)) (\<lambda>k2. stmt (io 3) (Inr k2)))) of
        Inl e \<Rightarrow> (k, Inl (SkillSQL e)) | Inr k' \<Rightarrow> (k', Inr ()))"

definition kquery :: "bool \<Rightarrow> 'a \<Rightarrow> 'a skill_res" where
  "kquery ok a = (if ok then Inr a else Inl (SkillSQL DriverError))"

definition update_skill :: "string \<Rightarrow> (Skill \<Rightarrow> Skill) \<Rightarrow> skill_db \<Rightarrow> skill_db res" where
  "update_skill i f k = Inr (k\<lparr>kd_skills := sql_update (\<lambda>s. sk_ID s = i) f (kd_skills k)\<rparr>)"

section \<open>Skills\<close>

definition insert_skill :: "relay_db \<Rightarrow> Skill \<Rightarrow> skill_db \<Rightarrow> skill_db res" where
  "insert_skill db sk k =
     (if \<not> valid_visibility (sk_Visibility sk) then Inl CheckViolation
      else if sql_has (\<lambda>s. sk_ID s = sk_ID sk \<or> sk_Slug s = sk_Slug sk) (kd_skills k) then Inl UniqueViolation
      else if \<not> opt_user db (sk_CreatedBy sk) then Inl ForeignKeyViolation
      else Inr (k\<lparr>kd_skills := kd_skills k @ [sk\<lparr>sk_LatestVersion := [], sk_YankedAt := None, sk_Outdated := 0\<rparr>]\<rparr>))"

definition CreateSkill :: "faults \<Rightarrow> time \<Rightarrow> string \<Rightarrow> relay_db \<Rightarrow> Skill \<Rightarrow> skill_db \<Rightarrow> skill_db \<times> Skill skill_res" where
  "CreateSkill io now uuid db sk k =
     (case ValidateSlug (sk_Slug sk) of
        Inl e \<Rightarrow> (k, Inl (SkillSQL e))
      | Inr _ \<Rightarrow>
          let sk1 = sk\<lparr>sk_ID := (if sk_ID sk = [] then uuid else sk_ID sk),
                sk_Visibility := (if sk_Visibility sk = [] then ''restricted'' else sk_Visibility sk)\<rparr> in
          if \<not> valid_visibility (sk_Visibility sk1) then (k, Inl (SkillInput ''invalid visibility''))
          else
            let sk2 = sk1\<lparr>sk_CreatedAt := now, sk_UpdatedAt := now\<rparr> in
            (case kexec (io 0) (insert_skill db sk2) k of
               (k', Inr _) \<Rightarrow> (k', Inr sk2)
             | (k', Inl e) \<Rightarrow> (k', Inl (if e = SkillSQL UniqueViolation then ErrSkillSlugConflict else e))))"

definition GetSkill :: "faults \<Rightarrow> string \<Rightarrow> skill_db \<Rightarrow> Skill option skill_res" where
  "GetSkill io i k = kquery (io 0) (sql_row (\<lambda>s. sk_ID s = i) (kd_skills k))"

definition GetSkillBySlug :: "faults \<Rightarrow> string \<Rightarrow> skill_db \<Rightarrow> Skill option skill_res" where
  "GetSkillBySlug io slug k = kquery (io 0) (sql_row (\<lambda>s. sk_Slug s = slug) (kd_skills k))"

definition ListSkills :: "faults \<Rightarrow> skill_db \<Rightarrow> Skill list skill_res" where
  "ListSkills io k = kquery (io 0) (sql_order sk_Slug (kd_skills k))"

definition UpdateSkillMeta :: "faults \<Rightarrow> time \<Rightarrow> string \<Rightarrow> string \<Rightarrow> string \<Rightarrow> string \<Rightarrow> skill_db \<Rightarrow> skill_db \<times> unit skill_res" where
  "UpdateSkillMeta io now i displayName description visibility k =
     (if visibility \<noteq> [] \<and> \<not> valid_visibility visibility then (k, Inl (SkillInput ''invalid visibility''))
      else kexec (io 0) (update_skill i (\<lambda>s. s\<lparr>sk_DisplayName := displayName, sk_Description := description,
             sk_Visibility := (if visibility = [] then sk_Visibility s else visibility), sk_UpdatedAt := now\<rparr>)) k)"

definition YankSkill :: "faults \<Rightarrow> time \<Rightarrow> string \<Rightarrow> skill_db \<Rightarrow> skill_db \<times> unit skill_res" where
  "YankSkill io now i k = kexec (io 0) (update_skill i (\<lambda>s. s\<lparr>sk_YankedAt := Some now, sk_UpdatedAt := now\<rparr>)) k"

definition UnyankSkill :: "faults \<Rightarrow> time \<Rightarrow> string \<Rightarrow> skill_db \<Rightarrow> skill_db \<times> unit skill_res" where
  "UnyankSkill io now i k = kexec (io 0) (update_skill i (\<lambda>s. s\<lparr>sk_YankedAt := None, sk_UpdatedAt := now\<rparr>)) k"

definition delete_skill :: "string \<Rightarrow> skill_db \<Rightarrow> skill_db" where
  "delete_skill i k =
     \<lparr>kd_skills = sql_delete (\<lambda>s. sk_ID s = i) (kd_skills k), kd_versions = sql_delete (\<lambda>v. vn_SkillID v = i) (kd_versions k),
      kd_assignments = sql_delete (\<lambda>a. ag_SkillID a = i) (kd_assignments k), kd_upstreams = sql_delete (\<lambda>u. su_SkillID u = i) (kd_upstreams k)\<rparr>"

definition DeleteSkill :: "faults \<Rightarrow> string \<Rightarrow> skill_db \<Rightarrow> skill_db \<times> unit skill_res" where
  "DeleteSkill io i k = kexec (io 0) (\<lambda>k. Inr (delete_skill i k)) k"

text \<open>What the deletion of an account does to these tables.\<close>

definition forget_user :: "string \<Rightarrow> skill_db \<Rightarrow> skill_db" where
  "forget_user i k =
     (let clear = (\<lambda>u. if u = Some i then None else u) in
      k\<lparr>kd_skills := map (\<lambda>s. s\<lparr>sk_CreatedBy := clear (sk_CreatedBy s)\<rparr>) (kd_skills k),
        kd_versions := map (\<lambda>v. v\<lparr>vn_UploadedBy := clear (vn_UploadedBy v)\<rparr>) (kd_versions k),
        kd_assignments := map (\<lambda>a. a\<lparr>ag_AssignedBy := clear (ag_AssignedBy a)\<rparr>) (sql_delete (\<lambda>a. ag_UserID a = i) (kd_assignments k))\<rparr>)"

section \<open>Versions\<close>

definition insert_version :: "relay_db \<Rightarrow> SkillVersion \<Rightarrow> skill_db \<Rightarrow> skill_db res" where
  "insert_version db v k =
     (if sql_has (\<lambda>x. vn_SkillID x = vn_SkillID v \<and> vn_Version x = vn_Version v) (kd_versions k) then Inl UniqueViolation
      else if \<not> skill_exists k (vn_SkillID v) \<or> \<not> opt_user db (vn_UploadedBy v) then Inl ForeignKeyViolation
      else Inr (k\<lparr>kd_versions := kd_versions k @ [v\<lparr>vn_YankedAt := None\<rparr>]\<rparr>))"

definition CreateVersion :: "faults \<Rightarrow> time \<Rightarrow> relay_db \<Rightarrow> SkillVersion \<Rightarrow> skill_db \<Rightarrow> skill_db \<times> SkillVersion skill_res" where
  "CreateVersion io now db v k =
     (if vn_Version v = [] then (k, Inl (SkillInput ''version is required''))
      else if vn_ArchivePath v = [] then (k, Inl (SkillInput ''archive_path is required''))
      else if vn_ArchiveSize v = 0 then (k, Inl (SkillInput ''archive_size must be > 0''))
      else if vn_ArchiveSHA256 v = [] then (k, Inl (SkillInput ''archive_sha256 is required''))
      else
        let v1 = v\<lparr>vn_Manifest := (if vn_Manifest v = [] then ''{}'' else vn_Manifest v), vn_UploadedAt := now\<rparr> in
        (case ktx2 io (insert_version db v1)
                (update_skill (vn_SkillID v1) (\<lambda>s. s\<lparr>sk_LatestVersion := vn_Version v1, sk_UpdatedAt := now\<rparr>)) k of
           (k', Inr _) \<Rightarrow> (k', Inr v1)
         | (k', Inl e) \<Rightarrow> (k', Inl (if e = SkillSQL UniqueViolation then ErrSkillVersionConflict else e))))"

definition GetVersion :: "faults \<Rightarrow> string \<Rightarrow> string \<Rightarrow> skill_db \<Rightarrow> SkillVersion option skill_res" where
  "GetVersion io i version k = kquery (io 0) (sql_row (\<lambda>v. vn_SkillID v = i \<and> vn_Version v = version) (kd_versions k))"

definition ListVersions :: "faults \<Rightarrow> string \<Rightarrow> skill_db \<Rightarrow> SkillVersion list skill_res" where
  "ListVersions io i k = kquery (io 0) (sql_order_desc vn_UploadedAt (sql_select (\<lambda>v. vn_SkillID v = i) (kd_versions k)))"

definition set_yanked :: "time option \<Rightarrow> faults \<Rightarrow> string \<Rightarrow> string \<Rightarrow> skill_db \<Rightarrow> skill_db \<times> unit skill_res" where
  "set_yanked t io i version k =
     (let p = (\<lambda>v. vn_SkillID v = i \<and> vn_Version v = version) in
      case kexec (io 0) (\<lambda>k. Inr (k\<lparr>kd_versions := sql_update p (\<lambda>v. v\<lparr>vn_YankedAt := t\<rparr>) (kd_versions k)\<rparr>)) k of
        (k', Inl e) \<Rightarrow> (k', Inl e)
      | (k', Inr _) \<Rightarrow> (k', if sql_has p (kd_versions k) then Inr () else Inl (SkillSQL NoRows)))"

definition YankVersion :: "faults \<Rightarrow> time \<Rightarrow> string \<Rightarrow> string \<Rightarrow> skill_db \<Rightarrow> skill_db \<times> unit skill_res" where
  "YankVersion io now = set_yanked (Some now) io"

definition UnyankVersion :: "faults \<Rightarrow> string \<Rightarrow> string \<Rightarrow> skill_db \<Rightarrow> skill_db \<times> unit skill_res" where
  "UnyankVersion io = set_yanked None io"

section \<open>Grants\<close>

definition upsert_assignment :: "relay_db \<Rightarrow> SkillAssignment \<Rightarrow> skill_db \<Rightarrow> skill_db res" where
  "upsert_assignment db a k =
     (let p = (\<lambda>x. ag_SkillID x = ag_SkillID a \<and> ag_UserID x = ag_UserID a) in
      if \<not> skill_exists k (ag_SkillID a) \<or> \<not> user_exists db (ag_UserID a) \<or> \<not> opt_user db (ag_AssignedBy a) then Inl ForeignKeyViolation
      else if sql_has p (kd_assignments k) then Inr (k\<lparr>kd_assignments := sql_update p (\<lambda>_. a) (kd_assignments k)\<rparr>)
      else Inr (k\<lparr>kd_assignments := kd_assignments k @ [a]\<rparr>))"

definition AssignSkill :: "faults \<Rightarrow> time \<Rightarrow> relay_db \<Rightarrow> SkillAssignment \<Rightarrow> skill_db \<Rightarrow> skill_db \<times> SkillAssignment skill_res" where
  "AssignSkill io now db a k =
     (if ag_SkillID a = [] \<or> ag_UserID a = [] then (k, Inl (SkillInput ''skill_id and user_id are required''))
      else
        let a1 = a\<lparr>ag_AssignedAt := now\<rparr> in
        (case kexec (io 0) (upsert_assignment db a1) k of (k', Inr _) \<Rightarrow> (k', Inr a1) | (k', Inl e) \<Rightarrow> (k', Inl e)))"

definition UnassignSkill :: "faults \<Rightarrow> string \<Rightarrow> string \<Rightarrow> skill_db \<Rightarrow> skill_db \<times> unit skill_res" where
  "UnassignSkill io i userID k =
     kexec (io 0) (\<lambda>k. Inr (k\<lparr>kd_assignments := sql_delete (\<lambda>a. ag_SkillID a = i \<and> ag_UserID a = userID) (kd_assignments k)\<rparr>)) k"

definition ListAssignmentsForSkill :: "faults \<Rightarrow> string \<Rightarrow> skill_db \<Rightarrow> SkillAssignment list skill_res" where
  "ListAssignmentsForSkill io i k = kquery (io 0) (sql_order ag_AssignedAt (sql_select (\<lambda>a. ag_SkillID a = i) (kd_assignments k)))"

record AssignedSkill =
  as_Skill :: Skill
  as_PinnedVersion :: "string option"

text \<open>The query does not select \<open>outdated\<close>, so the field of the result keeps its zero.\<close>

definition AssignedForUser :: "faults \<Rightarrow> string \<Rightarrow> skill_db \<Rightarrow> AssignedSkill list skill_res" where
  "AssignedForUser io userID k =
     kquery (io 0) (concat (map (\<lambda>s.
       let grant = sql_row (\<lambda>a. ag_SkillID a = sk_ID s \<and> ag_UserID a = userID) (kd_assignments k) in
       if sk_YankedAt s = None \<and> (sk_Visibility s = ''public'' \<or> grant \<noteq> None)
       then [\<lparr>as_Skill = s\<lparr>sk_Outdated := 0\<rparr>, as_PinnedVersion = (case grant of None \<Rightarrow> None | Some a \<Rightarrow> ag_Version a)\<rparr>]
       else []) (sql_order sk_Slug (kd_skills k))))"

section \<open>Upstreams\<close>

definition AllowedGitProtocols :: "string list" where
  "AllowedGitProtocols = [''http'', ''https'', ''ssh'', ''git'', ''file'']"

definition ValidateGitURL :: "string \<Rightarrow> unit skill_res" where
  "ValidateGitURL raw =
     (let s = trim_space raw in
      if s = [] then Inl ErrUnsupportedGitURL
      else if has_prefix s ''-'' then Inl ErrUnsupportedGitURL
      else (case str_index s ''://'' of
        Some i \<Rightarrow> if to_lower (take i s) \<notin> set AllowedGitProtocols then Inl ErrUnsupportedGitURL else Inr ()
      | None \<Rightarrow> if str_contains s ''::'' then Inl ErrUnsupportedGitURL else Inr ()))"

definition upsert_upstream :: "SkillUpstream \<Rightarrow> skill_db \<Rightarrow> skill_db res" where
  "upsert_upstream u k =
     (let p = (\<lambda>x. su_SkillID x = su_SkillID u) in
      if su_UpstreamType u \<noteq> ''git'' then Inl CheckViolation
      else if sql_has p (kd_upstreams k) then
        Inr (k\<lparr>kd_upstreams := sql_update p (\<lambda>x. x\<lparr>su_UpstreamType := su_UpstreamType u, su_GitURL := su_GitURL u, su_GitSubpath := su_GitSubpath u,
          su_GitRef := su_GitRef u, su_UpdatedAt := su_UpdatedAt u\<rparr>) (kd_upstreams k)\<rparr>)
      else if \<not> skill_exists k (su_SkillID u) then Inl ForeignKeyViolation
      else Inr (k\<lparr>kd_upstreams := kd_upstreams k @ [u\<lparr>su_LastCheckedAt := None, su_LastSeenSHA := None, su_Drift := None\<rparr>]\<rparr>))"

definition UpsertUpstream :: "faults \<Rightarrow> time \<Rightarrow> SkillUpstream \<Rightarrow> skill_db \<Rightarrow> skill_db \<times> unit skill_res" where
  "UpsertUpstream io now u k =
     (let u1 = u\<lparr>su_UpstreamType := (if su_UpstreamType u = [] then ''git'' else su_UpstreamType u)\<rparr> in
      case ValidateGitURL (su_GitURL u1) of
        Inl e \<Rightarrow> (k, Inl e)
      | Inr _ \<Rightarrow>
          kexec (io 0) (upsert_upstream (u1\<lparr>su_GitRef := (if su_GitRef u1 = [] then ''HEAD'' else su_GitRef u1), su_CreatedAt := now, su_UpdatedAt := now\<rparr>)) k)"

definition GetUpstream :: "faults \<Rightarrow> string \<Rightarrow> skill_db \<Rightarrow> SkillUpstream option skill_res" where
  "GetUpstream io i k = kquery (io 0) (sql_row (\<lambda>u. su_SkillID u = i) (kd_upstreams k))"

definition ClearUpstream :: "faults \<Rightarrow> string \<Rightarrow> skill_db \<Rightarrow> skill_db \<times> unit skill_res" where
  "ClearUpstream io i k =
     ktx2 io (\<lambda>k. Inr (k\<lparr>kd_upstreams := sql_delete (\<lambda>u. su_SkillID u = i) (kd_upstreams k)\<rparr>))
       (update_skill i (\<lambda>s. s\<lparr>sk_Outdated := 0\<rparr>)) k"

text \<open>Never checked ones first, then by the time of the last check, then by skill.\<close>

definition ListUpstreams :: "faults \<Rightarrow> skill_db \<Rightarrow> SkillUpstream list skill_res" where
  "ListUpstreams io k =
     kquery (io 0) (let rows = sql_order su_SkillID (kd_upstreams k) in
       filter (\<lambda>u. su_LastCheckedAt u = None) rows @ sort_key (\<lambda>u. the (su_LastCheckedAt u)) (filter (\<lambda>u. su_LastCheckedAt u \<noteq> None) rows))"

definition update_upstream :: "string \<Rightarrow> (SkillUpstream \<Rightarrow> SkillUpstream) \<Rightarrow> skill_db \<Rightarrow> skill_db res" where
  "update_upstream i f k = Inr (k\<lparr>kd_upstreams := sql_update (\<lambda>u. su_SkillID u = i) f (kd_upstreams k)\<rparr>)"

definition UpdateUpstreamCheck :: "faults \<Rightarrow> time \<Rightarrow> string \<Rightarrow> string \<Rightarrow> string \<Rightarrow> time \<Rightarrow> skill_db \<Rightarrow> skill_db \<times> unit skill_res" where
  "UpdateUpstreamCheck io now i sha hash checkedAt k =
     kexec (io 0) (update_upstream i (\<lambda>u. u\<lparr>su_LastSeenSHA := Some sha, su_LastSeenHash := Some hash, su_LastCheckedAt := Some checkedAt,
       su_UpdatedAt := now\<rparr>)) k"

definition WriteDriftReport :: "faults \<Rightarrow> time \<Rightarrow> string \<Rightarrow> DriftReport \<Rightarrow> skill_db \<Rightarrow> skill_db \<times> unit skill_res" where
  "WriteDriftReport io now i r k =
     ktx2 io
       (\<lambda>k. if sql_has (\<lambda>u. su_SkillID u = i) (kd_upstreams k) \<and> \<not> valid_severity (dr_Severity r) then Inl CheckViolation
            else update_upstream i (\<lambda>u. u\<lparr>su_Drift := Some r, su_LastSeenSHA := Some (dr_UpstreamSHA r), su_LastSeenHash := Some (dr_UpstreamHash r),
              su_LastCheckedAt := Some (dr_DetectedAt r), su_UpdatedAt := now\<rparr>) k)
       (update_skill i (\<lambda>s. s\<lparr>sk_Outdated := 1\<rparr>)) k"

definition ClearDriftReport :: "faults \<Rightarrow> time \<Rightarrow> string \<Rightarrow> string \<Rightarrow> skill_db \<Rightarrow> skill_db \<times> unit skill_res" where
  "ClearDriftReport io now i latestSeenHash k =
     ktx2 io (update_upstream i (\<lambda>u. u\<lparr>su_Drift := None, su_LastSeenHash := Some latestSeenHash, su_UpdatedAt := now\<rparr>))
       (update_skill i (\<lambda>s. s\<lparr>sk_Outdated := 0\<rparr>)) k"

section \<open>Recent activity\<close>

record RecentSkillVersionRow =
  rv_SkillID :: string
  rv_Slug :: string
  rv_Visibility :: string
  rv_Version :: string
  rv_UploadedBy :: "string option"
  rv_UploadedAt :: time

text \<open>The join of a row with the skill it belongs to.\<close>

definition with_skill :: "skill_db \<Rightarrow> string \<Rightarrow> (Skill \<Rightarrow> 'a list) \<Rightarrow> 'a list" where
  "with_skill k i f = (case sql_row (\<lambda>s. sk_ID s = i) (kd_skills k) of None \<Rightarrow> [] | Some s \<Rightarrow> f s)"

definition RecentSkillVersions :: "faults \<Rightarrow> int \<Rightarrow> time \<Rightarrow> skill_db \<Rightarrow> RecentSkillVersionRow list skill_res" where
  "RecentSkillVersions io limit since k =
     kquery (io 0) (sql_limit limit (sql_order_desc rv_UploadedAt (concat (map (\<lambda>v.
       with_skill k (vn_SkillID v) (\<lambda>s.
         if since \<le> vn_UploadedAt v \<and> vn_YankedAt v = None \<and> sk_YankedAt s = None
         then [\<lparr>rv_SkillID = vn_SkillID v, rv_Slug = sk_Slug s, rv_Visibility = sk_Visibility s, rv_Version = vn_Version v,
                rv_UploadedBy = vn_UploadedBy v, rv_UploadedAt = vn_UploadedAt v\<rparr>]
         else [])) (kd_versions k)))))"

record RecentSkillYankRow =
  ry_SkillID :: string
  ry_Slug :: string
  ry_Visibility :: string
  ry_YankedAt :: time

definition RecentSkillYanks :: "faults \<Rightarrow> int \<Rightarrow> time \<Rightarrow> skill_db \<Rightarrow> RecentSkillYankRow list skill_res" where
  "RecentSkillYanks io limit since k =
     kquery (io 0) (sql_limit limit (sql_order_desc ry_YankedAt (concat (map (\<lambda>s.
       case sk_YankedAt s of
         None \<Rightarrow> []
       | Some t \<Rightarrow> if since \<le> t then [\<lparr>ry_SkillID = sk_ID s, ry_Slug = sk_Slug s, ry_Visibility = sk_Visibility s, ry_YankedAt = t\<rparr>] else [])
       (kd_skills k)))))"

record RecentDriftRow =
  rd_SkillID :: string
  rd_Slug :: string
  rd_Visibility :: string
  rd_Severity :: "string option"
  rd_DriftAt :: time

definition RecentDrift :: "faults \<Rightarrow> int \<Rightarrow> time \<Rightarrow> skill_db \<Rightarrow> RecentDriftRow list skill_res" where
  "RecentDrift io limit since k =
     kquery (io 0) (sql_limit limit (sql_order_desc rd_DriftAt (concat (map (\<lambda>u.
       with_skill k (su_SkillID u) (\<lambda>s.
         case su_Drift u of
           None \<Rightarrow> []
         | Some r \<Rightarrow> if since \<le> dr_DetectedAt r
             then [\<lparr>rd_SkillID = su_SkillID u, rd_Slug = sk_Slug s, rd_Visibility = sk_Visibility s, rd_Severity = Some (dr_Severity r), rd_DriftAt = dr_DetectedAt r\<rparr>]
             else [])) (kd_upstreams k)))))"

record RecentSkillAssignmentRow =
  rg_SkillID :: string
  rg_Slug :: string
  rg_Visibility :: string
  rg_UserID :: string
  rg_AssignedAt :: time

definition RecentSkillAssignments :: "faults \<Rightarrow> int \<Rightarrow> time \<Rightarrow> skill_db \<Rightarrow> RecentSkillAssignmentRow list skill_res" where
  "RecentSkillAssignments io limit since k =
     kquery (io 0) (sql_limit limit (sql_order_desc rg_AssignedAt (concat (map (\<lambda>a.
       with_skill k (ag_SkillID a) (\<lambda>s.
         if since \<le> ag_AssignedAt a
         then [\<lparr>rg_SkillID = ag_SkillID a, rg_Slug = sk_Slug s, rg_Visibility = sk_Visibility s, rg_UserID = ag_UserID a, rg_AssignedAt = ag_AssignedAt a\<rparr>]
         else [])) (kd_assignments k)))))"

section \<open>The tables stay consistent\<close>

definition skill_row_ok :: "relay_db \<Rightarrow> skill_db \<Rightarrow> Skill \<Rightarrow> bool" where
  "skill_row_ok db k s \<longleftrightarrow> valid_visibility (sk_Visibility s) \<and> ValidateSlug (sk_Slug s) = Inr () \<and> opt_user db (sk_CreatedBy s) \<and>
     (sk_LatestVersion s = [] \<or> (\<exists>v \<in> set (kd_versions k). vn_SkillID v = sk_ID s \<and> vn_Version v = sk_LatestVersion s))"

definition version_row_ok :: "relay_db \<Rightarrow> skill_db \<Rightarrow> SkillVersion \<Rightarrow> bool" where
  "version_row_ok db k v \<longleftrightarrow> skill_exists k (vn_SkillID v) \<and> opt_user db (vn_UploadedBy v) \<and> vn_Version v \<noteq> [] \<and> vn_ArchivePath v \<noteq> [] \<and>
     0 < vn_ArchiveSize v \<and> vn_ArchiveSHA256 v \<noteq> []"

definition assignment_row_ok :: "relay_db \<Rightarrow> skill_db \<Rightarrow> SkillAssignment \<Rightarrow> bool" where
  "assignment_row_ok db k a \<longleftrightarrow> skill_exists k (ag_SkillID a) \<and> user_exists db (ag_UserID a) \<and> opt_user db (ag_AssignedBy a)"

definition upstream_row_ok :: "skill_db \<Rightarrow> SkillUpstream \<Rightarrow> bool" where
  "upstream_row_ok k u \<longleftrightarrow> skill_exists k (su_SkillID u) \<and> su_UpstreamType u = ''git'' \<and> ValidateGitURL (su_GitURL u) = Inr () \<and>
     (\<forall>r. su_Drift u = Some r \<longrightarrow> valid_severity (dr_Severity r))"

definition skill_wf :: "relay_db \<Rightarrow> skill_db \<Rightarrow> bool" where
  "skill_wf db k \<longleftrightarrow>
     tbl_ok sk_ID (skill_row_ok db k) (kd_skills k) \<and> distinct (map sk_Slug (kd_skills k)) \<and>
     tbl_ok (\<lambda>v. (vn_SkillID v, vn_Version v)) (version_row_ok db k) (kd_versions k) \<and>
     tbl_ok (\<lambda>a. (ag_SkillID a, ag_UserID a)) (assignment_row_ok db k) (kd_assignments k) \<and>
     tbl_ok su_SkillID (upstream_row_ok k) (kd_upstreams k)"

lemma kexec_wf: "skill_wf db k \<Longrightarrow> (\<And>k'. f k = Inr k' \<Longrightarrow> skill_wf db k') \<Longrightarrow> skill_wf db (fst (kexec ok f k))"
  by (auto simp: kexec_def stmt_def split: sum.splits)

lemma ktx2_wf:
  "skill_wf db k \<Longrightarrow> (\<And>k1 k2. f k = Inr k1 \<Longrightarrow> g k1 = Inr k2 \<Longrightarrow> skill_wf db k2) \<Longrightarrow> skill_wf db (fst (ktx2 io f g k))"
  by (auto simp: ktx2_def stmt_def res_bind_def split: sum.splits)

lemma skill_exists_iff: "skill_exists k i \<longleftrightarrow> i \<in> sk_ID ` set (kd_skills k)"
  by (auto simp: skill_exists_def sql_has_iff)

text \<open>An update of skills that leaves their keys alone.\<close>

lemma update_skill_wf:
  assumes wf: "skill_wf db k" and up: "update_skill i f k = Inr k'"
    and keys: "\<And>s. sk_ID (f s) = sk_ID s" "\<And>s. sk_Slug (f s) = sk_Slug s"
    and row: "\<And>s. skill_row_ok db k s \<Longrightarrow> sk_ID s = i \<Longrightarrow> skill_row_ok db k (f s)"
  shows "skill_wf db k'"
proof -
  from up have k': "k' = k\<lparr>kd_skills := sql_update (\<lambda>s. sk_ID s = i) f (kd_skills k)\<rparr>" by (simp add: update_skill_def)
  have ids: "map sk_ID (kd_skills k') = map sk_ID (kd_skills k)" "map sk_Slug (kd_skills k') = map sk_Slug (kd_skills k)"
    by (simp_all add: k' sql_update_def keys comp_def if_distrib cong: if_cong)
  then have "sk_ID ` set (kd_skills k') = sk_ID ` set (kd_skills k)" by (simp only: list.set_map [symmetric])
  then have ex: "skill_exists k' = skill_exists k" by (simp add: fun_eq_iff skill_exists_iff)
  have rows: "version_row_ok db k' = version_row_ok db k" "assignment_row_ok db k' = assignment_row_ok db k" "upstream_row_ok k' = upstream_row_ok k"
    by (auto simp: fun_eq_iff version_row_ok_def assignment_row_ok_def upstream_row_ok_def ex)
  have "skill_row_ok db k' = skill_row_ok db k" by (auto simp: fun_eq_iff skill_row_ok_def k')
  moreover have "\<forall>s \<in> set (kd_skills k'). skill_row_ok db k s" using wf row by (auto simp: skill_wf_def tbl_ok_def k' sql_update_def)
  ultimately have "tbl_ok sk_ID (skill_row_ok db k') (kd_skills k')" using wf by (simp add: tbl_ok_def ids(1) skill_wf_def)
  with wf rows ids show ?thesis by (simp add: skill_wf_def k')
qed

lemma insert_skill_wf:
  assumes wf: "skill_wf db k" and ins: "insert_skill db sk k = Inr k'" and slug: "ValidateSlug (sk_Slug sk) = Inr ()"
  shows "skill_wf db k'"
proof -
  let ?sk = "sk\<lparr>sk_LatestVersion := [], sk_YankedAt := None, sk_Outdated := 0\<rparr>"
  from ins have k': "k' = k\<lparr>kd_skills := kd_skills k @ [?sk]\<rparr>"
    and new: "valid_visibility (sk_Visibility sk)" "opt_user db (sk_CreatedBy sk)" "sk_ID sk \<notin> sk_ID ` set (kd_skills k)" "sk_Slug sk \<notin> sk_Slug ` set (kd_skills k)"
    by (auto simp: insert_skill_def sql_has_iff split: if_splits)
  have "skill_exists k i \<Longrightarrow> skill_exists k' i" for i by (auto simp: k' skill_exists_iff)
  then have ex: "version_row_ok db k v \<Longrightarrow> version_row_ok db k' v" "assignment_row_ok db k a \<Longrightarrow> assignment_row_ok db k' a"
    "upstream_row_ok k u \<Longrightarrow> upstream_row_ok k' u" for v a u
    by (auto simp: version_row_ok_def assignment_row_ok_def upstream_row_ok_def)
  have "skill_row_ok db k' = skill_row_ok db k" by (auto simp: fun_eq_iff skill_row_ok_def k')
  moreover have "skill_row_ok db k ?sk" using new slug by (simp add: skill_row_ok_def)
  ultimately show ?thesis using wf new ex by (auto simp: skill_wf_def tbl_ok_def k')
qed

lemma CreateSkill_wf: "skill_wf db k \<Longrightarrow> skill_wf db (fst (CreateSkill io now uuid db sk k))"
proof -
  assume wf: "skill_wf db k"
  have ins: "kexec ok (insert_skill db x) k = (k', r) \<Longrightarrow> ValidateSlug (sk_Slug x) = Inr () \<Longrightarrow> skill_wf db k'" for ok x k' r
    using kexec_wf [OF wf, of "insert_skill db x" ok] insert_skill_wf [OF wf, of x] by simp
  show ?thesis
  proof (cases "ValidateSlug (sk_Slug sk)")
    case (Inr u)
    with wf ins show ?thesis by (simp add: CreateSkill_def Let_def split: sum.split prod.split)
  qed (use wf in \<open>simp add: CreateSkill_def\<close>)
qed

lemma meta_wf:
  assumes "skill_wf db k"
  shows "skill_wf db (fst (UpdateSkillMeta io now i dn desc vis k))" "skill_wf db (fst (YankSkill io now i k))" "skill_wf db (fst (UnyankSkill io now i k))"
  using assms by (auto simp: UpdateSkillMeta_def YankSkill_def UnyankSkill_def skill_row_ok_def intro!: kexec_wf elim!: update_skill_wf)

lemma delete_skill_wf: "skill_wf db k \<Longrightarrow> skill_wf db (delete_skill i k)"
proof -
  assume wf: "skill_wf db k"
  have ex: "skill_exists k j \<Longrightarrow> j \<noteq> i \<Longrightarrow> skill_exists (delete_skill i k) j" for j
    by (auto simp: skill_exists_iff delete_skill_def sql_delete_def)
  then have rows: "version_row_ok db k v \<Longrightarrow> vn_SkillID v \<noteq> i \<Longrightarrow> version_row_ok db (delete_skill i k) v"
    "assignment_row_ok db k a \<Longrightarrow> ag_SkillID a \<noteq> i \<Longrightarrow> assignment_row_ok db (delete_skill i k) a"
    "upstream_row_ok k u \<Longrightarrow> su_SkillID u \<noteq> i \<Longrightarrow> upstream_row_ok (delete_skill i k) u" for v a u
    by (auto simp: version_row_ok_def assignment_row_ok_def upstream_row_ok_def)
  have skill: "skill_row_ok db k s \<Longrightarrow> sk_ID s \<noteq> i \<Longrightarrow> skill_row_ok db (delete_skill i k) s" for s
    by (auto simp: skill_row_ok_def delete_skill_def sql_delete_def)
  from wf show ?thesis unfolding skill_wf_def
    using rows skill by (simp add: delete_skill_def [of i k] tbl_ok_def sql_delete_def distinct_map_filter)
qed

lemma insert_version_wf:
  assumes wf: "skill_wf db k" and ins: "insert_version db v k = Inr k1" and up: "update_skill (vn_SkillID v) f k1 = Inr k2"
    and row: "vn_Version v \<noteq> []" "vn_ArchivePath v \<noteq> []" "0 < vn_ArchiveSize v" "vn_ArchiveSHA256 v \<noteq> []"
    and f: "f = (\<lambda>s. s\<lparr>sk_LatestVersion := vn_Version v, sk_UpdatedAt := now\<rparr>)"
  shows "skill_wf db k2"
proof -
  from ins have k1: "k1 = k\<lparr>kd_versions := kd_versions k @ [v\<lparr>vn_YankedAt := None\<rparr>]\<rparr>"
    and new: "skill_exists k (vn_SkillID v)" "opt_user db (vn_UploadedBy v)"
      "(vn_SkillID v, vn_Version v) \<notin> (\<lambda>v. (vn_SkillID v, vn_Version v)) ` set (kd_versions k)"
    by (auto simp: insert_version_def sql_has_iff split: if_splits)
  have ex: "skill_exists k1 = skill_exists k" by (simp add: fun_eq_iff skill_exists_iff k1)
  then have rows: "version_row_ok db k1 = version_row_ok db k" "assignment_row_ok db k1 = assignment_row_ok db k" "upstream_row_ok k1 = upstream_row_ok k"
    by (simp_all add: fun_eq_iff version_row_ok_def assignment_row_ok_def upstream_row_ok_def)
  have "skill_row_ok db k s \<Longrightarrow> skill_row_ok db k1 s" for s by (auto simp: skill_row_ok_def k1)
  moreover have "version_row_ok db k (v\<lparr>vn_YankedAt := None\<rparr>)" using new row by (simp add: version_row_ok_def)
  ultimately have wf1: "skill_wf db k1" using wf new(3) unfolding skill_wf_def rows by (auto simp: tbl_ok_def k1)
  show ?thesis by (rule update_skill_wf [OF wf1 up]) (auto simp: f skill_row_ok_def k1)
qed

lemma CreateVersion_wf: "skill_wf db k \<Longrightarrow> skill_wf db (fst (CreateVersion io now db v k))"
proof -
  assume wf: "skill_wf db k"
  let ?v = "v\<lparr>vn_Manifest := (if vn_Manifest v = [] then ''{}'' else vn_Manifest v), vn_UploadedAt := now\<rparr>"
  let ?tx = "ktx2 io (insert_version db ?v) (update_skill (vn_SkillID ?v) (\<lambda>s. s\<lparr>sk_LatestVersion := vn_Version ?v, sk_UpdatedAt := now\<rparr>)) k"
  show ?thesis
  proof (cases "vn_Version v = [] \<or> vn_ArchivePath v = [] \<or> vn_ArchiveSize v = 0 \<or> vn_ArchiveSHA256 v = []")
    case True
    with wf show ?thesis by (auto simp: CreateVersion_def)
  next
    case False
    have "skill_wf db (fst ?tx)"
    proof (rule ktx2_wf [OF wf])
      fix k1 k2 assume "insert_version db ?v k = Inr k1" "update_skill (vn_SkillID ?v) (\<lambda>s. s\<lparr>sk_LatestVersion := vn_Version ?v, sk_UpdatedAt := now\<rparr>) k1 = Inr k2"
      with False show "skill_wf db k2" by (intro insert_version_wf [OF wf, of ?v k1]) auto
    qed
    moreover have "fst (CreateVersion io now db v k) = fst ?tx" using False by (simp add: CreateVersion_def Let_def split: prod.split sum.split)
    ultimately show ?thesis by simp
  qed
qed

text \<open>Changes of the other three tables; rows are judged by the skills and versions, which stay.\<close>

lemma versions_wf:
  assumes "skill_wf db k" "map (\<lambda>v. (vn_SkillID v, vn_Version v)) vs = map (\<lambda>v. (vn_SkillID v, vn_Version v)) (kd_versions k)" "\<forall>v \<in> set vs. version_row_ok db k v"
  shows "skill_wf db (k\<lparr>kd_versions := vs\<rparr>)"
proof -
  have keys: "(\<lambda>v. (vn_SkillID v, vn_Version v)) ` set vs = (\<lambda>v. (vn_SkillID v, vn_Version v)) ` set (kd_versions k)" using assms(2) by (metis list.set_map)
  have "(\<exists>v \<in> set vs. vn_SkillID v = i \<and> vn_Version v = n) \<longleftrightarrow> (i, n) \<in> (\<lambda>v. (vn_SkillID v, vn_Version v)) ` set vs" for i n by force
  moreover have "(\<exists>v \<in> set (kd_versions k). vn_SkillID v = i \<and> vn_Version v = n) \<longleftrightarrow> (i, n) \<in> (\<lambda>v. (vn_SkillID v, vn_Version v)) ` set (kd_versions k)" for i n by force
  ultimately have "skill_row_ok db (k\<lparr>kd_versions := vs\<rparr>) = skill_row_ok db k" by (simp add: fun_eq_iff skill_row_ok_def keys)
  moreover have "version_row_ok db (k\<lparr>kd_versions := vs\<rparr>) = version_row_ok db k" "assignment_row_ok db (k\<lparr>kd_versions := vs\<rparr>) = assignment_row_ok db k"
    "upstream_row_ok (k\<lparr>kd_versions := vs\<rparr>) = upstream_row_ok k"
    by (simp_all add: fun_eq_iff version_row_ok_def assignment_row_ok_def upstream_row_ok_def skill_exists_def)
  ultimately show ?thesis using assms by (simp add: skill_wf_def tbl_ok_def)
qed

lemma other_tables_wf:
  assumes "skill_wf db k"
  shows "tbl_ok (\<lambda>a. (ag_SkillID a, ag_UserID a)) (assignment_row_ok db k) t \<Longrightarrow> skill_wf db (k\<lparr>kd_assignments := t\<rparr>)"
    "tbl_ok su_SkillID (upstream_row_ok k) u \<Longrightarrow> skill_wf db (k\<lparr>kd_upstreams := u\<rparr>)"
proof -
  have "skill_row_ok db (k\<lparr>kd_assignments := t\<rparr>) = skill_row_ok db k" "version_row_ok db (k\<lparr>kd_assignments := t\<rparr>) = version_row_ok db k"
    "assignment_row_ok db (k\<lparr>kd_assignments := t\<rparr>) = assignment_row_ok db k" "upstream_row_ok (k\<lparr>kd_assignments := t\<rparr>) = upstream_row_ok k"
    "skill_row_ok db (k\<lparr>kd_upstreams := u\<rparr>) = skill_row_ok db k" "version_row_ok db (k\<lparr>kd_upstreams := u\<rparr>) = version_row_ok db k"
    "assignment_row_ok db (k\<lparr>kd_upstreams := u\<rparr>) = assignment_row_ok db k" "upstream_row_ok (k\<lparr>kd_upstreams := u\<rparr>) = upstream_row_ok k"
    by (simp_all add: fun_eq_iff skill_row_ok_def version_row_ok_def assignment_row_ok_def upstream_row_ok_def skill_exists_def)
  with assms show "tbl_ok (\<lambda>a. (ag_SkillID a, ag_UserID a)) (assignment_row_ok db k) t \<Longrightarrow> skill_wf db (k\<lparr>kd_assignments := t\<rparr>)"
    "tbl_ok su_SkillID (upstream_row_ok k) u \<Longrightarrow> skill_wf db (k\<lparr>kd_upstreams := u\<rparr>)" by (simp_all add: skill_wf_def)
qed

lemma yank_version_wf: "skill_wf db k \<Longrightarrow> skill_wf db (fst (set_yanked x io i version k))"
proof -
  assume wf: "skill_wf db k"
  let ?vs = "sql_update (\<lambda>v. vn_SkillID v = i \<and> vn_Version v = version) (\<lambda>v. v\<lparr>vn_YankedAt := x\<rparr>) (kd_versions k)"
  have "skill_wf db (k\<lparr>kd_versions := ?vs\<rparr>)"
    using wf by (intro versions_wf) (auto simp: sql_update_def skill_wf_def tbl_ok_def version_row_ok_def)
  with wf show ?thesis by (simp add: set_yanked_def Let_def kexec_def stmt_def split: prod.split sum.split)
qed

lemma assign_wf: "skill_wf db k \<Longrightarrow> skill_wf db (fst (AssignSkill io now db a k))"
proof -
  assume wf: "skill_wf db k"
  let ?key = "\<lambda>a. (ag_SkillID a, ag_UserID a)"
  have "skill_wf db k'" if ups: "upsert_assignment db x k = Inr k'" for x k'
  proof -
    from ups have row: "assignment_row_ok db k x" by (auto simp: upsert_assignment_def assignment_row_ok_def Let_def split: if_splits)
    have t: "tbl_ok ?key (assignment_row_ok db k) (kd_assignments k)" using wf by (simp add: skill_wf_def)
    have "tbl_ok ?key (assignment_row_ok db k) (sql_update (\<lambda>y. ag_SkillID y = ag_SkillID x \<and> ag_UserID y = ag_UserID x) (\<lambda>_. x) (kd_assignments k))"
    proof -
      have "map ?key (sql_update (\<lambda>y. ag_SkillID y = ag_SkillID x \<and> ag_UserID y = ag_UserID x) (\<lambda>_. x) (kd_assignments k)) = map ?key (kd_assignments k)"
        by (simp add: sql_update_def)
      moreover have "\<forall>y \<in> set (sql_update (\<lambda>y. ag_SkillID y = ag_SkillID x \<and> ag_UserID y = ag_UserID x) (\<lambda>_. x) (kd_assignments k)). assignment_row_ok db k y"
        using t row by (auto simp: sql_update_def tbl_ok_def)
      ultimately show ?thesis using t by (simp add: tbl_ok_def)
    qed
    moreover have "tbl_ok ?key (assignment_row_ok db k) (kd_assignments k @ [x])"
      if "\<not> sql_has (\<lambda>y. ag_SkillID y = ag_SkillID x \<and> ag_UserID y = ag_UserID x) (kd_assignments k)"
      using t row that by (auto simp: tbl_ok_def sql_has_iff)
    ultimately show ?thesis using ups wf by (auto simp: upsert_assignment_def Let_def split: if_splits intro: other_tables_wf(1))
  qed
  then have "skill_wf db (fst (kexec (io 0) (upsert_assignment db (a\<lparr>ag_AssignedAt := now\<rparr>)) k))" by (rule kexec_wf [OF wf])
  with wf show ?thesis by (auto simp: AssignSkill_def Let_def split: prod.splits sum.splits)
qed

lemma unassign_wf: "skill_wf db k \<Longrightarrow> skill_wf db (fst (UnassignSkill io i u k))"
proof -
  assume wf: "skill_wf db k"
  then have "tbl_ok (\<lambda>a. (ag_SkillID a, ag_UserID a)) (assignment_row_ok db k) (kd_assignments k)" by (simp add: skill_wf_def)
  then have "skill_wf db (k\<lparr>kd_assignments := sql_delete (\<lambda>a. ag_SkillID a = i \<and> ag_UserID a = u) (kd_assignments k)\<rparr>)"
    by (intro other_tables_wf(1) [OF wf] tbl_ok_delete)
  with wf show ?thesis by (simp add: UnassignSkill_def kexec_def stmt_def)
qed

lemma update_upstream_wf:
  assumes wf: "skill_wf db k" and up: "update_upstream i f k = Inr k'" and key: "\<And>u. su_SkillID (f u) = su_SkillID u"
    and row: "\<And>u. upstream_row_ok k u \<Longrightarrow> su_SkillID u = i \<Longrightarrow> upstream_row_ok k (f u)"
  shows "skill_wf db k'"
proof -
  have "map su_SkillID (sql_update (\<lambda>u. su_SkillID u = i) f (kd_upstreams k)) = map su_SkillID (kd_upstreams k)" by (simp add: sql_update_def key)
  moreover have "\<forall>u \<in> set (sql_update (\<lambda>u. su_SkillID u = i) f (kd_upstreams k)). upstream_row_ok k u"
    using wf row by (auto simp: sql_update_def skill_wf_def tbl_ok_def)
  ultimately have "tbl_ok su_SkillID (upstream_row_ok k) (sql_update (\<lambda>u. su_SkillID u = i) f (kd_upstreams k))"
    using wf by (simp add: tbl_ok_def skill_wf_def)
  with other_tables_wf(2) [OF wf] up show ?thesis by (auto simp: update_upstream_def)
qed

lemma upsert_upstream_wf: "skill_wf db k \<Longrightarrow> skill_wf db (fst (UpsertUpstream io now u k))"
proof -
  assume wf: "skill_wf db k"
  have "skill_wf db k'" if ups: "upsert_upstream x k = Inr k'" and url: "ValidateGitURL (su_GitURL x) = Inr ()" for x k'
  proof (cases "sql_has (\<lambda>y. su_SkillID y = su_SkillID x) (kd_upstreams k)")
    case True
    with ups have g: "su_UpstreamType x = ''git''" and "update_upstream (su_SkillID x) (\<lambda>y. y\<lparr>su_UpstreamType := su_UpstreamType x, su_GitURL := su_GitURL x,
        su_GitSubpath := su_GitSubpath x, su_GitRef := su_GitRef x, su_UpdatedAt := su_UpdatedAt x\<rparr>) k = Inr k'"
      by (auto simp: upsert_upstream_def update_upstream_def Let_def split: if_splits)
    then show ?thesis by (elim update_upstream_wf [OF wf]) (auto simp: upstream_row_ok_def url)
  next
    case False
    let ?x = "x\<lparr>su_LastCheckedAt := None, su_LastSeenSHA := None, su_Drift := None\<rparr>"
    from False ups have k': "k' = k\<lparr>kd_upstreams := kd_upstreams k @ [?x]\<rparr>" and row: "upstream_row_ok k ?x"
      by (auto simp: upsert_upstream_def Let_def upstream_row_ok_def url split: if_splits)
    with wf False have "tbl_ok su_SkillID (upstream_row_ok k) (kd_upstreams k @ [?x])" by (auto simp: tbl_ok_def skill_wf_def sql_has_iff)
    then show ?thesis unfolding k' by (rule other_tables_wf(2) [OF wf])
  qed
  then show ?thesis unfolding UpsertUpstream_def Let_def
    by (cases "ValidateGitURL (su_GitURL u)") (simp_all add: wf kexec_wf)
qed

lemma drift_wf:
  assumes wf: "skill_wf db k"
  shows "skill_wf db (fst (ClearUpstream io i k))" "skill_wf db (fst (UpdateUpstreamCheck io now i sha hash t k))"
    "skill_wf db (fst (WriteDriftReport io now i r k))" "skill_wf db (fst (ClearDriftReport io now i h k))"
proof -
  have outdated: "skill_wf db k2" if "update_skill i (\<lambda>s. s\<lparr>sk_Outdated := n\<rparr>) k1 = Inr k2" "skill_wf db k1" for k1 k2 n
    by (rule update_skill_wf [OF that(2,1)]) (auto simp: skill_row_ok_def)
  show "skill_wf db (fst (ClearUpstream io i k))" unfolding ClearUpstream_def
  proof (rule ktx2_wf [OF wf])
    fix k1 k2 assume "Inr (k\<lparr>kd_upstreams := sql_delete (\<lambda>u. su_SkillID u = i) (kd_upstreams k)\<rparr>) = (Inr k1 :: skill_db res)"
      "update_skill i (\<lambda>s. s\<lparr>sk_Outdated := 0\<rparr>) k1 = Inr k2"
    moreover have "tbl_ok su_SkillID (upstream_row_ok k) (kd_upstreams k)" using wf by (simp add: skill_wf_def)
    then have "skill_wf db (k\<lparr>kd_upstreams := sql_delete (\<lambda>u. su_SkillID u = i) (kd_upstreams k)\<rparr>)"
      by (intro other_tables_wf(2) [OF wf] tbl_ok_delete)
    ultimately show "skill_wf db k2" using outdated by simp
  qed
  show "skill_wf db (fst (UpdateUpstreamCheck io now i sha hash t k))" unfolding UpdateUpstreamCheck_def
    by (rule kexec_wf [OF wf], erule update_upstream_wf [OF wf]) (auto simp: upstream_row_ok_def)
  show "skill_wf db (fst (WriteDriftReport io now i r k))" unfolding WriteDriftReport_def
  proof (rule ktx2_wf [OF wf])
    let ?f = "\<lambda>u. u\<lparr>su_Drift := Some r, su_LastSeenSHA := Some (dr_UpstreamSHA r), su_LastSeenHash := Some (dr_UpstreamHash r),
        su_LastCheckedAt := Some (dr_DetectedAt r), su_UpdatedAt := now\<rparr>"
    fix k1 k2 assume w: "(if sql_has (\<lambda>u. su_SkillID u = i) (kd_upstreams k) \<and> \<not> valid_severity (dr_Severity r) then Inl CheckViolation
        else update_upstream i ?f k) = Inr k1" and o: "update_skill i (\<lambda>s. s\<lparr>sk_Outdated := 1\<rparr>) k1 = Inr k2"
    show "skill_wf db k2"
    proof (cases "sql_has (\<lambda>u. su_SkillID u = i) (kd_upstreams k)")
      case True
      with w have "update_upstream i ?f k = Inr k1" "valid_severity (dr_Severity r)" by (auto split: if_splits)
      then show ?thesis by (intro outdated [OF o], elim update_upstream_wf [OF wf]) (auto simp: upstream_row_ok_def)
    next
      case False
      then have "sql_update (\<lambda>u. su_SkillID u = i) ?f (kd_upstreams k) = kd_upstreams k" by (auto simp: sql_update_def sql_has_iff map_idI)
      with w False have "k1 = k" by (simp add: update_upstream_def)
      with outdated [OF o] wf show ?thesis by simp
    qed
  qed
  show "skill_wf db (fst (ClearDriftReport io now i h k))" unfolding ClearDriftReport_def
    by (rule ktx2_wf [OF wf], erule outdated, erule update_upstream_wf [OF wf]) (auto simp: upstream_row_ok_def)
qed

lemma DeleteSkill_wf: "skill_wf db k \<Longrightarrow> skill_wf db (fst (DeleteSkill io i k))"
  unfolding DeleteSkill_def by (rule kexec_wf) (auto intro: delete_skill_wf)

lemmas skill_ops_wf = CreateSkill_wf meta_wf DeleteSkill_wf CreateVersion_wf yank_version_wf assign_wf unassign_wf upsert_upstream_wf drift_wf

end
