(* ===== verification/Skill_Service.thy ===== *)
theory Skill_Service
  imports Skill_Store User_Store Json_Scan
begin

text \<open>
  The skill repository service (\<open>internal/skills/service.go\<close>): what an uploaded archive must look like, where it is
  stored, and how it is found again. Reading a gzip stream and a tar file, YAML and the JSON form of a manifest are
  arguments; the checks on the entries are those of the code. The bundle directory is a map from relative
  paths to contents.
\<close>

section \<open>Paths\<close>

text \<open>
  \<open>filepath.Clean\<close> on Unix, on the components of a path: blanks and single dots go, and a double dot removes what is
  before it, if there is something it can remove.
\<close>

fun clean_comps :: "bool \<Rightarrow> string list \<Rightarrow> string list \<Rightarrow> string list" where
  "clean_comps rooted out [] = rev out"
| "clean_comps rooted out (c # cs) =
     (if c = [] \<or> c = ''.'' then clean_comps rooted out cs
      else if c = ''..'' then
        (case out of
           [] \<Rightarrow> clean_comps rooted (if rooted then [] else [''..'']) cs
         | d # ds \<Rightarrow> if d = ''..'' then clean_comps rooted (''..'' # out) cs else clean_comps rooted ds cs)
      else clean_comps rooted (c # out) cs)"

definition path_clean :: "string \<Rightarrow> string" where
  "path_clean name =
     (let rooted = has_prefix name ''/''; body = join_with ''/'' (clean_comps rooted [] (str_split (CHR ''/'') name)) in
      if rooted then CHR ''/'' # body else if body = [] then ''.'' else body)"

definition safeArchivePath :: "string \<Rightarrow> bool" where
  "safeArchivePath name =
     (if name = [] then False
      else if has_prefix name ''/'' then False
      else
        let clean = path_clean name in
        \<not> (clean = ''..'' \<or> has_prefix clean ''../'' \<or> str_contains clean ''/../''))"

section \<open>Archives\<close>

definition MaxArchiveSize :: nat where
  "MaxArchiveSize = 5 * 1024 * 1024"

record tar_entry =
  te_Name :: string
  te_Regular :: bool
  te_Content :: string

datatype yaml_value = YamlString string | YamlOther string

record Manifest =
  mf_Name :: string
  mf_Description :: string
  mf_Extra :: "(string \<times> yaml_value) list"

text \<open>
  \<open>lb_untar\<close>: the entries of a gzipped tar archive up to its end or to the first error, and whether there was
  none. \<open>lb_yaml\<close>: the members of a YAML mapping. \<open>lb_json\<close>: the JSON text of a manifest. \<open>lb_hash\<close>: the hash of the
  tree an archive unpacks to.
\<close>

record skill_libs =
  lb_untar :: "string \<Rightarrow> (tar_entry list \<times> bool) option"
  lb_yaml :: "string \<Rightarrow> (string \<times> yaml_value) list option"
  lb_json :: "Manifest \<Rightarrow> string option"
  lb_hash :: "string \<Rightarrow> string option"

text \<open>\<open>\r?\n---\r?\n\<close> at the start of a text.\<close>

definition opt_cr_lf :: "string \<Rightarrow> string option" where
  "opt_cr_lf s =
     (if has_prefix s [byte 13, byte 10] then Some (drop 2 s) else if has_prefix s [byte 10] then Some (drop 1 s) else None)"

definition fence_line :: "string \<Rightarrow> bool" where
  "fence_line s =
     (case opt_cr_lf s of
        None \<Rightarrow> False
      | Some r \<Rightarrow> has_prefix r ''---'' \<and> opt_cr_lf (drop 3 r) \<noteq> None)"

fun until_fence :: "string \<Rightarrow> string option" where
  "until_fence [] = None"
| "until_fence (c # cs) = (if fence_line (c # cs) then Some [] else map_option (\<lambda>r. c # r) (until_fence cs))"

definition frontmatterPattern :: "string \<Rightarrow> string option" where
  "frontmatterPattern s =
     (if has_prefix s ''---'' then (case opt_cr_lf (drop 3 s) of None \<Rightarrow> None | Some r \<Rightarrow> until_fence r) else None)"

definition version_digits :: "string \<Rightarrow> string option" where
  "version_digits s =
     (let d = takeWhile (\<lambda>c. CHR ''0'' \<le> c \<and> c \<le> CHR ''9'') s in if d = [] then None else Some (drop (length d) s))"

definition version_tail_char :: "char \<Rightarrow> bool" where
  "version_tail_char c \<longleftrightarrow> (CHR ''0'' \<le> c \<and> c \<le> CHR ''9'') \<or> (CHR ''A'' \<le> c \<and> c \<le> CHR ''Z'') \<or> (CHR ''a'' \<le> c \<and> c \<le> CHR ''z'') \<or>
     c = CHR ''.'' \<or> c = CHR ''-''"

definition versionPattern :: "string \<Rightarrow> bool" where
  "versionPattern s =
     (case version_digits s of
        None \<Rightarrow> False
      | Some r1 \<Rightarrow>
          has_prefix r1 ''.'' \<and>
          (case version_digits (drop 1 r1) of
             None \<Rightarrow> False
           | Some r2 \<Rightarrow>
               has_prefix r2 ''.'' \<and>
               (case version_digits (drop 1 r2) of
                  None \<Rightarrow> False
                | Some r3 \<Rightarrow> r3 = [] \<or> has_prefix r3 ''-'' \<and> 1 < length r3 \<and> list_all version_tail_char (drop 1 r3))))"

text \<open>The entries in their order: the first unsafe name ends the reading, the last \<open>SKILL.md\<close> counts.\<close>

fun read_entries :: "string option \<Rightarrow> tar_entry list \<Rightarrow> string option skill_res" where
  "read_entries md [] = Inr md"
| "read_entries md (e # es) =
     (if \<not> safeArchivePath (te_Name e) then Inl (ErrInvalidArchive ''unsafe archive path'')
      else read_entries (if trim_prefix (te_Name e) ''./'' = ''SKILL.md'' \<and> te_Regular e then Some (take MaxArchiveSize (te_Content e)) else md) es)"

fun read_manifest :: "Manifest \<Rightarrow> (string \<times> yaml_value) list \<Rightarrow> Manifest skill_res" where
  "read_manifest m [] = Inr m"
| "read_manifest m ((key, v) # kvs) =
     (if key = ''name'' then
        (case v of YamlString s \<Rightarrow> read_manifest (m\<lparr>mf_Name := s\<rparr>) kvs | YamlOther _ \<Rightarrow> Inl (ErrInvalidArchive ''frontmatter name must be a string''))
      else if key = ''description'' then
        (case v of YamlString s \<Rightarrow> read_manifest (m\<lparr>mf_Description := s\<rparr>) kvs | YamlOther _ \<Rightarrow> read_manifest (m\<lparr>mf_Extra := mf_Extra m @ [(key, v)]\<rparr>) kvs)
      else read_manifest (m\<lparr>mf_Extra := mf_Extra m @ [(key, v)]\<rparr>) kvs)"

definition ValidateArchive :: "skill_libs \<Rightarrow> string \<Rightarrow> Manifest skill_res" where
  "ValidateArchive lib archive =
     (case lb_untar lib archive of
        None \<Rightarrow> Inl (ErrInvalidArchive ''not a gzip stream'')
      | Some (entries, complete) \<Rightarrow>
          (case read_entries None entries of
             Inl e \<Rightarrow> Inl e
           | Inr md \<Rightarrow>
               if \<not> complete then Inl (ErrInvalidArchive ''tar read error'')
               else (case md of
                 None \<Rightarrow> Inl (ErrInvalidArchive ''SKILL.md not found at archive root'')
               | Some skillMD \<Rightarrow>
                   (case frontmatterPattern skillMD of
                      None \<Rightarrow> Inl (ErrInvalidArchive ''SKILL.md is missing YAML frontmatter'')
                    | Some front \<Rightarrow>
                        (case lb_yaml lib front of
                           None \<Rightarrow> Inl (ErrInvalidArchive ''frontmatter YAML invalid'')
                         | Some kvs \<Rightarrow>
                             (case read_manifest \<lparr>mf_Name = [], mf_Description = [], mf_Extra = []\<rparr> kvs of
                                Inl e \<Rightarrow> Inl e
                              | Inr m \<Rightarrow> if mf_Name m = [] then Inl (ErrInvalidArchive ''frontmatter name is required'') else Inr m))))))"

text \<open>
  Unpacking for the hash of a tree: the files that are written, by the components of their absolute path, with what
  is written. \<open>filepath.Join\<close> cleans the path it builds. Directories and links leave no content.
\<close>

fun extractTarGz :: "string list \<Rightarrow> tar_entry list \<Rightarrow> (string list \<times> string) list skill_res" where
  "extractTarGz dest [] = Inr []"
| "extractTarGz dest (e # es) =
     (if \<not> safeArchivePath (te_Name e) then Inl (ErrInvalidArchive ''unsafe archive path'')
      else (case extractTarGz dest es of
        Inl err \<Rightarrow> Inl err
      | Inr rest \<Rightarrow>
          let target = clean_comps True [] (dest @ str_split (CHR ''/'') (trim_prefix (te_Name e) ''./'')) in
          Inr (if te_Regular e then (target, take MaxArchiveSize (te_Content e)) # rest else rest)))"

section \<open>The service\<close>

type_synonym bundles = "string \<Rightarrow> string option"

definition firstNonEmptyLine :: "string \<Rightarrow> string" where
  "firstNonEmptyLine s = (case filter (\<lambda>l. l \<noteq> []) (map trim_space (str_split (byte 10) s)) of [] \<Rightarrow> [] | l # _ \<Rightarrow> l)"

definition nullableString :: "string \<Rightarrow> string option" where
  "nullableString s = (if s = [] then None else Some s)"

text \<open>The rename at the end makes the write all or nothing; \<open>ok\<close> is whether it was reached.\<close>

definition writeArchive :: "bool \<Rightarrow> string \<Rightarrow> string \<Rightarrow> bundles \<Rightarrow> bundles \<times> unit skill_res" where
  "writeArchive ok rel b files = (if ok then (files(rel \<mapsto> b), Inr ()) else (files, Inl (SkillIO ''writing archive'')))"

definition archive_path :: "string \<Rightarrow> string \<Rightarrow> string" where
  "archive_path slug version = slug @ ''/'' @ version @ ''.tar.gz''"

record UploadInput =
  ui_SlugOverride :: string
  ui_Version :: string
  ui_Archive :: string
  ui_UploadedBy :: string
  ui_DisplayName :: string
  ui_Description :: string
  ui_Visibility :: string

record UploadResult =
  up_Skill :: Skill
  up_Version :: SkillVersion
  up_Manifest :: Manifest

record skill_env =
  ke_lib :: skill_libs
  ke_crypto :: crypto
  ke_io :: faults
  ke_disk :: bool
  ke_now :: time
  ke_uuid :: string
  ke_users :: relay_db

definition check_upload :: "skill_libs \<Rightarrow> UploadInput \<Rightarrow> (string \<times> Manifest) skill_res" where
  "check_upload lib inp =
     (if ui_Archive inp = [] then Inl (ErrInvalidArchive ''archive is empty'')
      else if MaxArchiveSize < length (ui_Archive inp) then Inl (ErrInvalidArchive ''archive exceeds limit'')
      else if \<not> versionPattern (ui_Version inp) then Inl (ErrInvalidArchive ''version must be MAJOR.MINOR.PATCH'')
      else (case ValidateArchive lib (ui_Archive inp) of
        Inl e \<Rightarrow> Inl e
      | Inr manifest \<Rightarrow>
          let slug = (if ui_SlugOverride inp = [] then mf_Name manifest else ui_SlugOverride inp) in
          (case ValidateSlug slug of
             Inl _ \<Rightarrow> Inl (ErrInvalidArchive ''invalid slug'')
           | Inr _ \<Rightarrow>
               if mf_Name manifest \<noteq> slug then Inl (ErrInvalidArchive ''frontmatter name does not match slug'')
               else Inr (slug, manifest))))"

text \<open>The skill of an upload: created by the first one, its texts refreshed by the others. Statements 1 and on.\<close>

definition upload_skill :: "skill_env \<Rightarrow> UploadInput \<Rightarrow> string \<Rightarrow> Manifest \<Rightarrow> Skill option \<Rightarrow> skill_db \<Rightarrow> skill_db \<times> Skill skill_res" where
  "upload_skill env inp slug manifest found k =
     (let io = after_stmts 1 (ke_io env);
          given = trim_space (ui_DisplayName inp); line = firstNonEmptyLine (mf_Description manifest);
          displayName = (if given \<noteq> [] then given else if line \<noteq> [] then line else slug);
          desc = trim_space (ui_Description inp);
          description = (if desc \<noteq> [] then desc else trim_space (mf_Description manifest)) in
      case found of
        None \<Rightarrow>
          CreateSkill io (ke_now env) (ke_uuid env) (ke_users env)
            \<lparr>sk_ID = [], sk_Slug = slug, sk_DisplayName = displayName, sk_Description = description,
             sk_Visibility = (if ui_Visibility inp = [] then ''restricted'' else ui_Visibility inp), sk_LatestVersion = [], sk_YankedAt = None,
             sk_CreatedBy = nullableString (ui_UploadedBy inp), sk_CreatedAt = 0, sk_UpdatedAt = 0, sk_Outdated = 0\<rparr> k
      | Some sk \<Rightarrow>
          if displayName \<noteq> sk_DisplayName sk \<or> description \<noteq> sk_Description sk then
            (case UpdateSkillMeta io (ke_now env) (sk_ID sk) displayName description [] k of
               (k', Inl e) \<Rightarrow> (k', Inl e)
             | (k', Inr _) \<Rightarrow> (k', Inr (sk\<lparr>sk_DisplayName := displayName, sk_Description := description\<rparr>)))
          else (k, Inr sk))"

definition Upload :: "skill_env \<Rightarrow> UploadInput \<Rightarrow> skill_db \<times> bundles \<Rightarrow> (skill_db \<times> bundles) \<times> UploadResult skill_res" where
  "Upload env inp = (\<lambda>(k, files).
     case check_upload (ke_lib env) inp of
       Inl e \<Rightarrow> ((k, files), Inl e)
     | Inr (slug, manifest) \<Rightarrow>
         (case GetSkillBySlug (ke_io env) slug k of
            Inl e \<Rightarrow> ((k, files), Inl e)
          | Inr found \<Rightarrow>
              (case upload_skill env inp slug manifest found k of
                 (k1, Inl e) \<Rightarrow> ((k1, files), Inl e)
               | (k1, Inr skill) \<Rightarrow>
                   let path = archive_path (sk_Slug skill) (ui_Version inp) in
                   (case writeArchive (ke_disk env) path (ui_Archive inp) files of
                      (files1, Inl e) \<Rightarrow> ((k1, files1), Inl e)
                    | (files1, Inr _) \<Rightarrow>
                        (case lb_json (ke_lib env) manifest of
                           None \<Rightarrow> ((k1, files1), Inl (SkillIO ''encoding manifest''))
                         | Some mjson \<Rightarrow>
                             (case CreateVersion (after_stmts 2 (ke_io env)) (ke_now env) (ke_users env)
                                     \<lparr>vn_SkillID = sk_ID skill, vn_Version = ui_Version inp, vn_ArchivePath = path,
                                      vn_ArchiveSize = length (ui_Archive inp), vn_ArchiveSHA256 = sha256_hex (ke_crypto env) (ui_Archive inp),
                                      vn_Manifest = mjson, vn_YankedAt = None, vn_UploadedBy = nullableString (ui_UploadedBy inp), vn_UploadedAt = 0\<rparr> k1 of
                                (k2, Inl e) \<Rightarrow> ((k2, files1), Inl e)
                              | (k2, Inr v) \<Rightarrow>
                                  ((k2, files1), Inr \<lparr>up_Skill = skill\<lparr>sk_LatestVersion := ui_Version inp\<rparr>, up_Version = v, up_Manifest = manifest\<rparr>)))))))"

definition OpenArchive :: "faults \<Rightarrow> string \<Rightarrow> string \<Rightarrow> skill_db \<times> bundles \<Rightarrow> (string \<times> SkillVersion) skill_res" where
  "OpenArchive io i version = (\<lambda>(k, files).
     case GetVersion io i version k of
       Inl e \<Rightarrow> Inl e
     | Inr None \<Rightarrow> Inl ErrSkillNotFound
     | Inr (Some v) \<Rightarrow> (case files (vn_ArchivePath v) of None \<Rightarrow> Inl (SkillIO ''opening archive'') | Some b \<Rightarrow> Inr (b, v)))"

definition ResolveLatest :: "faults \<Rightarrow> string \<Rightarrow> skill_db \<Rightarrow> (Skill \<times> SkillVersion) skill_res" where
  "ResolveLatest io slug k =
     (case GetSkillBySlug io slug k of
        Inl e \<Rightarrow> Inl e
      | Inr None \<Rightarrow> Inl ErrSkillNotFound
      | Inr (Some sk) \<Rightarrow>
          if sk_YankedAt sk \<noteq> None then Inl ErrSkillNotFound
          else if sk_LatestVersion sk = [] then Inl ErrSkillNotFound
          else (case GetVersion (after_stmts 1 io) (sk_ID sk) (sk_LatestVersion sk) k of
            Inl e \<Rightarrow> Inl e
          | Inr None \<Rightarrow> Inl ErrSkillNotFound
          | Inr (Some v) \<Rightarrow> if vn_YankedAt v \<noteq> None then Inl ErrSkillNotFound else Inr (sk, v)))"

section \<open>Unpacking stays inside\<close>

definition plain_comp :: "string \<Rightarrow> bool" where
  "plain_comp c \<longleftrightarrow> c \<noteq> [] \<and> c \<noteq> ''.'' \<and> c \<noteq> ''..''"

lemma clean_escaped: "clean_comps False (ns @ replicate (Suc m) ''..'') cs \<noteq> [] \<and> hd (clean_comps False (ns @ replicate (Suc m) ''..'') cs) = ''..''"
  if "list_all plain_comp ns"
  using that
proof (induction cs arbitrary: ns m)
  case Nil
  have "rev (ns @ replicate (Suc m) ''..'') = ''..'' # (replicate m ''..'' @ rev ns)" by (metis append_Cons replicate_Suc rev_append rev_replicate)
  then show ?case by simp
next
  case (Cons c cs)
  show ?case
  proof (cases "plain_comp c")
    case True
    with Cons.IH [of "c # ns" m] Cons.prems show ?thesis by (simp add: plain_comp_def)
  next
    case False
    show ?thesis
    proof (cases "c = ''..''")
      case up: True
      show ?thesis
      proof (cases ns)
        case Nil
        with Cons.IH [of "[]" "Suc m"] up show ?thesis by simp
      next
        case (Cons n ns')
        with Cons.prems Cons.IH [of ns' m] up show ?thesis by (simp add: plain_comp_def)
      qed
    next
      case False
      with \<open>\<not> plain_comp c\<close> Cons.IH [OF Cons.prems] show ?thesis by (auto simp: plain_comp_def)
    qed
  qed
qed

lemma clean_inside:
  "list_all plain_comp ns \<Longrightarrow> hd (clean_comps False ns cs) \<noteq> ''..'' \<or> clean_comps False ns cs = [] \<Longrightarrow>
   clean_comps r (ns @ out) cs = rev out @ clean_comps False ns cs \<and> list_all plain_comp (clean_comps False ns cs)"
proof (induction cs arbitrary: ns)
  case (Cons c cs)
  show ?case
  proof (cases "plain_comp c")
    case True
    with Cons.prems Cons.IH [of "c # ns"] show ?thesis by (simp add: plain_comp_def)
  next
    case False
    show ?thesis
    proof (cases "c = ''..''")
      case up: True
      show ?thesis
      proof (cases ns)
        case Nil
        with up Cons.prems(2) clean_escaped [of "[]" 0 cs] show ?thesis by simp
      next
        case (Cons n ns')
        with up Cons.prems Cons.IH [of ns'] show ?thesis by (simp add: plain_comp_def)
      qed
    next
      case False
      with \<open>\<not> plain_comp c\<close> Cons.prems Cons.IH [of ns] show ?thesis by (auto simp: plain_comp_def)
    qed
  qed
qed (simp add: list_all_rev)

lemma safe_path_clean:
  assumes "safeArchivePath name"
  shows "hd (clean_comps False [] (str_split (CHR ''/'') name)) \<noteq> ''..'' \<or> clean_comps False [] (str_split (CHR ''/'') name) = []"
proof (rule ccontr)
  assume "\<not> ?thesis"
  then obtain cs where cs: "clean_comps False [] (str_split (CHR ''/'') name) = ''..'' # cs" by (metis list.exhaust_sel)
  have nr: "\<not> has_prefix name ''/''" using assms by (auto simp: safeArchivePath_def split: if_splits)
  then have "path_clean name = join_with ''/'' (''..'' # cs)" by (simp add: path_clean_def cs Let_def) (cases cs; simp)
  then have "path_clean name = ''..'' \<or> has_prefix (path_clean name) ''../''" by (cases cs) (simp_all add: has_prefix_def)
  with assms show False by (auto simp: safeArchivePath_def Let_def split: if_splits)
qed

lemma split_trim_dot: "clean_comps r out (dest @ str_split (CHR ''/'') (trim_prefix name ''./'')) = clean_comps r out (dest @ str_split (CHR ''/'') name)"
proof (cases "has_prefix name ''./''")
  case True
  then obtain s where name: "name = CHR ''.'' # CHR ''/'' # s" by (auto simp: has_prefix_def) (metis append_take_drop_id append_Cons append_Nil)
  have "clean_comps r out (dest @ [''.''] @ cs) = clean_comps r out (dest @ cs)" for cs
    by (induction dest arbitrary: out) (auto split: list.split)
  then show ?thesis by (simp add: name trim_prefix_def has_prefix_def)
qed (simp add: trim_prefix_def)

lemma clean_dest: "list_all plain_comp dest \<Longrightarrow> clean_comps r out (dest @ cs) = clean_comps r (rev dest @ out) cs"
  by (induction dest arbitrary: out) (auto simp: plain_comp_def)


section \<open>Archives and their rows\<close>

lemma CreateVersion_Inr:
  assumes "CreateVersion io now db v k = (k', Inr v1)"
  shows "kd_versions k' = kd_versions k @ [v1\<lparr>vn_YankedAt := None\<rparr>] \<and> \<not> sql_has (\<lambda>x. vn_SkillID x = vn_SkillID v \<and> vn_Version x = vn_Version v) (kd_versions k) \<and>
    v1 = v\<lparr>vn_Manifest := (if vn_Manifest v = [] then ''{}'' else vn_Manifest v), vn_UploadedAt := now\<rparr>"
  using assms
  by (auto simp: CreateVersion_def Let_def ktx2_def stmt_def res_bind_def insert_version_def update_skill_def split: if_splits prod.splits sum.splits)

lemma CreateVersion_Inl: "CreateVersion io now db v k = (k', Inl e) \<Longrightarrow> k' = k"
  by (auto simp: CreateVersion_def Let_def ktx2_def stmt_def res_bind_def split: if_splits prod.splits sum.splits)

text \<open>The parts of a successful upload.\<close>

lemma Upload_Inr:
  assumes "Upload env inp (k, files) = ((k', files'), Inr r)"
  obtains slug manifest found k1 skill mjson v where "check_upload (ke_lib env) inp = Inr (slug, manifest)" "GetSkillBySlug (ke_io env) slug k = Inr found"
    "upload_skill env inp slug manifest found k = (k1, Inr skill)" "files' = files(archive_path (sk_Slug skill) (ui_Version inp) \<mapsto> ui_Archive inp)"
    "CreateVersion (after_stmts 2 (ke_io env)) (ke_now env) (ke_users env)
       \<lparr>vn_SkillID = sk_ID skill, vn_Version = ui_Version inp, vn_ArchivePath = archive_path (sk_Slug skill) (ui_Version inp),
        vn_ArchiveSize = length (ui_Archive inp), vn_ArchiveSHA256 = sha256_hex (ke_crypto env) (ui_Archive inp),
        vn_Manifest = mjson, vn_YankedAt = None, vn_UploadedBy = nullableString (ui_UploadedBy inp), vn_UploadedAt = 0\<rparr> k1 = (k', Inr v)"
    "r = \<lparr>up_Skill = skill\<lparr>sk_LatestVersion := ui_Version inp\<rparr>, up_Version = v, up_Manifest = manifest\<rparr>"
  using assms by (auto simp: Upload_def Let_def writeArchive_def split: sum.splits prod.splits option.splits if_splits)

text \<open>
  What was uploaded is what is downloaded: after a successful upload, opening that version gives exactly the bytes of the
  archive, with their length and their SHA-256 digest on record.
\<close>

theorem upload_then_download:
  assumes "Upload env inp (k, files) = ((k', files'), Inr r)"
  shows "\<exists>v. OpenArchive no_faults (sk_ID (up_Skill r)) (ui_Version inp) (k', files') = Inr (ui_Archive inp, v) \<and>
    vn_ArchiveSHA256 v = sha256_hex (ke_crypto env) (ui_Archive inp) \<and> vn_ArchiveSize v = length (ui_Archive inp) \<and> vn_YankedAt v = None"
  using assms
proof (rule Upload_Inr)
  fix slug manifest found k1 mjson v and skill :: Skill
  let ?v = "\<lparr>vn_SkillID = sk_ID skill, vn_Version = ui_Version inp, vn_ArchivePath = archive_path (sk_Slug skill) (ui_Version inp),
        vn_ArchiveSize = length (ui_Archive inp), vn_ArchiveSHA256 = sha256_hex (ke_crypto env) (ui_Archive inp),
        vn_Manifest = mjson, vn_YankedAt = None, vn_UploadedBy = nullableString (ui_UploadedBy inp), vn_UploadedAt = 0\<rparr>"
  assume files: "files' = files(archive_path (sk_Slug skill) (ui_Version inp) \<mapsto> ui_Archive inp)"
    and made: "CreateVersion (after_stmts 2 (ke_io env)) (ke_now env) (ke_users env) ?v k1 = (k', Inr v)"
    and r: "r = \<lparr>up_Skill = skill\<lparr>sk_LatestVersion := ui_Version inp\<rparr>, up_Version = v, up_Manifest = manifest\<rparr>"
  from CreateVersion_Inr [OF made] have vs: "kd_versions k' = kd_versions k1 @ [v\<lparr>vn_YankedAt := None\<rparr>]"
    "\<not> sql_has (\<lambda>x. vn_SkillID x = sk_ID skill \<and> vn_Version x = ui_Version inp) (kd_versions k1)"
    and v: "v = ?v\<lparr>vn_Manifest := (if mjson = [] then ''{}'' else mjson), vn_UploadedAt := ke_now env\<rparr>" by auto
  have "sql_row (\<lambda>x. vn_SkillID x = sk_ID skill \<and> vn_Version x = ui_Version inp) (kd_versions k') = Some (v\<lparr>vn_YankedAt := None\<rparr>)"
    unfolding vs(1) by (rule sql_row_snoc [OF vs(2)]) (simp add: v)
  then show ?thesis by (simp add: OpenArchive_def GetVersion_def kquery_def r files v)
qed

text \<open>Every version's file is there and has the digest on record.\<close>

definition archives_intact :: "crypto \<Rightarrow> skill_db \<times> bundles \<Rightarrow> bool" where
  "archives_intact cr = (\<lambda>(k, files). \<forall>v \<in> set (kd_versions k). \<exists>s \<in> set (kd_skills k). sk_ID s = vn_SkillID v \<and>
     vn_ArchivePath v = archive_path (sk_Slug s) (vn_Version v) \<and>
     (\<exists>b. files (vn_ArchivePath v) = Some b \<and> sha256_hex cr b = vn_ArchiveSHA256 v))"

lemma meta_keeps_keys:
  "kd_versions (fst (UpdateSkillMeta io now i dn desc vis k)) = kd_versions k \<and>
   map (\<lambda>s. (sk_ID s, sk_Slug s)) (kd_skills (fst (UpdateSkillMeta io now i dn desc vis k))) = map (\<lambda>s. (sk_ID s, sk_Slug s)) (kd_skills k)"
  by (auto simp: UpdateSkillMeta_def kexec_def stmt_def update_skill_def sql_update_def)

lemma same_skill_keys:
  assumes "map (\<lambda>s. (sk_ID s, sk_Slug s)) ss = map (\<lambda>s. (sk_ID s, sk_Slug s)) ts" "s \<in> set ts"
  shows "\<exists>s' \<in> set ss. sk_ID s' = sk_ID s \<and> sk_Slug s' = sk_Slug s"
proof -
  from assms(1) have "(\<lambda>s. (sk_ID s, sk_Slug s)) ` set ss = (\<lambda>s. (sk_ID s, sk_Slug s)) ` set ts" by (simp only: list.set_map [symmetric])
  with assms(2) have "(sk_ID s, sk_Slug s) \<in> (\<lambda>s. (sk_ID s, sk_Slug s)) ` set ss" by (simp add: image_iff) blast
  then show ?thesis by auto
qed

lemma upload_skill_Inr:
  assumes "upload_skill env inp slug manifest found k = (k1, Inr skill)" "GetSkillBySlug io slug k = Inr found"
  shows "sk_Slug skill = slug \<and> kd_versions k1 = kd_versions k \<and>
    (\<exists>s \<in> set (kd_skills k1). sk_ID s = sk_ID skill \<and> sk_Slug s = slug) \<and>
    (\<forall>s \<in> set (kd_skills k). \<exists>s' \<in> set (kd_skills k1). sk_ID s' = sk_ID s \<and> sk_Slug s' = sk_Slug s)"
proof (cases found)
  case None
  with assms(1) show ?thesis
    by (auto simp: upload_skill_def Let_def CreateSkill_def kexec_def stmt_def insert_skill_def split: sum.splits prod.splits if_splits)
next
  case (Some sk)
  with assms(2) have "sql_row (\<lambda>s. sk_Slug s = slug) (kd_skills k) = Some sk" by (auto simp: GetSkillBySlug_def kquery_def split: if_splits)
  from sql_row_SomeD [OF this] have "sk \<in> set (kd_skills k)" "sk_Slug sk = slug" by auto
  moreover from assms(1) Some have "sk_ID skill = sk_ID sk" "sk_Slug skill = sk_Slug sk" and k1: "k1 = k \<or> (\<exists>io now i dn desc vis. k1 = fst (UpdateSkillMeta io now i dn desc vis k))"
    by (auto simp: upload_skill_def Let_def split: sum.splits prod.splits if_splits) (metis fst_conv)+
  moreover from k1 meta_keeps_keys have "kd_versions k1 = kd_versions k" "map (\<lambda>s. (sk_ID s, sk_Slug s)) (kd_skills k1) = map (\<lambda>s. (sk_ID s, sk_Slug s)) (kd_skills k)"
    by auto
  ultimately show ?thesis using same_skill_keys [of "kd_skills k1" "kd_skills k"] by metis
qed

lemma upload_skill_Inl: "upload_skill env inp slug manifest found k = (k1, Inl e) \<Longrightarrow> k1 = k"
  by (auto simp: upload_skill_def Let_def CreateSkill_def UpdateSkillMeta_def kexec_def stmt_def split: option.splits sum.splits prod.splits if_splits)

lemma CreateVersion_keys:
  "map (\<lambda>s. (sk_ID s, sk_Slug s)) (kd_skills (fst (CreateVersion io now db v k))) = map (\<lambda>s. (sk_ID s, sk_Slug s)) (kd_skills k)"
proof -
  have "map (\<lambda>s. (sk_ID s, sk_Slug s)) (kd_skills (fst (ktx2 io (insert_version db x) (update_skill i (\<lambda>s. s\<lparr>sk_LatestVersion := n, sk_UpdatedAt := now\<rparr>)) k))) =
      map (\<lambda>s. (sk_ID s, sk_Slug s)) (kd_skills k)" for x i n
    by (simp add: ktx2_def stmt_def res_bind_def insert_version_def update_skill_def sql_update_def)
  moreover have "fst (CreateVersion io now db v k) = k \<or> (\<exists>x i n. fst (CreateVersion io now db v k) =
      fst (ktx2 io (insert_version db x) (update_skill i (\<lambda>s. s\<lparr>sk_LatestVersion := n, sk_UpdatedAt := now\<rparr>)) k))"
  proof (cases "vn_Version v = [] \<or> vn_ArchivePath v = [] \<or> vn_ArchiveSize v = 0 \<or> vn_ArchiveSHA256 v = []")
    case False
    let ?v = "v\<lparr>vn_Manifest := (if vn_Manifest v = [] then ''{}'' else vn_Manifest v), vn_UploadedAt := now\<rparr>"
    have "fst (CreateVersion io now db v k) =
        fst (ktx2 io (insert_version db ?v) (update_skill (vn_SkillID ?v) (\<lambda>s. s\<lparr>sk_LatestVersion := vn_Version ?v, sk_UpdatedAt := now\<rparr>)) k)"
      using False by (simp add: CreateVersion_def Let_def split: prod.split sum.split)
    then show ?thesis by blast
  qed (auto simp: CreateVersion_def)
  ultimately show ?thesis by (elim disjE exE) (simp_all only:)
qed

lemma slug_no_slash: "ValidateSlug s = Inr u \<Longrightarrow> CHR ''/'' \<notin> set s"
  by (auto simp: ValidateSlug_def slugPattern_def list_all_iff slug_edge_def Let_def split: if_splits)

lemma archive_path_inj:
  assumes "archive_path s v = archive_path s' v'" "CHR ''/'' \<notin> set s" "CHR ''/'' \<notin> set s'"
  shows "s = s' \<and> v = v'"
proof -
  have slug: "takeWhile (\<lambda>c. c \<noteq> CHR ''/'') (archive_path x y) = x" if "CHR ''/'' \<notin> set x" for x y
  proof -
    have "takeWhile (\<lambda>c. c \<noteq> CHR ''/'') (x @ CHR ''/'' # z) = x" for z using that by (induction x) auto
    then show ?thesis by (simp add: archive_path_def)
  qed
  from slug [OF assms(2), of v] slug [OF assms(3), of v'] assms(1) have "s = s'" by simp
  with assms(1) show ?thesis by (simp add: archive_path_def)
qed

lemma intact_transfer:
  assumes "archives_intact cr (k, files)" "kd_versions k1 = kd_versions k"
    and keys: "\<forall>s \<in> set (kd_skills k). \<exists>s' \<in> set (kd_skills k1). sk_ID s' = sk_ID s \<and> sk_Slug s' = sk_Slug s"
    and files: "\<forall>v \<in> set (kd_versions k). files1 (vn_ArchivePath v) = files (vn_ArchivePath v)"
  shows "archives_intact cr (k1, files1)"
  unfolding archives_intact_def prod.case
proof
  fix v assume "v \<in> set (kd_versions k1)"
  with assms(1,2) obtain s b where "s \<in> set (kd_skills k)" "sk_ID s = vn_SkillID v" "vn_ArchivePath v = archive_path (sk_Slug s) (vn_Version v)"
    "files (vn_ArchivePath v) = Some b" "sha256_hex cr b = vn_ArchiveSHA256 v" and v: "v \<in> set (kd_versions k)"
    by (auto simp: archives_intact_def)
  moreover from keys this(1) obtain s' where "s' \<in> set (kd_skills k1)" "sk_ID s' = sk_ID s" "sk_Slug s' = sk_Slug s" by blast
  ultimately show "\<exists>s \<in> set (kd_skills k1). sk_ID s = vn_SkillID v \<and> vn_ArchivePath v = archive_path (sk_Slug s) (vn_Version v) \<and>
      (\<exists>b. files1 (vn_ArchivePath v) = Some b \<and> sha256_hex cr b = vn_ArchiveSHA256 v)" using files by (metis (no_types, lifting))
qed

lemma added_intact:
  assumes intact: "archives_intact cr (k, files)" and vs: "kd_versions k' = kd_versions k @ [v\<lparr>vn_YankedAt := None\<rparr>]"
    and keys: "map (\<lambda>s. (sk_ID s, sk_Slug s)) (kd_skills k') = map (\<lambda>s. (sk_ID s, sk_Slug s)) (kd_skills k)"
    and row: "s \<in> set (kd_skills k)" "sk_ID s = vn_SkillID v" "vn_ArchivePath v = archive_path (sk_Slug s) (vn_Version v)"
    and stored: "files (vn_ArchivePath v) = Some b" "sha256_hex cr b = vn_ArchiveSHA256 v"
  shows "archives_intact cr (k', files)"
proof -
  have "archives_intact cr (k\<lparr>kd_skills := kd_skills k'\<rparr>, files)"
    by (rule intact_transfer [OF intact]) (use same_skill_keys [OF keys] in auto)
  moreover obtain s' where "s' \<in> set (kd_skills k')" "sk_ID s' = sk_ID s" "sk_Slug s' = sk_Slug s" using same_skill_keys [OF keys row(1)] by blast
  ultimately show ?thesis using row stored by (auto simp: archives_intact_def vs)
qed

text \<open>
  C24. An upload of a version that is not there yet, however it ends, keeps every published version downloadable with the digest
  on record, and adds only such versions.
\<close>

theorem fresh_upload_keeps_archives:
  assumes wf: "skill_wf (ke_users env) k" and intact: "archives_intact (ke_crypto env) (k, files)"
    and fresh: "\<And>slug manifest s v. check_upload (ke_lib env) inp = Inr (slug, manifest) \<Longrightarrow> s \<in> set (kd_skills k) \<Longrightarrow> v \<in> set (kd_versions k) \<Longrightarrow>
      sk_Slug s = slug \<Longrightarrow> vn_SkillID v = sk_ID s \<Longrightarrow> vn_Version v \<noteq> ui_Version inp"
  shows "archives_intact (ke_crypto env) (fst (Upload env inp (k, files)))"
proof (cases "check_upload (ke_lib env) inp")
  case (Inl e)
  with intact show ?thesis by (simp add: Upload_def)
next
  case (Inr sm)
  obtain slug manifest where sm: "sm = (slug, manifest)" by fastforce
  with Inr have slug: "CHR ''/'' \<notin> set slug" using slug_no_slash by (auto simp: check_upload_def Let_def split: if_splits sum.splits)
  let ?path = "archive_path slug (ui_Version inp)"
  have free: "vn_ArchivePath v \<noteq> ?path" if v: "v \<in> set (kd_versions k)" for v
  proof
    assume same: "vn_ArchivePath v = ?path"
    from intact v obtain s where s: "s \<in> set (kd_skills k)" "sk_ID s = vn_SkillID v" "vn_ArchivePath v = archive_path (sk_Slug s) (vn_Version v)"
      by (auto simp: archives_intact_def)
    with wf have "ValidateSlug (sk_Slug s) = Inr ()" by (auto simp: skill_wf_def tbl_ok_def skill_row_ok_def)
    with s same slug archive_path_inj slug_no_slash have "sk_Slug s = slug" "vn_Version v = ui_Version inp" by metis+
    with fresh [OF Inr [unfolded sm] s(1) v] s(2) show False by simp
  qed
  show ?thesis
  proof (cases "GetSkillBySlug (ke_io env) slug k")
    case (Inl e)
    with intact Inr sm show ?thesis by (simp add: Upload_def)
  next
    case got: (Inr found)
    obtain k1 res where up: "upload_skill env inp slug manifest found k = (k1, res)" by fastforce
    show ?thesis
    proof (cases res)
      case (Inl e)
      with up upload_skill_Inl have "k1 = k" by blast
      with intact Inr sm got up Inl show ?thesis by (simp add: Upload_def)
    next
      case skill: (Inr sk)
      from upload_skill_Inr [OF up [unfolded skill] got] have sk: "sk_Slug sk = slug" and vs: "kd_versions k1 = kd_versions k"
        and new: "\<exists>s \<in> set (kd_skills k1). sk_ID s = sk_ID sk \<and> sk_Slug s = slug"
        and keys: "\<forall>s \<in> set (kd_skills k). \<exists>s' \<in> set (kd_skills k1). sk_ID s' = sk_ID s \<and> sk_Slug s' = sk_Slug s" by auto
      have i1: "archives_intact (ke_crypto env) (k1, files)" by (rule intact_transfer [OF intact vs keys]) simp
      have i2: "archives_intact (ke_crypto env) (k1, files(?path \<mapsto> ui_Archive inp))" by (rule intact_transfer [OF intact vs keys]) (use free in simp)
      have i3: "archives_intact (ke_crypto env) (k2, files(?path \<mapsto> ui_Archive inp))"
        if made: "CreateVersion io now db \<lparr>vn_SkillID = sk_ID sk, vn_Version = ui_Version inp, vn_ArchivePath = ?path, vn_ArchiveSize = n,
          vn_ArchiveSHA256 = sha256_hex (ke_crypto env) (ui_Archive inp), vn_Manifest = mj, vn_YankedAt = None, vn_UploadedBy = by', vn_UploadedAt = 0\<rparr> k1 = (k2, Inr v)"
        for io now db n mj by' k2 v
      proof -
        from new obtain s where s: "s \<in> set (kd_skills k1)" "sk_ID s = sk_ID sk" "sk_Slug s = slug" by blast
        from CreateVersion_keys [of io now db _ k1] made have "map (\<lambda>s. (sk_ID s, sk_Slug s)) (kd_skills k2) = map (\<lambda>s. (sk_ID s, sk_Slug s)) (kd_skills k1)"
          by (metis (no_types, lifting) fst_conv)
        with CreateVersion_Inr [OF made] s show ?thesis by (intro added_intact [OF i2, of k2 v s "ui_Archive inp"]) auto
      qed
      show ?thesis using i1 i2 i3 by (simp add: Upload_def Inr sm got up skill writeArchive_def sk Let_def split: option.split prod.split sum.split)
        (metis CreateVersion_Inl)
    qed
  qed
qed

text \<open>
  C39. Publishing under an existing version number is refused, but the archive of that version is replaced all the same: the file
  is written before the row is tried. From then on everyone who downloads that version gets the refused bytes, beside
  the digest of the original ones.
\<close>

theorem rejected_upload_replaces_archive:
  assumes ok: "check_upload (ke_lib env) inp = Inr (slug, manifest)" and skill: "sql_row (\<lambda>s. sk_Slug s = slug) (kd_skills k) = Some sk"
    and published: "sql_row (\<lambda>v. vn_SkillID v = sk_ID sk \<and> vn_Version v = ui_Version inp) (kd_versions k) = Some v"
    and path: "vn_ArchivePath v = archive_path slug (ui_Version inp)"
    and env: "ke_io env = no_faults" "ke_disk env" "lb_json (ke_lib env) manifest = Some mjson" "sha256_hex (ke_crypto env) (ui_Archive inp) \<noteq> []"
  shows "\<exists>k' files'. Upload env inp (k, files) = ((k', files'), Inl ErrSkillVersionConflict) \<and>
    OpenArchive no_faults (sk_ID sk) (ui_Version inp) (k', files') = Inr (ui_Archive inp, v)"
proof -
  have slug: "sk_Slug sk = slug" using sql_row_SomeD [OF skill] by simp
  have got: "GetSkillBySlug (ke_io env) slug k = Inr (Some sk)" by (simp add: GetSkillBySlug_def kquery_def env(1) skill)
  obtain k1 res where up: "upload_skill env inp slug manifest (Some sk) k = (k1, res)" by fastforce
  then obtain sk1 where res: "res = Inr sk1" "sk_ID sk1 = sk_ID sk" "sk_Slug sk1 = slug"
    by (auto simp: upload_skill_def Let_def env(1) UpdateSkillMeta_def kexec_def stmt_def update_skill_def slug split: if_splits)
  from upload_skill_Inr [OF up [unfolded res(1)] got] have vs: "kd_versions k1 = kd_versions k" by simp
  from ok have "ui_Archive inp \<noteq> []" "ui_Version inp \<noteq> []"
    by (auto simp: check_upload_def versionPattern_def version_digits_def Let_def split: if_splits sum.splits)
  moreover have "sql_has (\<lambda>x. vn_SkillID x = sk_ID sk \<and> vn_Version x = ui_Version inp) (kd_versions k)"
    using sql_row_SomeD [OF published] by (auto simp: sql_has_iff)
  ultimately have "Upload env inp (k, files) = ((k1, files(archive_path slug (ui_Version inp) \<mapsto> ui_Archive inp)), Inl ErrSkillVersionConflict)"
    by (simp add: Upload_def ok got [unfolded env(1)] up res writeArchive_def env Let_def CreateVersion_def archive_path_def ktx2_def insert_version_def vs)
  moreover have "OpenArchive no_faults (sk_ID sk) (ui_Version inp) (k1, files(archive_path slug (ui_Version inp) \<mapsto> ui_Archive inp)) = Inr (ui_Archive inp, v)"
    by (simp add: OpenArchive_def GetVersion_def kquery_def vs published path)
  ultimately show ?thesis by blast
qed

section \<open>Examples\<close>

definition demo_md :: string where
  "demo_md = ''---'' @ [byte 10] @ ''n'' @ [byte 10] @ ''---'' @ [byte 10]"

definition demo_lib :: skill_libs where
  "demo_lib = \<lparr>lb_untar = (\<lambda>_. Some ([\<lparr>te_Name = ''SKILL.md'', te_Regular = True, te_Content = demo_md\<rparr>], True)),
     lb_yaml = (\<lambda>_. Some [(''name'', YamlString ''ab'')]), lb_json = (\<lambda>_. Some ''{}''), lb_hash = (\<lambda>_. Some ''h'')\<rparr>"

definition demo_upload :: "string \<Rightarrow> UploadInput" where
  "demo_upload b = \<lparr>ui_SlugOverride = ''ab'', ui_Version = ''1.0.0'', ui_Archive = b, ui_UploadedBy = [], ui_DisplayName = [], ui_Description = [], ui_Visibility = []\<rparr>"

definition demo_skill_env :: skill_env where
  "demo_skill_env = \<lparr>ke_lib = demo_lib, ke_crypto = demo_crypto, ke_io = no_faults, ke_disk = True, ke_now = 5, ke_uuid = ''k1'', ke_users = empty_db\<rparr>"

definition no_skills :: skill_db where
  "no_skills = \<lparr>kd_skills = [], kd_versions = [], kd_assignments = [], kd_upstreams = []\<rparr>"

lemma demo_manifest: "ValidateArchive demo_lib x = Inr \<lparr>mf_Name = ''ab'', mf_Description = [], mf_Extra = []\<rparr>"
proof -
  have "safeArchivePath ''SKILL.md''" "frontmatterPattern demo_md = Some ''n''" "trim_prefix ''SKILL.md'' ''./'' = ''SKILL.md''"
    by code_simp+
  moreover have "take MaxArchiveSize demo_md = demo_md" by (simp add: demo_md_def MaxArchiveSize_def)
  ultimately show ?thesis by (simp add: ValidateArchive_def demo_lib_def)
qed

lemma demo_checked:
  assumes "x = ''x'' \<or> x = ''y''"
  shows "check_upload demo_lib (demo_upload x) = Inr (''ab'', \<lparr>mf_Name = ''ab'', mf_Description = [], mf_Extra = []\<rparr>)"
proof -
  have "versionPattern ''1.0.0''" "ValidateSlug ''ab'' = Inr ()" by code_simp+
  with assms show ?thesis by (auto simp: check_upload_def demo_upload_def demo_manifest MaxArchiveSize_def Let_def)
qed

lemma demo_uploaded:
  "\<exists>k' files' r. Upload demo_skill_env (demo_upload ''x'') (no_skills, Map.empty) = ((k', files'), Inr r) \<and>
     (\<exists>sk. sql_row (\<lambda>s. sk_Slug s = ''ab'') (kd_skills k') = Some sk \<and> sk_ID sk = ''k1'' \<and>
       (\<exists>v. sql_row (\<lambda>v. vn_SkillID v = ''k1'' \<and> vn_Version v = ''1.0.0'') (kd_versions k') = Some v \<and> vn_ArchivePath v = archive_path ''ab'' ''1.0.0'' \<and>
          vn_ArchiveSHA256 v = ''sx'' \<and> files' (archive_path ''ab'' ''1.0.0'') = Some ''x''))"
proof -
  have line: "firstNonEmptyLine [] = []" "trim_space [] = []" "ValidateSlug ''ab'' = Inr ()" by code_simp+
  show ?thesis
    by (simp add: Upload_def demo_skill_env_def demo_checked) (simp add: demo_upload_def no_skills_def GetSkillBySlug_def kquery_def upload_skill_def line
        CreateSkill_def valid_visibility_def kexec_def insert_skill_def sql_has_def opt_user_def nullableString_def writeArchive_def demo_lib_def archive_path_def
        CreateVersion_def ktx2_def insert_version_def skill_exists_def update_skill_def sql_update_def demo_crypto_def Let_def)
qed

theorem upload_then_download_witness:
  "\<exists>k' files' i v. OpenArchive no_faults i ''1.0.0'' (k', files') = Inr (''x'', v) \<and> vn_ArchiveSHA256 v = ''sx''"
proof -
  obtain k' files' r where "Upload demo_skill_env (demo_upload ''x'') (no_skills, Map.empty) = ((k', files'), Inr r)" using demo_uploaded by blast
  from upload_then_download [OF this] show ?thesis by (auto simp: demo_upload_def demo_skill_env_def demo_crypto_def)
qed

theorem rejected_upload_replaces_archive_witness:
  "\<exists>k files k' files' v. OpenArchive no_faults ''k1'' ''1.0.0'' (k, files) = Inr (''x'', v) \<and>
     Upload demo_skill_env (demo_upload ''y'') (k, files) = ((k', files'), Inl ErrSkillVersionConflict) \<and>
     OpenArchive no_faults ''k1'' ''1.0.0'' (k', files') = Inr (''y'', v) \<and> vn_ArchiveSHA256 v = ''sx''"
proof -
  obtain k files r sk v where up: "Upload demo_skill_env (demo_upload ''x'') (no_skills, Map.empty) = ((k, files), Inr r)"
    and sk: "sql_row (\<lambda>s. sk_Slug s = ''ab'') (kd_skills k) = Some sk" "sk_ID sk = ''k1''"
    and v: "sql_row (\<lambda>v. vn_SkillID v = ''k1'' \<and> vn_Version v = ''1.0.0'') (kd_versions k) = Some v" "vn_ArchivePath v = archive_path ''ab'' ''1.0.0''"
      "vn_ArchiveSHA256 v = ''sx''" "files (archive_path ''ab'' ''1.0.0'') = Some ''x''"
    using demo_uploaded by blast
  have ui: "ui_Version (demo_upload ''y'') = ''1.0.0''" "ui_Archive (demo_upload ''y'') = ''y''" by (simp_all add: demo_upload_def)
  from v have "OpenArchive no_faults ''k1'' ''1.0.0'' (k, files) = Inr (''x'', v)" by (simp add: OpenArchive_def GetVersion_def kquery_def)
  moreover from rejected_upload_replaces_archive [of demo_skill_env "demo_upload ''y''" "''ab''" "\<lparr>mf_Name = ''ab'', mf_Description = [], mf_Extra = []\<rparr>" k sk v "''{}''" files]
    sk v demo_checked [of "''y''"]
  have "\<exists>k' files'. Upload demo_skill_env (demo_upload ''y'') (k, files) = ((k', files'), Inl ErrSkillVersionConflict) \<and>
      OpenArchive no_faults ''k1'' ''1.0.0'' (k', files') = Inr (''y'', v)"
    by (simp add: demo_skill_env_def demo_lib_def ui demo_crypto_def)
  ultimately show ?thesis using v(3) by blast
qed

theorem fresh_upload_keeps_archives_witness:
  "skill_wf empty_db no_skills \<and> archives_intact demo_crypto (fst (Upload demo_skill_env (demo_upload ''x'') (no_skills, Map.empty)))"
proof -
  have "skill_wf (ke_users demo_skill_env) no_skills" "archives_intact (ke_crypto demo_skill_env) (no_skills, Map.empty)"
    by (simp_all add: skill_wf_def no_skills_def archives_intact_def)
  from fresh_upload_keeps_archives [OF this, of "demo_upload ''x''"] this(1) show ?thesis by (simp add: no_skills_def demo_skill_env_def)
qed


end
