(* ===== verification/Skill_Checker.thy ===== *)
theory Skill_Checker
  imports Skill_Service Server_Config Mcp_Protocol
begin

text \<open>
  The upstream checker (\<open>internal/skills/checker\<close>): it compares the git repository a skill follows with what was seen
  of it before, has a change judged by a language model, and stores a drift report. The git program and the
  language model are arguments; the arguments git is called with and what is done with its output are the code's. The
  hash of a checked out tree is an argument too.
\<close>

section \<open>Git\<close>

text \<open>
  \<open>gx_run dir args\<close>: the output of git in a cache directory, \<open>None\<close> when it fails. \<open>gx_clone\<close>: wipe the directory and
  clone. \<open>gx_tree dir sha subpath\<close>: the hash of the tree checked out from there.
\<close>

record git_env =
  gx_hasGitDir :: "string \<Rightarrow> bool"
  gx_run :: "string \<Rightarrow> string list \<Rightarrow> string option"
  gx_clone :: "string \<Rightarrow> string \<Rightarrow> bool"
  gx_tree :: "string \<Rightarrow> string \<Rightarrow> string \<Rightarrow> string option"

definition EnsureCache :: "git_env \<Rightarrow> string \<Rightarrow> string \<Rightarrow> bool" where
  "EnsureCache g cacheDir gitURL =
     (if cacheDir = [] then False
      else if gitURL = [] then False
      else (case ValidateGitURL gitURL of
        Inl _ \<Rightarrow> False
      | Inr _ \<Rightarrow>
          if gx_hasGitDir g cacheDir \<and> gx_run g cacheDir [''fetch'', ''origin'', ''--prune'', ''--no-tags''] \<noteq> None then True
          else gx_clone g cacheDir gitURL))"

definition ResolveSHA :: "git_env \<Rightarrow> string \<Rightarrow> string \<Rightarrow> string option" where
  "ResolveSHA g cacheDir ref =
     (let r = (if ref = [] then ''HEAD'' else ref) in
      if cacheDir = [] then None
      else if has_prefix r ''-'' then None
      else map_option trim_space (gx_run g cacheDir [''rev-parse'', ''--verify'', r]))"

definition trim_newlines :: "string \<Rightarrow> string" where
  "trim_newlines s = rev (dropWhile (\<lambda>c. c = byte 10) (rev s))"

definition output_lines :: "string \<Rightarrow> string list" where
  "output_lines out = (let t = trim_newlines out in if t = [] then [] else str_split (byte 10) t)"

definition LogPath :: "git_env \<Rightarrow> string \<Rightarrow> string \<Rightarrow> string \<Rightarrow> string \<Rightarrow> string list option" where
  "LogPath g cacheDir fromSHA toSHA subpath =
     (if cacheDir = [] then None
      else if fromSHA \<noteq> [] \<and> toSHA = [] then None
      else map_option output_lines (gx_run g cacheDir
        ([''log'', ''--oneline''] @ (if fromSHA \<noteq> [] \<and> toSHA \<noteq> [] then [fromSHA @ ''..'' @ toSHA] else if toSHA \<noteq> [] then [toSHA] else []) @
         (if subpath \<noteq> [] then [''--'', subpath] else []))))"

definition trim_slashes :: "string \<Rightarrow> string" where
  "trim_slashes s = rev (dropWhile (\<lambda>c. c = CHR ''/'') (rev (dropWhile (\<lambda>c. c = CHR ''/'') s)))"

definition CheckoutSubpath :: "git_env \<Rightarrow> string \<Rightarrow> string \<Rightarrow> string \<Rightarrow> string option" where
  "CheckoutSubpath g cacheDir sha subpath =
     (if cacheDir = [] \<or> sha = [] then None else gx_tree g cacheDir sha (trim_slashes subpath))"

definition diffRange :: "string \<Rightarrow> string \<Rightarrow> string" where
  "diffRange fromSHA toSHA = (if fromSHA = [] then ''4b825dc642cb6eb9a060e54bf8d69288fbee4904'' else fromSHA) @ ''..'' @ toSHA"

definition gitDiffNames :: "git_env \<Rightarrow> string \<Rightarrow> string \<Rightarrow> string \<Rightarrow> string \<Rightarrow> string list option" where
  "gitDiffNames g cacheDir fromSHA toSHA subpath =
     map_option output_lines (gx_run g cacheDir ([''diff'', ''--name-only'', diffRange fromSHA toSHA] @ (if subpath \<noteq> [] then [''--'', subpath] else [])))"

definition gitDiffSummary :: "git_env \<Rightarrow> string \<Rightarrow> string \<Rightarrow> string \<Rightarrow> string \<Rightarrow> int \<Rightarrow> string option" where
  "gitDiffSummary g cacheDir fromSHA toSHA subpath maxBytes =
     map_option (\<lambda>out. if 0 < maxBytes \<and> maxBytes < int (length out) then take (nat maxBytes) out @ [byte 10] @ ''... (truncated)'' else out)
       (gx_run g cacheDir ([''diff'', ''--stat'', diffRange fromSHA toSHA] @ (if subpath \<noteq> [] then [''--'', subpath] else [])))"

section \<open>Detection\<close>

datatype detect_result = ResultNoMovement | ResultNoPathTouch | ResultRevertedToSame | ResultDrift

record Detection =
  dt_Result :: detect_result
  dt_NewSHA :: string
  dt_NewHash :: string
  dt_CommitsAhead :: nat
  dt_ChangedFiles :: "string list"
  dt_DiffSummary :: string

definition detection :: "detect_result \<Rightarrow> string \<Rightarrow> string \<Rightarrow> Detection" where
  "detection r sha hash = \<lparr>dt_Result = r, dt_NewSHA = sha, dt_NewHash = hash, dt_CommitsAhead = 0, dt_ChangedFiles = [], dt_DiffSummary = []\<rparr>"

definition Detect :: "git_env \<Rightarrow> string \<Rightarrow> string \<Rightarrow> string \<Rightarrow> string \<Rightarrow> string \<Rightarrow> int \<Rightarrow> Detection option" where
  "Detect g gitRef gitSubpath lastSeenSHA lastSeenHash cacheDir maxBytes =
     (if cacheDir = [] then None
      else (case ResolveSHA g cacheDir gitRef of
        None \<Rightarrow> None
      | Some newSHA \<Rightarrow>
          if lastSeenSHA \<noteq> [] \<and> newSHA = lastSeenSHA then Some (detection ResultNoMovement newSHA [])
          else (case LogPath g cacheDir lastSeenSHA newSHA gitSubpath of
            None \<Rightarrow> None
          | Some commits \<Rightarrow>
              if commits = [] then Some (detection ResultNoPathTouch newSHA [])
              else (case CheckoutSubpath g cacheDir newSHA gitSubpath of
                None \<Rightarrow> None
              | Some newHash \<Rightarrow>
                  if lastSeenHash \<noteq> [] \<and> newHash = lastSeenHash then Some (detection ResultRevertedToSame newSHA newHash)
                  else (case (gitDiffNames g cacheDir lastSeenSHA newSHA gitSubpath, gitDiffSummary g cacheDir lastSeenSHA newSHA gitSubpath maxBytes) of
                    (Some changed, Some summary) \<Rightarrow>
                      Some \<lparr>dt_Result = ResultDrift, dt_NewSHA = newSHA, dt_NewHash = newHash, dt_CommitsAhead = length commits,
                        dt_ChangedFiles = changed, dt_DiffSummary = summary\<rparr>
                  | _ \<Rightarrow> None)))))"

section \<open>Classification\<close>

definition fallbackRecommendedAction :: string where
  "fallbackRecommendedAction = ''Review upstream commits manually before pulling.''"

definition parseLLMResponse :: "string \<Rightarrow> (string \<times> string \<times> string) option" where
  "parseLLMResponse raw =
     (let s = trim_space raw;
          s1 = (if has_prefix s ''```'' then trim_space (trim_suffix (trim_prefix (trim_prefix s ''```json'') ''```'') ''```'') else s) in
      case decode_members s1 of
        None \<Rightarrow> None
      | Some kvs \<Rightarrow>
          (let (sv, ok1) = str_field [] (field_values ''severity'' kvs);
               (sm, ok2) = str_field [] (field_values ''summary'' kvs);
               (ac, ok3) = str_field [] (field_values ''recommended_action'' kvs);
               sev = to_lower (trim_space sv); smry = trim_space sm; act = trim_space ac in
           if \<not> (ok1 \<and> ok2 \<and> ok3) then None
           else if \<not> valid_severity sev \<or> smry = [] \<or> act = [] then None
           else Some (sev, smry, act)))"

definition buildPrompt :: "Skill \<Rightarrow> Detection \<Rightarrow> string" where
  "buildPrompt skill det =
     ''Skill slug: '' @ sk_Slug skill @ [byte 10] @
     (if sk_DisplayName skill \<noteq> [] then ''Display name: '' @ sk_DisplayName skill @ [byte 10] else []) @
     (if sk_LatestVersion skill \<noteq> [] then ''Published version: '' @ sk_LatestVersion skill @ [byte 10] else []) @
     ''Commits ahead of published: '' @ show_nat (dt_CommitsAhead det) @ [byte 10] @
     (if dt_ChangedFiles det \<noteq> [] then ''Changed files:'' @ [byte 10] @ concat (map (\<lambda>f. ''- '' @ f @ [byte 10]) (dt_ChangedFiles det))
      else ''Changed files: (none reported)'' @ [byte 10]) @
     (if dt_DiffSummary det \<noteq> []
      then [byte 10] @ ''Diff summary (`git diff --stat`):'' @ [byte 10] @ dt_DiffSummary det @ (if last (dt_DiffSummary det) = byte 10 then [] else [byte 10])
      else []) @
     [byte 10] @ ''Respond with JSON only.''"

text \<open>\<open>None\<close>: no language model; otherwise its name and its answer to a prompt.\<close>

definition classifyWithLLM :: "(string \<times> (string \<Rightarrow> string option)) option \<Rightarrow> Skill \<Rightarrow> Detection \<Rightarrow> (string \<times> string \<times> string \<times> string) option" where
  "classifyWithLLM client skill det =
     (case client of
        None \<Rightarrow> None
      | Some (model, complete) \<Rightarrow>
          (case complete (buildPrompt skill det) of
             None \<Rightarrow> None
           | Some answer \<Rightarrow> (case parseLLMResponse answer of None \<Rightarrow> None | Some (sev, smry, act) \<Rightarrow> Some (sev, smry, act, model))))"

definition fallbackTriple :: "Detection \<Rightarrow> string \<times> string \<times> string" where
  "fallbackTriple det =
     (''unknown'', show_nat (dt_CommitsAhead det) @ '' commits modified '' @ show_nat (length (dt_ChangedFiles det)) @ '' files. See diff summary for details.'',
      fallbackRecommendedAction)"

definition Classify :: "(string \<times> (string \<Rightarrow> string option)) option \<Rightarrow> Skill \<Rightarrow> Detection \<Rightarrow> string \<Rightarrow> string \<Rightarrow> time \<Rightarrow> DriftReport" where
  "Classify client skill det relayHash relayVersion now =
     (let (sev, smry, act, model) =
            (case classifyWithLLM client skill det of
               Some x \<Rightarrow> x
             | None \<Rightarrow> (case fallbackTriple det of (sv, sm, ac) \<Rightarrow> (sv, sm, ac, []))) in
      \<lparr>dr_RelayVersion = relayVersion, dr_RelayHash = relayHash, dr_UpstreamSHA = dt_NewSHA det, dr_UpstreamHash = dt_NewHash det,
       dr_CommitsAhead = int (dt_CommitsAhead det), dr_Severity = sev, dr_Summary = smry, dr_RecommendedAction = act, dr_LLMModel = model, dr_DetectedAt = now\<rparr>)"

section \<open>The service\<close>

record check_env =
  ck_skill :: skill_env
  ck_git :: git_env
  ck_llm :: "(string \<times> (string \<Rightarrow> string option)) option"
  ck_cacheRoot :: string
  ck_maxBytes :: int

definition hint_char :: "char \<Rightarrow> char" where
  "hint_char c =
     (if (CHR ''a'' \<le> c \<and> c \<le> CHR ''z'') \<or> (CHR ''A'' \<le> c \<and> c \<le> CHR ''Z'') \<or> (CHR ''0'' \<le> c \<and> c \<le> CHR ''9'') \<or> c = CHR ''-'' \<or> c = CHR ''_'' then c
      else CHR ''-'')"

definition urlHint :: "string \<Rightarrow> string" where
  "urlHint gitURL =
     (let s = rev (dropWhile (\<lambda>c. c = CHR ''/'') (rev (trim_suffix gitURL ''.git'')));
          t = rev (takeWhile (\<lambda>c. c \<noteq> CHR ''/'' \<and> c \<noteq> CHR '':'') (rev s)) in
      if t = [] then ''repo'' else take 32 (map hint_char t))"

definition cacheDirFor :: "check_env \<Rightarrow> SkillUpstream \<Rightarrow> string" where
  "cacheDirFor env u =
     (let root = (if ck_cacheRoot env = [] then ''upstream-cache'' else ck_cacheRoot env);
          h = sha256_hex (ke_crypto (ck_skill env)) (su_GitURL u @ [byte 0] @ su_GitSubpath u) in
      path_clean (root @ ''/'' @ urlHint (su_GitURL u) @ ''-'' @ take 16 h))"

definition strDeref :: "string option \<Rightarrow> string" where
  "strDeref p = (case p of None \<Rightarrow> [] | Some s \<Rightarrow> s)"

definition fetchAndDetect :: "check_env \<Rightarrow> SkillUpstream \<Rightarrow> Detection option" where
  "fetchAndDetect env u =
     (let cacheDir = cacheDirFor env u in
      if \<not> EnsureCache (ck_git env) cacheDir (su_GitURL u) then None
      else Detect (ck_git env) (su_GitRef u) (su_GitSubpath u) (strDeref (su_LastSeenSHA u)) (strDeref (su_LastSeenHash u)) cacheDir (ck_maxBytes env))"

definition relayHashForSkill :: "check_env \<Rightarrow> faults \<Rightarrow> Skill \<Rightarrow> skill_db \<times> bundles \<Rightarrow> string" where
  "relayHashForSkill env io skill = (\<lambda>(k, files).
     if sk_LatestVersion skill = [] then []
     else (case GetVersion io (sk_ID skill) (sk_LatestVersion skill) k of
       Inr (Some v) \<Rightarrow>
         (case files (vn_ArchivePath v) of
            None \<Rightarrow> []
          | Some archive \<Rightarrow> strDeref (lb_hash (ke_lib (ck_skill env)) archive))
     | _ \<Rightarrow> []))"

datatype CheckOutcome = OutcomeUpToDate | OutcomeDrift | OutcomeNoUpstream | OutcomeFetchFailed

text \<open>Statements 2 and on of a check.\<close>

definition applyDetection :: "check_env \<Rightarrow> SkillUpstream \<Rightarrow> Detection \<Rightarrow> skill_db \<times> bundles \<Rightarrow> skill_db \<times> CheckOutcome skill_res" where
  "applyDetection env u det = (\<lambda>(k, files).
     let io = after_stmts 2 (ke_io (ck_skill env)); now = ke_now (ck_skill env) in
     if dt_Result det \<noteq> ResultDrift then
       (case UpdateUpstreamCheck io now (su_SkillID u) (dt_NewSHA det) (strDeref (su_LastSeenHash u)) now k of
          (k', Inl e) \<Rightarrow> (k', Inl e)
        | (k', Inr _) \<Rightarrow> (k', Inr OutcomeUpToDate))
     else
       (case GetSkill io (su_SkillID u) k of
          Inl e \<Rightarrow> (k, Inl e)
        | Inr None \<Rightarrow> (k, Inl (SkillInput ''skill vanished mid-check''))
        | Inr (Some skill) \<Rightarrow>
            let report = Classify (ck_llm env) skill det (relayHashForSkill env (after_stmts 1 io) skill (k, files)) (sk_LatestVersion skill) now in
            (case WriteDriftReport (after_stmts 2 io) now (su_SkillID u) report k of
               (k', Inl e) \<Rightarrow> (k', Inl e)
             | (k', Inr _) \<Rightarrow> (k', Inr OutcomeDrift))))"

definition RunOneSlug :: "check_env \<Rightarrow> string \<Rightarrow> skill_db \<times> bundles \<Rightarrow> skill_db \<times> CheckOutcome skill_res" where
  "RunOneSlug env slug = (\<lambda>(k, files).
     let io = ke_io (ck_skill env) in
     case GetSkillBySlug io slug k of
       Inl e \<Rightarrow> (k, Inl e)
     | Inr None \<Rightarrow> (k, Inl ErrSkillNotFound)
     | Inr (Some skill) \<Rightarrow>
         (case GetUpstream (after_stmts 1 io) (sk_ID skill) k of
            Inl e \<Rightarrow> (k, Inl e)
          | Inr None \<Rightarrow> (k, Inr OutcomeNoUpstream)
          | Inr (Some u) \<Rightarrow>
              (case fetchAndDetect env u of
                 None \<Rightarrow> (k, Inr OutcomeFetchFailed)
               | Some det \<Rightarrow> applyDetection env u det (k, files))))"

definition checkOne :: "check_env \<Rightarrow> SkillUpstream \<Rightarrow> skill_db \<times> bundles \<Rightarrow> skill_db \<times> unit skill_res" where
  "checkOne env u = (\<lambda>(k, files).
     case fetchAndDetect env u of
       None \<Rightarrow> (k, Inl (SkillIO ''fetch or detect failed''))
     | Some det \<Rightarrow> (case applyDetection env u det (k, files) of (k', Inl e) \<Rightarrow> (k', Inl e) | (k', Inr _) \<Rightarrow> (k', Inr ())))"

text \<open>One cycle. The environment of each check is its own; a failure only counts.\<close>

fun check_all :: "(nat \<Rightarrow> check_env) \<Rightarrow> nat \<Rightarrow> SkillUpstream list \<Rightarrow> skill_db \<times> bundles \<Rightarrow> skill_db" where
  "check_all envs n [] (k, files) = k"
| "check_all envs n (u # us) (k, files) = check_all envs (Suc n) us (fst (checkOne (envs n) u (k, files)), files)"

definition RunOnce :: "faults \<Rightarrow> (nat \<Rightarrow> check_env) \<Rightarrow> skill_db \<times> bundles \<Rightarrow> skill_db" where
  "RunOnce io envs = (\<lambda>(k, files). case ListUpstreams io k of Inl _ \<Rightarrow> k | Inr us \<Rightarrow> check_all envs 0 us (k, files))"

section \<open>Reports\<close>

lemma parseLLMResponse_ok:
  "parseLLMResponse raw = Some (sev, smry, act) \<Longrightarrow> valid_severity sev \<and> smry \<noteq> [] \<and> act \<noteq> []"
  by (auto simp: parseLLMResponse_def Let_def split: option.splits prod.splits if_splits)

text \<open>
  C25. Whatever the language model answers, a drift report can be stored and shown: its severity is one of the five the database
  accepts, and it has a summary and a recommended action. Without a language model the severity is unknown and no
  model is named.
\<close>

theorem classify_report_well_typed:
  "valid_severity (dr_Severity (Classify client skill det relayHash relayVersion now)) \<and>
   dr_Summary (Classify client skill det relayHash relayVersion now) \<noteq> [] \<and>
   dr_RecommendedAction (Classify client skill det relayHash relayVersion now) \<noteq> [] \<and>
   dr_Severity (Classify None skill det relayHash relayVersion now) = ''unknown'' \<and>
   dr_LLMModel (Classify None skill det relayHash relayVersion now) = []"
  using parseLLMResponse_ok
  by (auto simp: Classify_def Let_def classifyWithLLM_def fallbackTriple_def fallbackRecommendedAction_def valid_severity_def split: option.split prod.split)

lemma applyDetection_wf: "skill_wf db k \<Longrightarrow> skill_wf db (fst (applyDetection env u det (k, files)))"
proof -
  assume wf: "skill_wf db k"
  have "skill_wf db k'" if "UpdateUpstreamCheck io now i sha hash t k = (k', r)" for io now i sha hash t k' r
    using skill_ops_wf(12) [OF wf, of io now i sha hash t] that by simp
  moreover have "skill_wf db k'" if "WriteDriftReport io now i rep k = (k', r)" for io now i rep k' r
    using skill_ops_wf(13) [OF wf, of io now i rep] that by simp
  ultimately show ?thesis using wf by (auto simp: applyDetection_def Let_def split: prod.split sum.split option.split)
qed

lemma RunOneSlug_wf: "skill_wf db k \<Longrightarrow> skill_wf db (fst (RunOneSlug env slug (k, files)))"
  using applyDetection_wf by (simp add: RunOneSlug_def Let_def split: sum.split option.split)

lemma check_all_wf: "skill_wf db k \<Longrightarrow> skill_wf db (check_all envs n us (k, files))"
proof (induction us arbitrary: n k)
  case (Cons u us)
  have "skill_wf db (fst (checkOne (envs n) u (k, files)))"
    using applyDetection_wf [OF Cons.prems, of "envs n" u _ files] Cons.prems
    by (auto simp: checkOne_def split: option.split prod.split sum.split) (metis fst_conv)+
  from Cons.IH [OF this] show ?case by simp
qed simp

lemma RunOnce_wf: "skill_wf db k \<Longrightarrow> skill_wf db (RunOnce io envs (k, files))"
  by (simp add: RunOnce_def check_all_wf split: sum.split)

lemma Classify_sha [simp]: "dr_UpstreamSHA (Classify client skill det relayHash relayVersion now) = dt_NewSHA det"
  by (simp add: Classify_def Let_def split: prod.split)

text \<open>What a check that reports drift has done.\<close>

lemma RunOneSlug_drift:
  assumes "RunOneSlug env slug (k, files) = (k', Inr OutcomeDrift)"
  obtains skill u det report where "sql_row (\<lambda>s. sk_Slug s = slug) (kd_skills k) = Some skill" "sql_row (\<lambda>u. su_SkillID u = sk_ID skill) (kd_upstreams k) = Some u"
    "fetchAndDetect env u = Some det" "dr_UpstreamSHA report = dt_NewSHA det"
    "kd_skills k' = sql_update (\<lambda>s. sk_ID s = sk_ID skill) (\<lambda>s. s\<lparr>sk_Outdated := 1\<rparr>) (kd_skills k)"
    "kd_upstreams k' = sql_update (\<lambda>u. su_SkillID u = sk_ID skill) (\<lambda>u. u\<lparr>su_Drift := Some report, su_LastSeenSHA := Some (dr_UpstreamSHA report),
       su_LastSeenHash := Some (dr_UpstreamHash report), su_LastCheckedAt := Some (dr_DetectedAt report), su_UpdatedAt := ke_now (ck_skill env)\<rparr>) (kd_upstreams k)"
proof -
  from assms obtain skill u det where skill: "sql_row (\<lambda>s. sk_Slug s = slug) (kd_skills k) = Some skill"
    and u: "sql_row (\<lambda>u. su_SkillID u = sk_ID skill) (kd_upstreams k) = Some u" and det: "fetchAndDetect env u = Some det"
    and run: "applyDetection env u det (k, files) = (k', Inr OutcomeDrift)"
    by (auto simp: RunOneSlug_def GetSkillBySlug_def GetUpstream_def kquery_def Let_def split: if_splits option.splits)
  have id: "su_SkillID u = sk_ID skill" using sql_row_SomeD [OF u] by simp
  from run obtain report io where "dr_UpstreamSHA report = dt_NewSHA det"
    and "WriteDriftReport io (ke_now (ck_skill env)) (sk_ID skill) report k = (k', Inr ())"
    by (auto simp: applyDetection_def Let_def id split: if_splits prod.splits sum.splits option.splits) (meson Classify_sha)
  then show thesis using that [OF skill u det]
    by (auto simp: WriteDriftReport_def ktx2_def stmt_def res_bind_def update_upstream_def update_skill_def split: if_splits)
qed

lemma fetchAndDetect_same:
  assumes "fetchAndDetect env u = Some det" "ck_git env' = ck_git env" "ck_cacheRoot env' = ck_cacheRoot env" "ke_crypto (ck_skill env') = ke_crypto (ck_skill env)"
    and u': "su_GitURL u' = su_GitURL u" "su_GitSubpath u' = su_GitSubpath u" "su_GitRef u' = su_GitRef u" "su_LastSeenSHA u' = Some (dt_NewSHA det)" "dt_NewSHA det \<noteq> []"
  shows "fetchAndDetect env' u' = Some (detection ResultNoMovement (dt_NewSHA det) [])"
proof -
  have dir: "cacheDirFor env' u' = cacheDirFor env u" by (simp add: cacheDirFor_def assms)
  have "Detect g ref sub sha hash dir m = Some det \<Longrightarrow> dir \<noteq> [] \<and> ResolveSHA g dir ref = Some (dt_NewSHA det)" for g ref sub sha hash dir m
    by (auto simp: Detect_def detection_def split: if_splits option.splits)
  with assms(1) have "EnsureCache (ck_git env) (cacheDirFor env u) (su_GitURL u)" "cacheDirFor env u \<noteq> []"
    "ResolveSHA (ck_git env) (cacheDirFor env u) (su_GitRef u) = Some (dt_NewSHA det)"
    by (auto simp: fetchAndDetect_def Let_def split: if_splits)
  with u' show ?thesis by (simp add: fetchAndDetect_def Let_def dir assms(2) Detect_def strDeref_def)
qed

text \<open>
  A drift is reported once. A check that finds drift marks the skill as outdated and takes the new state of the repository
  as seen; the next check, with the repository unchanged and the skill still outdated, answers that the skill is up to date.
\<close>

theorem second_check_says_up_to_date:
  assumes first: "RunOneSlug env slug (k, files) = (k1, Inr OutcomeDrift)"
    and git: "\<And>dir r out. gx_run (ck_git env) dir [''rev-parse'', ''--verify'', r] = Some out \<Longrightarrow> trim_space out \<noteq> []"
    and same: "ck_git env' = ck_git env" "ck_cacheRoot env' = ck_cacheRoot env" "ke_crypto (ck_skill env') = ke_crypto (ck_skill env)"
    and db: "ke_io (ck_skill env') = no_faults"
  shows "\<exists>k2 s. RunOneSlug env' slug (k1, files') = (k2, Inr OutcomeUpToDate) \<and> GetSkillBySlug no_faults slug k2 = Inr (Some s) \<and> sk_Outdated s = 1"
proof -
  obtain skill u det report where skill: "sql_row (\<lambda>s. sk_Slug s = slug) (kd_skills k) = Some skill"
    and u: "sql_row (\<lambda>u. su_SkillID u = sk_ID skill) (kd_upstreams k) = Some u" and det: "fetchAndDetect env u = Some det"
    and sha: "dr_UpstreamSHA report = dt_NewSHA det"
    and k1: "kd_skills k1 = sql_update (\<lambda>s. sk_ID s = sk_ID skill) (\<lambda>s. s\<lparr>sk_Outdated := 1\<rparr>) (kd_skills k)"
      "kd_upstreams k1 = sql_update (\<lambda>u. su_SkillID u = sk_ID skill) (\<lambda>u. u\<lparr>su_Drift := Some report, su_LastSeenSHA := Some (dr_UpstreamSHA report),
       su_LastSeenHash := Some (dr_UpstreamHash report), su_LastCheckedAt := Some (dr_DetectedAt report), su_UpdatedAt := ke_now (ck_skill env)\<rparr>) (kd_upstreams k)"
    by (rule RunOneSlug_drift [OF first])
  have id: "su_SkillID u = sk_ID skill" using sql_row_SomeD [OF u] by simp
  have row: "sql_row (\<lambda>s. sk_Slug s = slug) (kd_skills k1) = Some (skill\<lparr>sk_Outdated := 1\<rparr>)" by (simp add: k1(1) sql_row_update skill)
  define u' where "u' = u\<lparr>su_Drift := Some report, su_LastSeenSHA := Some (dr_UpstreamSHA report), su_LastSeenHash := Some (dr_UpstreamHash report),
    su_LastCheckedAt := Some (dr_DetectedAt report), su_UpdatedAt := ke_now (ck_skill env)\<rparr>"
  have row': "sql_row (\<lambda>u. su_SkillID u = sk_ID skill) (kd_upstreams k1) = Some u'" by (simp add: k1(2) sql_row_update u u'_def id)
  have "dt_NewSHA det \<noteq> []"
    using det git by (auto simp: fetchAndDetect_def Detect_def detection_def ResolveSHA_def Let_def split: if_splits option.splits)
  then have "fetchAndDetect env' u' = Some (detection ResultNoMovement (dt_NewSHA det) [])" by (intro fetchAndDetect_same [OF det same]) (simp_all add: u'_def sha)
  then show ?thesis
    by (simp add: RunOneSlug_def GetSkillBySlug_def GetUpstream_def kquery_def db row row' applyDetection_def detection_def UpdateUpstreamCheck_def kexec_def
        update_upstream_def Let_def)
qed

section \<open>Examples\<close>

definition demo_git :: git_env where
  "demo_git = \<lparr>gx_hasGitDir = (\<lambda>_. False), gx_run = (\<lambda>_ _. Some ''c1''), gx_clone = (\<lambda>_ _. True), gx_tree = (\<lambda>_ _ _. Some ''t1'')\<rparr>"

definition demo_check :: check_env where
  "demo_check = \<lparr>ck_skill = demo_skill_env, ck_git = demo_git, ck_llm = None, ck_cacheRoot = [], ck_maxBytes = 0\<rparr>"

definition demo_followed :: skill_db where
  "demo_followed =
     \<lparr>kd_skills = [\<lparr>sk_ID = ''k1'', sk_Slug = ''ab'', sk_DisplayName = [], sk_Description = [], sk_Visibility = ''public'', sk_LatestVersion = [],
        sk_YankedAt = None, sk_CreatedBy = None, sk_CreatedAt = 1, sk_UpdatedAt = 1, sk_Outdated = 0\<rparr>],
      kd_versions = [], kd_assignments = [],
      kd_upstreams = [\<lparr>su_SkillID = ''k1'', su_UpstreamType = ''git'', su_GitURL = ''https://h/r'', su_GitSubpath = [], su_GitRef = ''HEAD'',
        su_LastCheckedAt = None, su_LastSeenSHA = None, su_LastSeenHash = None, su_Drift = None, su_CreatedAt = 1, su_UpdatedAt = 1\<rparr>]\<rparr>"

lemma demo_detected:
  "fetchAndDetect demo_check (hd (kd_upstreams demo_followed)) =
     Some \<lparr>dt_Result = ResultDrift, dt_NewSHA = ''c1'', dt_NewHash = ''t1'', dt_CommitsAhead = 1, dt_ChangedFiles = [''c1''], dt_DiffSummary = ''c1''\<rparr>"
  by code_simp

theorem second_check_says_up_to_date_witness:
  "\<exists>k1 k2 s. RunOneSlug demo_check ''ab'' (demo_followed, Map.empty) = (k1, Inr OutcomeDrift) \<and>
     RunOneSlug demo_check ''ab'' (k1, Map.empty) = (k2, Inr OutcomeUpToDate) \<and> GetSkillBySlug no_faults ''ab'' k2 = Inr (Some s) \<and> sk_Outdated s = 1"
proof -
  have io: "ke_io (ck_skill demo_check) = no_faults" by (simp add: demo_check_def demo_skill_env_def)
  obtain k1 where first: "RunOneSlug demo_check ''ab'' (demo_followed, Map.empty) = (k1, Inr OutcomeDrift)"
    using demo_detected
    by (simp add: RunOneSlug_def io GetSkillBySlug_def GetUpstream_def kquery_def applyDetection_def GetSkill_def Let_def demo_followed_def)
      (simp add: WriteDriftReport_def ktx2_def Classify_def Let_def demo_check_def classifyWithLLM_def fallbackTriple_def valid_severity_def update_upstream_def update_skill_def)
  have git: "gx_run (ck_git demo_check) dir [''rev-parse'', ''--verify'', r] = Some out \<Longrightarrow> trim_space out \<noteq> []" for dir r out
  proof -
    have "trim_space ''c1'' \<noteq> []" by code_simp
    then show "gx_run (ck_git demo_check) dir [''rev-parse'', ''--verify'', r] = Some out \<Longrightarrow> trim_space out \<noteq> []"
      by (auto simp: demo_check_def demo_git_def)
  qed
  have "\<exists>k2 s. RunOneSlug demo_check ''ab'' (k1, Map.empty) = (k2, Inr OutcomeUpToDate) \<and> GetSkillBySlug no_faults ''ab'' k2 = Inr (Some s) \<and> sk_Outdated s = 1"
    by (rule second_check_says_up_to_date [OF first _ refl refl refl io]) (rule git)
  with first show ?thesis by blast
qed

end
