(* ===== verification/Skill_API.thy ===== *)
theory Skill_API
  imports Skill_Checker Auth_Middleware
begin

text \<open>
  The skill repository over HTTP (\<open>internal/web/skills_handlers.go\<close>) behind the API key check of its registration
  (\<open>internal/server/http.go\<close>): listing and reading skills, publishing versions, editing and withdrawing skills, granting
  them to users, and the upstream a skill follows.
\<close>

section \<open>Replies\<close>

datatype skill_body =
    SkError string
  | SkList "(Skill \<times> DriftReport option) list"
  | SkAssigned "AssignedSkill list"
  | SkDetail Skill "SkillVersion list" "DriftReport option"
  | SkVersions "SkillVersion list"
  | SkVersion SkillVersion
  | SkUploaded UploadResult bool
  | SkSkill Skill
  | SkYanked
  | SkCleared
  | SkArchive string SkillVersion
  | SkAssignments "SkillAssignment list"
  | SkAssignment SkillAssignment
  | SkDrift "DriftReport option"
  | SkUpstream SkillUpstream
  | SkEmpty

type_synonym skill_reply = "nat \<times> skill_body"
type_synonym skill_state = "skill_db \<times> bundles"

definition writeJSONError :: "nat \<Rightarrow> string \<Rightarrow> skill_reply" where
  "writeJSONError status msg = (status, SkError msg)"

definition internal_error :: skill_reply where
  "internal_error = writeJSONError 500 ''internal error''"

definition bad_method :: skill_reply where
  "bad_method = writeJSONError 405 ''method not allowed''"

text \<open>\<open>ka_checker\<close>: whether the upstream checker is configured. Its environment has that of the store and the service.\<close>

record skill_api_env =
  ka_check :: check_env
  ka_checker :: bool

abbreviation ka_skill :: "skill_api_env \<Rightarrow> skill_env" where
  "ka_skill env \<equiv> ck_skill (ka_check env)"

definition shift_skill :: "nat \<Rightarrow> skill_env \<Rightarrow> skill_env" where
  "shift_skill n env = env\<lparr>ke_io := after_stmts n (ke_io env)\<rparr>"

text \<open>A body read through \<open>http.MaxBytesReader\<close>.\<close>

datatype read_result = BodyRead string | BodyTooLarge | BodyUnreadable

definition read_body :: "nat \<Rightarrow> http_request \<Rightarrow> read_result" where
  "read_body limit r = (case hr_Body r of None \<Rightarrow> BodyUnreadable | Some b \<Rightarrow> if limit < length b then BodyTooLarge else BodyRead b)"

section \<open>Reading\<close>

definition driftBlockFromUpstream :: "SkillUpstream option \<Rightarrow> DriftReport option" where
  "driftBlockFromUpstream u = (case u of None \<Rightarrow> None | Some x \<Rightarrow> su_Drift x)"

definition drift_of :: "faults \<Rightarrow> Skill \<Rightarrow> skill_db \<Rightarrow> DriftReport option" where
  "drift_of io sk k =
     (if sk_Outdated sk = 1 then (case GetUpstream io (sk_ID sk) k of Inl _ \<Rightarrow> None | Inr u \<Rightarrow> driftBlockFromUpstream u) else None)"

definition listForUser :: "faults \<Rightarrow> User \<Rightarrow> skill_db \<Rightarrow> Skill list skill_res" where
  "listForUser io user k =
     (if u_Role user = ''admin'' then ListSkills io k
      else (case AssignedForUser io (u_ID user) k of Inl e \<Rightarrow> Inl e | Inr rows \<Rightarrow> Inr (map as_Skill rows)))"

definition HandleSkills :: "skill_api_env \<Rightarrow> auth_ctx \<Rightarrow> http_request \<Rightarrow> skill_state \<Rightarrow> skill_state \<times> skill_reply" where
  "HandleSkills env ctx r = (\<lambda>(k, files).
     ((k, files),
      case cx_User ctx of
        None \<Rightarrow> writeJSONError 401 ''unauthenticated''
      | Some user \<Rightarrow>
          if hr_Method r \<noteq> ''GET'' then bad_method
          else (case listForUser (ke_io (ka_skill env)) user k of
            Inl _ \<Rightarrow> internal_error
          | Inr sks \<Rightarrow> (200, SkList (map (\<lambda>(i, sk). (sk, drift_of (after_stmts (Suc i) (ke_io (ka_skill env))) sk k)) (enumerate 0 sks))))))"

definition HandleAssigned :: "skill_api_env \<Rightarrow> auth_ctx \<Rightarrow> http_request \<Rightarrow> skill_state \<Rightarrow> skill_state \<times> skill_reply" where
  "HandleAssigned env ctx r = (\<lambda>(k, files).
     ((k, files),
      case cx_User ctx of
        None \<Rightarrow> writeJSONError 401 ''unauthenticated''
      | Some user \<Rightarrow>
          if hr_Method r \<noteq> ''GET'' then bad_method
          else (case AssignedForUser (ke_io (ka_skill env)) (u_ID user) k of Inl _ \<Rightarrow> internal_error | Inr rows \<Rightarrow> (200, SkAssigned rows))))"

definition userCanRead :: "faults \<Rightarrow> User \<Rightarrow> Skill \<Rightarrow> skill_db \<Rightarrow> bool" where
  "userCanRead io user skill k =
     (if u_Role user = ''admin'' then True
      else if sk_YankedAt skill \<noteq> None then False
      else if sk_Visibility skill = ''public'' then True
      else (case ListAssignmentsForSkill io (sk_ID skill) k of
        Inl _ \<Rightarrow> False
      | Inr assigns \<Rightarrow> list_ex (\<lambda>a. ag_UserID a = u_ID user) assigns))"

definition getSkill_api :: "faults \<Rightarrow> Skill \<Rightarrow> skill_db \<Rightarrow> skill_reply" where
  "getSkill_api io skill k =
     (case ListVersions io (sk_ID skill) k of
        Inl _ \<Rightarrow> internal_error
      | Inr versions \<Rightarrow> (200, SkDetail skill versions (drift_of (after_stmts 1 io) skill k)))"

definition listVersions_api :: "faults \<Rightarrow> Skill \<Rightarrow> skill_db \<Rightarrow> skill_reply" where
  "listVersions_api io skill k = (case ListVersions io (sk_ID skill) k of Inl _ \<Rightarrow> internal_error | Inr versions \<Rightarrow> (200, SkVersions versions))"

definition getVersion_api :: "faults \<Rightarrow> Skill \<Rightarrow> string \<Rightarrow> skill_db \<Rightarrow> skill_reply" where
  "getVersion_api io skill version k =
     (case GetVersion io (sk_ID skill) version k of
        Inl _ \<Rightarrow> internal_error
      | Inr None \<Rightarrow> writeJSONError 404 ''version not found''
      | Inr (Some v) \<Rightarrow> (200, SkVersion v))"

definition downloadArchive :: "faults \<Rightarrow> Skill \<Rightarrow> string \<Rightarrow> skill_state \<Rightarrow> skill_reply" where
  "downloadArchive io skill version s =
     (case OpenArchive io (sk_ID skill) version s of
        Inl e \<Rightarrow> if e = ErrSkillNotFound then writeJSONError 404 ''version not found'' else internal_error
      | Inr (b, v) \<Rightarrow> (200, SkArchive b v))"

section \<open>Publishing\<close>

text \<open>\<open>upstreamHeaderPayload\<close> and \<open>upstreamPUTBody\<close>: type, URL, subpath and ref under their names.\<close>

definition decode_upstream :: "string \<Rightarrow> string \<Rightarrow> string \<Rightarrow> string \<Rightarrow> string \<Rightarrow> (string \<times> string \<times> string \<times> string) option" where
  "decode_upstream typ url subpath ref s =
     (case decode_members s of
        None \<Rightarrow> None
      | Some kvs \<Rightarrow>
          (let str = (\<lambda>n. str_field [] (field_values n kvs)) in
           if list_all (\<lambda>n. snd (str n)) [typ, url, subpath, ref] then Some (fst (str typ), fst (str url), fst (str subpath), fst (str ref)) else None))"

definition upstream_row :: "string \<Rightarrow> string \<times> string \<times> string \<times> string \<Rightarrow> SkillUpstream" where
  "upstream_row i = (\<lambda>(typ, url, subpath, ref).
     \<lparr>su_SkillID = i, su_UpstreamType = typ, su_GitURL = url, su_GitSubpath = subpath, su_GitRef = ref, su_LastCheckedAt = None, su_LastSeenSHA = None,
      su_LastSeenHash = None, su_Drift = None, su_CreatedAt = 0, su_UpdatedAt = 0\<rparr>)"

text \<open>What the headers of an upload ask for after it, and whether an upstream was recorded.\<close>

definition upload_headers :: "faults \<Rightarrow> time \<Rightarrow> http_request \<Rightarrow> string \<Rightarrow> skill_db \<Rightarrow> skill_db \<times> bool" where
  "upload_headers io now r i k =
     (if fold_name (hr_Header r ''X-Clear-Upstream'') = fold_name ''true'' then (fst (ClearUpstream io i k), False)
      else if hr_Header r ''X-Upstream'' \<noteq> [] then
        (case decode_upstream ''type'' ''url'' ''subpath'' ''ref'' (hr_Header r ''X-Upstream'') of
           None \<Rightarrow> (k, False)
         | Some (typ, url, subpath, ref) \<Rightarrow>
             if url \<noteq> [] \<and> (typ = [] \<or> typ = ''git'') then
               (case UpsertUpstream io now (upstream_row i (typ, url, subpath, ref)) k of (k', Inl _) \<Rightarrow> (k', False) | (k', Inr _) \<Rightarrow> (k', True))
             else (k, False))
      else (k, False))"

definition rebaseline :: "faults \<Rightarrow> time \<Rightarrow> string \<Rightarrow> string \<Rightarrow> skill_db \<Rightarrow> skill_db" where
  "rebaseline io now i relayHash k =
     (case GetUpstream io i k of Inr (Some _) \<Rightarrow> fst (ClearDriftReport (after_stmts 1 io) now i relayHash k) | _ \<Rightarrow> k)"

definition upload_failed :: "skill_error \<Rightarrow> skill_reply" where
  "upload_failed e =
     (case e of
        ErrInvalidArchive msg \<Rightarrow> writeJSONError 400 msg
      | ErrSkillVersionConflict \<Rightarrow> writeJSONError 409 ''version already exists''
      | ErrSkillSlugConflict \<Rightarrow> writeJSONError 409 ''slug already exists''
      | _ \<Rightarrow> internal_error)"

definition uploadVersion :: "skill_env \<Rightarrow> auth_ctx \<Rightarrow> User \<Rightarrow> http_request \<Rightarrow> string \<Rightarrow> string \<Rightarrow> skill_state \<Rightarrow> skill_state \<times> skill_reply" where
  "uploadVersion env ctx user r slug version s =
     (case read_body MaxArchiveSize r of
        BodyTooLarge \<Rightarrow> (s, writeJSONError 413 ''archive exceeds 5 MiB limit'')
      | BodyUnreadable \<Rightarrow> (s, writeJSONError 400 ''body unreadable'')
      | BodyRead body \<Rightarrow>
          let visibility = hr_Query r ''visibility'' in
          if visibility \<noteq> [] \<and> \<not> hasCapability (Some user) (cx_APIKey ctx) ''skills:admin'' then
            (s, writeJSONError 403 ''setting ?visibility= requires the skills:admin capability; omit it to publish as restricted'')
          else
            (case Upload env \<lparr>ui_SlugOverride = slug, ui_Version = version, ui_Archive = body, ui_UploadedBy = u_ID user, ui_DisplayName = [], ui_Description = [],
                    ui_Visibility = visibility\<rparr> s of
               (s1, Inl e) \<Rightarrow> (s1, upload_failed e)
             | ((k1, files1), Inr res) \<Rightarrow>
                 let i = sk_ID (up_Skill res);
                     (k2, recorded) = upload_headers (after_stmts 6 (ke_io env)) (ke_now env) r i k1;
                     relayHash = (case lb_hash (ke_lib env) body of None \<Rightarrow> [] | Some h \<Rightarrow> h);
                     k3 = rebaseline (after_stmts 10 (ke_io env)) (ke_now env) i relayHash k2 in
                 ((k3, files1), (201, SkUploaded res recorded))))"

section \<open>Editing and withdrawing\<close>

definition is_json :: "http_request \<Rightarrow> bool" where
  "is_json r =
     (let ct = hr_Header r ''Content-Type''; ct1 = (if CHR '';'' \<in> set ct then trim_space (takeWhile (\<lambda>c. c \<noteq> CHR '';'') ct) else ct) in
      fold_name ct1 = fold_name ''application/json'')"

text \<open>A member of type \<open>*string\<close>: \<open>null\<close> resets it.\<close>

fun str_ptr_field :: "string option \<Rightarrow> string list \<Rightarrow> string option \<times> bool" where
  "str_ptr_field cur [] = (cur, True)"
| "str_ptr_field cur (v # vs) =
     (case shape v of
        Some (SStr t) \<Rightarrow> str_ptr_field (Some t) vs
      | Some SNull \<Rightarrow> str_ptr_field None vs
      | _ \<Rightarrow> (fst (str_ptr_field cur vs), False))"

record patchSkillBody =
  pb_Visibility :: "string option"
  pb_DisplayName :: "string option"
  pb_Description :: "string option"

definition decode_patch :: "string \<Rightarrow> patchSkillBody option" where
  "decode_patch s =
     (case decode_members s of
        None \<Rightarrow> None
      | Some kvs \<Rightarrow>
          (let ptr = (\<lambda>n. str_ptr_field None (field_values n kvs)) in
           if list_all (\<lambda>n. snd (ptr n)) [''visibility'', ''display_name'', ''description'']
           then Some \<lparr>pb_Visibility = fst (ptr ''visibility''), pb_DisplayName = fst (ptr ''display_name''), pb_Description = fst (ptr ''description'')\<rparr>
           else None))"

definition apply_patch :: "faults \<Rightarrow> time \<Rightarrow> patchSkillBody \<Rightarrow> Skill \<Rightarrow> skill_db \<Rightarrow> skill_db \<times> skill_reply" where
  "apply_patch io now inp skill k =
     (let dn = (case pb_DisplayName inp of None \<Rightarrow> sk_DisplayName skill | Some d \<Rightarrow> trim_space d);
          description = (case pb_Description inp of None \<Rightarrow> sk_Description skill | Some d \<Rightarrow> d);
          visibility = (case pb_Visibility inp of None \<Rightarrow> [] | Some v \<Rightarrow> trim_space v) in
      if pb_DisplayName inp \<noteq> None \<and> dn = [] then (k, writeJSONError 400 ''display_name cannot be empty'')
      else if pb_Visibility inp \<noteq> None \<and> \<not> valid_visibility visibility then (k, writeJSONError 400 ''visibility must be public or restricted'')
      else (case UpdateSkillMeta io now (sk_ID skill) dn description visibility k of
        (k', Inl _) \<Rightarrow> (k', internal_error)
      | (k', Inr _) \<Rightarrow>
          (k', case GetSkillBySlug (after_stmts 1 io) (sk_Slug skill) k' of Inr (Some updated) \<Rightarrow> (200, SkSkill updated) | _ \<Rightarrow> internal_error)))"

definition patchSkill :: "faults \<Rightarrow> time \<Rightarrow> auth_ctx \<Rightarrow> User \<Rightarrow> http_request \<Rightarrow> Skill \<Rightarrow> skill_db \<Rightarrow> skill_db \<times> skill_reply" where
  "patchSkill io now ctx user r skill k =
     (if \<not> is_json r then (k, writeJSONError 415 ''expected application/json'')
      else (case read_body 4096 r of
        BodyRead body \<Rightarrow>
          (case decode_patch body of
             None \<Rightarrow> (k, writeJSONError 400 ''invalid JSON'')
           | Some inp \<Rightarrow>
               if pb_Visibility inp = None \<and> pb_DisplayName inp = None \<and> pb_Description inp = None then
                 (k, writeJSONError 400 ''patch body must include at least one of visibility, display_name, description'')
               else if pb_Visibility inp \<noteq> None \<and> \<not> hasCapability (Some user) (cx_APIKey ctx) ''skills:admin'' then
                 (k, writeJSONError 403 ''changing visibility requires the skills:admin capability'')
               else apply_patch io now inp skill k)
      | _ \<Rightarrow> (k, writeJSONError 400 ''body unreadable'')))"

definition deleteSkill :: "faults \<Rightarrow> time \<Rightarrow> User \<Rightarrow> http_request \<Rightarrow> Skill \<Rightarrow> skill_db \<Rightarrow> skill_db \<times> skill_reply" where
  "deleteSkill io now user r skill k =
     (if hr_Query r ''hard'' = ''true'' then
        if u_Role user \<noteq> ''admin'' then (k, writeJSONError 403 ''hard delete requires admin access'')
        else (case DeleteSkill io (sk_ID skill) k of (k', Inl _) \<Rightarrow> (k', internal_error) | (k', Inr _) \<Rightarrow> (k', (204, SkEmpty)))
      else (case YankSkill io now (sk_ID skill) k of (k', Inl _) \<Rightarrow> (k', internal_error) | (k', Inr _) \<Rightarrow> (k', (200, SkYanked))))"

definition yankVersion_api :: "faults \<Rightarrow> time \<Rightarrow> Skill \<Rightarrow> string \<Rightarrow> skill_db \<Rightarrow> skill_db \<times> skill_reply" where
  "yankVersion_api io now skill version k =
     (case YankVersion io now (sk_ID skill) version k of (k', Inl _) \<Rightarrow> (k', internal_error) | (k', Inr _) \<Rightarrow> (k', (200, SkYanked)))"

section \<open>Grants\<close>

definition listAssignments :: "faults \<Rightarrow> Skill \<Rightarrow> skill_db \<Rightarrow> skill_reply" where
  "listAssignments io skill k = (case ListAssignmentsForSkill io (sk_ID skill) k of Inl _ \<Rightarrow> internal_error | Inr rows \<Rightarrow> (200, SkAssignments rows))"

definition decode_assign :: "string \<Rightarrow> (string \<times> string) option" where
  "decode_assign s =
     (case decode_members s of
        None \<Rightarrow> None
      | Some kvs \<Rightarrow>
          (let (name, ok1) = str_field [] (field_values ''username'' kvs); (version, ok2) = str_field [] (field_values ''version'' kvs) in
           if ok1 \<and> ok2 then Some (name, version) else None))"

definition assignSkill_api :: "skill_env \<Rightarrow> http_request \<Rightarrow> Skill \<Rightarrow> string \<Rightarrow> skill_db \<Rightarrow> skill_db \<times> skill_reply" where
  "assignSkill_api env r skill adminID k =
     (case read_body 4096 r of
        BodyRead body \<Rightarrow>
          (case decode_assign body of
             None \<Rightarrow> (k, writeJSONError 400 ''invalid JSON'')
           | Some (name, version) \<Rightarrow>
               if trim_space name = [] then (k, writeJSONError 400 ''username is required'')
               else (case UserStore_GetByUsername (ke_io env) name (ke_users env) of
                 Inl _ \<Rightarrow> (k, internal_error)
               | Inr None \<Rightarrow> (k, writeJSONError 404 ''user not found'')
               | Inr (Some target) \<Rightarrow>
                   (case AssignSkill (after_stmts 1 (ke_io env)) (ke_now env) (ke_users env)
                           \<lparr>ag_SkillID = sk_ID skill, ag_UserID = u_ID target, ag_Version = nullableString (trim_space version),
                            ag_AssignedBy = nullableString adminID, ag_AssignedAt = 0\<rparr> k of
                      (k', Inl _) \<Rightarrow> (k', internal_error)
                    | (k', Inr a) \<Rightarrow> (k', (201, SkAssignment a)))))
      | _ \<Rightarrow> (k, writeJSONError 400 ''body unreadable''))"

definition unassignSkill_api :: "skill_env \<Rightarrow> Skill \<Rightarrow> string \<Rightarrow> skill_db \<Rightarrow> skill_db \<times> skill_reply" where
  "unassignSkill_api env skill username k =
     (case UserStore_GetByUsername (ke_io env) username (ke_users env) of
        Inl _ \<Rightarrow> (k, internal_error)
      | Inr None \<Rightarrow> (k, writeJSONError 404 ''user not found'')
      | Inr (Some target) \<Rightarrow>
          (case UnassignSkill (after_stmts 1 (ke_io env)) (sk_ID skill) (u_ID target) k of
             (k', Inl _) \<Rightarrow> (k', internal_error)
           | (k', Inr _) \<Rightarrow> (k', (204, SkEmpty))))"

section \<open>Upstreams\<close>

definition handleCheckDrift :: "skill_api_env \<Rightarrow> http_request \<Rightarrow> string \<Rightarrow> skill_state \<Rightarrow> skill_db \<times> skill_reply" where
  "handleCheckDrift env r slug = (\<lambda>(k, files).
     if hr_Method r \<noteq> ''POST'' then (k, bad_method)
     else if \<not> ka_checker env then (k, writeJSONError 503 ''skill upstream checker disabled'')
     else (case RunOneSlug (ka_check env) slug (k, files) of
       (k', Inl e) \<Rightarrow> (k', if e = ErrSkillNotFound then writeJSONError 404 ''skill not found'' else internal_error)
     | (k', Inr OutcomeNoUpstream) \<Rightarrow> (k', writeJSONError 409 ''skill has no upstream tracking enabled'')
     | (k', Inr OutcomeFetchFailed) \<Rightarrow> (k', writeJSONError 502 ''upstream fetch failed'')
     | (k', Inr OutcomeUpToDate) \<Rightarrow> (k', (204, SkEmpty))
     | (k', Inr OutcomeDrift) \<Rightarrow>
         (let io = after_stmts 10 (ke_io (ka_skill env));
              upstream = (case GetSkillBySlug io slug k' of
                Inr (Some skill) \<Rightarrow> (case GetUpstream (after_stmts 1 io) (sk_ID skill) k' of Inr u \<Rightarrow> u | Inl _ \<Rightarrow> None)
              | _ \<Rightarrow> None) in
          (k', (200, SkDrift (driftBlockFromUpstream upstream))))))"

definition upsertUpstream_api :: "faults \<Rightarrow> time \<Rightarrow> http_request \<Rightarrow> Skill \<Rightarrow> skill_db \<Rightarrow> skill_db \<times> skill_reply" where
  "upsertUpstream_api io now r skill k =
     (if \<not> is_json r then (k, writeJSONError 415 ''expected application/json'')
      else (case read_body 4096 r of
        BodyRead body \<Rightarrow>
          (case decode_upstream ''type'' ''git_url'' ''git_subpath'' ''git_ref'' body of
             None \<Rightarrow> (k, writeJSONError 400 ''invalid JSON'')
           | Some (typ, url, subpath, ref) \<Rightarrow>
               if typ \<noteq> [] \<and> typ \<noteq> ''git'' then (k, writeJSONError 400 ''unsupported upstream type'')
               else if trim_space url = [] then (k, writeJSONError 400 ''git_url is required'')
               else (case ValidateGitURL url of
                 Inl _ \<Rightarrow> (k, writeJSONError 400 ''unsupported git URL'')
               | Inr _ \<Rightarrow>
                   (case UpsertUpstream io now (upstream_row (sk_ID skill) (typ, url, subpath, ref)) k of
                      (k', Inl _) \<Rightarrow> (k', internal_error)
                    | (k', Inr _) \<Rightarrow> (k', case GetUpstream (after_stmts 1 io) (sk_ID skill) k' of Inr (Some u) \<Rightarrow> (200, SkUpstream u) | _ \<Rightarrow> internal_error))))
      | _ \<Rightarrow> (k, writeJSONError 400 ''body unreadable'')))"

definition handleUpstream :: "faults \<Rightarrow> time \<Rightarrow> http_request \<Rightarrow> Skill \<Rightarrow> skill_db \<Rightarrow> skill_db \<times> skill_reply" where
  "handleUpstream io now r skill k =
     (if hr_Method r = ''PUT'' then upsertUpstream_api io now r skill k
      else if hr_Method r = ''DELETE'' then
        (case ClearUpstream io (sk_ID skill) k of (k', Inl _) \<Rightarrow> (k', internal_error) | (k', Inr _) \<Rightarrow> (k', (200, SkCleared)))
      else (k, bad_method))"

section \<open>Routes\<close>

definition with_cap :: "auth_ctx \<Rightarrow> User \<Rightarrow> string \<Rightarrow> 'a \<Rightarrow> 'a \<times> skill_reply \<Rightarrow> 'a \<times> skill_reply" where
  "with_cap ctx user cap s res = (case requireCapability (Some user) (cx_APIKey ctx) cap of Some (code, msg) \<Rightarrow> (s, writeJSONError code msg) | None \<Rightarrow> res)"

definition admin_only :: "User \<Rightarrow> 'a \<Rightarrow> 'a \<times> skill_reply \<Rightarrow> 'a \<times> skill_reply" where
  "admin_only user s res = (if u_Role user \<noteq> ''admin'' then (s, writeJSONError 403 ''admin access required'') else res)"

definition unknown_sub :: skill_reply where
  "unknown_sub = writeJSONError 404 ''unknown subresource''"

text \<open>The routes below an existing skill; statements 2 and on of the request.\<close>

definition skill_root :: "skill_env \<Rightarrow> auth_ctx \<Rightarrow> User \<Rightarrow> http_request \<Rightarrow> Skill \<Rightarrow> skill_db \<Rightarrow> skill_db \<times> skill_reply" where
  "skill_root env ctx user r skill k =
     (if hr_Method r = ''GET'' then (k, getSkill_api (ke_io env) skill k)
      else if hr_Method r = ''PATCH'' then with_cap ctx user ''skills:publish'' k (patchSkill (ke_io env) (ke_now env) ctx user r skill k)
      else if hr_Method r = ''DELETE'' then with_cap ctx user ''skills:yank'' k (deleteSkill (ke_io env) (ke_now env) user r skill k)
      else (k, bad_method))"

definition skill_sub :: "skill_api_env \<Rightarrow> skill_env \<Rightarrow> auth_ctx \<Rightarrow> User \<Rightarrow> http_request \<Rightarrow> string \<Rightarrow> string \<Rightarrow> Skill \<Rightarrow> skill_state \<Rightarrow> skill_db \<times> skill_reply" where
  "skill_sub full env ctx user r slug sub skill = (\<lambda>(k, files).
     if sub = ''versions'' then (k, if hr_Method r \<noteq> ''GET'' then bad_method else listVersions_api (ke_io env) skill k)
     else if sub = ''assignments'' then
       admin_only user k
         (if hr_Method r = ''GET'' then (k, listAssignments (ke_io env) skill k)
          else if hr_Method r = ''POST'' then assignSkill_api env r skill (u_ID user) k
          else (k, bad_method))
     else if sub = ''check-drift'' then admin_only user k (handleCheckDrift full r slug (k, files))
     else if sub = ''upstream'' then with_cap ctx user ''skills:admin'' k (handleUpstream (ke_io env) (ke_now env) r skill k)
     else (k, unknown_sub))"

definition skill_item :: "skill_env \<Rightarrow> auth_ctx \<Rightarrow> User \<Rightarrow> http_request \<Rightarrow> string \<Rightarrow> string \<Rightarrow> Skill \<Rightarrow> skill_db \<Rightarrow> skill_db \<times> skill_reply" where
  "skill_item env ctx user r sub arg skill k =
     (if sub = ''versions'' then
        if arg = [] then (k, writeJSONError 400 ''missing version'')
        else if hr_Method r = ''GET'' then (k, getVersion_api (ke_io env) skill arg k)
        else if hr_Method r = ''DELETE'' then admin_only user k (yankVersion_api (ke_io env) (ke_now env) skill arg k)
        else (k, bad_method)
      else if sub = ''assignments'' then
        if arg = [] then (k, writeJSONError 400 ''missing username'')
        else admin_only user k (if hr_Method r \<noteq> ''DELETE'' then (k, bad_method) else unassignSkill_api env skill arg k)
      else (k, unknown_sub))"

text \<open>Uploads, the one route that needs no skill.\<close>

definition is_upload :: "http_request \<Rightarrow> string list \<Rightarrow> bool" where
  "is_upload r parts \<longleftrightarrow> hr_Method r = ''POST'' \<and> length parts = 3 \<and> parts ! 1 = ''versions'' \<and> parts ! 2 \<noteq> []"

definition in_files :: "bundles \<Rightarrow> skill_db \<times> skill_reply \<Rightarrow> skill_state \<times> skill_reply" where
  "in_files files = (\<lambda>(k, rep). ((k, files), rep))"

definition skill_routes :: "skill_api_env \<Rightarrow> skill_env \<Rightarrow> auth_ctx \<Rightarrow> User \<Rightarrow> http_request \<Rightarrow> string \<Rightarrow> string list \<Rightarrow> Skill \<Rightarrow> skill_state \<Rightarrow> skill_state \<times> skill_reply" where
  "skill_routes full env ctx user r slug parts skill = (\<lambda>(k, files).
     in_files files
       (case parts of
          [_] \<Rightarrow> skill_root env ctx user r skill k
        | [_, sub] \<Rightarrow> skill_sub full env ctx user r slug sub skill (k, files)
        | [_, sub, arg] \<Rightarrow> skill_item env ctx user r sub arg skill k
        | [_, sub, arg, leaf] \<Rightarrow>
            if sub \<noteq> ''versions'' \<or> leaf \<noteq> ''archive'' then (k, unknown_sub)
            else if hr_Method r \<noteq> ''GET'' then (k, bad_method)
            else (k, downloadArchive (ke_io env) skill arg (k, files))
        | _ \<Rightarrow> (k, unknown_sub)))"

text \<open>
  Without a skill, a \<open>POST\<close> of three or more parts below \<open>versions\<close> goes on: to the upload, to the missing version, to a
  refused method on an archive, or to an unknown subresource.
\<close>

definition no_skill_routes :: "http_request \<Rightarrow> string list \<Rightarrow> skill_reply" where
  "no_skill_routes r parts =
     (if \<not> (hr_Method r = ''POST'' \<and> 3 \<le> length parts \<and> parts ! 1 = ''versions'') then writeJSONError 404 ''skill not found''
      else if length parts = 3 then writeJSONError 400 ''missing version''
      else if length parts = 4 \<and> parts ! 3 = ''archive'' then bad_method
      else unknown_sub)"

definition HandleSkillByPath :: "skill_api_env \<Rightarrow> auth_ctx \<Rightarrow> http_request \<Rightarrow> skill_state \<Rightarrow> skill_state \<times> skill_reply" where
  "HandleSkillByPath full ctx r = (\<lambda>(k, files).
     case cx_User ctx of
       None \<Rightarrow> ((k, files), writeJSONError 401 ''unauthenticated'')
     | Some user \<Rightarrow>
         let parts = str_split (CHR ''/'') (trim_prefix (hr_Path r) ''/api/skills/''); slug = hd parts; io = ke_io (ka_skill full);
             env = shift_skill 2 (ka_skill full) in
         if slug = [] then ((k, files), writeJSONError 400 ''missing skill slug'')
         else (case GetSkillBySlug io slug k of
           Inl _ \<Rightarrow> ((k, files), internal_error)
         | Inr found \<Rightarrow>
             if is_upload r parts then
               with_cap ctx user ''skills:publish'' (k, files) (uploadVersion env ctx user r slug (parts ! 2) (k, files))
             else (case found of
               None \<Rightarrow> ((k, files), no_skill_routes r parts)
             | Some skill \<Rightarrow>
                 if hr_Method r = ''GET'' \<and> u_Role user \<noteq> ''admin'' \<and> \<not> userCanRead (after_stmts 1 io) user skill k then
                   ((k, files), writeJSONError 404 ''skill not found'')
                 else skill_routes full env ctx user r slug parts skill (k, files))))"

definition skill_request :: "skill_api_env \<Rightarrow> auth_ctx \<Rightarrow> http_request \<Rightarrow> skill_state \<Rightarrow> skill_state \<times> skill_reply" where
  "skill_request env ctx r s =
     (if hr_Path r = ''/api/skills/assigned'' then HandleAssigned env ctx r s
      else if hr_Path r = ''/api/skills'' then HandleSkills env ctx r s
      else HandleSkillByPath env ctx r s)"

text \<open>The accounts an authenticated request reads are those of the database after its key was looked up.\<close>

definition serve_skills :: "skill_api_env \<Rightarrow> http_request \<Rightarrow> relay_db \<times> skill_state \<Rightarrow> (relay_db \<times> skill_state) \<times> skill_reply" where
  "serve_skills env r = (\<lambda>(db, s).
     let sk = ka_skill env in
     case APIKeyAuth (ke_crypto sk) (ke_io sk) (ke_now sk) r db of
       (db', Rejected (code, msg)) \<Rightarrow> ((db', s), writeJSONError code msg)
     | (db', RejectedWithChallenge (code, msg)) \<Rightarrow> ((db', s), writeJSONError code msg)
     | (db', Authenticated ctx) \<Rightarrow>
         (case skill_request (env\<lparr>ka_check := (ka_check env)\<lparr>ck_skill := (shift_skill 3 sk)\<lparr>ke_users := db'\<rparr>\<rparr>\<rparr>) ctx r s of (s', rep) \<Rightarrow> ((db', s'), rep)))"

section \<open>Requests keep the tables consistent\<close>

lemma fst_case_reply: "fst (case p of (k, Inl e) \<Rightarrow> (k, f e) | (k, Inr x) \<Rightarrow> (k, g x k)) = fst p"
  by (simp split: prod.split sum.split)

lemma upload_skill_wf: "skill_wf (ke_users env) k \<Longrightarrow> skill_wf (ke_users env) (fst (upload_skill env inp slug m found k))"
  by (simp add: upload_skill_def Let_def fst_case_reply skill_ops_wf split: option.split)

lemma Upload_wf: "skill_wf (ke_users env) k \<Longrightarrow> skill_wf (ke_users env) (fst (fst (Upload env inp (k, files))))"
proof -
  assume wf: "skill_wf (ke_users env) k"
  have a: "skill_wf (ke_users env) k1" if "upload_skill env inp slug m found k = (k1, r)" for slug m found k1 r
    using upload_skill_wf [OF wf, of inp slug m found] that by simp
  have b: "skill_wf (ke_users env) k2" if "upload_skill env inp slug m found k = (k1, r)" "CreateVersion io now (ke_users env) v k1 = (k2, r2)"
    for slug m found k1 r io now v k2 r2
    using CreateVersion_wf [OF a [OF that(1)], of io now v] that by simp
  show ?thesis using wf a b by (auto simp: Upload_def Let_def writeArchive_def split: sum.split prod.split option.split)
qed

lemma upload_headers_wf: "skill_wf db k \<Longrightarrow> skill_wf db (fst (upload_headers io now r i k))"
  by (auto simp: upload_headers_def fst_case_reply skill_ops_wf split: option.split)

lemma rebaseline_wf: "skill_wf db k \<Longrightarrow> skill_wf db (rebaseline io now i h k)"
  by (simp add: rebaseline_def drift_wf(4) split: sum.split option.split)

lemma uploadVersion_wf: "skill_wf (ke_users env) k \<Longrightarrow> skill_wf (ke_users env) (fst (fst (uploadVersion env ctx user r slug version (k, files))))"
proof -
  assume wf: "skill_wf (ke_users env) k"
  have up: "skill_wf (ke_users env) k1" if "Upload env inp (k, files) = ((k1, f1), res)" for inp k1 f1 res
    using Upload_wf [OF wf, of inp files] that by simp
  have "skill_wf (ke_users env) (rebaseline io now j h k2)" if "Upload env inp (k, files) = ((k1, f1), res)" "upload_headers io' now' r i k1 = (k2, b)"
    for inp k1 f1 res io' now' i k2 b io now j h
    using upload_headers_wf [OF up [OF that(1)], of io' now' r i] that by (simp add: rebaseline_wf)
  with wf up show ?thesis by (auto simp: uploadVersion_def Let_def split: read_result.split prod.split sum.split)
qed

lemma with_cap_fst: "fst (with_cap ctx user cap s res) = (if hasCapability (Some user) (cx_APIKey ctx) cap then fst res else s)"
  by (simp add: with_cap_def requireCapability_def)

lemma admin_only_fst: "fst (admin_only user s res) = (if u_Role user = ''admin'' then fst res else s)"
  by (simp add: admin_only_def)

lemma in_files_fst: "fst (in_files files res) = (fst res, files)"
  by (simp add: in_files_def split: prod.split)

lemmas gate_fst = with_cap_fst admin_only_fst in_files_fst

text \<open>The state after each handler is that after the store operation it calls, if it calls one.\<close>

lemma apply_patch_fst: "fst (apply_patch io now inp skill k) = k \<or>
    (\<exists>dn desc vis. fst (apply_patch io now inp skill k) = fst (UpdateSkillMeta io now (sk_ID skill) dn desc vis k) \<and> (pb_Visibility inp = None \<longrightarrow> vis = []))"
proof -
  have "fst (apply_patch io now inp skill k) = k \<or> fst (apply_patch io now inp skill k) = fst (UpdateSkillMeta io now (sk_ID skill)
      (case pb_DisplayName inp of None \<Rightarrow> sk_DisplayName skill | Some d \<Rightarrow> trim_space d) (case pb_Description inp of None \<Rightarrow> sk_Description skill | Some d \<Rightarrow> d)
      (case pb_Visibility inp of None \<Rightarrow> [] | Some v \<Rightarrow> trim_space v) k)"
    by (simp add: apply_patch_def Let_def fst_case_reply)
  then show ?thesis by (metis option.simps(4))
qed

lemma apply_patch_wf: "skill_wf db k \<Longrightarrow> skill_wf db (fst (apply_patch io now inp skill k))"
  using apply_patch_fst [of io now inp skill k] meta_wf(1) [of db k] by metis

lemma handlers_wf:
  assumes wf: "skill_wf db k"
  shows "skill_wf db (fst (patchSkill io now ctx user r skill k))" "skill_wf db (fst (deleteSkill io now user r skill k))"
    "skill_wf db (fst (yankVersion_api io now skill version k))" "skill_wf db (fst (unassignSkill_api env skill username k))"
    "skill_wf db (fst (handleUpstream io now r skill k))"
  using wf
  by (simp_all add: patchSkill_def deleteSkill_def yankVersion_api_def YankVersion_def unassignSkill_api_def handleUpstream_def upsertUpstream_api_def
      skill_ops_wf fst_case_reply apply_patch_wf split: read_result.split option.split sum.split)

lemma assignSkill_api_wf: "skill_wf (ke_users env) k \<Longrightarrow> skill_wf (ke_users env) (fst (assignSkill_api env r skill adminID k))"
  by (simp add: assignSkill_api_def fst_case_reply assign_wf split: read_result.split option.split sum.split)

lemma handleCheckDrift_fst:
  "fst (handleCheckDrift full r slug (k, files)) = k \<or> fst (handleCheckDrift full r slug (k, files)) = fst (RunOneSlug (ka_check full) slug (k, files))"
  by (simp add: handleCheckDrift_def Let_def split: prod.split sum.split CheckOutcome.split)

lemma handleCheckDrift_wf: "skill_wf db k \<Longrightarrow> skill_wf db (fst (handleCheckDrift full r slug (k, files)))"
  using handleCheckDrift_fst [of full r slug k files] RunOneSlug_wf [of db k] by metis

lemma skill_routes_fst: "fst (skill_routes full env ctx user r slug parts skill (k, files)) =
    (case parts of
       [_] \<Rightarrow> fst (skill_root env ctx user r skill k)
     | [_, sub] \<Rightarrow> fst (skill_sub full env ctx user r slug sub skill (k, files))
     | [_, sub, arg] \<Rightarrow> fst (skill_item env ctx user r sub arg skill k)
     | _ \<Rightarrow> k, files)"
  by (simp add: skill_routes_def in_files_fst split: list.split)

text \<open>
  C22. No request of the skill repository leaves its tables inconsistent: keys stay unique, versions, grants and upstreams belong to
  existing skills and users, the latest version of a skill is one of its versions, visibilities and severities are among the
  known ones, and every stored git address passed validation. This holds whoever calls and whichever statements fail.
\<close>

theorem skill_requests_keep_tables:
  assumes wf: "skill_wf (ke_users (ka_skill env)) k"
  shows "skill_wf (ke_users (ka_skill env)) (fst (fst (skill_request env ctx r (k, files))))"
proof -
  let ?e = "shift_skill 2 (ka_skill env)"
  have users: "ke_users ?e = ke_users (ka_skill env)" by (simp add: shift_skill_def)
  have routes: "skill_wf (ke_users (ka_skill env)) (fst (fst (skill_routes env ?e ctx user r slug parts skill (k, files))))" for user slug parts skill
  proof -
    have "skill_wf (ke_users (ka_skill env)) (fst (skill_root ?e ctx user r skill k))"
      using wf by (simp add: skill_root_def gate_fst handlers_wf)
    moreover have "skill_wf (ke_users (ka_skill env)) (fst (skill_sub env ?e ctx user r slug sub skill (k, files)))" for sub
      using wf assignSkill_api_wf [of ?e k] handleCheckDrift_wf [OF wf] by (simp add: skill_sub_def gate_fst handlers_wf users)
    moreover have "skill_wf (ke_users (ka_skill env)) (fst (skill_item ?e ctx user r sub arg skill k))" for sub arg
      using wf by (simp add: skill_item_def gate_fst handlers_wf)
    ultimately show ?thesis using wf by (simp add: skill_routes_fst split: list.split)
  qed
  have upload: "skill_wf (ke_users (ka_skill env)) (fst (fst (uploadVersion ?e ctx user r slug version (k, files))))" for user slug version
    using uploadVersion_wf [of ?e k] wf users by simp
  have "skill_wf (ke_users (ka_skill env)) (fst (fst (HandleSkillByPath env ctx r (k, files))))"
    using wf routes upload by (simp add: HandleSkillByPath_def Let_def with_cap_fst split: option.split sum.split)
  with wf show ?thesis by (simp add: skill_request_def HandleAssigned_def HandleSkills_def)
qed

section \<open>Who gets a skill\<close>

text \<open>The skills a user who is no administrator is given: neither withdrawn nor restricted to others.\<close>

definition can_get :: "skill_db \<Rightarrow> string \<Rightarrow> string \<Rightarrow> bool" where
  "can_get k uid i \<longleftrightarrow> (\<exists>s \<in> set (kd_skills k). sk_ID s = i \<and> sk_YankedAt s = None \<and>
     (sk_Visibility s = ''public'' \<or> (\<exists>a \<in> set (kd_assignments k). ag_SkillID a = i \<and> ag_UserID a = uid)))"

definition narrows :: "skill_db \<Rightarrow> skill_db \<Rightarrow> bool" where
  "narrows k k' \<longleftrightarrow> (\<forall>uid i. can_get k' uid i \<longrightarrow> can_get k uid i)"

lemma narrows_refl [simp]: "narrows k k"
  by (simp add: narrows_def)

lemma narrows_trans: "narrows k k1 \<Longrightarrow> narrows k1 k2 \<Longrightarrow> narrows k k2"
  by (simp add: narrows_def)

lemma narrowsI:
  assumes "\<And>s'. s' \<in> set (kd_skills k') \<Longrightarrow> \<exists>s \<in> set (kd_skills k). sk_ID s = sk_ID s' \<and> sk_Visibility s = sk_Visibility s' \<and> (sk_YankedAt s' = None \<longrightarrow> sk_YankedAt s = None)"
    and "set (kd_assignments k') \<subseteq> set (kd_assignments k)"
  shows "narrows k k'"
  unfolding narrows_def
proof (intro allI impI)
  fix uid i assume "can_get k' uid i"
  then obtain s' where s': "s' \<in> set (kd_skills k')" "sk_ID s' = i" "sk_YankedAt s' = None"
    and open': "sk_Visibility s' = ''public'' \<or> (\<exists>a \<in> set (kd_assignments k'). ag_SkillID a = i \<and> ag_UserID a = uid)" by (auto simp: can_get_def)
  from assms(1) [OF s'(1)] s' obtain s where "s \<in> set (kd_skills k)" "sk_ID s = i" "sk_Visibility s = sk_Visibility s'" "sk_YankedAt s = None" by auto
  with open' assms(2) show "can_get k uid i" by (auto simp: can_get_def)
qed

lemma narrows_update:
  assumes "\<And>s. sk_ID (f s) = sk_ID s" "\<And>s. sk_Visibility (f s) = sk_Visibility s" "\<And>s. sk_YankedAt (f s) = None \<Longrightarrow> sk_YankedAt s = None"
  shows "narrows k (k\<lparr>kd_skills := sql_update p f (kd_skills k)\<rparr>)" "narrows k (k\<lparr>kd_upstreams := us, kd_skills := sql_update p f (kd_skills k)\<rparr>)"
    "narrows k (k\<lparr>kd_versions := vs, kd_skills := sql_update p f (kd_skills k)\<rparr>)"
  by (rule narrowsI; use assms in \<open>force simp: sql_update_def\<close>)+

lemma narrows_kexec: "(\<And>k'. f k = Inr k' \<Longrightarrow> narrows k k') \<Longrightarrow> narrows k (fst (kexec ok f k))"
  by (auto simp: kexec_def stmt_def split: sum.splits)

lemma narrows_ktx2: "(\<And>k1 k2. f k = Inr k1 \<Longrightarrow> g k1 = Inr k2 \<Longrightarrow> narrows k k2) \<Longrightarrow> narrows k (fst (ktx2 io f g k))"
  by (auto simp: ktx2_def stmt_def res_bind_def split: sum.splits)

lemma store_narrows:
  "narrows k (fst (UpdateSkillMeta io now i dn desc [] k))" "narrows k (fst (YankSkill io now i k))"
  "narrows k (fst (ClearUpstream io i k))" "narrows k (fst (ClearDriftReport io now i h k))"
proof -
  show "narrows k (fst (UpdateSkillMeta io now i dn desc [] k))" "narrows k (fst (YankSkill io now i k))"
    by (auto simp: UpdateSkillMeta_def YankSkill_def update_skill_def intro!: narrows_kexec narrows_update)
  show "narrows k (fst (ClearUpstream io i k))" "narrows k (fst (ClearDriftReport io now i h k))"
    by (auto simp: ClearUpstream_def ClearDriftReport_def update_skill_def update_upstream_def intro!: narrows_ktx2 narrows_update)
qed

lemma CreateVersion_narrows: "narrows k (fst (CreateVersion io now db v k))"
proof -
  let ?v = "v\<lparr>vn_Manifest := (if vn_Manifest v = [] then ''{}'' else vn_Manifest v), vn_UploadedAt := now\<rparr>"
  have "narrows k (fst (ktx2 io (insert_version db ?v) (update_skill i (\<lambda>s. s\<lparr>sk_LatestVersion := n, sk_UpdatedAt := now\<rparr>)) k))" for i n
    by (auto simp: insert_version_def update_skill_def split: if_splits intro!: narrows_ktx2 narrows_update)
  then show ?thesis by (simp add: CreateVersion_def Let_def fst_case_reply)
qed

lemma UpsertUpstream_narrows: "narrows k (fst (UpsertUpstream io now u k))"
proof -
  have "narrows k k'" if "upsert_upstream x k = Inr k'" for x k'
    by (rule narrowsI) (use that in \<open>auto simp: upsert_upstream_def Let_def split: if_splits\<close>)
  then show ?thesis by (simp add: UpsertUpstream_def Let_def narrows_kexec split: sum.split)
qed

text \<open>A skill that is created restricted has no readers, for no grant has its identifier yet.\<close>

lemma CreateSkill_narrows:
  assumes wf: "skill_wf db k" and restricted: "sk_Visibility sk = ''restricted''"
  shows "narrows k (fst (CreateSkill io now uuid db sk k))"
proof -
  have "narrows k k'" if ins: "insert_skill db x k = Inr k'" and vis: "sk_Visibility x = ''restricted''" for x k'
  proof -
    from ins have k': "k' = k\<lparr>kd_skills := kd_skills k @ [x\<lparr>sk_LatestVersion := [], sk_YankedAt := None, sk_Outdated := 0\<rparr>]\<rparr>"
      and new: "\<not> skill_exists k (sk_ID x)" by (auto simp: insert_skill_def skill_exists_def sql_has_iff split: if_splits)
    have "ag_SkillID a \<noteq> sk_ID x" if "a \<in> set (kd_assignments k)" for a
      using wf new that by (auto simp: skill_wf_def tbl_ok_def assignment_row_ok_def)
    then show ?thesis by (auto simp: narrows_def can_get_def k' vis)
  qed
  then show ?thesis using restricted by (simp add: CreateSkill_def Let_def fst_case_reply narrows_kexec split: sum.split)
qed

lemma upload_skill_narrows:
  "skill_wf (ke_users env) k \<Longrightarrow> ui_Visibility inp = [] \<Longrightarrow> narrows k (fst (upload_skill env inp slug m found k))"
  by (simp add: upload_skill_def Let_def fst_case_reply CreateSkill_narrows store_narrows split: option.split)

lemma Upload_narrows:
  assumes wf: "skill_wf (ke_users env) k" and vis: "ui_Visibility inp = []"
  shows "narrows k (fst (fst (Upload env inp (k, files))))"
proof -
  have a: "narrows k k1" if "upload_skill env inp slug m found k = (k1, r)" for slug m found k1 r
    using upload_skill_narrows [OF assms, of slug m found] that by simp
  have b: "narrows k k2" if "upload_skill env inp slug m found k = (k1, r)" "CreateVersion io now db v k1 = (k2, r2)" for slug m found k1 r io now db v k2 r2
    using narrows_trans [OF a [OF that(1)]] CreateVersion_narrows [of k1 io now db v] that by simp
  show ?thesis using a b by (auto simp: Upload_def Let_def writeArchive_def split: sum.split prod.split option.split)
qed

lemma upload_headers_narrows: "narrows k (fst (upload_headers io now r i k))"
  by (auto simp: upload_headers_def fst_case_reply store_narrows UpsertUpstream_narrows split: option.split)

lemma rebaseline_narrows: "narrows k (rebaseline io now i h k)"
  by (simp add: rebaseline_def store_narrows split: sum.split option.split)

lemma uploadVersion_narrows:
  assumes wf: "skill_wf (ke_users env) k" and cap: "\<not> hasCapability (Some user) (cx_APIKey ctx) ''skills:admin''"
  shows "narrows k (fst (fst (uploadVersion env ctx user r slug version (k, files))))"
proof -
  have up: "narrows k k1" if "Upload env inp (k, files) = ((k1, f1), res)" "ui_Visibility inp = []" for inp k1 f1 res
    using Upload_narrows [OF wf that(2), of files] that by simp
  have "narrows k (rebaseline io now j h k2)" if "Upload env inp (k, files) = ((k1, f1), res)" "ui_Visibility inp = []" "upload_headers io' now' r i k1 = (k2, b)"
    for inp k1 f1 res io' now' i k2 b io now j h
    using narrows_trans [OF up [OF that(1,2)]] narrows_trans [OF _ rebaseline_narrows] upload_headers_narrows [of k1 io' now' r i] that(3) by (metis fst_conv)
  with up cap show ?thesis by (auto simp: uploadVersion_def Let_def split: read_result.split prod.split sum.split)
qed

lemma patchSkill_narrows:
  assumes cap: "\<not> hasCapability (Some user) (cx_APIKey ctx) ''skills:admin''"
  shows "narrows k (fst (patchSkill io now ctx user r skill k))"
proof -
  have "narrows k (fst (apply_patch io now inp skill k))" if "pb_Visibility inp = None" for inp
    using apply_patch_fst [of io now inp skill k] store_narrows(1) [of k] that by (metis narrows_refl)
  with cap show ?thesis by (auto simp: patchSkill_def split: read_result.split option.split)
qed

text \<open>
  C20. Only an administrator, or a key with \<open>skills:admin\<close>, can extend the circle of those who receive a skill. After any other
  request - publishing a version of a new or of an existing skill, editing it, withdrawing it - every user gets at most the
  skills that user got before; a skill published by such a request for the first time reaches nobody.
\<close>

theorem publishing_never_widens_audience:
  assumes wf: "skill_wf (ke_users (ka_skill env)) k" and caller: "cx_User ctx = Some user"
    and cap: "\<not> hasCapability (Some user) (cx_APIKey ctx) ''skills:admin''"
    and after: "skill_request env ctx r (k, files) = ((k', files'), rep)" and gets: "can_get k' uid i"
  shows "can_get k uid i"
proof -
  let ?e = "shift_skill 2 (ka_skill env)"
  have role: "u_Role user \<noteq> ''admin''" using cap by (auto simp: hasCapability_def)
  have "narrows k (fst (fst (skill_routes env ?e ctx user r slug parts skill (k, files))))" for slug parts skill
    using role cap
    by (simp add: skill_routes_fst skill_root_def skill_sub_def skill_item_def gate_fst patchSkill_narrows deleteSkill_def fst_case_reply store_narrows split: list.split)
  moreover have "skill_wf (ke_users ?e) k" using wf by (simp add: shift_skill_def)
  then have "narrows k (fst (fst (uploadVersion ?e ctx user r slug version (k, files))))" for slug version using cap by (rule uploadVersion_narrows)
  ultimately have "narrows k (fst (fst (skill_request env ctx r (k, files))))"
    by (simp add: skill_request_def HandleAssigned_def HandleSkills_def HandleSkillByPath_def Let_def with_cap_fst caller split: option.split sum.split)
  with after gets show ?thesis by (simp add: narrows_def)
qed

lemma AssignedForUser_iff:
  assumes "AssignedForUser io uid k = Inr rows"
  shows "(\<exists>row \<in> set rows. sk_ID (as_Skill row) = i) \<longleftrightarrow> can_get k uid i"
proof -
  have rows: "rows = concat (map (\<lambda>s. let grant = sql_row (\<lambda>a. ag_SkillID a = sk_ID s \<and> ag_UserID a = uid) (kd_assignments k) in
       if sk_YankedAt s = None \<and> (sk_Visibility s = ''public'' \<or> grant \<noteq> None)
       then [\<lparr>as_Skill = s\<lparr>sk_Outdated := 0\<rparr>, as_PinnedVersion = (case grant of None \<Rightarrow> None | Some a \<Rightarrow> ag_Version a)\<rparr>] else []) (sql_order sk_Slug (kd_skills k)))"
    using assms by (auto simp: AssignedForUser_def kquery_def split: if_splits)
  have grant: "sql_row (\<lambda>a. ag_SkillID a = j \<and> ag_UserID a = uid) (kd_assignments k) \<noteq> None \<longleftrightarrow> (\<exists>a \<in> set (kd_assignments k). ag_SkillID a = j \<and> ag_UserID a = uid)" for j
    by (auto simp: sql_row_None_iff)
  have "(\<exists>row \<in> set rows. sk_ID (as_Skill row) = i) \<longleftrightarrow> (\<exists>s \<in> set (sql_order sk_Slug (kd_skills k)). sk_ID s = i \<and> sk_YankedAt s = None \<and>
      (sk_Visibility s = ''public'' \<or> sql_row (\<lambda>a. ag_SkillID a = sk_ID s \<and> ag_UserID a = uid) (kd_assignments k) \<noteq> None))"
    unfolding rows Let_def set_concat set_map UN_iff by (auto split: if_splits)
  then show ?thesis unfolding can_get_def grant by (auto simp: sql_order_def)
qed

lemma userCanRead_iff:
  assumes ids: "distinct (map sk_ID (kd_skills k))" and skill: "skill \<in> set (kd_skills k)" and role: "u_Role user \<noteq> ''admin''" and io: "io 0"
  shows "userCanRead io user skill k \<longleftrightarrow> can_get k (u_ID user) (sk_ID skill)"
proof -
  have same: "s = skill" if "s \<in> set (kd_skills k)" "sk_ID s = sk_ID skill" for s
    using ids skill that by (auto simp: distinct_map inj_on_def)
  have "userCanRead io user skill k \<longleftrightarrow> sk_YankedAt skill = None \<and>
      (sk_Visibility skill = ''public'' \<or> (\<exists>a \<in> set (kd_assignments k). ag_SkillID a = sk_ID skill \<and> ag_UserID a = u_ID user))"
    using role io by (auto simp: userCanRead_def ListAssignmentsForSkill_def kquery_def list_ex_iff sql_order_def sql_select_def)
  also have "\<dots> \<longleftrightarrow> can_get k (u_ID user) (sk_ID skill)" unfolding can_get_def using same skill by blast
  finally show ?thesis .
qed

text \<open>
  The check on a single skill agrees with the list: a user who is no administrator may read a skill by its address exactly if
  the skill is among those assigned to that user.
\<close>

theorem reading_agrees_with_listing:
  assumes "skill_wf db k" "skill \<in> set (kd_skills k)" "u_Role user \<noteq> ''admin''"
  shows "userCanRead no_faults user skill k \<longleftrightarrow>
    (\<exists>rows. AssignedForUser no_faults (u_ID user) k = Inr rows \<and> (\<exists>row \<in> set rows. sk_ID (as_Skill row) = sk_ID skill))"
proof -
  have "distinct (map sk_ID (kd_skills k))" using assms(1) by (simp add: skill_wf_def tbl_ok_def)
  then have "userCanRead no_faults user skill k \<longleftrightarrow> can_get k (u_ID user) (sk_ID skill)" using assms(2,3) by (simp add: userCanRead_iff)
  moreover obtain rows where "AssignedForUser no_faults (u_ID user) k = Inr rows" by (simp add: AssignedForUser_def kquery_def)
  ultimately show ?thesis using AssignedForUser_iff by (metis sum.inject(2))
qed

text \<open>The skills a reply shows something of.\<close>

fun skills_shown :: "skill_body \<Rightarrow> string set" where
  "skills_shown (SkList xs) = (sk_ID \<circ> fst) ` set xs"
| "skills_shown (SkAssigned rows) = (sk_ID \<circ> as_Skill) ` set rows"
| "skills_shown (SkDetail s vs d) = insert (sk_ID s) (vn_SkillID ` set vs)"
| "skills_shown (SkVersions vs) = vn_SkillID ` set vs"
| "skills_shown (SkVersion v) = {vn_SkillID v}"
| "skills_shown (SkUploaded res b) = {sk_ID (up_Skill res)}"
| "skills_shown (SkSkill s) = {sk_ID s}"
| "skills_shown (SkArchive b v) = {vn_SkillID v}"
| "skills_shown (SkAssignments rows) = ag_SkillID ` set rows"
| "skills_shown (SkAssignment a) = {ag_SkillID a}"
| "skills_shown (SkUpstream u) = {su_SkillID u}"
| "skills_shown _ = {}"

lemma shown_error [simp]: "skills_shown (snd (writeJSONError c m)) = {}" "skills_shown (snd internal_error) = {}" "skills_shown (snd bad_method) = {}" "skills_shown (snd unknown_sub) = {}"
  by (simp_all add: writeJSONError_def internal_error_def bad_method_def unknown_sub_def)

lemma reads_shown:
  "skills_shown (snd (getSkill_api io skill k)) \<subseteq> {sk_ID skill}" "skills_shown (snd (listVersions_api io skill k)) \<subseteq> {sk_ID skill}"
  "skills_shown (snd (getVersion_api io skill version k)) \<subseteq> {sk_ID skill}" "skills_shown (snd (downloadArchive io skill version (k, files))) \<subseteq> {sk_ID skill}"
proof -
  have vs: "ListVersions io i k = Inr vs \<Longrightarrow> vn_SkillID ` set vs \<subseteq> {i}" for i vs
    by (auto simp: ListVersions_def kquery_def sql_order_desc_def sql_order_def sql_select_def split: if_splits)
  have v: "GetVersion io i n k = Inr (Some v) \<Longrightarrow> vn_SkillID v = i" for i n v
    using sql_row_SomeD [of "\<lambda>v. vn_SkillID v = i \<and> vn_Version v = n" "kd_versions k" v] by (auto simp: GetVersion_def kquery_def split: if_splits)
  show "skills_shown (snd (getSkill_api io skill k)) \<subseteq> {sk_ID skill}" "skills_shown (snd (listVersions_api io skill k)) \<subseteq> {sk_ID skill}"
    using vs by (auto simp: getSkill_api_def listVersions_api_def split: sum.split)
  show "skills_shown (snd (getVersion_api io skill version k)) \<subseteq> {sk_ID skill}" "skills_shown (snd (downloadArchive io skill version (k, files))) \<subseteq> {sk_ID skill}"
    using v by (auto simp: getVersion_api_def downloadArchive_def OpenArchive_def split: sum.splits option.splits)
qed

text \<open>
  C21. Reading is confined to what a user gets: whatever a user who is no administrator asks for with \<open>GET\<close>, the reply
  shows only skills that are public or granted to that user, and none that is withdrawn - neither their texts nor their versions,
  archives or grants. A capability of the key changes nothing about it, and neither does a failing statement.
\<close>

theorem skill_reads_confined:
  assumes wf: "skill_wf db k" and caller: "cx_User ctx = Some user" "u_Role user \<noteq> ''admin''" and get: "hr_Method r = ''GET''"
    and shown: "i \<in> skills_shown (snd (snd (skill_request env ctx r (k, files))))"
  shows "can_get k (u_ID user) i"
proof -
  have ids: "distinct (map sk_ID (kd_skills k))" using wf by (simp add: skill_wf_def tbl_ok_def)
  let ?io = "ke_io (ka_skill env)"
  have listed: "sk_ID (as_Skill row) = i \<Longrightarrow> AssignedForUser ?io (u_ID user) k = Inr rows \<Longrightarrow> row \<in> set rows \<Longrightarrow> can_get k (u_ID user) i" for row rows
    using AssignedForUser_iff by blast
  have routes: "skills_shown (snd (snd (skill_routes env e ctx user r slug parts skill (k, files)))) \<subseteq> {sk_ID skill}" for e slug parts skill
    using reads_shown caller get
    by (simp add: skill_routes_def in_files_def skill_root_def skill_sub_def skill_item_def admin_only_def with_cap_def handleUpstream_def split: list.split option.split prod.split)
  consider (assigned) "hr_Path r = ''/api/skills/assigned''" | (skills) "hr_Path r = ''/api/skills''"
    | (one) "skill_request env ctx r (k, files) = HandleSkillByPath env ctx r (k, files)" unfolding skill_request_def by metis
  then show ?thesis
  proof cases
    case assigned
    with shown caller get listed show ?thesis by (auto simp: skill_request_def HandleAssigned_def split: sum.splits)
  next
    case skills
    with shown caller get obtain sks sk where l: "listForUser ?io user k = Inr sks" "sk \<in> set sks" "sk_ID sk = i"
      by (auto simp: skill_request_def HandleSkills_def in_set_enumerate_eq split: sum.splits) (metis nth_mem)
    with caller listed show ?thesis by (auto simp: listForUser_def split: sum.splits)
  next
    case one
    let ?slug = "hd (str_split (CHR ''/'') (trim_prefix (hr_Path r) ''/api/skills/''))"
    from shown one caller get obtain skill where skill: "GetSkillBySlug ?io ?slug k = Inr (Some skill)" "userCanRead (after_stmts 1 ?io) user skill k" "i = sk_ID skill"
      using routes by (fastforce simp: HandleSkillByPath_def is_upload_def no_skill_routes_def Let_def split: if_splits sum.splits option.splits)
    then have mem: "skill \<in> set (kd_skills k)" using sql_row_SomeD [of "\<lambda>s. sk_Slug s = ?slug" "kd_skills k" skill]
      by (auto simp: GetSkillBySlug_def kquery_def split: if_splits)
    show ?thesis
    proof (cases "?io 1")
      case True
      with skill userCanRead_iff [OF ids mem caller(2), of "after_stmts 1 ?io"] show ?thesis by simp
    next
      case False
      with skill(2) caller(2) have "sk_YankedAt skill = None" "sk_Visibility skill = ''public''"
        by (auto simp: userCanRead_def ListAssignmentsForSkill_def kquery_def split: if_splits)
      with mem skill(3) show ?thesis by (auto simp: can_get_def)
    qed
  qed
qed

section \<open>The upstream of a published skill\<close>

lemma UpsertUpstream_row:
  assumes "ValidateGitURL (su_GitURL u) = Inr ()" "su_UpstreamType u = [] \<or> su_UpstreamType u = ''git''" "skill_exists k (su_SkillID u)" "io 0"
  shows "\<exists>k' x. UpsertUpstream io now u k = (k', Inr ()) \<and> sql_row (\<lambda>x. su_SkillID x = su_SkillID u) (kd_upstreams k') = Some x \<and> su_GitURL x = su_GitURL u"
proof (cases "sql_row (\<lambda>x. su_SkillID x = su_SkillID u) (kd_upstreams k)")
  case None
  then have "\<not> sql_has (\<lambda>x. su_SkillID x = su_SkillID u) (kd_upstreams k)" by (simp add: sql_row_None_iff sql_has_iff)
  with assms None show ?thesis by (auto simp: UpsertUpstream_def Let_def kexec_def upsert_upstream_def sql_row_append)
next
  case (Some x)
  have "su_SkillID x = su_SkillID u" using sql_row_SomeD [OF Some] by simp
  moreover have "sql_has (\<lambda>x. su_SkillID x = su_SkillID u) (kd_upstreams k)" using sql_row_SomeD [OF Some] by (auto simp: sql_has_iff)
  ultimately show ?thesis using assms Some by (auto simp: UpsertUpstream_def Let_def kexec_def upsert_upstream_def sql_row_update)
qed

lemma rebaseline_row:
  "sql_row (\<lambda>x. su_SkillID x = i) (kd_upstreams k) = Some x \<Longrightarrow> \<exists>y. sql_row (\<lambda>x. su_SkillID x = i) (kd_upstreams (rebaseline io now j h k)) = Some y \<and> su_GitURL y = su_GitURL x"
  by (auto simp: rebaseline_def ClearDriftReport_def ktx2_def stmt_def res_bind_def update_upstream_def update_skill_def sql_row_update split: sum.split option.split)

lemma CreateVersion_exists:
  assumes "CreateVersion io now db v k = (k', Inr v1)"
  shows "skill_exists k' (vn_SkillID v)"
proof -
  from assms have "skill_exists k (vn_SkillID v)"
    by (auto simp: CreateVersion_def Let_def ktx2_def stmt_def res_bind_def insert_version_def skill_exists_def split: if_splits prod.splits sum.splits)
  moreover have "map (\<lambda>s. (sk_ID s, sk_Slug s)) (kd_skills k') = map (\<lambda>s. (sk_ID s, sk_Slug s)) (kd_skills k)"
    using CreateVersion_keys [of io now db v k] assms by simp
  then have "map sk_ID (kd_skills k') = map sk_ID (kd_skills k)" by (metis (no_types, lifting) case_prod_conv comp_apply fst_conv list.map_comp map_eq_conv)
  ultimately show ?thesis by (metis list.set_map skill_exists_iff)
qed

lemma Upload_exists: "Upload env inp (k, files) = ((k', files'), Inr res) \<Longrightarrow> skill_exists k' (sk_ID (up_Skill res))"
  by (erule Upload_Inr) (drule CreateVersion_exists, simp)

text \<open>
  C40. The address a skill is followed at is reserved for \<open>skills:admin\<close> on its own route, since the relay fetches it, but a key that may
  only publish sets it all the same: an upload with an \<open>X-Upstream\<close> header stores the address in the header, for new and
  for existing skills, while the same caller is refused on the route.
\<close>

theorem publish_key_sets_upstream:
  assumes cap: "\<not> hasCapability (Some user) (cx_APIKey ctx) ''skills:admin''"
    and body: "read_body MaxArchiveSize r = BodyRead body" "hr_Query r ''visibility'' = []"
    and uploaded: "Upload env \<lparr>ui_SlugOverride = slug, ui_Version = version, ui_Archive = body, ui_UploadedBy = u_ID user, ui_DisplayName = [], ui_Description = [],
      ui_Visibility = []\<rparr> (k, files) = ((k1, files1), Inr res)"
    and header: "fold_name (hr_Header r ''X-Clear-Upstream'') \<noteq> fold_name ''true''" "hr_Header r ''X-Upstream'' \<noteq> []"
      "decode_upstream ''type'' ''url'' ''subpath'' ''ref'' (hr_Header r ''X-Upstream'') = Some (typ, url, subpath, ref)" "typ = [] \<or> typ = ''git''" "url \<noteq> []"
      "ValidateGitURL url = Inr ()"
    and io: "ke_io env 6"
  shows "\<exists>k' u. uploadVersion env ctx user r slug version (k, files) = ((k', files1), (201, SkUploaded res True)) \<and>
    GetUpstream no_faults (sk_ID (up_Skill res)) k' = Inr (Some u) \<and> su_GitURL u = url \<and>
    skill_sub full env ctx user r' slug ''upstream'' (up_Skill res) (k', files1) = (k', writeJSONError 403 ''missing capability: skills:admin'')"
proof -
  let ?i = "sk_ID (up_Skill res)" and ?u = "upstream_row (sk_ID (up_Skill res)) (typ, url, subpath, ref)"
  have row: "su_SkillID ?u = ?i" "su_GitURL ?u = url" "su_UpstreamType ?u = typ" by (simp_all add: upstream_row_def)
  obtain k2 x where up: "UpsertUpstream (after_stmts 6 (ke_io env)) (ke_now env) ?u k1 = (k2, Inr ())"
    and x: "sql_row (\<lambda>x. su_SkillID x = ?i) (kd_upstreams k2) = Some x" "su_GitURL x = url"
    using UpsertUpstream_row [of ?u k1 "after_stmts 6 (ke_io env)" "ke_now env"] Upload_exists [OF uploaded] header io by (auto simp: row)
  have heads: "upload_headers (after_stmts 6 (ke_io env)) (ke_now env) r ?i k1 = (k2, True)" using header up by (simp add: upload_headers_def)
  define k3 where "k3 = rebaseline (after_stmts 10 (ke_io env)) (ke_now env) ?i (case lb_hash (ke_lib env) body of None \<Rightarrow> [] | Some h \<Rightarrow> h) k2"
  from rebaseline_row [OF x(1)] x(2) obtain u where "GetUpstream no_faults ?i k3 = Inr (Some u)" "su_GitURL u = url"
    unfolding k3_def GetUpstream_def kquery_def by (metis (full_types))
  moreover have "uploadVersion env ctx user r slug version (k, files) = ((k3, files1), (201, SkUploaded res True))"
    by (simp add: uploadVersion_def body uploaded heads k3_def)
  moreover have "skill_sub full env ctx user r' slug ''upstream'' (up_Skill res) (k3, files1) = (k3, writeJSONError 403 ''missing capability: skills:admin'')"
    using cap by (simp add: skill_sub_def with_cap_def requireCapability_def)
  ultimately show ?thesis by blast
qed

section \<open>Examples\<close>

definition demo_skill_api :: skill_api_env where
  "demo_skill_api = \<lparr>ka_check = demo_check, ka_checker = True\<rparr>"

definition demo_publisher :: "string list \<Rightarrow> auth_ctx" where
  "demo_publisher caps = \<lparr>cx_User = Some ((user_of_row demo_user_row)\<lparr>u_Role := ''user''\<rparr>),
     cx_APIKey = Some \<lparr>k_ID = ''a1'', k_UserID = ''u1'', k_KeyHash = [], k_Name = [], k_ProfileID = None, k_ProfileName = [], k_CreatedAt = 0, k_LastUsed = None,
       k_Revoked = False, k_Capabilities = caps\<rparr>\<rparr>"

definition demo_skill_request :: "string \<Rightarrow> string \<Rightarrow> http_request" where
  "demo_skill_request meth path = \<lparr>hr_Method = meth, hr_Path = path, hr_Header = (\<lambda>_. []), hr_Query = (\<lambda>_. []), hr_Form = (\<lambda>_. []),
     hr_Cookie = (\<lambda>_. None), hr_Body = Some ''x'', hr_RemoteAddr = []\<rparr>"

definition demo_public :: "string \<Rightarrow> string \<Rightarrow> Skill" where
  "demo_public i slug = \<lparr>sk_ID = i, sk_Slug = slug, sk_DisplayName = [], sk_Description = [], sk_Visibility = ''public'', sk_LatestVersion = [],
     sk_YankedAt = None, sk_CreatedBy = None, sk_CreatedAt = 1, sk_UpdatedAt = 1, sk_Outdated = 0\<rparr>"

definition demo_two :: skill_db where
  "demo_two = no_skills\<lparr>kd_skills := [demo_public ''k1'' ''ab'', demo_public ''k2'' ''cd'']\<rparr>"

lemma demo_two_wf: "skill_wf db demo_two"
proof -
  have "ValidateSlug ''ab'' = Inr ()" "ValidateSlug ''cd'' = Inr ()" by code_simp+
  then show ?thesis by (simp add: skill_wf_def tbl_ok_def demo_two_def no_skills_def demo_public_def skill_row_ok_def valid_visibility_def opt_user_def)
qed

lemma demo_yank:
  "skill_request demo_skill_api (demo_publisher [''skills:yank'']) (demo_skill_request ''DELETE'' ''/api/skills/cd'') (demo_two, Map.empty) =
     ((demo_two\<lparr>kd_skills := [demo_public ''k1'' ''ab'', (demo_public ''k2'' ''cd'')\<lparr>sk_YankedAt := Some 5, sk_UpdatedAt := 5\<rparr>]\<rparr>, Map.empty), (200, SkYanked))"
proof -
  have "str_split (CHR ''/'') (trim_prefix ''/api/skills/cd'' ''/api/skills/'') = [''cd'']" by code_simp
  moreover have "hasCapability (Some u) (cx_APIKey (demo_publisher [''skills:yank''])) ''skills:yank''" for u
    by (simp add: hasCapability_def demo_publisher_def has_capability_spec)
  moreover have "cx_User (demo_publisher [''skills:yank'']) = Some ((user_of_row demo_user_row)\<lparr>u_Role := ''user''\<rparr>)" by (simp add: demo_publisher_def)
  ultimately show ?thesis
    by (simp add: skill_request_def HandleSkillByPath_def demo_skill_api_def demo_check_def demo_skill_env_def demo_skill_request_def GetSkillBySlug_def kquery_def
        demo_two_def demo_public_def no_skills_def is_upload_def skill_routes_def in_files_def skill_root_def with_cap_def requireCapability_def deleteSkill_def
        shift_skill_def YankSkill_def kexec_def update_skill_def sql_update_def Let_def)
qed

theorem skill_requests_keep_tables_witness:
  "skill_wf (ke_users (ka_skill demo_skill_api)) demo_two \<and>
   skill_wf (ke_users (ka_skill demo_skill_api)) (fst (fst (skill_request demo_skill_api (demo_publisher []) (demo_skill_request ''GET'' ''/api/skills'') (demo_two, Map.empty))))"
  using skill_requests_keep_tables [OF demo_two_wf] demo_two_wf by blast

theorem publishing_never_widens_audience_witness:
  "\<exists>k' rep. skill_request demo_skill_api (demo_publisher [''skills:yank'']) (demo_skill_request ''DELETE'' ''/api/skills/cd'') (demo_two, Map.empty) = ((k', Map.empty), rep) \<and>
     can_get k' ''u9'' ''k1'' \<and> can_get demo_two ''u9'' ''k1''"
proof -
  let ?u = "(user_of_row demo_user_row)\<lparr>u_Role := ''user''\<rparr>"
  have u: "cx_User (demo_publisher [''skills:yank'']) = Some ?u" by (simp add: demo_publisher_def)
  have c: "\<not> hasCapability (Some ?u) (cx_APIKey (demo_publisher [''skills:yank''])) ''skills:admin''"
    by (simp add: hasCapability_def demo_publisher_def has_capability_spec)
  have g: "can_get (demo_two\<lparr>kd_skills := [demo_public ''k1'' ''ab'', (demo_public ''k2'' ''cd'')\<lparr>sk_YankedAt := Some 5, sk_UpdatedAt := 5\<rparr>]\<rparr>) ''u9'' ''k1''"
    by (simp add: can_get_def demo_public_def)
  from publishing_never_widens_audience [OF demo_two_wf u c demo_yank g] g demo_yank show ?thesis by blast
qed

theorem reading_agrees_with_listing_witness:
  "userCanRead no_faults ((user_of_row demo_user_row)\<lparr>u_Role := ''user''\<rparr>) (demo_public ''k2'' ''cd'') demo_two \<and>
   (\<exists>rows. AssignedForUser no_faults (ur_id demo_user_row) demo_two = Inr rows \<and> (\<exists>row \<in> set rows. sk_ID (as_Skill row) = ''k2''))"
proof -
  let ?u = "(user_of_row demo_user_row)\<lparr>u_Role := ''user''\<rparr>"
  have "demo_public ''k2'' ''cd'' \<in> set (kd_skills demo_two)" by (simp add: demo_two_def)
  from reading_agrees_with_listing [OF demo_two_wf this, of ?u]
  show ?thesis by (simp add: userCanRead_def demo_public_def user_of_row_def)
qed

theorem skill_reads_confined_witness:
  "\<exists>rep. skill_request demo_skill_api (demo_publisher []) (demo_skill_request ''GET'' ''/api/skills/assigned'') (demo_two, Map.empty) = ((demo_two, Map.empty), rep) \<and>
     ''k2'' \<in> skills_shown (snd rep) \<and> can_get demo_two (ur_id demo_user_row) ''k2''"
proof -
  let ?r = "demo_skill_request ''GET'' ''/api/skills/assigned''"
  let ?u = "(user_of_row demo_user_row)\<lparr>u_Role := ''user''\<rparr>"
  have u: "cx_User (demo_publisher []) = Some ?u" "u_Role ?u \<noteq> ''admin''" "hr_Method ?r = ''GET''" by (simp_all add: demo_publisher_def demo_skill_request_def)
  obtain rows where rows: "AssignedForUser no_faults (u_ID ?u) demo_two = Inr rows" by (simp add: AssignedForUser_def kquery_def)
  have run: "skill_request demo_skill_api (demo_publisher []) ?r (demo_two, Map.empty) = ((demo_two, Map.empty), (200, SkAssigned rows))"
    using rows u by (simp add: skill_request_def HandleAssigned_def demo_skill_request_def demo_skill_api_def demo_check_def demo_skill_env_def)
  have "can_get demo_two (u_ID ?u) ''k2''" by (simp add: can_get_def demo_two_def demo_public_def)
  then have "''k2'' \<in> skills_shown (snd (snd (skill_request demo_skill_api (demo_publisher []) ?r (demo_two, Map.empty))))"
    unfolding run using AssignedForUser_iff [OF rows, of "''k2''"] by force
  from skill_reads_confined [OF demo_two_wf u this] this run show ?thesis by (simp add: user_of_row_def)
qed

definition demo_push :: http_request where
  "demo_push = (demo_skill_request ''POST'' ''/api/skills/ab/versions/1.0.0'')\<lparr>hr_Header := (\<lambda>h. if h = ''X-Upstream'' then jtext ''{~url~:~u~}'' else [])\<rparr>"

lemma demo_push_header: "decode_upstream ''type'' ''url'' ''subpath'' ''ref'' (jtext ''{~url~:~u~}'') = Some ([], ''u'', [], [])"
  by code_simp

lemma demo_pushed:
  "\<exists>k1 files1 res. Upload (demo_skill_env\<lparr>ke_users := demo_db\<rparr>) ((demo_upload ''x'')\<lparr>ui_UploadedBy := ''u1''\<rparr>) (no_skills, Map.empty) = ((k1, files1), Inr res)"
proof -
  have line: "firstNonEmptyLine [] = []" "trim_space [] = []" "ValidateSlug ''ab'' = Inr ()" by code_simp+
  have "check_upload demo_lib ((demo_upload ''x'')\<lparr>ui_UploadedBy := ''u1''\<rparr>) = check_upload demo_lib (demo_upload ''x'')" by (simp add: check_upload_def demo_manifest Let_def split: sum.split)
  then show ?thesis
    by (simp add: Upload_def demo_skill_env_def demo_checked) (simp add: demo_upload_def no_skills_def GetSkillBySlug_def kquery_def upload_skill_def line
        CreateSkill_def valid_visibility_def kexec_def insert_skill_def sql_has_def opt_user_def nullableString_def writeArchive_def demo_lib_def archive_path_def
        CreateVersion_def ktx2_def insert_version_def skill_exists_def update_skill_def sql_update_def demo_crypto_def user_exists_def demo_db_defs Let_def)
qed

theorem publish_key_sets_upstream_witness:
  "\<exists>k' files' res u. uploadVersion (demo_skill_env\<lparr>ke_users := demo_db\<rparr>) (demo_publisher [''skills:publish'']) ((user_of_row demo_user_row)\<lparr>u_Role := ''user''\<rparr>) demo_push
       ''ab'' ''1.0.0'' (no_skills, Map.empty) = ((k', files'), (201, SkUploaded res True)) \<and>
     GetUpstream no_faults (sk_ID (up_Skill res)) k' = Inr (Some u) \<and> su_GitURL u = ''u''"
proof -
  let ?e = "demo_skill_env\<lparr>ke_users := demo_db\<rparr>" and ?u = "(user_of_row demo_user_row)\<lparr>u_Role := ''user''\<rparr>"
  obtain k1 files1 res where up: "Upload ?e ((demo_upload ''x'')\<lparr>ui_UploadedBy := ''u1''\<rparr>) (no_skills, Map.empty) = ((k1, files1), Inr res)" using demo_pushed by blast
  have inp: "(demo_upload ''x'')\<lparr>ui_UploadedBy := ''u1''\<rparr> = \<lparr>ui_SlugOverride = ''ab'', ui_Version = ''1.0.0'', ui_Archive = ''x'', ui_UploadedBy = u_ID ?u,
      ui_DisplayName = [], ui_Description = [], ui_Visibility = []\<rparr>" by (simp add: demo_upload_def user_of_row_def demo_user_row_def)
  have cap: "\<not> hasCapability (Some ?u) (cx_APIKey (demo_publisher [''skills:publish''])) ''skills:admin''"
    by (simp add: hasCapability_def demo_publisher_def has_capability_spec)
  have req: "read_body MaxArchiveSize demo_push = BodyRead ''x''" "hr_Query demo_push ''visibility'' = []" "fold_name (hr_Header demo_push ''X-Clear-Upstream'') \<noteq> fold_name ''true''"
    "hr_Header demo_push ''X-Upstream'' = jtext ''{~url~:~u~}''"
    by (simp_all add: read_body_def demo_push_def demo_skill_request_def MaxArchiveSize_def)
  have url: "ValidateGitURL ''u'' = Inr ()" "jtext ''{~url~:~u~}'' \<noteq> []" by code_simp+
  from publish_key_sets_upstream [OF cap req(1,2) up [unfolded inp] req(3), of "[]" "''u''" "[]" "[]"] demo_push_header url
  show ?thesis by (fastforce simp: req(4) demo_skill_env_def)
qed

end
