(* ===== verification/Json_Object.thy ===== *)
theory Json_Object
  imports Json_Roundtrip Json_Fuel
begin

text \<open>
  Printed objects against the scanner of \<open>Json_Scan\<close>: the text that is printed for a list of members is one object with
  exactly these members, whatever follows it. The encoders of configurations and stored results rest on it.
\<close>

lemma ord_punct [simp]: "ord CHR '':'' = 58" "ord CHR '','' = 44" "ord CHR ''{'' = 123" "ord CHR ''}'' = 125" "ord CHR 0x22 = 34"
  by (simp_all add: ord_def)

text \<open>A text that is read as one value and leaves what follows it.\<close>

definition json_text :: "string \<Rightarrow> jshape \<Rightarrow> bool" where
  "json_text v sv \<longleftrightarrow> v \<noteq> [] \<and> ord (hd v) \<notin> {32, 9, 10, 13} \<and> (\<exists>N. \<forall>n \<ge> N. \<forall>r. jvalue n (v @ r) = Some (sv, r))"

lemma json_text_skip: "json_text v sv \<Longrightarrow> skip_ws (v @ r) = v @ r"
  by (cases v) (auto simp: json_text_def)

lemma json_text_shape: "json_text v sv \<Longrightarrow> shape v = Some sv"
proof -
  assume t: "json_text v sv"
  then obtain N where N: "\<And>n r. N \<le> n \<Longrightarrow> jvalue n (v @ r) = Some (sv, r)" by (auto simp: json_text_def)
  have "skip_ws v = v" using json_text_skip [OF t, of "[]"] by simp
  then show ?thesis using json_scan_fuel_suffices [of v N] N [of "2 * length v + 2 + N" "[]"] by simp
qed

lemma json_text_str: "utf8_valid s \<Longrightarrow> json_text (marshal_str s) (SStr s)"
proof -
  assume s: "utf8_valid s"
  have "jvalue n (marshal_str s @ r) = Some (SStr s, r)" if "1 \<le> n" for n r
    using that scan_quoted [of s r] unquote_quote_body [OF s] by (cases n) (simp_all add: marshal_str_def)
  then show ?thesis by (auto simp: json_text_def marshal_str_def intro!: exI [of _ 1])
qed

definition print_members :: "(string \<times> string) list \<Rightarrow> string" where
  "print_members kvs = join_with '','' (map (\<lambda>(k, v). marshal_str k @ '':'' @ v) kvs)"

definition print_object :: "(string \<times> string) list \<Rightarrow> string" where
  "print_object kvs = ''{'' @ print_members kvs @ ''}''"

lemma raw_of_append: "raw_of (v @ r) r = v"
  by (simp add: raw_of_def)

text \<open>One member and what follows it.\<close>

lemma jmembers_step:
  assumes key: "utf8_valid k" and v: "json_text v sv" and N: "jvalue n (v @ d # ds) = Some (sv, d # ds)" and d: "ord d \<notin> {32, 9, 10, 13}"
  shows "jmembers (Suc n) (marshal_str k @ '':'' @ v @ d # ds) =
    (if d = CHR ''}'' then Some ([(k, v)], ds)
     else if d = CHR '','' then map_option (\<lambda>(ms, q). ((k, v) # ms, q)) (jmembers n (skip_ws ds)) else None)"
proof -
  have "scan_str (quote_body k @ quote_ch # CHR '':'' # v @ d # ds) = Some (quote_body k, CHR '':'' # v @ d # ds)" by (rule scan_quoted)
  moreover have "skip_ws (CHR '':'' # v @ d # ds) = CHR '':'' # v @ d # ds" "skip_ws (d # ds) = d # ds" using d by simp_all
  ultimately show ?thesis
    by (simp add: marshal_str_def unquote_quote_body [OF key] raw_of_append Let_def json_text_skip [OF v] N del: jvalue.simps skip_ws_lit)
qed

lemma jmembers_print:
  assumes "kvs \<noteq> []" "list_all (\<lambda>(k, v). utf8_valid k \<and> (\<exists>sv. json_text v sv)) kvs"
  shows "\<exists>N. \<forall>n \<ge> N. \<forall>r. jmembers n (print_members kvs @ CHR ''}'' # r) = Some (kvs, r)"
  using assms
proof (induction kvs rule: list_nonempty_induct)
  case (single kv)
  obtain k v where kv: "kv = (k, v)" by fastforce
  with single obtain sv where k: "utf8_valid k" and v: "json_text v sv" by auto
  then obtain N where N: "\<And>n r. N \<le> n \<Longrightarrow> jvalue n (v @ r) = Some (sv, r)" by (auto simp: json_text_def)
  have "jmembers n (print_members [kv] @ CHR ''}'' # r) = Some ([kv], r)" if "Suc N \<le> n" for n r
    using that jmembers_step [OF k v N, of "n - 1" "CHR ''}''" r] by (cases n) (simp_all add: print_members_def kv del: jmembers.simps)
  then show ?case by blast
next
  case (cons kv kvs)
  obtain k v where kv: "kv = (k, v)" by fastforce
  with cons.prems obtain sv where k: "utf8_valid k" and v: "json_text v sv" by auto
  then obtain N where N: "\<And>n r. N \<le> n \<Longrightarrow> jvalue n (v @ r) = Some (sv, r)" by (auto simp: json_text_def)
  from cons obtain M where M: "\<And>n r. M \<le> n \<Longrightarrow> jmembers n (print_members kvs @ CHR ''}'' # r) = Some (kvs, r)" by auto
  have start: "skip_ws (print_members kvs @ x) = print_members kvs @ x" for x
    using cons.hyps by (cases kvs rule: remdups_adj.cases) (auto simp: print_members_def marshal_str_def)
  have split: "print_members (kv # kvs) = marshal_str k @ '':'' @ v @ CHR '','' # print_members kvs"
    using cons.hyps by (cases kvs) (simp_all add: print_members_def kv)
  have "jmembers n (print_members (kv # kvs) @ CHR ''}'' # r) = Some (kv # kvs, r)" if "Suc (max N M) \<le> n" for n r
    using that jmembers_step [OF k v N, of "n - 1" "CHR '',''" "print_members kvs @ CHR ''}'' # r"] M [of "n - 1" r]
    by (cases n) (simp_all add: split [unfolded kv] start kv del: jmembers.simps skip_ws_lit)
  then show ?case by blast
qed

theorem json_text_object:
  assumes "list_all (\<lambda>(k, v). utf8_valid k \<and> (\<exists>sv. json_text v sv)) kvs"
  shows "json_text (print_object kvs) (SObj kvs)"
proof (cases kvs)
  case Nil
  have "jvalue n (''{}'' @ r) = Some (SObj [], r)" if "1 \<le> n" for n r using that by (cases n) (simp_all add: quote_lit)
  then show ?thesis using Nil by (auto simp: json_text_def print_object_def print_members_def intro!: exI [of _ 1])
next
  case (Cons kv kvs')
  with jmembers_print [OF _ assms] obtain N where N: "\<And>n r. N \<le> n \<Longrightarrow> jmembers n (print_members kvs @ CHR ''}'' # r) = Some (kvs, r)" by auto
  have start: "\<exists>t. print_members kvs = quote_ch # t" using Cons by (cases kv; cases kvs') (simp_all add: print_members_def marshal_str_def)
  have "jvalue n (print_object kvs @ r) = Some (SObj kvs, r)" if "Suc N \<le> n" for n r
  proof -
    from start obtain t where t: "print_members kvs = quote_ch # t" by blast
    from that N [of "n - 1" r] show ?thesis by (cases n) (simp_all add: print_object_def t quote_lit del: jmembers.simps)
  qed
  then show ?thesis by (auto simp: json_text_def print_object_def)
qed

lemma decode_print_object:
  "list_all (\<lambda>(k, v). utf8_valid k \<and> (\<exists>sv. json_text v sv)) kvs \<Longrightarrow> decode_members (print_object kvs) = Some kvs"
  by (simp add: decode_members_def json_text_shape [OF json_text_object])

end
