(* ===== verification/OAuth_Client.thy ===== *)
theory OAuth_Client
  imports Server_Config Web_Form OAuth_Provider Mcp_Protocol Json_Object
begin

text \<open>
  The OAuth client of the relay (\<open>internal/oauth\<close>), which obtains and refreshes the tokens for remote servers, and the
  pages that drive it (\<open>internal/web/handlers.go\<close>): discovery of the endpoints, registration, the authorization code flow
  with PKCE, storage of the tokens in the configuration of a server, and refresh. HTTP, \<open>net/url\<close>, the resolver and the
  RFC 3339 form of a time are arguments. Concurrent refreshes are the subject of \<open>OAuth_Refresh\<close>.
\<close>

section \<open>State\<close>

text \<open>The zero time of a token without expiry is \<open>None\<close>.\<close>

record TokenSet =
  ts_AccessToken :: string
  ts_RefreshToken :: string
  ts_TokenType :: string
  ts_ExpiresAt :: "time option"

definition IsExpired :: "time \<Rightarrow> TokenSet \<Rightarrow> bool" where
  "IsExpired now t = (case ts_ExpiresAt t of None \<Rightarrow> False | Some e \<Rightarrow> e < now + 60 * second)"

record PendingAuth =
  pa_ServerID :: string
  pa_CodeVerifier :: string
  pa_State :: string
  pa_CreatedAt :: time

text \<open>\<open>om_pending\<close> is the map from states to flows: the list of its values, one for each state.\<close>

record OAuthManager =
  om_pending :: "PendingAuth list"
  om_tokens :: "string \<Rightarrow> TokenSet option"

definition pendingAuthExpiry :: time where
  "pendingAuthExpiry = 10 * minute"

definition maxPendingFlows :: nat where
  "maxPendingFlows = 100"

definition NewOAuthManager :: OAuthManager where
  "NewOAuthManager = \<lparr>om_pending = [], om_tokens = Map.empty\<rparr>"

text \<open>
  \<open>oc_post url form\<close> posts to a token endpoint: the text of the error, or status and body. \<open>oc_get\<close> and
  \<open>oc_register\<close> are the requests of the discovery client, \<open>None\<close> when they fail. \<open>oc_fmt\<close> and \<open>oc_ptime\<close> write and
  read RFC 3339.
\<close>

type_synonym form = "(string \<times> string) list"

record oc_env =
  oc_enc :: ConfigEncryptor
  oc_io :: faults
  oc_now :: time
  oc_nonce :: "string option"
  oc_base :: string
  oc_crypto :: crypto
  oc_parse :: "string \<Rightarrow> parsed_url option"
  oc_post :: "string \<Rightarrow> form \<Rightarrow> string + nat \<times> string"
  oc_get :: "string \<Rightarrow> (nat \<times> string) option"
  oc_register :: "string \<Rightarrow> string \<Rightarrow> (nat \<times> string) option"
  oc_fmt :: "time \<Rightarrow> string"
  oc_ptime :: "string \<Rightarrow> time option"

definition cleanupPending :: "time \<Rightarrow> OAuthManager \<Rightarrow> OAuthManager" where
  "cleanupPending now m = m\<lparr>om_pending := filter (\<lambda>pa. \<not> pendingAuthExpiry < now - pa_CreatedAt pa) (om_pending m)\<rparr>"

definition CallbackURL :: "oc_env \<Rightarrow> string" where
  "CallbackURL env = oc_base env @ ''/oauth/callback''"

section \<open>Form encoding\<close>

text \<open>\<open>url.QueryEscape\<close> and \<open>url.Values.Encode\<close>.\<close>

definition unreserved :: "char \<Rightarrow> bool" where
  "unreserved c \<longleftrightarrow> (let n = ord c in (97 \<le> n \<and> n \<le> 122) \<or> (65 \<le> n \<and> n \<le> 90) \<or> (48 \<le> n \<and> n \<le> 57)) \<or> c \<in> set ''-_.~''"

definition upper_hex :: "nat \<Rightarrow> char" where
  "upper_hex n = (if n < 10 then byte (48 + n) else byte (55 + n))"

definition query_escape :: "string \<Rightarrow> string" where
  "query_escape s = concat (map (\<lambda>c. if unreserved c then [c] else if c = CHR '' '' then ''+''
     else [CHR ''%'', upper_hex (ord c div 16), upper_hex (ord c mod 16)]) s)"

definition values_encode :: "form \<Rightarrow> string" where
  "values_encode f = join_with ''&'' (map (\<lambda>(k, v). query_escape k @ ''='' @ query_escape v) (sort_key fst f))"

section \<open>Configuration of a server\<close>

definition encode_auth :: "RemoteAuth \<Rightarrow> string" where
  "encode_auth a =
     ''{'' @ join_with '','' ([str_member ''type'' (ra_Type a)] @ opt_str_member ''token'' (ra_Token a) @ opt_str_member ''header_name'' (ra_HeaderName a) @
       opt_str_member ''client_id'' (ra_ClientID a) @ opt_str_member ''client_secret'' (ra_ClientSecret a) @ opt_str_member ''auth_url'' (ra_AuthURL a) @
       opt_str_member ''token_url'' (ra_TokenURL a) @ opt_str_member ''scopes'' (ra_Scopes a) @ opt_str_member ''access_token'' (ra_AccessToken a) @
       opt_str_member ''refresh_token'' (ra_RefreshToken a) @ opt_str_member ''token_expiry'' (ra_TokenExpiry a) @
       opt_str_member ''registered_redirect_uri'' (ra_RegisteredRedirectURI a) @ opt_str_member ''registration_endpoint'' (ra_RegistrationEndpoint a)) @ ''}''"

definition encode_remote :: "RemoteConfig \<Rightarrow> string" where
  "encode_remote c = ''{'' @ join_with '','' [str_member ''url'' (rc_URL c), marshal_str ''auth'' @ '':'' @ encode_auth (rc_Auth c)] @ ''}''"

definition update_auth :: "oc_env \<Rightarrow> faults \<Rightarrow> string \<Rightarrow> RemoteConfig \<Rightarrow> relay_db \<Rightarrow> relay_db \<times> unit res" where
  "update_auth env io sid cfg db = ServerStore_UpdateConfig (oc_enc env) io (oc_now env) (oc_nonce env) sid (encode_remote cfg) db"

definition server_config :: "oc_env \<Rightarrow> string \<Rightarrow> relay_db \<Rightarrow> string + RemoteConfig" where
  "server_config env sid db =
     (case ServerStore_Get (oc_enc env) (oc_io env) sid db of
        Inr (Some srv) \<Rightarrow> (case decode_remote (sv_Config srv) of None \<Rightarrow> Inl ''parsing server config'' | Some cfg \<Rightarrow> Inr cfg)
      | _ \<Rightarrow> Inl ''server not found'')"

definition with_tokens :: "oc_env \<Rightarrow> TokenSet \<Rightarrow> RemoteConfig \<Rightarrow> RemoteConfig" where
  "with_tokens env ts cfg = cfg\<lparr>rc_Auth := (rc_Auth cfg)\<lparr>ra_AccessToken := ts_AccessToken ts, ra_RefreshToken := ts_RefreshToken ts,
     ra_TokenExpiry := (case ts_ExpiresAt ts of None \<Rightarrow> [] | Some t \<Rightarrow> oc_fmt env t)\<rparr>\<rparr>"

definition saveTokens :: "oc_env \<Rightarrow> faults \<Rightarrow> string \<Rightarrow> RemoteConfig \<Rightarrow> TokenSet \<Rightarrow> relay_db \<Rightarrow> relay_db \<times> unit res" where
  "saveTokens env io sid cfg ts db = update_auth env io sid (with_tokens env ts cfg) db"

definition without_tokens :: "RemoteConfig \<Rightarrow> RemoteConfig" where
  "without_tokens cfg = cfg\<lparr>rc_Auth := (rc_Auth cfg)\<lparr>ra_AccessToken := [], ra_RefreshToken := [], ra_TokenExpiry := []\<rparr>\<rparr>"

definition config_tokens :: "oc_env \<Rightarrow> RemoteConfig \<Rightarrow> TokenSet option" where
  "config_tokens env cfg =
     (let a = rc_Auth cfg in
      if ra_AccessToken a = [] then None
      else Some \<lparr>ts_AccessToken = ra_AccessToken a, ts_RefreshToken = ra_RefreshToken a, ts_TokenType = [],
        ts_ExpiresAt = (if ra_TokenExpiry a = [] then None else oc_ptime env (ra_TokenExpiry a))\<rparr>)"

text \<open>A missing server has no tokens and is no error.\<close>

definition loadTokens :: "oc_env \<Rightarrow> string \<Rightarrow> relay_db \<Rightarrow> string + TokenSet option" where
  "loadTokens env sid db =
     (case ServerStore_Get (oc_enc env) (oc_io env) sid db of
        Inl _ \<Rightarrow> Inl ''database error''
      | Inr None \<Rightarrow> Inr None
      | Inr (Some srv) \<Rightarrow> (case decode_remote (sv_Config srv) of None \<Rightarrow> Inl ''parsing server config'' | Some cfg \<Rightarrow> Inr (config_tokens env cfg)))"

section \<open>The token endpoint\<close>

text \<open>The seconds of \<open>expires_in\<close> become a duration in 64 bits, which wraps.\<close>

definition wrap64 :: "int \<Rightarrow> int" where
  "wrap64 n = (n + 2 ^ 63) mod 2 ^ 64 - 2 ^ 63"

definition decode_token_reply :: "time \<Rightarrow> string \<Rightarrow> string + TokenSet" where
  "decode_token_reply now body =
     (case decode_members body of
        None \<Rightarrow> Inl ''parsing token response''
      | Some kvs \<Rightarrow>
          (let (acc, ok1) = str_field [] (field_values ''access_token'' kvs);
               (ref, ok2) = str_field [] (field_values ''refresh_token'' kvs);
               (typ, ok3) = str_field [] (field_values ''token_type'' kvs);
               (secs, ok4) = int_field 0 (field_values ''expires_in'' kvs) in
           if \<not> (ok1 \<and> ok2 \<and> ok3 \<and> ok4) then Inl ''parsing token response''
           else if acc = [] then Inl ''no access_token in token endpoint response (HTTP 200)''
           else Inr \<lparr>ts_AccessToken = acc, ts_RefreshToken = ref, ts_TokenType = typ,
             ts_ExpiresAt = (if 0 < secs then Some (now + wrap64 (secs * second)) else None)\<rparr>))"

definition token_error :: "nat \<Rightarrow> string \<Rightarrow> string" where
  "token_error status body =
     (let plain = ''token endpoint returned '' @ show_nat status in
      case decode_members body of
        None \<Rightarrow> plain
      | Some kvs \<Rightarrow>
          (let (err, ok1) = str_field [] (field_values ''error'' kvs); (desc, ok2) = str_field [] (field_values ''error_description'' kvs) in
           if ok1 \<and> ok2 \<and> err \<noteq> [] then plain @ '': '' @ err @ '': '' @ desc else plain))"

definition tokenRequest :: "oc_env \<Rightarrow> string \<Rightarrow> form \<Rightarrow> string + TokenSet" where
  "tokenRequest env tokenURL data =
     (case oc_post env tokenURL data of
        Inl e \<Rightarrow> Inl (''token request failed: '' @ e)
      | Inr (status, body) \<Rightarrow> if status \<noteq> 200 then Inl (token_error status body) else decode_token_reply (oc_now env) body)"

definition exchangeCode :: "oc_env \<Rightarrow> RemoteAuth \<Rightarrow> string \<Rightarrow> string \<Rightarrow> string \<Rightarrow> string + TokenSet" where
  "exchangeCode env auth code verifier redirectURI =
     tokenRequest env (ra_TokenURL auth)
       ([(''grant_type'', ''authorization_code''), (''code'', code), (''redirect_uri'', redirectURI), (''client_id'', ra_ClientID auth), (''code_verifier'', verifier)] @
        (if ra_ClientSecret auth \<noteq> [] then [(''client_secret'', ra_ClientSecret auth)] else []))"

section \<open>Discovery and registration\<close>

record OAuthDiscovery =
  od_AuthURL :: string
  od_TokenURL :: string
  od_RegistrationEndpoint :: string
  od_ScopesSupported :: "string list"
  od_ClientID :: string
  od_ClientSecret :: string
  od_RegisteredRedirectURI :: string

text \<open>The empty text: no protected resource, or none that could be read.\<close>

definition probeProtectedResource :: "oc_env \<Rightarrow> string \<Rightarrow> string" where
  "probeProtectedResource env origin =
     (case oc_get env (origin @ ''/.well-known/oauth-protected-resource'') of
        None \<Rightarrow> []
      | Some (status, body) \<Rightarrow>
          if status \<noteq> 200 then []
          else (case decode_members body of
            None \<Rightarrow> []
          | Some kvs \<Rightarrow> (case strs_field [] (field_values ''authorization_servers'' kvs) of (xs, ok) \<Rightarrow> if ok \<and> xs \<noteq> [] then hd xs else [])))"

definition origin_of :: "parsed_url \<Rightarrow> string" where
  "origin_of u = pu_Scheme u @ ''://'' @ pu_Host u"

definition decode_discovery :: "string \<Rightarrow> OAuthDiscovery option" where
  "decode_discovery body =
     (case decode_members body of
        None \<Rightarrow> None
      | Some kvs \<Rightarrow>
          (let (au, ok1) = str_field [] (field_values ''authorization_endpoint'' kvs);
               (tu, ok2) = str_field [] (field_values ''token_endpoint'' kvs);
               (re, ok3) = str_field [] (field_values ''registration_endpoint'' kvs);
               (sc, ok4) = strs_field [] (field_values ''scopes_supported'' kvs) in
           if \<not> (ok1 \<and> ok2 \<and> ok3 \<and> ok4) \<or> au = [] \<or> tu = [] then None
           else Some \<lparr>od_AuthURL = au, od_TokenURL = tu, od_RegistrationEndpoint = re, od_ScopesSupported = sc, od_ClientID = [], od_ClientSecret = [],
             od_RegisteredRedirectURI = []\<rparr>))"

definition probeAuthorizationServer :: "oc_env \<Rightarrow> string \<Rightarrow> OAuthDiscovery option" where
  "probeAuthorizationServer env authServer =
     (case oc_parse env authServer of
        None \<Rightarrow> None
      | Some u \<Rightarrow>
          (case oc_get env (origin_of u @ ''/.well-known/oauth-authorization-server'') of
             None \<Rightarrow> None
           | Some (status, body) \<Rightarrow> if status \<noteq> 200 then None else decode_discovery body))"

definition DiscoverOAuth :: "oc_env \<Rightarrow> string \<Rightarrow> OAuthDiscovery option" where
  "DiscoverOAuth env serverURL =
     (case oc_parse env serverURL of
        None \<Rightarrow> None
      | Some u \<Rightarrow>
          (let found = probeProtectedResource env (origin_of u) in
           probeAuthorizationServer env (if found = [] then origin_of u else found)))"

definition registration_body :: "string \<Rightarrow> string" where
  "registration_body callbackURL =
     ''{'' @ join_with '','' [str_member ''client_name'' ''Arc Relay'',
       marshal_str ''grant_types'' @ '':'' @ encode_strs [''authorization_code'', ''refresh_token''],
       marshal_str ''redirect_uris'' @ '':'' @ encode_strs [callbackURL], marshal_str ''response_types'' @ '':'' @ encode_strs [''code''],
       str_member ''token_endpoint_auth_method'' ''client_secret_post''] @ ''}''"

definition RegisterClient :: "oc_env \<Rightarrow> string \<Rightarrow> string \<Rightarrow> (string \<times> string) option" where
  "RegisterClient env registrationEndpoint callbackURL =
     (case oc_register env registrationEndpoint (registration_body callbackURL) of
        None \<Rightarrow> None
      | Some (status, body) \<Rightarrow>
          if status < 200 \<or> 300 \<le> status then None
          else (case decode_members body of
            None \<Rightarrow> None
          | Some kvs \<Rightarrow>
              (let (cid, ok1) = str_field [] (field_values ''client_id'' kvs); (secret, ok2) = str_field [] (field_values ''client_secret'' kvs) in
               if ok1 \<and> ok2 \<and> cid \<noteq> [] then Some (cid, secret) else None)))"

text \<open>The dialer of the discovery client: host and port of the address, the addresses of the host, and the one that is dialled.\<close>

definition ssrfSafeDialContext :: "(string \<Rightarrow> (string \<times> string) option) \<Rightarrow> (string \<Rightarrow> nat list list option) \<Rightarrow> string \<Rightarrow> string + nat list \<times> string" where
  "ssrfSafeDialContext split lookup addr =
     (case split addr of
        None \<Rightarrow> Inl ''invalid address''
      | Some (host, port) \<Rightarrow>
          (case lookup host of
             None \<Rightarrow> Inl ''dns resolution failed''
           | Some ips \<Rightarrow>
               if ips = [] then Inl ''no addresses found''
               else if list_ex isPrivateIP ips then Inl ''connection to private/loopback address blocked''
               else Inr (hd ips, port)))"

lemma dial_not_private: "ssrfSafeDialContext split lookup addr = Inr (ip, port) \<Longrightarrow> \<not> isPrivateIP ip"
  by (auto simp: ssrfSafeDialContext_def list_ex_iff split: option.splits if_splits)

definition find_discovery :: "oc_env \<Rightarrow> string list \<Rightarrow> OAuthDiscovery option" where
  "find_discovery env urls =
     (case filter (\<lambda>d. od_RegistrationEndpoint d \<noteq> []) (concat (map (\<lambda>u. if u = [] then [] else case DiscoverOAuth env u of None \<Rightarrow> [] | Some d \<Rightarrow> [d]) urls)) of
        [] \<Rightarrow> None | d # _ \<Rightarrow> Some d)"

text \<open>The registration endpoint to use and what was discovered; \<open>Inl None\<close>: go on with the credentials there are.\<close>

definition registration_plan :: "oc_env \<Rightarrow> RemoteConfig \<Rightarrow> string option + string \<times> OAuthDiscovery option" where
  "registration_plan env cfg =
     (let a = rc_Auth cfg; reg = ra_RegistrationEndpoint a in
      if reg \<noteq> [] \<and> ra_AuthURL a \<noteq> [] \<and> ra_TokenURL a \<noteq> [] then Inr (reg, None)
      else
        let disc = find_discovery env [rc_URL cfg, ra_AuthURL a] in
        if reg \<noteq> [] then Inr (reg, disc)
        else (case disc of
          Some d \<Rightarrow> Inr (od_RegistrationEndpoint d, disc)
        | None \<Rightarrow> if ra_RegisteredRedirectURI a = [] then Inl None else Inl (Some ''redirect URI changed but cannot re-register'')))"

definition registered_config :: "oc_env \<Rightarrow> string \<Rightarrow> OAuthDiscovery option \<Rightarrow> string \<times> string \<Rightarrow> RemoteConfig \<Rightarrow> RemoteConfig" where
  "registered_config env reg disc client cfg =
     (let a = (rc_Auth cfg)\<lparr>ra_ClientID := fst client, ra_ClientSecret := snd client, ra_RegisteredRedirectURI := CallbackURL env, ra_RegistrationEndpoint := reg\<rparr>;
          a1 = (case disc of
            None \<Rightarrow> a
          | Some d \<Rightarrow> a\<lparr>ra_AuthURL := (if od_AuthURL d \<noteq> [] then od_AuthURL d else ra_AuthURL a), ra_TokenURL := (if od_TokenURL d \<noteq> [] then od_TokenURL d else ra_TokenURL a)\<rparr>) in
      without_tokens (cfg\<lparr>rc_Auth := a1\<rparr>))"

text \<open>The configuration the caller goes on with, and whether there was a registration.\<close>

definition ReRegisterIfNeeded :: "oc_env \<Rightarrow> string \<Rightarrow> RemoteConfig \<Rightarrow> bool \<Rightarrow> OAuthManager \<times> relay_db \<Rightarrow> (OAuthManager \<times> relay_db) \<times> (string + RemoteConfig \<times> bool)" where
  "ReRegisterIfNeeded env sid cfg force = (\<lambda>(m, db).
     if \<not> force \<and> ra_RegisteredRedirectURI (rc_Auth cfg) = CallbackURL env then ((m, db), Inr (cfg, False))
     else (case registration_plan env cfg of
       Inl None \<Rightarrow> ((m, db), Inr (cfg, False))
     | Inl (Some e) \<Rightarrow> ((m, db), Inl e)
     | Inr (reg, disc) \<Rightarrow>
         (case RegisterClient env reg (CallbackURL env) of
            None \<Rightarrow> ((m, db), Inl ''re-registration failed'')
          | Some client \<Rightarrow>
              let cfg1 = registered_config env reg disc client cfg in
              (case update_auth env (after_stmts 1 (oc_io env)) sid cfg1 db of
                 (db', Inl _) \<Rightarrow> ((m, db'), Inl ''persisting re-registration'')
               | (db', Inr _) \<Rightarrow> ((m\<lparr>om_tokens := (om_tokens m)(sid := None)\<rparr>, db'), Inr (cfg1, True))))))"

section \<open>The authorization code flow\<close>

definition find_pending :: "string \<Rightarrow> OAuthManager \<Rightarrow> PendingAuth option" where
  "find_pending st m = List.find (\<lambda>pa. pa_State pa = st) (om_pending m)"

definition drop_pending :: "string \<Rightarrow> OAuthManager \<Rightarrow> OAuthManager" where
  "drop_pending st m = m\<lparr>om_pending := filter (\<lambda>pa. pa_State pa \<noteq> st) (om_pending m)\<rparr>"

definition flow_params :: "oc_env \<Rightarrow> RemoteAuth \<Rightarrow> string \<Rightarrow> string \<Rightarrow> form" where
  "flow_params env auth verifier st =
     [(''response_type'', ''code''), (''client_id'', ra_ClientID auth), (''redirect_uri'', CallbackURL env), (''state'', st),
      (''code_challenge'', s256_challenge (oc_crypto env) verifier), (''code_challenge_method'', ''S256'')] @
     (if ra_Scopes auth \<noteq> [] then [(''scope'', ra_Scopes auth)] else [])"

definition http_url :: "oc_env \<Rightarrow> string \<Rightarrow> bool" where
  "http_url env u =
     (case oc_parse env u of None \<Rightarrow> False | Some p \<Rightarrow> (pu_Scheme p = ''http'' \<or> pu_Scheme p = ''https'') \<and> pu_Host p \<noteq> [])"

text \<open>\<open>verifier\<close> and \<open>st\<close> are the random draws, \<open>None\<close> when the random source fails.\<close>

definition StartAuthFlow :: "oc_env \<Rightarrow> string option \<Rightarrow> string option \<Rightarrow> string \<Rightarrow> RemoteAuth \<Rightarrow> OAuthManager \<Rightarrow> OAuthManager \<times> (string + string)" where
  "StartAuthFlow env verifier st sid auth m =
     (case verifier of
        None \<Rightarrow> (m, Inl ''generating code verifier'')
      | Some v \<Rightarrow>
          (case st of
             None \<Rightarrow> (m, Inl ''generating state'')
           | Some s \<Rightarrow>
               if maxPendingFlows \<le> length (om_pending m) then (m, Inl ''too many pending OAuth flows, try again later'')
               else
                 let m1 = (drop_pending s m)\<lparr>om_pending := om_pending (drop_pending s m) @
                       [\<lparr>pa_ServerID = sid, pa_CodeVerifier = v, pa_State = s, pa_CreatedAt = oc_now env\<rparr>]\<rparr> in
                 if \<not> http_url env (ra_AuthURL auth) then (m1, Inl ''invalid OAuth authorization URL'')
                 else (m1, Inr (ra_AuthURL auth @ ''?'' @ values_encode (flow_params env auth v s)))))"

definition HandleCallback :: "oc_env \<Rightarrow> string \<Rightarrow> string \<Rightarrow> OAuthManager \<times> relay_db \<Rightarrow> (OAuthManager \<times> relay_db) \<times> (string + string)" where
  "HandleCallback env st code = (\<lambda>(m, db).
     case find_pending st m of
       None \<Rightarrow> ((m, db), Inl ''unknown or expired OAuth state'')
     | Some pa \<Rightarrow>
         let m1 = drop_pending st m; sid = pa_ServerID pa in
         if pendingAuthExpiry < oc_now env - pa_CreatedAt pa then ((m1, db), Inl ''OAuth state expired'')
         else (case server_config env sid db of
           Inl e \<Rightarrow> ((m1, db), Inl e)
         | Inr cfg \<Rightarrow>
             (case exchangeCode env (rc_Auth cfg) code (pa_CodeVerifier pa) (CallbackURL env) of
                Inl e \<Rightarrow> ((m1, db), Inl (''token exchange failed: '' @ e))
              | Inr ts \<Rightarrow>
                  (case saveTokens env (after_stmts 1 (oc_io env)) sid cfg ts db of
                     (db', Inl _) \<Rightarrow> ((m1, db'), Inl ''saving tokens'')
                   | (db', Inr _) \<Rightarrow> ((m1\<lparr>om_tokens := (om_tokens m1)(sid \<mapsto> ts)\<rparr>, db'), Inr sid)))))"

section \<open>Refresh\<close>

text \<open>
  \<open>doRefreshToken\<close> in three phases: reading the configuration, the requests to the provider, and storing the outcome. The second
  one follows a token endpoint that has moved, and stores where it went.
\<close>

definition refresh_form :: "TokenSet \<Rightarrow> RemoteAuth \<Rightarrow> form" where
  "refresh_form ts a =
     [(''grant_type'', ''refresh_token''), (''refresh_token'', ts_RefreshToken ts), (''client_id'', ra_ClientID a)] @
     (if ra_ClientSecret a \<noteq> [] then [(''client_secret'', ra_ClientSecret a)] else []) @
     (if ra_RegisteredRedirectURI a \<noteq> [] then [(''redirect_uri'', ra_RegisteredRedirectURI a)] else [])"

definition refresh_begin :: "oc_env \<Rightarrow> string \<Rightarrow> TokenSet option \<Rightarrow> relay_db \<Rightarrow> string + TokenSet \<times> RemoteConfig" where
  "refresh_begin env sid ts db =
     (case ts of
        None \<Rightarrow> Inl ''no refresh token available''
      | Some t \<Rightarrow>
          if ts_RefreshToken t = [] then Inl ''no refresh token available''
          else (case server_config env sid db of Inl e \<Rightarrow> Inl e | Inr cfg \<Rightarrow> Inr (t, cfg)))"

definition moved_config :: "OAuthDiscovery \<Rightarrow> RemoteConfig \<Rightarrow> RemoteConfig" where
  "moved_config d cfg = cfg\<lparr>rc_Auth := (rc_Auth cfg)\<lparr>ra_TokenURL := od_TokenURL d,
     ra_AuthURL := (if od_AuthURL d \<noteq> [] then od_AuthURL d else ra_AuthURL (rc_Auth cfg)),
     ra_RegistrationEndpoint := (if od_RegistrationEndpoint d \<noteq> [] then od_RegistrationEndpoint d else ra_RegistrationEndpoint (rc_Auth cfg))\<rparr>\<rparr>"

definition refresh_call :: "oc_env \<Rightarrow> string \<Rightarrow> TokenSet \<Rightarrow> RemoteConfig \<Rightarrow> relay_db \<Rightarrow> relay_db \<times> RemoteConfig \<times> (string + TokenSet)" where
  "refresh_call env sid ts cfg db =
     (let data = refresh_form ts (rc_Auth cfg) in
      case tokenRequest env (ra_TokenURL (rc_Auth cfg)) data of
        Inr new \<Rightarrow> (db, cfg, Inr new)
      | Inl e \<Rightarrow>
          if \<not> str_contains e ''returned 404'' then (db, cfg, Inl e)
          else (case DiscoverOAuth env (rc_URL cfg) of
            None \<Rightarrow> (db, cfg, Inl e)
          | Some d \<Rightarrow>
              if od_TokenURL d = [] \<or> od_TokenURL d = ra_TokenURL (rc_Auth cfg) then (db, cfg, Inl e)
              else
                let cfg1 = moved_config d cfg in
                (fst (update_auth env (after_stmts 1 (oc_io env)) sid cfg1 db), cfg1, tokenRequest env (od_TokenURL d) data)))"

datatype cache_change = CacheKept | CacheDropped | CachePut TokenSet

definition refresh_store :: "oc_env \<Rightarrow> string \<Rightarrow> TokenSet \<Rightarrow> RemoteConfig \<Rightarrow> string + TokenSet \<Rightarrow> relay_db \<Rightarrow> relay_db \<times> cache_change \<times> string option" where
  "refresh_store env sid ts cfg res db =
     (case res of
        Inl e \<Rightarrow>
          if str_contains e ''invalid_grant'' then
            (fst (update_auth env (after_stmts 2 (oc_io env)) sid (without_tokens cfg) db), CacheDropped, Some (''token refresh failed: '' @ e))
          else (db, CacheKept, Some (''token refresh failed: '' @ e))
      | Inr new \<Rightarrow>
          let new1 = (if ts_RefreshToken new = [] then new\<lparr>ts_RefreshToken := ts_RefreshToken ts\<rparr> else new) in
          (case saveTokens env (after_stmts 2 (oc_io env)) sid cfg new1 db of
             (db', Inl _) \<Rightarrow> (db', CacheKept, Some ''saving refreshed tokens'')
           | (db', Inr _) \<Rightarrow> (db', CachePut new1, None)))"

definition apply_cache :: "string \<Rightarrow> cache_change \<Rightarrow> (string \<Rightarrow> TokenSet option) \<Rightarrow> string \<Rightarrow> TokenSet option" where
  "apply_cache sid c tokens = (case c of CacheKept \<Rightarrow> tokens | CacheDropped \<Rightarrow> tokens(sid := None) | CachePut ts \<Rightarrow> tokens(sid \<mapsto> ts))"

definition doRefreshToken :: "oc_env \<Rightarrow> string \<Rightarrow> TokenSet option \<Rightarrow> OAuthManager \<times> relay_db \<Rightarrow> (OAuthManager \<times> relay_db) \<times> string option" where
  "doRefreshToken env sid ts = (\<lambda>(m, db).
     case refresh_begin env sid ts db of
       Inl e \<Rightarrow> ((m, db), Some e)
     | Inr (t, cfg) \<Rightarrow>
         (case refresh_call env sid t cfg db of
            (db1, cfg1, res) \<Rightarrow>
              (case refresh_store env sid t cfg1 res db1 of
                 (db2, c, err) \<Rightarrow> ((m\<lparr>om_tokens := apply_cache sid c (om_tokens m)\<rparr>, db2), err))))"

text \<open>The operations of a caller that is alone.\<close>

definition ForceRefresh :: "oc_env \<Rightarrow> string \<Rightarrow> OAuthManager \<times> relay_db \<Rightarrow> (OAuthManager \<times> relay_db) \<times> string option" where
  "ForceRefresh env sid = (\<lambda>(m, db). doRefreshToken env sid (om_tokens m sid) (m, db))"

definition GetTokenInfo :: "oc_env \<Rightarrow> string \<Rightarrow> OAuthManager \<times> relay_db \<Rightarrow> (OAuthManager \<times> relay_db) \<times> TokenSet option" where
  "GetTokenInfo env sid = (\<lambda>(m, db).
     case om_tokens m sid of
       Some ts \<Rightarrow> ((m, db), Some ts)
     | None \<Rightarrow>
         (case loadTokens env sid db of
            Inr (Some ts) \<Rightarrow> ((m\<lparr>om_tokens := (om_tokens m)(sid \<mapsto> ts)\<rparr>, db), Some ts)
          | _ \<Rightarrow> ((m, db), None)))"

definition HasTokens :: "oc_env \<Rightarrow> string \<Rightarrow> OAuthManager \<times> relay_db \<Rightarrow> bool" where
  "HasTokens env sid = (\<lambda>(m, db).
     case om_tokens m sid of Some _ \<Rightarrow> True | None \<Rightarrow> (case loadTokens env sid db of Inr (Some _) \<Rightarrow> True | _ \<Rightarrow> False))"

section \<open>Pages\<close>

definition handleOAuthStart :: "oc_env \<Rightarrow> string option \<Rightarrow> string option \<Rightarrow> User option \<Rightarrow> http_request \<Rightarrow> OAuthManager \<times> relay_db \<Rightarrow> (OAuthManager \<times> relay_db) \<times> reply" where
  "handleOAuthStart env verifier st user r = (\<lambda>(m, db).
     case requireAdmin user of
       Some rep \<Rightarrow> ((m, db), rep)
     | None \<Rightarrow>
         let sid = trim_prefix (hr_Path r) ''/oauth/start/''; nf = http_error ''404 page not found'' 404 in
         if sid = [] then ((m, db), nf)
         else (case ServerStore_Get (oc_enc env) (oc_io env) sid db of
           Inr (Some srv) \<Rightarrow>
             if sv_ServerType srv \<noteq> ''remote'' then ((m, db), http_error ''OAuth is only supported for remote servers'' 400)
             else (case decode_remote (sv_Config srv) of
               None \<Rightarrow> ((m, db), http_error ''Invalid server config'' 500)
             | Some cfg \<Rightarrow>
                 if ra_Type (rc_Auth cfg) \<noteq> ''oauth'' then ((m, db), http_error ''Server is not configured for OAuth'' 400)
                 else (case ReRegisterIfNeeded env sid cfg (hr_Query r ''force'' = ''1'') (m, db) of
                   (s1, Inl e) \<Rightarrow> (s1, http_error (''OAuth re-registration failed: '' @ e) 500)
                 | ((m1, db1), Inr (cfg1, _)) \<Rightarrow>
                     (case StartAuthFlow env verifier st sid (rc_Auth cfg1) m1 of
                        (m2, Inl _) \<Rightarrow> ((m2, db1), http_error ''Failed to start OAuth flow'' 500)
                      | (m2, Inr u) \<Rightarrow> ((m2, db1), redirect u 302))))
         | _ \<Rightarrow> ((m, db), nf)))"

definition handleOAuthCallback :: "oc_env \<Rightarrow> http_request \<Rightarrow> OAuthManager \<times> relay_db \<Rightarrow> (OAuthManager \<times> relay_db) \<times> reply" where
  "handleOAuthCallback env r s =
     (let code = hr_Query r ''code''; st = hr_Query r ''state'' in
      if code = [] \<or> st = [] then
        (s, if hr_Query r ''error'' \<noteq> [] then http_error (''OAuth error: '' @ hr_Query r ''error'') 400 else http_error ''Missing code or state parameter'' 400)
      else (case HandleCallback env st code s of
        (s', Inr sid) \<Rightarrow> (s', redirect (''/servers/'' @ sid) 302)
      | (s', Inl e) \<Rightarrow>
          (s', if str_contains e ''unknown or expired OAuth state'' then redirect ''/'' 302 else http_error (''OAuth callback failed: '' @ e) 400)))"

text \<open>\<open>check\<close> is \<open>validateExternalURL\<close> with its resolver. \<open>None\<close>: the empty object.\<close>

definition handleCatalogDiscoverOAuth :: "oc_env \<Rightarrow> (string \<Rightarrow> string option) \<Rightarrow> User option \<Rightarrow> http_request \<Rightarrow> reply + OAuthDiscovery option" where
  "handleCatalogDiscoverOAuth env check user r =
     (if hr_Method r \<noteq> ''POST'' then Inl (http_error ''Method not allowed'' 405)
      else (case requireAdmin user of
        Some rep \<Rightarrow> Inl rep
      | None \<Rightarrow>
          (case body_members (hr_Body r) of
             None \<Rightarrow> Inr None
           | Some kvs \<Rightarrow>
                    (let (u, ok) = str_field [] (field_values ''remote_url'' kvs) in
                     if \<not> ok \<or> u = [] then Inr None
                     else (case check u of
                       Some e \<Rightarrow> Inl (http_error e 400)
                     | None \<Rightarrow>
                         (case DiscoverOAuth env u of
                            None \<Rightarrow> Inr None
                          | Some d \<Rightarrow>
                              if od_RegistrationEndpoint d = [] \<or> check (od_RegistrationEndpoint d) \<noteq> None then Inr (Some d)
                              else (case RegisterClient env (od_RegistrationEndpoint d) (CallbackURL env) of
                                None \<Rightarrow> Inr (Some d)
                              | Some (cid, secret) \<Rightarrow>
                                  Inr (Some (d\<lparr>od_ClientID := cid, od_ClientSecret := secret, od_RegisteredRedirectURI := CallbackURL env\<rparr>)))))))))"

section \<open>Stored configurations\<close>

definition opt_pair :: "string \<Rightarrow> string \<Rightarrow> (string \<times> string) list" where
  "opt_pair name v = (if v = [] then [] else [(name, marshal_str v)])"

definition auth_members :: "RemoteAuth \<Rightarrow> (string \<times> string) list" where
  "auth_members a =
     [(''type'', marshal_str (ra_Type a))] @ opt_pair ''token'' (ra_Token a) @ opt_pair ''header_name'' (ra_HeaderName a) @
     opt_pair ''client_id'' (ra_ClientID a) @ opt_pair ''client_secret'' (ra_ClientSecret a) @ opt_pair ''auth_url'' (ra_AuthURL a) @
     opt_pair ''token_url'' (ra_TokenURL a) @ opt_pair ''scopes'' (ra_Scopes a) @ opt_pair ''access_token'' (ra_AccessToken a) @
     opt_pair ''refresh_token'' (ra_RefreshToken a) @ opt_pair ''token_expiry'' (ra_TokenExpiry a) @
     opt_pair ''registered_redirect_uri'' (ra_RegisteredRedirectURI a) @ opt_pair ''registration_endpoint'' (ra_RegistrationEndpoint a)"

definition auth_texts :: "RemoteAuth \<Rightarrow> string list" where
  "auth_texts a = [ra_Type a, ra_Token a, ra_HeaderName a, ra_ClientID a, ra_ClientSecret a, ra_AuthURL a, ra_TokenURL a, ra_Scopes a, ra_AccessToken a,
     ra_RefreshToken a, ra_TokenExpiry a, ra_RegisteredRedirectURI a, ra_RegistrationEndpoint a]"

definition clean_config :: "RemoteConfig \<Rightarrow> bool" where
  "clean_config c \<longleftrightarrow> utf8_valid (rc_URL c) \<and> list_all utf8_valid (auth_texts (rc_Auth c))"

lemma encode_auth_object: "encode_auth a = print_object (auth_members a)"
proof -
  have "map (\<lambda>(k, v). marshal_str k @ '':'' @ v) (opt_pair n v) = opt_str_member n v" for n v by (simp add: opt_pair_def opt_str_member_def str_member_def)
  then show ?thesis by (simp add: encode_auth_def print_object_def print_members_def auth_members_def str_member_def)
qed

lemma encode_remote_object: "encode_remote c = print_object [(''url'', marshal_str (rc_URL c)), (''auth'', encode_auth (rc_Auth c))]"
  by (simp add: encode_remote_def print_object_def print_members_def str_member_def)

lemma field_values_append: "field_values n (xs @ ys) = field_values n xs @ field_values n ys"
  by (simp add: field_values_def)

lemma field_values_opt: "field_values n (opt_pair m v) = (if fold_name m = fold_name n \<and> v \<noteq> [] then [marshal_str v] else [])"
  by (auto simp: field_values_def opt_pair_def)

lemma field_values_Cons: "field_values n ((k, v) # kvs) = (if fold_name k = fold_name n then [v] else []) @ field_values n kvs"
  by (simp add: field_values_def)

lemma str_field_printed: "utf8_valid v \<Longrightarrow> str_field cur [marshal_str v] = (v, True)"
  by (simp add: json_text_shape [OF json_text_str])

lemma str_field_opt: "utf8_valid v \<Longrightarrow> str_field [] (if v \<noteq> [] then [marshal_str v] else []) = (v, True)"
  by (simp add: str_field_printed del: str_field.simps(2))

lemma ascii_valid: "list_all (\<lambda>c. ord c < 128) s \<Longrightarrow> utf8_valid s"
  by (induction s) auto

lemma auth_names:
  "utf8_valid ''type''" "utf8_valid ''token''" "utf8_valid ''header_name''" "utf8_valid ''client_id''" "utf8_valid ''client_secret''" "utf8_valid ''auth_url''"
  "utf8_valid ''token_url''" "utf8_valid ''scopes''" "utf8_valid ''access_token''" "utf8_valid ''refresh_token''" "utf8_valid ''token_expiry''"
  "utf8_valid ''registered_redirect_uri''" "utf8_valid ''registration_endpoint''" "utf8_valid ''url''" "utf8_valid ''auth''"
  by (rule ascii_valid, simp add: ord_def)+

lemma auth_folds:
  "fold_name ''type'' = ''TYPE''" "fold_name ''token'' = ''TOKEN''" "fold_name ''header_name'' = ''HEADER_NAME''" "fold_name ''client_id'' = ''CLIENT_ID''"
  "fold_name ''client_secret'' = ''CLIENT_SECRET''" "fold_name ''auth_url'' = ''AUTH_URL''" "fold_name ''token_url'' = ''TOKEN_URL''" "fold_name ''scopes'' = ''SCOPES''"
  "fold_name ''access_token'' = ''ACCESS_TOKEN''" "fold_name ''refresh_token'' = ''REFRESH_TOKEN''" "fold_name ''token_expiry'' = ''TOKEN_EXPIRY''"
  "fold_name ''registered_redirect_uri'' = ''REGISTERED_REDIRECT_URI''" "fold_name ''registration_endpoint'' = ''REGISTRATION_ENDPOINT''"
  "fold_name ''url'' = ''URL''" "fold_name ''auth'' = ''AUTH''"
  by code_simp+

definition printable :: "(string \<times> string) list \<Rightarrow> bool" where
  "printable kvs \<longleftrightarrow> list_all (\<lambda>(k, v). utf8_valid k \<and> (\<exists>sv. json_text v sv)) kvs"

lemma printable_simps: "printable []" "printable (xs @ ys) \<longleftrightarrow> printable xs \<and> printable ys"
  "printable ((k, v) # kvs) \<longleftrightarrow> utf8_valid k \<and> (\<exists>sv. json_text v sv) \<and> printable kvs"
  by (simp_all add: printable_def)

lemma printable_opt: "utf8_valid n \<Longrightarrow> utf8_valid v \<Longrightarrow> printable (opt_pair n v)"
  using json_text_str [of v] by (auto simp: opt_pair_def printable_simps)

lemma auth_members_ok: "list_all utf8_valid (auth_texts a) \<Longrightarrow> printable (auth_members a)"
  using json_text_str [of "ra_Type a"]
  by (simp only: auth_members_def auth_texts_def list.pred_inject printable_simps) (intro conjI printable_opt auth_names; blast)

lemma decode_auth_printed: "list_all utf8_valid (auth_texts a) \<Longrightarrow> decode_auth (auth_members a) = (a, True)"
  by (simp add: decode_auth_def auth_members_def auth_texts_def field_values_append field_values_opt field_values_Cons field_values_def [of _ "[]"] auth_folds str_field_printed Let_def
      del: utf8_valid.simps str_field.simps(2) fold_name.simps)

lemma decode_encode_remote:
  assumes "clean_config c"
  shows "decode_remote (encode_remote c) = Some c"
proof -
  let ?a = "rc_Auth c"
  have ok: "list_all utf8_valid (auth_texts ?a)" "utf8_valid (rc_URL c)" using assms by (simp_all add: clean_config_def)
  have inner: "json_text (encode_auth ?a) (SObj (auth_members ?a))" unfolding encode_auth_object by (rule json_text_object [OF auth_members_ok [OF ok(1), unfolded printable_def]])
  then have "decode_members (encode_auth ?a) = Some (auth_members ?a)" by (simp add: decode_members_def json_text_shape)
  moreover have "decode_members (encode_remote c) = Some [(''url'', marshal_str (rc_URL c)), (''auth'', encode_auth ?a)]"
    unfolding encode_remote_object using inner json_text_str [OF ok(2)] by (intro decode_print_object) (auto simp: auth_names simp del: utf8_valid.simps)
  ultimately show ?thesis using decode_auth_printed [OF ok(1)]
    by (simp add: decode_remote_def field_values_Cons field_values_def [of _ "[]"] auth_folds str_field_printed [OF ok(2)] del: str_field.simps(2) fold_name.simps)
qed

definition gcm_opens_own :: "ConfigEncryptor \<Rightarrow> bool" where
  "gcm_opens_own enc \<longleftrightarrow> (case enc of None \<Rightarrow> True | Some g \<Rightarrow> \<forall>n p. g_open g (g_seal g n p) = Some p)"

lemma update_then_config:
  assumes up: "update_auth env io sid cfg db = (db', Inr ())" and row: "sql_row (\<lambda>s. sv_ID s = sid) (db_servers db) = Some srv"
    and enc: "gcm_opens_own (oc_enc env)" and clean: "clean_config cfg" and env': "oc_enc env' = oc_enc env" "oc_io env' 0"
  shows "\<exists>s. ServerStore_Get (oc_enc env') (oc_io env') sid db' = Inr (Some s) \<and> decode_remote (sv_Config s) = Some cfg"
proof -
  have head: "\<not> has_prefix (encode_remote cfg) encryptedPrefix" by (simp add: encode_remote_def encryptedPrefix_def has_prefix_def)
  from up obtain stored where st: "Encrypt (oc_enc env) (oc_nonce env) (encode_remote cfg) = Inr stored"
    and db': "db_servers db' = sql_update (\<lambda>s. sv_ID s = sid) (\<lambda>s. s\<lparr>sv_Config := stored, sv_UpdatedAt := oc_now env\<rparr>) (db_servers db)"
    by (auto simp: update_auth_def ServerStore_UpdateConfig_def exec_def stmt_def update_server_def split: sum.splits if_splits)
  have "Decrypt (oc_enc env) stored = Inr (encode_remote cfg)"
    using st enc head by (auto simp: Encrypt_def Decrypt_def gcm_opens_own_def has_prefix_def trim_prefix_def split: option.splits)
  moreover have "sql_row (\<lambda>s. sv_ID s = sid) (db_servers db') = Some (srv\<lparr>sv_Config := stored, sv_UpdatedAt := oc_now env\<rparr>)"
    using row sql_row_SomeD [OF row] by (simp add: db' sql_row_update)
  ultimately show ?thesis using env' decode_encode_remote [OF clean]
    by (simp add: ServerStore_Get_def find_server_def open_config_def res_bind_def stmt_def)
qed

text \<open>
  C27. Tokens survive a restart: when storing the tokens of a server succeeded, a manager that starts with empty memory finds the same
  access and refresh token in the database, with their expiry to the second. The encryption of stored configurations is
  undone on the way.
\<close>

theorem stored_tokens_are_found_again:
  assumes saved: "saveTokens env io sid cfg ts db = (db', Inr ())" and row: "sql_row (\<lambda>s. sv_ID s = sid) (db_servers db) = Some srv"
    and enc: "gcm_opens_own (oc_enc env)" and clean: "clean_config (with_tokens env ts cfg)" and acc: "ts_AccessToken ts \<noteq> []"
    and times: "\<And>t. oc_fmt env t \<noteq> [] \<and> oc_ptime env' (oc_fmt env t) = Some (t - t mod second)"
    and env': "oc_enc env' = oc_enc env" "oc_io env' 0"
  shows "GetTokenInfo env' sid (NewOAuthManager, db') =
    ((NewOAuthManager\<lparr>om_tokens := [sid \<mapsto> ts\<lparr>ts_TokenType := [], ts_ExpiresAt := map_option (\<lambda>t. t - t mod second) (ts_ExpiresAt ts)\<rparr>]\<rparr>, db'),
     Some (ts\<lparr>ts_TokenType := [], ts_ExpiresAt := map_option (\<lambda>t. t - t mod second) (ts_ExpiresAt ts)\<rparr>))"
proof -
  obtain s where "ServerStore_Get (oc_enc env') (oc_io env') sid db' = Inr (Some s)" "decode_remote (sv_Config s) = Some (with_tokens env ts cfg)"
    using update_then_config [OF saved [unfolded saveTokens_def] row enc clean env'] by blast
  then have "loadTokens env' sid db' = Inr (Some (ts\<lparr>ts_TokenType := [], ts_ExpiresAt := map_option (\<lambda>t. t - t mod second) (ts_ExpiresAt ts)\<rparr>))"
    using acc times by (cases "ts_ExpiresAt ts") (simp_all add: loadTokens_def config_tokens_def with_tokens_def Let_def)
  then show ?thesis by (simp add: GetTokenInfo_def NewOAuthManager_def)
qed

section \<open>Flows\<close>

text \<open>
  What happens to the manager over time: flows are started and called back, pending ones are cleaned up, and other operations
  leave the pending flows alone.
\<close>

datatype flow_op =
    FlowStart oc_env "string option" "string option" string RemoteAuth
  | FlowCallback oc_env string string
  | FlowCleanup time
  | FlowOther "string \<Rightarrow> TokenSet option" relay_db

fun flow_step :: "flow_op \<Rightarrow> OAuthManager \<times> relay_db \<Rightarrow> OAuthManager \<times> relay_db" where
  "flow_step (FlowStart env v st sid auth) (m, db) = (fst (StartAuthFlow env v st sid auth m), db)"
| "flow_step (FlowCallback env st code) s = fst (HandleCallback env st code s)"
| "flow_step (FlowCleanup now) (m, db) = (cleanupPending now m, db)"
| "flow_step (FlowOther tokens db') (m, db) = (m\<lparr>om_tokens := tokens\<rparr>, db')"

definition flow_run :: "flow_op list \<Rightarrow> OAuthManager \<times> relay_db \<Rightarrow> OAuthManager \<times> relay_db" where
  "flow_run ops s = fold flow_step ops s"

fun calls_back :: "string \<Rightarrow> flow_op \<Rightarrow> bool" where
  "calls_back st (FlowCallback env st' code) = (st' = st)"
| "calls_back st _ = False"

text \<open>A flow was started for its server, at its time and with its verifier, and was not called back since.\<close>

definition started :: "flow_op list \<Rightarrow> PendingAuth \<Rightarrow> bool" where
  "started ops pa \<longleftrightarrow> (\<exists>pre env auth rest. ops = pre @ FlowStart env (Some (pa_CodeVerifier pa)) (Some (pa_State pa)) (pa_ServerID pa) auth # rest \<and>
     oc_now env = pa_CreatedAt pa \<and> list_all (\<lambda>op. \<not> calls_back (pa_State pa) op) rest)"

lemma started_snoc: "started ops pa \<Longrightarrow> \<not> calls_back (pa_State pa) op \<Longrightarrow> started (ops @ [op]) pa"
  unfolding started_def by fastforce

lemma HandleCallback_pending: "om_pending (fst (fst (HandleCallback env st code (m, db)))) = filter (\<lambda>pa. pa_State pa \<noteq> st) (om_pending m)"
proof (cases "find_pending st m")
  case None
  then have "filter (\<lambda>pa. pa_State pa \<noteq> st) (om_pending m) = om_pending m" by (auto simp: find_pending_def find_None_iff filter_id_conv)
  with None show ?thesis by (simp add: HandleCallback_def)
qed (simp add: HandleCallback_def Let_def drop_pending_def split: sum.split prod.split)

lemma StartAuthFlow_pending:
  "om_pending (fst (StartAuthFlow env v st sid auth m)) = om_pending m \<or>
   (\<exists>v' s. v = Some v' \<and> st = Some s \<and> length (om_pending m) < maxPendingFlows \<and> om_pending (fst (StartAuthFlow env v st sid auth m)) =
     filter (\<lambda>pa. pa_State pa \<noteq> s) (om_pending m) @ [\<lparr>pa_ServerID = sid, pa_CodeVerifier = v', pa_State = s, pa_CreatedAt = oc_now env\<rparr>])"
  by (auto simp: StartAuthFlow_def Let_def drop_pending_def split: option.split)

lemma flow_pending_started: "pa \<in> set (om_pending (fst (flow_run ops (NewOAuthManager, db)))) \<Longrightarrow> started ops pa"
proof (induction ops arbitrary: pa rule: rev_induct)
  case Nil
  then show ?case by (simp add: flow_run_def NewOAuthManager_def)
next
  case (snoc op ops)
  obtain m db1 where s: "flow_run ops (NewOAuthManager, db) = (m, db1)" by fastforce
  from snoc.prems have mem: "pa \<in> set (om_pending (fst (flow_step op (m, db1))))" using s by (simp add: flow_run_def)
  have keep: "started (ops @ [op]) pa" if "pa \<in> set (om_pending m)" "\<not> calls_back (pa_State pa) op" using snoc.IH [of pa] s that started_snoc by simp
  show ?case
  proof (cases op)
    case (FlowStart env v st sid auth)
    with mem StartAuthFlow_pending [of env v st sid auth m] consider "pa \<in> set (om_pending m)"
      | s where "st = Some s" "v = Some (pa_CodeVerifier pa)" "pa_ServerID pa = sid" "pa_State pa = s" "pa_CreatedAt pa = oc_now env" by fastforce
    then show ?thesis
    proof cases
      case 1
      with keep FlowStart show ?thesis by simp
    next
      case 2
      then show ?thesis unfolding started_def FlowStart by (intro exI [of _ ops] exI [of _ env] exI [of _ auth] exI [of _ "[]"]) simp
    qed
  next
    case (FlowCallback env st code)
    with mem HandleCallback_pending [of env st code m db1] keep show ?thesis by auto
  qed (use mem keep in \<open>auto simp: cleanupPending_def\<close>)
qed

text \<open>
  C26. Tokens are stored only for a flow this relay started. When a callback succeeds, its state was handed out for exactly
  that server at most ten minutes before, no callback has used the state since, and the authorization code was redeemed with
  the PKCE verifier of that start, at the token endpoint and with the client of the stored configuration.
\<close>

theorem oauth_callback_sound:
  assumes run: "flow_run ops (NewOAuthManager, db0) = (m, db)" and ok: "HandleCallback env st code (m, db) = ((m', db'), Inr sid)"
  shows "\<exists>pre env0 v auth0 rest cfg ts. ops = pre @ FlowStart env0 (Some v) (Some st) sid auth0 # rest \<and> list_all (\<lambda>op. \<not> calls_back st op) rest \<and>
    oc_now env \<le> oc_now env0 + 10 * minute \<and> server_config env sid db = Inr cfg \<and>
    exchangeCode env (rc_Auth cfg) code v (CallbackURL env) = Inr ts \<and> om_tokens m' sid = Some ts"
proof -
  from ok obtain pa cfg ts where pa: "find_pending st m = Some pa" "pa_ServerID pa = sid" "\<not> pendingAuthExpiry < oc_now env - pa_CreatedAt pa"
    and cfg: "server_config env sid db = Inr cfg" "exchangeCode env (rc_Auth cfg) code (pa_CodeVerifier pa) (CallbackURL env) = Inr ts" "om_tokens m' sid = Some ts"
    by (auto simp: HandleCallback_def Let_def split: option.splits if_splits sum.splits prod.splits)
  from pa(1) have "pa \<in> set (om_pending m)" "pa_State pa = st" by (auto simp: find_pending_def find_Some_iff)
  with flow_pending_started [of pa ops db0] run have "started ops pa" "pa_State pa = st" by simp_all
  then obtain pre env0 auth0 rest where "ops = pre @ FlowStart env0 (Some (pa_CodeVerifier pa)) (Some st) sid auth0 # rest" "oc_now env0 = pa_CreatedAt pa"
    "list_all (\<lambda>op. \<not> calls_back st op) rest" using pa(2) by (auto simp: started_def)
  with pa(3) cfg show ?thesis by (intro exI conjI) (auto simp: pendingAuthExpiry_def)
qed

text \<open>However flows are started and abandoned, at most a hundred are kept.\<close>

lemma pending_flows_bounded: "length (om_pending (fst (flow_run ops (NewOAuthManager, db)))) \<le> maxPendingFlows"
proof (induction ops rule: rev_induct)
  case Nil
  then show ?case by (simp add: flow_run_def NewOAuthManager_def)
next
  case (snoc op ops)
  obtain m db1 where s: "flow_run ops (NewOAuthManager, db) = (m, db1)" by fastforce
  with snoc have le: "length (om_pending m) \<le> maxPendingFlows" by simp
  have "length (om_pending (fst (flow_step op (m, db1)))) \<le> maxPendingFlows"
  proof (cases op)
    case (FlowStart env v st sid auth)
    with le StartAuthFlow_pending [of env v st sid auth m] show ?thesis
      by (auto simp: Suc_le_eq intro: le_less_trans [OF length_filter_le])
  next
    case (FlowCallback env st code)
    with le HandleCallback_pending [of env st code m db1] show ?thesis by (simp add: le_trans [OF length_filter_le])
  qed (use le in \<open>auto simp: cleanupPending_def intro: le_trans [OF length_filter_le]\<close>)
  with s show ?case by (simp add: flow_run_def)
qed

section \<open>Examples\<close>

definition demo_remote_cfg :: RemoteConfig where
  "demo_remote_cfg = \<lparr>rc_URL = ''u'', rc_Auth = \<lparr>ra_Type = ''oauth'', ra_Token = [], ra_HeaderName = [], ra_ClientID = ''c'', ra_ClientSecret = [], ra_AuthURL = ''a'',
     ra_TokenURL = ''t'', ra_Scopes = [], ra_AccessToken = [], ra_RefreshToken = [], ra_TokenExpiry = [], ra_RegisteredRedirectURI = [], ra_RegistrationEndpoint = []\<rparr>\<rparr>"

definition demo_remote_db :: relay_db where
  "demo_remote_db = empty_db\<lparr>db_servers := [demo_server\<lparr>sv_Config := encode_remote demo_remote_cfg\<rparr>]\<rparr>"

definition unary_time :: "time \<Rightarrow> string" where
  "unary_time t = (if 0 \<le> t div second then CHR ''+'' else CHR ''-'') # replicate (nat \<bar>t div second\<bar>) (CHR ''1'')"

definition demo_oc :: "time \<Rightarrow> oc_env" where
  "demo_oc now = \<lparr>oc_enc = None, oc_io = no_faults, oc_now = now, oc_nonce = None, oc_base = ''b'', oc_crypto = demo_crypto,
     oc_parse = (\<lambda>_. Some \<lparr>pu_Scheme = ''https'', pu_Opaque = [], pu_User = False, pu_Host = ''h'', pu_Hostname = ''h'', pu_Path = [], pu_RawQuery = []\<rparr>),
     oc_post = (\<lambda>_ _. Inr (200, jtext ''{~access_token~:~x~}'')), oc_get = (\<lambda>_. None), oc_register = (\<lambda>_ _. None),
     oc_fmt = unary_time, oc_ptime = (\<lambda>s. Some ((if hd s = CHR ''+'' then 1 else - 1) * int (length s - 1) * second))\<rparr>"

definition demo_token :: TokenSet where
  "demo_token = \<lparr>ts_AccessToken = ''x'', ts_RefreshToken = [], ts_TokenType = [], ts_ExpiresAt = None\<rparr>"

lemma demo_remote_clean: "clean_config demo_remote_cfg" "clean_config (with_tokens (demo_oc now) demo_token demo_remote_cfg)"
  by (simp_all add: clean_config_def auth_texts_def demo_remote_cfg_def with_tokens_def demo_token_def ord_def)

lemma demo_remote_row: "sql_row (\<lambda>s. sv_ID s = ''s1'') (db_servers demo_remote_db) = Some (demo_server\<lparr>sv_Config := encode_remote demo_remote_cfg\<rparr>)"
  by (simp add: demo_remote_db_def demo_server_def)

lemma demo_oauth_config: "server_config (demo_oc now) ''s1'' demo_remote_db = Inr demo_remote_cfg"
proof -
  have "\<not> has_prefix (encode_remote demo_remote_cfg) encryptedPrefix" by (simp add: encode_remote_def encryptedPrefix_def has_prefix_def)
  then show ?thesis using demo_remote_row decode_encode_remote [OF demo_remote_clean(1)]
    by (simp add: server_config_def ServerStore_Get_def find_server_def open_config_def Decrypt_def demo_oc_def)
qed

lemma demo_exchange: "exchangeCode (demo_oc now) auth code v cb = Inr demo_token"
proof -
  have "decode_members (jtext ''{~access_token~:~x~}'') = Some [(''access_token'', marshal_str ''x'')]" by code_simp
  moreover have "str_field [] (field_values ''access_token'' [(''access_token'', marshal_str ''x'')]) = (''x'', True)"
    "field_values ''refresh_token'' [(''access_token'', marshal_str ''x'')] = []" "field_values ''token_type'' [(''access_token'', marshal_str ''x'')] = []"
    "field_values ''expires_in'' [(''access_token'', marshal_str ''x'')] = []" by code_simp+
  ultimately show ?thesis by (simp add: exchangeCode_def tokenRequest_def demo_oc_def decode_token_reply_def demo_token_def)
qed

lemma demo_saved: "\<exists>db'. saveTokens (demo_oc now) io ''s1'' demo_remote_cfg demo_token demo_remote_db = (db', Inr ())" if "io 0"
  using that by (simp add: saveTokens_def update_auth_def ServerStore_UpdateConfig_def Encrypt_def demo_oc_def exec_def update_server_def demo_remote_db_def demo_server_def
      sql_has_def server_row_ok_def valid_defs)

theorem stored_tokens_are_found_again_witness:
  "\<exists>db'. saveTokens (demo_oc 0) no_faults ''s1'' demo_remote_cfg demo_token demo_remote_db = (db', Inr ()) \<and>
     snd (GetTokenInfo (demo_oc 9) ''s1'' (NewOAuthManager, db')) = Some demo_token"
proof -
  obtain db' where saved: "saveTokens (demo_oc 0) no_faults ''s1'' demo_remote_cfg demo_token demo_remote_db = (db', Inr ())" using demo_saved [of no_faults 0] by auto
  have times: "oc_fmt (demo_oc 0) t \<noteq> [] \<and> oc_ptime (demo_oc 9) (oc_fmt (demo_oc 0) t) = Some (t - t mod second)" for t
    by (simp add: demo_oc_def unary_time_def minus_mod_eq_div_mult)
  have "snd (GetTokenInfo (demo_oc 9) ''s1'' (NewOAuthManager, db')) = Some demo_token"
    by (subst stored_tokens_are_found_again [OF saved demo_remote_row _ demo_remote_clean(2) _ times])
      (simp_all add: gcm_opens_own_def demo_oc_def demo_token_def)
  with saved show ?thesis by blast
qed

theorem oauth_callback_sound_witness:
  "\<exists>m m' db'. flow_run [FlowStart (demo_oc 0) (Some ''v'') (Some ''st'') ''s1'' (rc_Auth demo_remote_cfg)] (NewOAuthManager, demo_remote_db) = (m, demo_remote_db) \<and>
     HandleCallback (demo_oc 5) ''st'' ''code'' (m, demo_remote_db) = ((m', db'), Inr ''s1'') \<and>
     (\<exists>(cfg :: RemoteConfig) ts. exchangeCode (demo_oc 5) (rc_Auth cfg) ''code'' ''v'' (CallbackURL (demo_oc 5)) = Inr ts \<and> om_tokens m' ''s1'' = Some ts)"
proof -
  let ?op = "FlowStart (demo_oc 0) (Some ''v'') (Some ''st'') ''s1'' (rc_Auth demo_remote_cfg)"
  obtain m where m: "flow_run [?op] (NewOAuthManager, demo_remote_db) = (m, demo_remote_db)" by (simp add: flow_run_def)
  have pend: "om_pending m = [\<lparr>pa_ServerID = ''s1'', pa_CodeVerifier = ''v'', pa_State = ''st'', pa_CreatedAt = 0\<rparr>]"
    using m by (auto simp: flow_run_def StartAuthFlow_def NewOAuthManager_def maxPendingFlows_def drop_pending_def demo_oc_def Let_def split: if_splits)
  obtain db' where saved: "saveTokens (demo_oc 5) (after_stmts 1 (oc_io (demo_oc 5))) ''s1'' demo_remote_cfg demo_token demo_remote_db = (db', Inr ())"
    using demo_saved [of "after_stmts 1 (oc_io (demo_oc 5))" 5] by (auto simp: demo_oc_def)
  have "oc_now (demo_oc 5) = 5" by (simp add: demo_oc_def)
  then obtain m' where ok: "HandleCallback (demo_oc 5) ''st'' ''code'' (m, demo_remote_db) = ((m', db'), Inr ''s1'')"
    using saved by (simp add: HandleCallback_def find_pending_def pend Let_def pendingAuthExpiry_def duration_defs demo_oauth_config demo_exchange)
  obtain pre env0 v auth0 rest cfg ts where c: "[?op] = pre @ FlowStart env0 (Some v) (Some ''st'') ''s1'' auth0 # rest \<and> list_all (\<lambda>op. \<not> calls_back ''st'' op) rest \<and>
    oc_now (demo_oc 5) \<le> oc_now env0 + 10 * minute \<and> server_config (demo_oc 5) ''s1'' demo_remote_db = Inr cfg \<and>
    exchangeCode (demo_oc 5) (rc_Auth cfg) ''code'' v (CallbackURL (demo_oc 5)) = Inr ts \<and> om_tokens m' ''s1'' = Some ts"
    using oauth_callback_sound [OF m ok] by (elim exE) (rule that)
  then have "v = ''v''" by (cases pre) auto
  with c have "exchangeCode (demo_oc 5) (rc_Auth cfg) ''code'' ''v'' (CallbackURL (demo_oc 5)) = Inr ts \<and> om_tokens m' ''s1'' = Some ts" by simp
  with m ok show ?thesis by blast
qed

end
