(* ===== verification/OAuth_Refresh.thy ===== *)
theory OAuth_Refresh
  imports OAuth_Client
begin

text \<open>
  Concurrent use of the tokens (\<open>GetAccessToken\<close>, \<open>ForceRefresh\<close> and \<open>refreshToken\<close> of \<open>internal/oauth/oauth.go\<close>):
  every call runs in a goroutine of its own, and a step is what happens between two points where the code takes its
  lock, reads or writes the database, talks to the provider or waits. A refresh in flight is an entry of
  \<open>rs_inflight\<close>; its channel is closed once \<open>rs_results\<close> has its outcome.
\<close>

section \<open>Calls and their steps\<close>

text \<open>The flag is true for \<open>GetAccessToken\<close>, which reads the tokens again after a refresh.\<close>

datatype call_pc =
    CallIdle
  | CallStart bool string
  | CallLoad string
  | CallStore string TokenSet
  | CallCheck string TokenSet
  | CallRefresh bool string
  | CallWait bool string nat
  | CallBegin bool string nat "TokenSet option"
  | CallRequest bool string nat TokenSet RemoteConfig
  | CallSave bool string nat TokenSet RemoteConfig "string + TokenSet"
  | CallCache bool string nat cache_change "string option"
  | CallUnregister bool string nat "string option"
  | CallClose bool string nat "string option"
  | CallReread string
  | CallDone "string + string"
  | CallPanic

record refresh_state =
  rs_tokens :: "string \<Rightarrow> TokenSet option"
  rs_db :: relay_db
  rs_inflight :: "string \<Rightarrow> nat option"
  rs_results :: "nat \<Rightarrow> string option option"
  rs_next :: nat
  rs_pc :: "nat \<Rightarrow> call_pc"

definition goto :: "nat \<Rightarrow> call_pc \<Rightarrow> refresh_state \<Rightarrow> refresh_state" where
  "goto g pc s = s\<lparr>rs_pc := (rs_pc s)(g := pc)\<rparr>"

definition refreshed :: "bool \<Rightarrow> string \<Rightarrow> string option \<Rightarrow> call_pc" where
  "refreshed k sid err = (case err of Some e \<Rightarrow> CallDone (Inl (if k then ''refreshing token: '' @ e else e)) | None \<Rightarrow> if k then CallReread sid else CallDone (Inr []))"

text \<open>The next step of a refresh (\<open>refreshToken\<close>); \<open>None\<close> when it waits.\<close>

definition refresh_step :: "oc_env \<Rightarrow> nat \<Rightarrow> refresh_state \<Rightarrow> refresh_state option" where
  "refresh_step env g s =
     (case rs_pc s g of
        CallRefresh k sid \<Rightarrow>
          (case rs_inflight s sid of
             Some n \<Rightarrow> Some (goto g (CallWait k sid n) s)
           | None \<Rightarrow> Some (goto g (CallBegin k sid (rs_next s) (rs_tokens s sid)) (s\<lparr>rs_inflight := (rs_inflight s)(sid \<mapsto> rs_next s), rs_next := Suc (rs_next s)\<rparr>)))
      | CallWait k sid n \<Rightarrow> (case rs_results s n of None \<Rightarrow> None | Some err \<Rightarrow> Some (goto g (refreshed k sid err) s))
      | CallBegin k sid n ts \<Rightarrow>
          Some (goto g (case refresh_begin env sid ts (rs_db s) of Inl e \<Rightarrow> CallUnregister k sid n (Some e) | Inr (t, cfg) \<Rightarrow> CallRequest k sid n t cfg) s)
      | CallRequest k sid n ts cfg \<Rightarrow>
          (case refresh_call env sid ts cfg (rs_db s) of (db', cfg', res) \<Rightarrow> Some (goto g (CallSave k sid n ts cfg' res) (s\<lparr>rs_db := db'\<rparr>)))
      | CallSave k sid n ts cfg res \<Rightarrow>
          (case refresh_store env sid ts cfg res (rs_db s) of (db', c, err) \<Rightarrow> Some (goto g (CallCache k sid n c err) (s\<lparr>rs_db := db'\<rparr>)))
      | CallCache k sid n c err \<Rightarrow> Some (goto g (CallUnregister k sid n err) (s\<lparr>rs_tokens := apply_cache sid c (rs_tokens s)\<rparr>))
      | CallUnregister k sid n err \<Rightarrow> Some (goto g (CallClose k sid n err) (s\<lparr>rs_inflight := (rs_inflight s)(sid := None)\<rparr>))
      | CallClose k sid n err \<Rightarrow> Some (goto g (refreshed k sid err) (s\<lparr>rs_results := (rs_results s)(n \<mapsto> err)\<rparr>))
      | _ \<Rightarrow> None)"

text \<open>The next step of a call, \<open>None\<close> when it waits or has ended. Reading the missing tokens after a refresh is the nil dereference of the code.\<close>

definition call_step :: "oc_env \<Rightarrow> nat \<Rightarrow> refresh_state \<Rightarrow> refresh_state option" where
  "call_step env g s =
     (case rs_pc s g of
        CallStart k sid \<Rightarrow>
          Some (goto g (if k then (case rs_tokens s sid of Some ts \<Rightarrow> CallCheck sid ts | None \<Rightarrow> CallLoad sid) else CallRefresh False sid) s)
      | CallLoad sid \<Rightarrow>
          Some (goto g (case loadTokens env sid (rs_db s) of
            Inl e \<Rightarrow> CallDone (Inl (''loading tokens: '' @ e)) | Inr None \<Rightarrow> CallDone (Inl (''no OAuth tokens for server '' @ sid)) | Inr (Some ts) \<Rightarrow> CallStore sid ts) s)
      | CallStore sid ts \<Rightarrow> Some (goto g (CallCheck sid ts) (s\<lparr>rs_tokens := (rs_tokens s)(sid \<mapsto> ts)\<rparr>))
      | CallCheck sid ts \<Rightarrow> Some (goto g (if IsExpired (oc_now env) ts then CallRefresh True sid else CallDone (Inr (ts_AccessToken ts))) s)
      | CallReread sid \<Rightarrow> Some (goto g (case rs_tokens s sid of Some ts \<Rightarrow> CallDone (Inr (ts_AccessToken ts)) | None \<Rightarrow> CallPanic) s)
      | _ \<Rightarrow> refresh_step env g s)"

text \<open>
  A call can start at any time, a waiting one can be cancelled by its context, and other operations - callbacks, new registrations,
  edits of the configuration - can change the tokens and the database.
\<close>

inductive refresh_trans :: "refresh_state \<Rightarrow> refresh_state \<Rightarrow> bool" where
  trans_step: "call_step env g s = Some s' \<Longrightarrow> refresh_trans s s'"
| trans_call: "rs_pc s g = CallIdle \<Longrightarrow> refresh_trans s (goto g (CallStart k sid) s)"
| trans_cancel: "rs_pc s g = CallWait k sid n \<Longrightarrow> refresh_trans s (goto g (refreshed k sid (Some e)) s)"
| trans_other: "refresh_trans s (s\<lparr>rs_tokens := tokens, rs_db := db\<rparr>)"

definition refresh_init :: "relay_db \<Rightarrow> refresh_state" where
  "refresh_init db = \<lparr>rs_tokens = Map.empty, rs_db = db, rs_inflight = Map.empty, rs_results = Map.empty, rs_next = 0, rs_pc = (\<lambda>_. CallIdle)\<rparr>"

abbreviation refresh_reach :: "relay_db \<Rightarrow> refresh_state \<Rightarrow> bool" where
  "refresh_reach db s \<equiv> refresh_trans\<^sup>*\<^sup>* (refresh_init db) s"

section \<open>One refresh at a time\<close>

text \<open>The refresh a call carries out, with its server, from the registration to the removal of the entry.\<close>

fun refreshing_pc :: "call_pc \<Rightarrow> (string \<times> nat) option" where
  "refreshing_pc (CallBegin k sid n ts) = Some (sid, n)"
| "refreshing_pc (CallRequest k sid n ts cfg) = Some (sid, n)"
| "refreshing_pc (CallSave k sid n ts cfg res) = Some (sid, n)"
| "refreshing_pc (CallCache k sid n c err) = Some (sid, n)"
| "refreshing_pc (CallUnregister k sid n err) = Some (sid, n)"
| "refreshing_pc _ = None"

text \<open>The channel a call will close.\<close>

fun owes :: "call_pc \<Rightarrow> nat option" where
  "owes (CallClose k sid n err) = Some n"
| "owes pc = map_option snd (refreshing_pc pc)"

fun waits_for :: "call_pc \<Rightarrow> nat option" where
  "waits_for (CallWait k sid n) = Some n"
| "waits_for _ = None"

definition refresh_inv :: "refresh_state \<Rightarrow> bool" where
  "refresh_inv s \<longleftrightarrow>
     (\<forall>g sid n. refreshing_pc (rs_pc s g) = Some (sid, n) \<longrightarrow> rs_inflight s sid = Some n) \<and>
     (\<forall>sid n. rs_inflight s sid = Some n \<longrightarrow> (\<exists>g. refreshing_pc (rs_pc s g) = Some (sid, n))) \<and>
     (\<forall>g g' n. owes (rs_pc s g) = Some n \<longrightarrow> owes (rs_pc s g') = Some n \<longrightarrow> g = g') \<and>
     (\<forall>g n. owes (rs_pc s g) = Some n \<longrightarrow> n < rs_next s) \<and>
     (\<forall>g n. waits_for (rs_pc s g) = Some n \<longrightarrow> rs_results s n \<noteq> None \<or> (\<exists>g'. owes (rs_pc s g') = Some n))"

lemma owes_refreshing: "refreshing_pc pc = Some (sid, n) \<Longrightarrow> owes pc = Some n"
  by (cases pc) auto

lemma refresh_inv_init: "refresh_inv (refresh_init db)"
  by (simp add: refresh_inv_def refresh_init_def)

lemma refreshed_pc [simp]: "refreshing_pc (refreshed k sid err) = None" "owes (refreshed k sid err) = None" "waits_for (refreshed k sid err) = None"
  by (simp_all add: refreshed_def split: option.split)

lemma goto_sels [simp]: "rs_pc (goto g pc s) h = (if h = g then pc else rs_pc s h)" "rs_inflight (goto g pc s) = rs_inflight s"
  "rs_results (goto g pc s) = rs_results s" "rs_next (goto g pc s) = rs_next s" "rs_tokens (goto g pc s) = rs_tokens s" "rs_db (goto g pc s) = rs_db s"
  by (simp_all add: goto_def)

lemma refresh_inv_data [simp]: "refresh_inv (s\<lparr>rs_tokens := t\<rparr>) = refresh_inv s" "refresh_inv (s\<lparr>rs_db := db\<rparr>) = refresh_inv s"
  by (simp_all add: refresh_inv_def)

lemma refresh_invI:
  assumes "\<And>g sid n. refreshing_pc (rs_pc s g) = Some (sid, n) \<Longrightarrow> rs_inflight s sid = Some n"
    and "\<And>sid n. rs_inflight s sid = Some n \<Longrightarrow> \<exists>g. refreshing_pc (rs_pc s g) = Some (sid, n)"
    and "\<And>g g' n. owes (rs_pc s g) = Some n \<Longrightarrow> owes (rs_pc s g') = Some n \<Longrightarrow> g = g'"
    and "\<And>g n. owes (rs_pc s g) = Some n \<Longrightarrow> n < rs_next s"
    and "\<And>g n. waits_for (rs_pc s g) = Some n \<Longrightarrow> rs_results s n = None \<Longrightarrow> \<exists>g'. owes (rs_pc s g') = Some n"
  shows "refresh_inv s"
  using assms unfolding refresh_inv_def by blast

lemma refresh_invD:
  assumes "refresh_inv s"
  shows "refreshing_pc (rs_pc s g) = Some (sid, n) \<Longrightarrow> rs_inflight s sid = Some n"
    and "rs_inflight s sid = Some n \<Longrightarrow> \<exists>g. refreshing_pc (rs_pc s g) = Some (sid, n)"
    and "owes (rs_pc s g) = Some n \<Longrightarrow> owes (rs_pc s g') = Some n \<Longrightarrow> g = g'"
    and "owes (rs_pc s g) = Some n \<Longrightarrow> n < rs_next s"
    and "waits_for (rs_pc s g) = Some n \<Longrightarrow> rs_results s n = None \<Longrightarrow> \<exists>g'. owes (rs_pc s g') = Some n"
  using assms unfolding refresh_inv_def by blast+

lemma kept_elsewhere: "\<exists>h. f (rs_pc s h) = v \<Longrightarrow> f (rs_pc s g) \<noteq> v \<Longrightarrow> rs_pc s' = rs_pc s \<Longrightarrow> \<exists>h. f (rs_pc (goto g pc s') h) = v"
  by (metis goto_sels(1))

lemma refresh_inv_move:
  assumes inv: "refresh_inv s" and same: "refreshing_pc pc = refreshing_pc (rs_pc s g)" "owes pc = owes (rs_pc s g)"
    and wait: "\<And>n. waits_for pc = Some n \<Longrightarrow> \<exists>sid. rs_inflight s sid = Some n"
  shows "refresh_inv (goto g pc s)"
proof (rule refresh_invI, unfold goto_sels(2-4))
  have pcs: "refreshing_pc (rs_pc (goto g pc s) h) = refreshing_pc (rs_pc s h)" "owes (rs_pc (goto g pc s) h) = owes (rs_pc s h)" for h using same by simp_all
  show "rs_inflight s sid = Some m" if "refreshing_pc (rs_pc (goto g pc s) h) = Some (sid, m)" for h sid m using that unfolding pcs by (rule refresh_invD(1) [OF inv])
  show "\<exists>h. refreshing_pc (rs_pc (goto g pc s) h) = Some (sid, m)" if "rs_inflight s sid = Some m" for sid m unfolding pcs using refresh_invD(2) [OF inv that] .
  show "h = h'" if "owes (rs_pc (goto g pc s) h) = Some m" "owes (rs_pc (goto g pc s) h') = Some m" for h h' m using that unfolding pcs by (rule refresh_invD(3) [OF inv])
  show "m < rs_next s" if "owes (rs_pc (goto g pc s) h) = Some m" for h m using that unfolding pcs by (rule refresh_invD(4) [OF inv])
  show "\<exists>g'. owes (rs_pc (goto g pc s) g') = Some m" if "waits_for (rs_pc (goto g pc s) h) = Some m" "rs_results s m = None" for h m
  proof (cases "h = g")
    case True
    with that(1) obtain sid where "rs_inflight s sid = Some m" using wait [of m] by auto
    then show ?thesis unfolding pcs using refresh_invD(2) [OF inv, of sid m] owes_refreshing by blast
  next
    case False
    with that refresh_invD(5) [OF inv, of h m] show ?thesis unfolding pcs by simp
  qed
qed

lemma refresh_inv_wait: "refresh_inv s \<Longrightarrow> rs_pc s g = CallRefresh k sid \<Longrightarrow> rs_inflight s sid = Some n \<Longrightarrow> refresh_inv (goto g (CallWait k sid n) s)"
  by (rule refresh_inv_move) auto

lemma refresh_inv_register:
  assumes inv: "refresh_inv s" and pc: "rs_pc s g = CallRefresh k sid" and free: "rs_inflight s sid = None"
  shows "refresh_inv (goto g (CallBegin k sid (rs_next s) ts) (s\<lparr>rs_inflight := (rs_inflight s)(sid \<mapsto> rs_next s), rs_next := Suc (rs_next s)\<rparr>))"
    (is "refresh_inv ?s")
proof (rule refresh_invI)
  have old: "refreshing_pc (rs_pc s g) = None" "owes (rs_pc s g) = None" using pc by simp_all
  show "\<exists>h. refreshing_pc (rs_pc ?s h) = Some (sid', n)" if "rs_inflight ?s sid' = Some n" for sid' n
  proof (cases "sid' = sid")
    case False
    with that old show ?thesis by (intro kept_elsewhere [OF refresh_invD(2) [OF inv, of sid' n]]) auto
  qed (use that in \<open>auto intro!: exI [of _ g]\<close>)
  show "\<exists>h. owes (rs_pc ?s h) = Some n" if "waits_for (rs_pc ?s h) = Some n" "rs_results ?s n = None" for h n
    using that old by (intro kept_elsewhere [OF refresh_invD(5) [OF inv, of h n]]) (auto split: if_splits)
  show "h = h'" if "owes (rs_pc ?s h) = Some n" "owes (rs_pc ?s h') = Some n" for h h' n
    using that refresh_invD(4) [OF inv, of _ n] refresh_invD(3) [OF inv, of h n h'] by (auto split: if_splits)
qed (use inv free in \<open>auto dest: refresh_invD split: if_splits simp: less_Suc_eq\<close>)

lemma refresh_inv_unregister:
  assumes inv: "refresh_inv s" and pc: "rs_pc s g = CallUnregister k sid n err"
  shows "refresh_inv (goto g (CallClose k sid n err) (s\<lparr>rs_inflight := (rs_inflight s)(sid := None)\<rparr>))" (is "refresh_inv ?s")
proof (rule refresh_invI)
  have old: "refreshing_pc (rs_pc s g) = Some (sid, n)" "owes (rs_pc s g) = Some n" "rs_inflight s sid = Some n" using pc refresh_invD(1) [OF inv, of g] by simp_all
  have owes: "owes (rs_pc ?s h) = owes (rs_pc s h)" for h using pc by simp
  show "\<exists>h. refreshing_pc (rs_pc ?s h) = Some (sid', m)" if "rs_inflight ?s sid' = Some m" for sid' m
    using that old by (intro kept_elsewhere [OF refresh_invD(2) [OF inv, of sid' m]]) (auto split: if_splits)
  show "rs_inflight ?s sid' = Some m" if r: "refreshing_pc (rs_pc ?s h) = Some (sid', m)" for h sid' m
  proof -
    from r have h: "h \<noteq> g" "refreshing_pc (rs_pc s h) = Some (sid', m)" by (auto split: if_splits)
    then have "m \<noteq> n" using refresh_invD(3) [OF inv _ old(2), of h] owes_refreshing by blast
    with refresh_invD(1) [OF inv h(2)] old(3) show ?thesis by auto
  qed
  show "\<exists>h. owes (rs_pc ?s h) = Some m" if "waits_for (rs_pc ?s h) = Some m" "rs_results ?s m = None" for h m
    using that refresh_invD(5) [OF inv, of h m] unfolding owes by (auto split: if_splits)
  show "h = h'" if "owes (rs_pc ?s h) = Some m" "owes (rs_pc ?s h') = Some m" for h h' m
    using that unfolding owes by (rule refresh_invD(3) [OF inv])
  show "m < rs_next ?s" if "owes (rs_pc ?s h) = Some m" for h m using that refresh_invD(4) [OF inv, of h m] unfolding owes by simp
qed

lemma refresh_inv_close:
  assumes inv: "refresh_inv s" and pc: "rs_pc s g = CallClose k sid n err"
  shows "refresh_inv (goto g (refreshed k sid err) (s\<lparr>rs_results := (rs_results s)(n \<mapsto> err)\<rparr>))" (is "refresh_inv ?s")
proof (rule refresh_invI)
  have old: "refreshing_pc (rs_pc s g) = None" "owes (rs_pc s g) = Some n" using pc by simp_all
  show "\<exists>h. refreshing_pc (rs_pc ?s h) = Some (sid', m)" if "rs_inflight ?s sid' = Some m" for sid' m
    using that old by (intro kept_elsewhere [OF refresh_invD(2) [OF inv, of sid' m]]) (auto split: if_splits)
  show "\<exists>h. owes (rs_pc ?s h) = Some m" if "waits_for (rs_pc ?s h) = Some m" "rs_results ?s m = None" for h m
    using that old by (intro kept_elsewhere [OF refresh_invD(5) [OF inv, of h m]]) (auto split: if_splits)
  show "h = h'" if "owes (rs_pc ?s h) = Some m" "owes (rs_pc ?s h') = Some m" for h h' m
    using that by (auto split: if_splits intro: refresh_invD(3) [OF inv])
  show "m < rs_next ?s" if "owes (rs_pc ?s h) = Some m" for h m using that by (auto split: if_splits intro: refresh_invD(4) [OF inv])
  show "rs_inflight ?s sid' = Some m" if "refreshing_pc (rs_pc ?s h) = Some (sid', m)" for h sid' m
    using that by (auto split: if_splits intro: refresh_invD(1) [OF inv])
qed

lemma refresh_inv_step: "refresh_inv s \<Longrightarrow> call_step env g s = Some s' \<Longrightarrow> refresh_inv s'"
  by (cases "rs_pc s g")
    (auto simp: call_step_def refresh_step_def split: option.splits sum.splits prod.splits if_splits
      intro: refresh_inv_move refresh_inv_wait refresh_inv_register refresh_inv_unregister refresh_inv_close)

lemma refresh_inv_trans: "refresh_trans s s' \<Longrightarrow> refresh_inv s \<Longrightarrow> refresh_inv s'"
  by (induction rule: refresh_trans.induct) (auto intro: refresh_inv_step refresh_inv_move)

lemma refresh_inv_reach: "refresh_reach db s \<Longrightarrow> refresh_inv s"
  by (induction rule: rtranclp_induct) (auto intro: refresh_inv_init refresh_inv_trans)

text \<open>
  C28. However calls of \<open>GetAccessToken\<close> and \<open>ForceRefresh\<close> interleave, are cancelled or meet other operations, at most one of
  them is refreshing the tokens of a server: the refresh token is never sent twice at once.
\<close>

theorem one_refresh_per_server:
  assumes "refresh_reach db s" "refreshing_pc (rs_pc s g) = Some (sid, n)" "refreshing_pc (rs_pc s h) = Some (sid, m)"
  shows "g = h"
proof -
  have inv: "refresh_inv s" by (rule refresh_inv_reach [OF assms(1)])
  have "n = m" using refresh_invD(1) [OF inv assms(2)] refresh_invD(1) [OF inv assms(3)] by simp
  with assms show ?thesis by (intro refresh_invD(3) [OF inv, of g n h]) (auto intro: owes_refreshing)
qed

section \<open>Every call returns\<close>

text \<open>Calls are stepped, with no new ones, no cancellations and nothing else.\<close>

definition calls_step :: "refresh_state \<Rightarrow> refresh_state \<Rightarrow> bool" where
  "calls_step s s' \<longleftrightarrow> (\<exists>env g. call_step env g s = Some s')"

fun call_ended :: "call_pc \<Rightarrow> bool" where
  "call_ended CallIdle = True"
| "call_ended (CallDone r) = True"
| "call_ended CallPanic = True"
| "call_ended _ = False"

fun call_rank :: "call_pc \<Rightarrow> nat" where
  "call_rank (CallStart k sid) = 13"
| "call_rank (CallLoad sid) = 12"
| "call_rank (CallStore sid ts) = 11"
| "call_rank (CallCheck sid ts) = 10"
| "call_rank (CallRefresh k sid) = 9"
| "call_rank (CallBegin k sid n ts) = 8"
| "call_rank (CallRequest k sid n ts cfg) = 7"
| "call_rank (CallSave k sid n ts cfg res) = 6"
| "call_rank (CallCache k sid n c err) = 5"
| "call_rank (CallUnregister k sid n err) = 4"
| "call_rank (CallClose k sid n err) = 3"
| "call_rank (CallWait k sid n) = 3"
| "call_rank (CallReread sid) = 2"
| "call_rank (CallDone r) = 1"
| "call_rank CallPanic = 1"
| "call_rank CallIdle = 0"

lemma call_rank_refreshed [simp]: "call_rank (refreshed k sid err) < 3" "refreshed k sid err \<noteq> CallIdle"
  by (simp_all add: refreshed_def split: option.split)

lemma call_rank_bound: "call_rank pc \<le> 13"
  by (cases pc) auto

text \<open>A step moves one call, down in rank.\<close>

lemma call_step_rank:
  "call_step env g s = Some s' \<Longrightarrow> \<exists>pc. rs_pc s' = (rs_pc s)(g := pc) \<and> call_rank pc < call_rank (rs_pc s g) \<and> rs_pc s g \<noteq> CallIdle \<and> pc \<noteq> CallIdle"
  by (cases "rs_pc s g") (auto simp: call_step_def refresh_step_def goto_def less_trans [OF call_rank_refreshed(1)] split: option.splits sum.splits prod.splits if_splits)

abbreviation active_calls :: "refresh_state \<Rightarrow> nat set" where
  "active_calls s \<equiv> {g. rs_pc s g \<noteq> CallIdle}"

lemma active_finite_trans: "refresh_trans s s' \<Longrightarrow> finite (active_calls s) \<Longrightarrow> finite (active_calls s')"
proof (induction rule: refresh_trans.induct)
  case (trans_step env g s s')
  from call_step_rank [OF trans_step(1)] have "active_calls s' \<subseteq> insert g (active_calls s)" by auto
  with trans_step(2) show ?case by (meson finite_insert finite_subset)
next
  case (trans_call s g k sid)
  have "active_calls (goto g (CallStart k sid) s) \<subseteq> insert g (active_calls s)" by auto
  with trans_call(2) show ?case by (meson finite_insert finite_subset)
next
  case (trans_cancel s g k sid n e)
  have "active_calls (goto g (refreshed k sid (Some e)) s) \<subseteq> insert g (active_calls s)" by auto
  with trans_cancel(2) show ?case by (meson finite_insert finite_subset)
qed simp

lemma active_finite: "refresh_reach db s \<Longrightarrow> finite (active_calls s)"
  by (induction rule: rtranclp_induct) (auto simp: refresh_init_def intro: active_finite_trans)

definition total_rank :: "refresh_state \<Rightarrow> nat" where
  "total_rank s = (\<Sum>g \<in> active_calls s. call_rank (rs_pc s g))"

lemma calls_step_rank:
  assumes "calls_step s s'" "finite (active_calls s)"
  shows "active_calls s' = active_calls s \<and> total_rank s' < total_rank s"
proof -
  from assms(1) obtain g pc where pc: "rs_pc s' = (rs_pc s)(g := pc)" "call_rank pc < call_rank (rs_pc s g)" "rs_pc s g \<noteq> CallIdle" "pc \<noteq> CallIdle"
    unfolding calls_step_def by (blast dest: call_step_rank)
  then have same: "active_calls s' = active_calls s" by auto
  have "total_rank s' < total_rank s" unfolding total_rank_def same
    by (rule sum_strict_mono_ex1) (use assms(2) pc in \<open>auto intro: less_imp_le\<close>)
  with same show ?thesis by blast
qed

lemma calls_steps_rank: "(calls_step ^^ n) s s' \<Longrightarrow> finite (active_calls s) \<Longrightarrow> active_calls s' = active_calls s \<and> n + total_rank s' \<le> total_rank s"
proof (induction n arbitrary: s')
  case (Suc n)
  then obtain s1 where s1: "(calls_step ^^ n) s s1" "calls_step s1 s'" by auto
  with Suc.IH [OF s1(1)] Suc.prems(2) calls_step_rank [OF s1(2)] show ?case by auto
qed simp

lemma total_rank_bound: "finite (active_calls s) \<Longrightarrow> total_rank s \<le> 13 * card (active_calls s)"
  unfolding total_rank_def using sum_bounded_above [of "active_calls s" "\<lambda>g. call_rank (rs_pc s g)" 13] call_rank_bound by (simp add: mult.commute)

lemma owing_steps: "owes (rs_pc s g) = Some n \<Longrightarrow> \<exists>s'. call_step env g s = Some s'"
  by (cases "rs_pc s g") (auto simp: call_step_def refresh_step_def split: option.splits sum.splits prod.splits)

lemma call_step_progress: "\<not> call_ended (rs_pc s g) \<Longrightarrow> waits_for (rs_pc s g) = None \<Longrightarrow> \<exists>s'. call_step env g s = Some s'"
  by (cases "rs_pc s g") (auto simp: call_step_def refresh_step_def split: option.splits sum.splits prod.splits)

lemma waiting_step: "waits_for (rs_pc s g) = Some n \<Longrightarrow> rs_results s n \<noteq> None \<Longrightarrow> \<exists>s'. call_step env g s = Some s'"
  by (cases "rs_pc s g") (auto simp: call_step_def refresh_step_def)

lemma calls_step_reach: "(calls_step ^^ n) s s' \<Longrightarrow> refresh_reach db s \<Longrightarrow> refresh_reach db s'"
proof (induction n arbitrary: s')
  case (Suc n)
  then obtain s1 where "refresh_reach db s1" "calls_step s1 s'" by auto
  then show ?case by (auto simp: calls_step_def intro: trans_step rtranclp.rtrancl_into_rtrancl)
qed simp

lemma stuck_ended:
  assumes inv: "refresh_inv s" and stuck: "\<not> (\<exists>s'. calls_step s s')"
  shows "call_ended (rs_pc s g)"
proof (rule ccontr)
  assume open_call: "\<not> call_ended (rs_pc s g)"
  have none: "\<not> (\<exists>s'. call_step env h s = Some s')" for env h using stuck by (auto simp: calls_step_def)
  with open_call call_step_progress [of s g] obtain n where w: "waits_for (rs_pc s g) = Some n" by fastforce
  with waiting_step [OF w] none have "rs_results s n = None" by blast
  with refresh_invD(5) [OF inv w] obtain h where "owes (rs_pc s h) = Some n" by blast
  with owing_steps none show False by blast
qed

text \<open>
  C29. Calls for tokens do not hang on each other: from every reachable state the calls can take at most thirteen steps each, in
  whatever order and whatever the database and the provider answer, and when none can take another, each of them has ended.
  In particular every waiter is woken. (A request to the provider is one step: it ends with the reply or with the context of its caller.)
\<close>

theorem token_calls_terminate:
  assumes reach: "refresh_reach db s" and run: "(calls_step ^^ n) s s'"
  shows "n \<le> 13 * card (active_calls s) \<and> ((\<exists>s''. calls_step s' s'') \<or> (\<forall>g. call_ended (rs_pc s' g)))"
proof
  have "n + total_rank s' \<le> total_rank s" using calls_steps_rank [OF run active_finite [OF reach]] by simp
  with total_rank_bound [OF active_finite [OF reach]] show "n \<le> 13 * card (active_calls s)" by simp
  show "(\<exists>s''. calls_step s' s'') \<or> (\<forall>g. call_ended (rs_pc s' g))"
    using stuck_ended [OF refresh_inv_reach [OF calls_step_reach [OF run reach]]] by blast
qed

section \<open>A stale load\<close>

lemma calls_stepI: "call_step env g s = Some s' \<Longrightarrow> calls_step s s'"
  by (auto simp: calls_step_def)

text \<open>A call that refreshes with a rejected refresh token: it clears the stored tokens.\<close>

lemma rejected_refresh_run:
  assumes pc: "rs_pc s g = CallStore sid old" and free: "rs_inflight s sid = None" and expired: "IsExpired (oc_now env) old" and tok: "ts_RefreshToken old \<noteq> []"
    and cfg: "server_config env sid (rs_db s) = Inr cfg" and rejected: "tokenRequest env (ra_TokenURL (rc_Auth cfg)) (refresh_form old (rc_Auth cfg)) = Inl e"
    "str_contains e ''invalid_grant''" "\<not> str_contains e ''returned 404''"
    and cleared: "update_auth env (after_stmts 2 (oc_io env)) sid (without_tokens cfg) (rs_db s) = (db', r)"
  shows "\<exists>s'. calls_step\<^sup>*\<^sup>* s s' \<and> rs_tokens s' sid = None \<and> rs_db s' = db' \<and> (\<forall>h. h \<noteq> g \<longrightarrow> rs_pc s' h = rs_pc s h)"
proof -
  let ?n = "rs_next s"
  let ?s1 = "goto g (CallCheck sid old) (s\<lparr>rs_tokens := (rs_tokens s)(sid \<mapsto> old)\<rparr>)"
  let ?s2 = "goto g (CallRefresh True sid) ?s1"
  let ?s3 = "goto g (CallBegin True sid ?n (Some old)) (?s2\<lparr>rs_inflight := (rs_inflight s)(sid \<mapsto> ?n), rs_next := Suc ?n\<rparr>)"
  let ?s4 = "goto g (CallRequest True sid ?n old cfg) ?s3"
  let ?s5 = "goto g (CallSave True sid ?n old cfg (Inl e)) (?s4\<lparr>rs_db := rs_db s\<rparr>)"
  let ?s6 = "goto g (CallCache True sid ?n CacheDropped (Some (''token refresh failed: '' @ e))) (?s5\<lparr>rs_db := db'\<rparr>)"
  let ?s7 = "goto g (CallUnregister True sid ?n (Some (''token refresh failed: '' @ e))) (?s6\<lparr>rs_tokens := (rs_tokens ?s6)(sid := None)\<rparr>)"
  have "calls_step\<^sup>*\<^sup>* s ?s1" by (rule r_into_rtranclp, rule calls_stepI [of env g]) (simp add: call_step_def refresh_step_def pc)
  also have "calls_step ?s1 ?s2" by (rule calls_stepI [of env g]) (simp add: call_step_def refresh_step_def expired)
  also have "calls_step ?s2 ?s3" by (rule calls_stepI [of env g]) (simp add: call_step_def refresh_step_def free)
  also have "calls_step ?s3 ?s4" by (rule calls_stepI [of env g]) (simp add: call_step_def refresh_step_def refresh_begin_def tok cfg)
  also have "calls_step ?s4 ?s5" by (rule calls_stepI [of env g]) (simp add: call_step_def refresh_step_def refresh_call_def rejected Let_def)
  also have "calls_step ?s5 ?s6" by (rule calls_stepI [of env g]) (simp add: call_step_def refresh_step_def refresh_store_def rejected cleared)
  also have "calls_step ?s6 ?s7" by (rule calls_stepI [of env g]) (simp add: call_step_def refresh_step_def apply_cache_def)
  finally have "calls_step\<^sup>*\<^sup>* s ?s7" .
  then show ?thesis by (intro exI [of _ ?s7]) simp
qed

lemma stored_not_reread: "CallStore sid ts \<noteq> CallReread sid'"
  by simp

text \<open>
  C38. Two requests that start with an empty cache can lose good tokens. When one call has loaded the expired tokens from the database
  but not yet put them into the cache, and another has meanwhile refreshed them and is about to read the result, the first one can
  put the old tokens back over the new ones and refresh with a refresh token the provider has already exchanged; the rejection
  clears the tokens in the database, so that no later call finds any, and the second call reads a missing entry and panics.
\<close>

theorem stale_load_loses_tokens:
  assumes pcs: "rs_pc s g = CallStore sid old" "rs_pc s h = CallReread sid" and free: "rs_inflight s sid = None"
    and expired: "IsExpired (oc_now env) old" "ts_RefreshToken old \<noteq> []"
    and cfg: "server_config env sid (rs_db s) = Inr cfg" and rejected: "tokenRequest env (ra_TokenURL (rc_Auth cfg)) (refresh_form old (rc_Auth cfg)) = Inl e"
    "str_contains e ''invalid_grant''" "\<not> str_contains e ''returned 404''"
    and cleared: "update_auth env (after_stmts 2 (oc_io env)) sid (without_tokens cfg) (rs_db s) = (db', Inr ())"
    and row: "sql_row (\<lambda>x. sv_ID x = sid) (db_servers (rs_db s)) = Some srv" and enc: "gcm_opens_own (oc_enc env)" "oc_io env 0" and clean: "clean_config (without_tokens cfg)"
  shows "\<exists>s'. calls_step\<^sup>*\<^sup>* s s' \<and> rs_pc s' h = CallPanic \<and> GetTokenInfo env sid (NewOAuthManager\<lparr>om_tokens := rs_tokens s'\<rparr>, rs_db s') =
    ((NewOAuthManager\<lparr>om_tokens := rs_tokens s'\<rparr>, rs_db s'), None)"
proof -
  obtain s1 where s1: "calls_step\<^sup>*\<^sup>* s s1" "rs_tokens s1 sid = None" "rs_db s1 = db'" "rs_pc s1 h = CallReread sid"
    using rejected_refresh_run [OF pcs(1) free expired cfg rejected cleared] pcs by (metis stored_not_reread)
  have "calls_step s1 (goto h CallPanic s1)" by (rule calls_stepI [of env h]) (simp add: call_step_def refresh_step_def s1)
  with s1(1) have run: "calls_step\<^sup>*\<^sup>* s (goto h CallPanic s1)" by simp
  obtain v where "ServerStore_Get (oc_enc env) (oc_io env) sid db' = Inr (Some v)" "decode_remote (sv_Config v) = Some (without_tokens cfg)"
    using update_then_config [OF cleared row enc(1) clean refl enc(2)] by blast
  then have "loadTokens env sid db' = Inr None" by (simp add: loadTokens_def config_tokens_def without_tokens_def)
  with run s1 show ?thesis by (intro exI [of _ "goto h CallPanic s1"]) (simp add: GetTokenInfo_def)
qed

section \<open>Examples\<close>

text \<open>Tokens that expired at the epoch, a provider that rotates the refresh token, and the same provider later, which rejects the old one.\<close>

definition stale_token :: TokenSet where
  "stale_token = \<lparr>ts_AccessToken = ''a'', ts_RefreshToken = ''r'', ts_TokenType = [], ts_ExpiresAt = Some 0\<rparr>"

definition stale_cfg :: RemoteConfig where
  "stale_cfg = with_tokens (demo_oc 0) stale_token demo_remote_cfg"

definition stale_db :: relay_db where
  "stale_db = empty_db\<lparr>db_servers := [demo_server\<lparr>sv_Config := encode_remote stale_cfg\<rparr>]\<rparr>"

definition rotating_oc :: oc_env where
  "rotating_oc = (demo_oc 0)\<lparr>oc_post := (\<lambda>_ _. Inr (200, jtext ''{~access_token~:~x~,~refresh_token~:~q~}''))\<rparr>"

definition rejecting_oc :: oc_env where
  "rejecting_oc = (demo_oc 0)\<lparr>oc_post := (\<lambda>_ _. Inr (400, jtext ''{~error~:~invalid_grant~}''))\<rparr>"

definition rotated_token :: TokenSet where
  "rotated_token = \<lparr>ts_AccessToken = ''x'', ts_RefreshToken = ''q'', ts_TokenType = [], ts_ExpiresAt = None\<rparr>"

lemma rotating_reply: "tokenRequest rotating_oc url data = Inr rotated_token"
proof -
  let ?kvs = "[(''access_token'', marshal_str ''x''), (''refresh_token'', marshal_str ''q'')]"
  have "decode_members (jtext ''{~access_token~:~x~,~refresh_token~:~q~}'') = Some ?kvs" by code_simp
  moreover have "str_field [] (field_values ''access_token'' ?kvs) = (''x'', True)" "str_field [] (field_values ''refresh_token'' ?kvs) = (''q'', True)"
    "field_values ''token_type'' ?kvs = []" "field_values ''expires_in'' ?kvs = []" by code_simp+
  ultimately show ?thesis by (simp add: tokenRequest_def rotating_oc_def decode_token_reply_def rotated_token_def)
qed

lemma rejecting_reply: "tokenRequest rejecting_oc url data = Inl ''token endpoint returned 400: invalid_grant: ''"
proof -
  have "token_error 400 (jtext ''{~error~:~invalid_grant~}'') = ''token endpoint returned 400: invalid_grant: ''" by code_simp
  then show ?thesis by (simp add: tokenRequest_def rejecting_oc_def)
qed

lemma stale_clean: "clean_config stale_cfg" "clean_config (without_tokens stale_cfg)" "clean_config (with_tokens env rotated_token stale_cfg)"
  by (simp_all add: clean_config_def auth_texts_def demo_remote_cfg_def stale_cfg_def with_tokens_def without_tokens_def stale_token_def rotated_token_def demo_oc_def
      unary_time_def ord_def)

lemma stale_config: "ServerStore_Get None no_faults ''s1'' stale_db = Inr (Some (demo_server\<lparr>sv_Config := encode_remote stale_cfg\<rparr>))"
proof -
  have "\<not> has_prefix (encode_remote stale_cfg) encryptedPrefix" by (simp add: encode_remote_def encryptedPrefix_def has_prefix_def)
  then show ?thesis by (simp add: ServerStore_Get_def find_server_def open_config_def Decrypt_def stale_db_def demo_server_def)
qed

lemma demo_envs [simp]: "oc_enc (demo_oc t) = None" "oc_io (demo_oc t) = no_faults" "oc_enc rotating_oc = None" "oc_io rotating_oc = no_faults"
  "oc_enc rejecting_oc = None" "oc_io rejecting_oc = no_faults" "oc_now rejecting_oc = 0" "oc_now rotating_oc = 0"
  by (simp_all add: demo_oc_def rotating_oc_def rejecting_oc_def)

lemma stale_load: "loadTokens rotating_oc ''s1'' stale_db = Inr (Some stale_token)" "server_config rotating_oc ''s1'' stale_db = Inr stale_cfg"
  by (simp_all add: loadTokens_def server_config_def stale_config decode_encode_remote [OF stale_clean(1)])
    (simp add: config_tokens_def stale_cfg_def with_tokens_def stale_token_def demo_remote_cfg_def demo_oc_def unary_time_def rotating_oc_def)

text \<open>States with two calls, on a database with one server.\<close>

definition two_calls :: "(string \<Rightarrow> TokenSet option) \<Rightarrow> relay_db \<Rightarrow> (string \<Rightarrow> nat option) \<Rightarrow> (nat \<Rightarrow> string option option) \<Rightarrow> nat \<Rightarrow> call_pc \<Rightarrow> call_pc \<Rightarrow> refresh_state" where
  "two_calls t db i r n p q = \<lparr>rs_tokens = t, rs_db = db, rs_inflight = i, rs_results = r, rs_next = n, rs_pc = (\<lambda>_. CallIdle)(0 := p, 1 := q)\<rparr>"

lemma two_calls_sels [simp]: "rs_tokens (two_calls t db i r n p q) = t" "rs_db (two_calls t db i r n p q) = db" "rs_inflight (two_calls t db i r n p q) = i"
  "rs_results (two_calls t db i r n p q) = r" "rs_next (two_calls t db i r n p q) = n"
  "rs_pc (two_calls t db i r n p q) g = (if g = 1 then q else if g = 0 then p else CallIdle)"
  by (simp_all add: two_calls_def)

lemma two_calls_upds [simp]: "(two_calls t db i r n p q)\<lparr>rs_tokens := t'\<rparr> = two_calls t' db i r n p q" "(two_calls t db i r n p q)\<lparr>rs_db := db'\<rparr> = two_calls t db' i r n p q"
  "(two_calls t db i r n p q)\<lparr>rs_inflight := i'\<rparr> = two_calls t db i' r n p q" "(two_calls t db i r n p q)\<lparr>rs_results := r'\<rparr> = two_calls t db i r' n p q"
  "(two_calls t db i r n p q)\<lparr>rs_next := n'\<rparr> = two_calls t db i r n' p q"
  "goto 0 p' (two_calls t db i r n p q) = two_calls t db i r n p' q" "goto (Suc 0) q' (two_calls t db i r n p q) = two_calls t db i r n p q'"
  by (simp_all add: two_calls_def goto_def fun_upd_twist)

lemma two_calls_start: "refresh_reach db (two_calls Map.empty db Map.empty Map.empty 0 (CallStart k sid) (CallStart l sid'))"
proof -
  have init: "refresh_init db = two_calls Map.empty db Map.empty Map.empty 0 CallIdle CallIdle" by (simp add: refresh_init_def two_calls_def fun_upd_idem)
  have "refresh_trans (refresh_init db) (two_calls Map.empty db Map.empty Map.empty 0 (CallStart k sid) CallIdle)"
    using trans_call [of "refresh_init db" 0 k sid] by (simp add: init)
  moreover have "refresh_trans (two_calls Map.empty db Map.empty Map.empty 0 (CallStart k sid) CallIdle)
      (two_calls Map.empty db Map.empty Map.empty 0 (CallStart k sid) (CallStart l sid'))"
    using trans_call [of "two_calls Map.empty db Map.empty Map.empty 0 (CallStart k sid) CallIdle" 1 l sid'] by simp
  ultimately show ?thesis by (meson converse_rtranclp_into_rtranclp r_into_rtranclp)
qed

lemma two_calls_step: "refresh_reach db s \<Longrightarrow> call_step env g s = Some s' \<Longrightarrow> refresh_reach db s'"
  by (auto intro: trans_step rtranclp.rtrancl_into_rtrancl)

theorem one_refresh_per_server_witness:
  "\<exists>s. refresh_reach stale_db s \<and> refreshing_pc (rs_pc s 0) = Some (''s1'', 0) \<and> rs_pc s 1 = CallWait False ''s1'' 0 \<and> {h. \<exists>m. refreshing_pc (rs_pc s h) = Some (''s1'', m)} = {0}"
proof -
  let ?i = "[''s1'' \<mapsto> 0]"
  let ?s = "two_calls Map.empty stale_db ?i Map.empty 1 (CallBegin False ''s1'' 0 None) (CallWait False ''s1'' 0)"
  have "refresh_reach stale_db (two_calls Map.empty stale_db Map.empty Map.empty 0 (CallStart False ''s1'') (CallStart False ''s1''))" by (rule two_calls_start)
  then have "refresh_reach stale_db (two_calls Map.empty stale_db Map.empty Map.empty 0 (CallRefresh False ''s1'') (CallStart False ''s1''))"
    by (rule two_calls_step [of _ _ rotating_oc 0]) (simp add: call_step_def refresh_step_def)
  then have "refresh_reach stale_db (two_calls Map.empty stale_db ?i Map.empty 1 (CallBegin False ''s1'' 0 None) (CallStart False ''s1''))"
    by (rule two_calls_step [of _ _ rotating_oc 0]) (simp add: call_step_def refresh_step_def)
  then have "refresh_reach stale_db (two_calls Map.empty stale_db ?i Map.empty 1 (CallBegin False ''s1'' 0 None) (CallRefresh False ''s1''))"
    by (rule two_calls_step [of _ _ rotating_oc 1]) (simp add: call_step_def refresh_step_def)
  then have reach: "refresh_reach stale_db ?s" by (rule two_calls_step [of _ _ rotating_oc 1]) (simp add: call_step_def refresh_step_def)
  have first: "refreshing_pc (rs_pc ?s 0) = Some (''s1'', 0)" by simp
  have "h = 0" if "refreshing_pc (rs_pc ?s h) = Some (''s1'', m)" for h m by (rule one_refresh_per_server [OF reach that first])
  with first have "{h. \<exists>m. refreshing_pc (rs_pc ?s h) = Some (''s1'', m)} = {0}" by blast
  with reach show ?thesis by (intro exI [of _ ?s]) simp
qed

theorem token_calls_terminate_witness:
  "\<exists>s s'. refresh_reach stale_db s \<and> (calls_step ^^ 1) s s' \<and> (1 :: nat) \<le> 13 * card (active_calls s) \<and> ((\<exists>s''. calls_step s' s'') \<or> (\<forall>g. call_ended (rs_pc s' g)))"
proof -
  let ?s = "two_calls Map.empty stale_db Map.empty Map.empty 0 (CallStart True ''s1'') (CallStart False ''s1'')"
  let ?s' = "two_calls Map.empty stale_db Map.empty Map.empty 0 (CallLoad ''s1'') (CallStart False ''s1'')"
  have reach: "refresh_reach stale_db ?s" by (rule two_calls_start)
  have run: "(calls_step ^^ 1) ?s ?s'" using calls_stepI [of rotating_oc 0 ?s ?s'] by (auto simp: call_step_def refresh_step_def)
  from reach run token_calls_terminate [OF reach run] show ?thesis by blast
qed

definition one_server_db :: "string \<Rightarrow> time \<Rightarrow> relay_db" where
  "one_server_db c u = empty_db\<lparr>db_servers := [demo_server\<lparr>sv_Config := c, sv_UpdatedAt := u\<rparr>]\<rparr>"

lemma stale_one: "stale_db = one_server_db (encode_remote stale_cfg) (sv_UpdatedAt demo_server)"
  by (simp add: stale_db_def one_server_db_def)

lemma one_server_update: "oc_enc env = None \<Longrightarrow> io 0 \<Longrightarrow> update_auth env io ''s1'' cfg (one_server_db c u) = (one_server_db (encode_remote cfg) (oc_now env), Inr ())"
  by (simp add: update_auth_def ServerStore_UpdateConfig_def Encrypt_def exec_def update_server_def one_server_db_def demo_server_def sql_has_def sql_update_def server_row_ok_def valid_defs)

lemma one_server_config:
  assumes "clean_config cfg" "oc_enc env = None" "oc_io env = no_faults"
  shows "server_config env ''s1'' (one_server_db (encode_remote cfg) u) = Inr cfg"
proof -
  have "\<not> has_prefix (encode_remote cfg) encryptedPrefix" by (simp add: encode_remote_def encryptedPrefix_def has_prefix_def)
  then show ?thesis using assms
    by (simp add: server_config_def ServerStore_Get_def find_server_def open_config_def Decrypt_def one_server_db_def demo_server_def decode_encode_remote)
qed

definition rotated_cfg :: RemoteConfig where
  "rotated_cfg = with_tokens rotating_oc rotated_token stale_cfg"

definition rotated_db :: relay_db where
  "rotated_db = one_server_db (encode_remote rotated_cfg) 0"

text \<open>The first call has loaded the stale tokens; the second refreshes them.\<close>

lemma stale_second_begins:
  "refresh_reach stale_db (two_calls [''s1'' \<mapsto> stale_token] stale_db [''s1'' \<mapsto> 0] Map.empty 1 (CallStore ''s1'' stale_token) (CallBegin True ''s1'' 0 (Some stale_token)))"
proof -
  let ?p = "CallStore ''s1'' stale_token"
  let ?t = "[''s1'' \<mapsto> stale_token]"
  have "refresh_reach stale_db (two_calls Map.empty stale_db Map.empty Map.empty 0 (CallStart True ''s1'') (CallStart True ''s1''))" by (rule two_calls_start)
  then have "refresh_reach stale_db (two_calls Map.empty stale_db Map.empty Map.empty 0 (CallLoad ''s1'') (CallStart True ''s1''))"
    by (rule two_calls_step [of _ _ rotating_oc 0]) (simp add: call_step_def refresh_step_def)
  then have "refresh_reach stale_db (two_calls Map.empty stale_db Map.empty Map.empty 0 ?p (CallStart True ''s1''))"
    by (rule two_calls_step [of _ _ rotating_oc 0]) (simp add: call_step_def refresh_step_def stale_load)
  then have "refresh_reach stale_db (two_calls Map.empty stale_db Map.empty Map.empty 0 ?p (CallLoad ''s1''))"
    by (rule two_calls_step [of _ _ rotating_oc 1]) (simp add: call_step_def refresh_step_def)
  then have "refresh_reach stale_db (two_calls Map.empty stale_db Map.empty Map.empty 0 ?p ?p)"
    by (rule two_calls_step [of _ _ rotating_oc 1]) (simp add: call_step_def refresh_step_def stale_load)
  then have "refresh_reach stale_db (two_calls ?t stale_db Map.empty Map.empty 0 ?p (CallCheck ''s1'' stale_token))"
    by (rule two_calls_step [of _ _ rotating_oc 1]) (simp add: call_step_def refresh_step_def)
  then have "refresh_reach stale_db (two_calls ?t stale_db Map.empty Map.empty 0 ?p (CallRefresh True ''s1''))"
    by (rule two_calls_step [of _ _ rotating_oc 1]) (simp add: call_step_def refresh_step_def IsExpired_def stale_token_def duration_defs)
  then show ?thesis by (rule two_calls_step [of _ _ rotating_oc 1]) (simp add: call_step_def refresh_step_def)
qed

lemma stale_second_rereads:
  "refresh_reach stale_db (two_calls [''s1'' \<mapsto> rotated_token] rotated_db Map.empty [0 \<mapsto> None] 1 (CallStore ''s1'' stale_token) (CallReread ''s1''))"
proof -
  let ?p = "CallStore ''s1'' stale_token"
  let ?t = "[''s1'' \<mapsto> stale_token]"
  let ?i = "[''s1'' \<mapsto> 0]"
  have tok: "ts_RefreshToken stale_token \<noteq> []" "ts_RefreshToken rotated_token \<noteq> []" by (simp_all add: stale_token_def rotated_token_def)
  have saved: "saveTokens rotating_oc (after_stmts 2 no_faults) ''s1'' stale_cfg rotated_token stale_db = (rotated_db, Inr ())"
    by (simp add: saveTokens_def stale_one one_server_update rotated_db_def rotated_cfg_def)
  have "refresh_reach stale_db (two_calls ?t stale_db ?i Map.empty 1 ?p (CallRequest True ''s1'' 0 stale_token stale_cfg))"
    by (rule two_calls_step [OF stale_second_begins, of rotating_oc 1]) (simp add: call_step_def refresh_step_def refresh_begin_def tok stale_load)
  then have "refresh_reach stale_db (two_calls ?t stale_db ?i Map.empty 1 ?p (CallSave True ''s1'' 0 stale_token stale_cfg (Inr rotated_token)))"
    by (rule two_calls_step [of _ _ rotating_oc 1]) (simp add: call_step_def refresh_step_def refresh_call_def rotating_reply)
  then have "refresh_reach stale_db (two_calls ?t rotated_db ?i Map.empty 1 ?p (CallCache True ''s1'' 0 (CachePut rotated_token) None))"
    by (rule two_calls_step [of _ _ rotating_oc 1]) (simp add: call_step_def refresh_step_def refresh_store_def tok saved)
  then have "refresh_reach stale_db (two_calls [''s1'' \<mapsto> rotated_token] rotated_db ?i Map.empty 1 ?p (CallUnregister True ''s1'' 0 None))"
    by (rule two_calls_step [of _ _ rotating_oc 1]) (simp add: call_step_def refresh_step_def apply_cache_def)
  then have "refresh_reach stale_db (two_calls [''s1'' \<mapsto> rotated_token] rotated_db Map.empty Map.empty 1 ?p (CallClose True ''s1'' 0 None))"
    by (rule two_calls_step [of _ _ rotating_oc 1]) (simp add: call_step_def refresh_step_def)
  then show ?thesis by (rule two_calls_step [of _ _ rotating_oc 1]) (simp add: call_step_def refresh_step_def refreshed_def)
qed

theorem stale_load_loses_tokens_witness:
  "\<exists>s s'. refresh_reach stale_db s \<and> rs_tokens s ''s1'' = Some rotated_token \<and> rs_db s = rotated_db \<and> calls_step\<^sup>*\<^sup>* s s' \<and> rs_pc s' 1 = CallPanic \<and>
     snd (GetTokenInfo rejecting_oc ''s1'' (NewOAuthManager\<lparr>om_tokens := rs_tokens s'\<rparr>, rs_db s')) = None"
proof -
  let ?s = "two_calls [''s1'' \<mapsto> rotated_token] rotated_db Map.empty [0 \<mapsto> None] 1 (CallStore ''s1'' stale_token) (CallReread ''s1'')"
  let ?e = "''token endpoint returned 400: invalid_grant: ''"
  have pcs: "rs_pc ?s 0 = CallStore ''s1'' stale_token" "rs_pc ?s 1 = CallReread ''s1''" "rs_inflight ?s ''s1'' = None" by simp_all
  have clean: "clean_config rotated_cfg" "clean_config (without_tokens rotated_cfg)" using stale_clean
    by (simp_all add: rotated_cfg_def clean_config_def auth_texts_def with_tokens_def without_tokens_def)
  have cfg: "server_config rejecting_oc ''s1'' (rs_db ?s) = Inr rotated_cfg" by (simp add: rotated_db_def one_server_config clean)
  have texts: "str_contains ?e ''invalid_grant''" "\<not> str_contains ?e ''returned 404''" by code_simp+
  have up: "update_auth rejecting_oc (after_stmts 2 (oc_io rejecting_oc)) ''s1'' (without_tokens rotated_cfg) (rs_db ?s) = (one_server_db (encode_remote (without_tokens rotated_cfg)) 0, Inr ())"
    by (simp add: rotated_db_def one_server_update)
  have row: "sql_row (\<lambda>x. sv_ID x = ''s1'') (db_servers (rs_db ?s)) = Some (demo_server\<lparr>sv_Config := encode_remote rotated_cfg, sv_UpdatedAt := 0\<rparr>)"
    by (simp add: rotated_db_def one_server_db_def demo_server_def)
  obtain s' where "calls_step\<^sup>*\<^sup>* ?s s'" "rs_pc s' 1 = CallPanic"
    "GetTokenInfo rejecting_oc ''s1'' (NewOAuthManager\<lparr>om_tokens := rs_tokens s'\<rparr>, rs_db s') = ((NewOAuthManager\<lparr>om_tokens := rs_tokens s'\<rparr>, rs_db s'), None)"
    using stale_load_loses_tokens [OF pcs _ _ cfg rejecting_reply texts up row _ _ clean(2)]
    by (auto simp: IsExpired_def stale_token_def duration_defs gcm_opens_own_def)
  then show ?thesis using stale_second_rereads by (intro exI [of _ ?s] exI [of _ s']) simp
qed

end
