(* ===== verification/Spec2Isabelle.thy ===== *)
theory Spec2Isabelle
  imports Mcp_Proxy Mcp_Classify Archive_Queue Web_Account Web_Form Tool_Optimizer Web_System Server_API Skill_API OAuth_Refresh
begin

text \<open>
  A verification development for Arc Relay.
\<close>

end
